(* ===== verification/Prelude.thy ===== *)
theory Prelude
  imports Main "HOL-Library.Word"
begin

text \<open>
  Generic vocabulary of the development: SQL-like operations on tables held as lists, the
  deduplicated sorted ID lists that both the MySQL and the Redis side use, and the collections
  the component proofs rewrite with.
  The collections: \<open>io_simps\<close> holds the inversion rules of the effect monad,
  \<open>table_simps\<close> the lemmas about tables.
\<close>

named_theorems io_simps "inversion rules for effectful operations"
named_theorems table_simps "rewrite rules for tables kept as lists"

subsection \<open>Tables as lists of rows\<close>

definition exists_row :: "('r \<Rightarrow> bool) \<Rightarrow> 'r list \<Rightarrow> bool" where
  "exists_row p t = list_ex p t"

definition delete_where :: "('r \<Rightarrow> bool) \<Rightarrow> 'r list \<Rightarrow> 'r list" where
  "delete_where p t = filter (\<lambda>r. \<not> p r) t"

definition update_where :: "('r \<Rightarrow> bool) \<Rightarrow> ('r \<Rightarrow> 'r) \<Rightarrow> 'r list \<Rightarrow> 'r list" where
  "update_where p f t = map (\<lambda>r. if p r then f r else r) t"

definition count_where :: "('r \<Rightarrow> bool) \<Rightarrow> 'r list \<Rightarrow> int" where
  "count_where p t = int (length (filter p t))"

text \<open>LIMIT and OFFSET; a negative argument never reaches the database.\<close>

definition page_of :: "int \<Rightarrow> int \<Rightarrow> 'r list \<Rightarrow> 'r list" where
  "page_of limit offset rows = take (nat limit) (drop (nat offset) rows)"

lemma exists_row_iff [table_simps]: "exists_row p t \<longleftrightarrow> (\<exists>r\<in>set t. p r)"
  by (simp add: exists_row_def list_ex_iff)

lemma set_delete_where [table_simps, simp]: "set (delete_where p t) = {r \<in> set t. \<not> p r}"
  by (simp add: delete_where_def)

lemma set_update_where [table_simps]:
  "set (update_where p f t) = (\<lambda>r. if p r then f r else r) ` set t"
  by (simp add: update_where_def)

lemma length_update_where [simp]: "length (update_where p f t) = length t"
  by (simp add: update_where_def)

lemma map_update_where:
  assumes "\<And>r. k (f r) = k r"
  shows "map k (update_where p f t) = map k t"
  using assms by (simp add: update_where_def)

lemma distinct_delete_where: "distinct (map k t) \<Longrightarrow> distinct (map k (delete_where p t))"
  by (simp add: delete_where_def distinct_map_filter)

lemma count_where_append [simp]: "count_where p (s @ t) = count_where p s + count_where p t"
  by (simp add: count_where_def)

lemma count_where_Cons [simp]: "count_where p (r # t) = (if p r then 1 else 0) + count_where p t"
  by (simp add: count_where_def)

lemma count_where_Nil [simp]: "count_where p [] = 0"
  by (simp add: count_where_def)

lemma count_where_nonneg [simp]: "0 \<le> count_where p t"
  by (simp add: count_where_def)

lemma count_where_delete_le: "count_where q (delete_where p t) \<le> count_where q t"
  by (induction t) (auto simp: delete_where_def)

lemma count_where_update:
  assumes "\<And>r. q (f r) = q r"
  shows "count_where q (update_where p f t) = count_where q t"
  using assms by (induction t) (auto simp: update_where_def)

lemma count_where_zero: "count_where p t = 0 \<longleftrightarrow> (\<forall>r\<in>set t. \<not> p r)"
  by (simp add: count_where_def filter_empty_conv)

lemma update_where_id: "(\<And>r. r \<in> set t \<Longrightarrow> p r \<Longrightarrow> f r = r) \<Longrightarrow> update_where p f t = t"
  by (induction t) (auto simp: update_where_def)

lemma delete_where_none: "(\<And>r. r \<in> set t \<Longrightarrow> \<not> p r) \<Longrightarrow> delete_where p t = t"
  by (induction t) (auto simp: delete_where_def)

lemma find_Some_iff2: "find p t = Some r \<Longrightarrow> r \<in> set t \<and> p r"
  by (auto simp: find_Some_iff in_set_conv_nth)

lemma find_None_set: "find p t = None \<longleftrightarrow> (\<forall>r\<in>set t. \<not> p r)"
  by (auto simp: find_None_iff)

lemma find_append: "find p (s @ t) = (case find p s of None \<Rightarrow> find p t | Some r \<Rightarrow> Some r)"
  by (induction s) auto

lemma find_delete_where:
  "(\<And>r. q r \<Longrightarrow> \<not> p r) \<Longrightarrow> find q (delete_where p t) = find q t"
  by (induction t) (auto simp: delete_where_def)

lemma find_delete_same: "(\<And>r. q r \<Longrightarrow> p r) \<Longrightarrow> find q (delete_where p t) = None"
  by (auto simp: find_None_set)

lemma find_update_where:
  assumes "\<And>r. q (f r) = q r"
  shows "find q (update_where p f t) = map_option (\<lambda>r. if p r then f r else r) (find q t)"
  using assms by (induction t) (auto simp: update_where_def)

lemma find_unique_key:
  assumes "distinct (map k t)" "r \<in> set t" "\<And>s. q s \<longleftrightarrow> k s = k r"
  shows "find q t = Some r"
  using assms by (induction t) (auto simp: image_iff)

lemma find_delete_unique:
  assumes "distinct (map k t)"
  shows "find (\<lambda>r. k r = i) (delete_where p t) =
    (case find (\<lambda>r. k r = i) t of None \<Rightarrow> None | Some r \<Rightarrow> if p r then None else Some r)"
  using assms
proof (induction t)
  case (Cons r t)
  show ?case
  proof (cases "k r = i")
    case True
    then have "find (\<lambda>r. k r = i) t = None" using Cons.prems by (auto simp: find_None_set) (metis image_eqI)
    then show ?thesis using Cons True by (auto simp: delete_where_def)
  qed (use Cons in \<open>auto simp: delete_where_def\<close>)
qed (simp add: delete_where_def)

lemma find_unique_in:
  "distinct (map k t) \<Longrightarrow> find (\<lambda>r. k r = i) t = Some r \<longleftrightarrow> r \<in> set t \<and> k r = i"
  using find_unique_key [of k t r] by (auto dest: find_Some_iff2)

lemma list_ex_find: "list_ex p t \<longleftrightarrow> find p t \<noteq> None"
  by (auto simp: find_None_set list_ex_iff)

lemma sort_key_Nil_iff: "sort_key f xs = [] \<longleftrightarrow> xs = []"
  using length_sort [of f xs] by (metis length_0_conv)

subsection \<open>Sorted lists of distinct positive IDs\<close>

text \<open>
  The Go helpers \<open>canonicalIDs\<close> and \<open>sortedUniquePositive\<close> both drop non-positive IDs, collect
  the rest in a map and sort the keys.
\<close>

definition sorted_unique_positive :: "int list \<Rightarrow> int list" where
  "sorted_unique_positive ids = sort (remdups (filter (\<lambda>i. 0 < i) ids))"

lemma set_sorted_unique_positive [simp]:
  "set (sorted_unique_positive ids) = {i \<in> set ids. 0 < i}"
  by (simp add: sorted_unique_positive_def)

lemma sorted_unique_positive_sorted [simp]: "sorted (sorted_unique_positive ids)"
  by (simp add: sorted_unique_positive_def)

lemma sorted_unique_positive_distinct [simp]: "distinct (sorted_unique_positive ids)"
  by (simp add: sorted_unique_positive_def)

lemma sorted_unique_positive_eq_iff:
  "sorted_unique_positive xs = sorted_unique_positive ys
   \<longleftrightarrow> {i \<in> set xs. 0 < i} = {i \<in> set ys. 0 < i}"
proof
  assume "sorted_unique_positive xs = sorted_unique_positive ys"
  then show "{i \<in> set xs. 0 < i} = {i \<in> set ys. 0 < i}"
    by (metis set_sorted_unique_positive)
next
  assume "{i \<in> set xs. 0 < i} = {i \<in> set ys. 0 < i}"
  then show "sorted_unique_positive xs = sorted_unique_positive ys"
    by (metis set_sorted_unique_positive sorted_distinct_set_unique
        sorted_unique_positive_distinct sorted_unique_positive_sorted)
qed

lemma sorted_unique_positive_idem [simp]:
  "sorted_unique_positive (sorted_unique_positive ids) = sorted_unique_positive ids"
  unfolding sorted_unique_positive_eq_iff by auto

lemma length_sorted_unique_positive:
  "length (sorted_unique_positive ids) = card {i \<in> set ids. 0 < i}"
  by (metis distinct_card set_sorted_unique_positive sorted_unique_positive_distinct)

subsection \<open>Sets kept as lists\<close>

text \<open>SADD of a member into a set that is kept as a list without duplicates.\<close>

definition sadd :: "'a \<Rightarrow> 'a list \<Rightarrow> 'a list" where
  "sadd x xs = (if x \<in> set xs then xs else xs @ [x])"

lemma set_sadd [simp]: "set (sadd x xs) = insert x (set xs)"
  by (auto simp: sadd_def)

lemma distinct_sadd [simp]: "distinct xs \<Longrightarrow> distinct (sadd x xs)"
  by (simp add: sadd_def)

lemma set_fold_sadd [simp]: "set (fold sadd ys xs) = set ys \<union> set xs"
  by (induction ys arbitrary: xs) auto

lemma distinct_fold_sadd [simp]: "distinct xs \<Longrightarrow> distinct (fold sadd ys xs)"
  by (induction ys arbitrary: xs) auto

end
