(* ===== verification/AppError.thy ===== *)
theory AppError
  imports Prelude
begin

text \<open>
  \<open>internal/apperror/errors.go\<close>: the business error codes shared by the HTTP and WebSocket
  interfaces, the catalogue that fixes their status and public message, and the conversions.
  Go's \<open>error\<close> interface is a datatype with one constructor per kind of error the program
  builds: the application error, a sentinel compared by identity, a driver error, a plain
  \<open>errors.New\<close>, a \<open>%w\<close> wrapper, a \<open>CacheTruthError\<close>, and \<open>errors.Join\<close>.
\<close>

datatype sentinel =
    ErrConflict | ErrNotFound | ErrIDExhausted | ErrInvalidSegment | ErrGroupDissolved
  | ErrGroupDoesNotExist | ErrCacheWarmTimeout | ContextCanceled | DeadlineExceeded
  | RedisNil | ErrRefreshReused | ErrInvalidRefresh | ErrPublishNacked | ErrMessageReturned | ErrClosed

datatype go_error =
    AppErr int int string "go_error option"
  | Sentinel sentinel
  | DriverErr int
  | PlainErr string
  | WrapErr string go_error
  | CacheTruthErr string string string int go_error
  | JoinErr "go_error list"

subsection \<open>Codes and catalogue\<close>

definition CodeSuccess :: int where "CodeSuccess = 0"
definition CodeInternalFailure :: int where "CodeInternalFailure = 1000"
definition CodeMissingParam :: int where "CodeMissingParam = 1001"
definition CodeInvalidParam :: int where "CodeInvalidParam = 1002"
definition CodeUnauthorized :: int where "CodeUnauthorized = 1003"
definition CodeUsernameTooShort :: int where "CodeUsernameTooShort = 1101"
definition CodePasswordTooShort :: int where "CodePasswordTooShort = 1102"
definition CodeUsernameTaken :: int where "CodeUsernameTaken = 1103"
definition CodeUserNotFound :: int where "CodeUserNotFound = 1104"
definition CodeWrongPassword :: int where "CodeWrongPassword = 1105"
definition CodeInvalidToken :: int where "CodeInvalidToken = 1106"
definition CodeSelfRequest :: int where "CodeSelfRequest = 1201"
definition CodeAlreadyFriends :: int where "CodeAlreadyFriends = 1202"
definition CodeFriendBlocked :: int where "CodeFriendBlocked = 1203"
definition CodeDuplicateRequest :: int where "CodeDuplicateRequest = 1204"
definition CodeRequestNotFound :: int where "CodeRequestNotFound = 1205"
definition CodeNotRequestTarget :: int where "CodeNotRequestTarget = 1206"
definition CodeAlreadyBlocked :: int where "CodeAlreadyBlocked = 1207"
definition CodeNotOwnerOrAdmin :: int where "CodeNotOwnerOrAdmin = 1301"
definition CodeGroupNotFound :: int where "CodeGroupNotFound = 1302"
definition CodeAlreadyMember :: int where "CodeAlreadyMember = 1303"
definition CodeGroupFull :: int where "CodeGroupFull = 1304"
definition CodeCannotRemoveOwner :: int where "CodeCannotRemoveOwner = 1305"
definition CodeCannotLeaveAsOwner :: int where "CodeCannotLeaveAsOwner = 1306"
definition CodeInvalidRole :: int where "CodeInvalidRole = 1307"
definition CodeMemberNotFriend :: int where "CodeMemberNotFriend = 1308"
definition CodeCannotRemovePeer :: int where "CodeCannotRemovePeer = 1309"
definition CodeGroupMemberNotFound :: int where "CodeGroupMemberNotFound = 1310"
definition CodeMsgNotRevocable :: int where "CodeMsgNotRevocable = 1401"
definition CodeMsgRevokeNotOwner :: int where "CodeMsgRevokeNotOwner = 1402"
definition CodeMsgDeleteFailed :: int where "CodeMsgDeleteFailed = 1403"
definition CodeMomentContentEmpty :: int where "CodeMomentContentEmpty = 1501"
definition CodeMomentNotFound :: int where "CodeMomentNotFound = 1502"
definition CodeNotCommentOwner :: int where "CodeNotCommentOwner = 1503"
definition CodeInvalidVisibility :: int where "CodeInvalidVisibility = 1504"
definition CodeCommentNotFound :: int where "CodeCommentNotFound = 1505"
definition CodeNotMomentOwner :: int where "CodeNotMomentOwner = 1506"
definition CodeSettingsNotFound :: int where "CodeSettingsNotFound = 1701"
definition CodeMuteConvExists :: int where "CodeMuteConvExists = 1702"
definition CodeMuteConvNotFound :: int where "CodeMuteConvNotFound = 1703"
definition CodeNotImplemented :: int where "CodeNotImplemented = 1900"
definition CodePrivateNotFriend :: int where "CodePrivateNotFriend = 4001"
definition CodePrivateBlocked :: int where "CodePrivateBlocked = 4002"
definition CodePrivateDuplicate :: int where "CodePrivateDuplicate = 4003"
definition CodeGroupNotMember :: int where "CodeGroupNotMember = 5001"
definition CodeGroupMuted :: int where "CodeGroupMuted = 5002"
definition CodeGroupDuplicate :: int where "CodeGroupDuplicate = 5003"

lemmas app_codes =
  CodeSuccess_def CodeInternalFailure_def CodeMissingParam_def CodeInvalidParam_def
  CodeUnauthorized_def CodeUsernameTooShort_def CodePasswordTooShort_def CodeUsernameTaken_def
  CodeUserNotFound_def CodeWrongPassword_def CodeInvalidToken_def CodeSelfRequest_def
  CodeAlreadyFriends_def CodeFriendBlocked_def CodeDuplicateRequest_def CodeRequestNotFound_def
  CodeNotRequestTarget_def CodeAlreadyBlocked_def CodeNotOwnerOrAdmin_def CodeGroupNotFound_def
  CodeAlreadyMember_def CodeGroupFull_def CodeCannotRemoveOwner_def CodeCannotLeaveAsOwner_def
  CodeInvalidRole_def CodeMemberNotFriend_def CodeCannotRemovePeer_def
  CodeGroupMemberNotFound_def CodeMsgNotRevocable_def CodeMsgRevokeNotOwner_def
  CodeMsgDeleteFailed_def CodeMomentContentEmpty_def CodeMomentNotFound_def
  CodeNotCommentOwner_def CodeInvalidVisibility_def CodeCommentNotFound_def
  CodeNotMomentOwner_def CodeSettingsNotFound_def CodeMuteConvExists_def
  CodeMuteConvNotFound_def CodeNotImplemented_def CodePrivateNotFriend_def
  CodePrivateBlocked_def CodePrivateDuplicate_def CodeGroupNotMember_def CodeGroupMuted_def
  CodeGroupDuplicate_def

definition catalog :: "(int \<times> int \<times> string) list" where
  "catalog = [
    (CodeInternalFailure, 500, ''internal server error''),
    (CodeMissingParam, 400, ''missing parameter''),
    (CodeInvalidParam, 400, ''invalid parameter''),
    (CodeUnauthorized, 401, ''unauthorized''),
    (CodeUsernameTooShort, 400, ''username must contain 3-50 characters''),
    (CodePasswordTooShort, 400, ''password must contain at least 6 characters''),
    (CodeUsernameTaken, 409, ''username already exists''),
    (CodeUserNotFound, 404, ''user not found''),
    (CodeWrongPassword, 401, ''wrong username or password''),
    (CodeInvalidToken, 401, ''invalid or expired token''),
    (CodeSelfRequest, 400, ''cannot add yourself''),
    (CodeAlreadyFriends, 409, ''already friends''),
    (CodeFriendBlocked, 403, ''friend operation is blocked''),
    (CodeDuplicateRequest, 409, ''friend request already exists''),
    (CodeRequestNotFound, 404, ''friend request not found''),
    (CodeNotRequestTarget, 403, ''not the request target''),
    (CodeAlreadyBlocked, 409, ''user already blocked''),
    (CodeNotOwnerOrAdmin, 403, ''group permission denied''),
    (CodeGroupNotFound, 404, ''group not found''),
    (CodeAlreadyMember, 409, ''already a group member''),
    (CodeGroupFull, 409, ''group is full''),
    (CodeCannotRemoveOwner, 403, ''cannot remove group owner''),
    (CodeCannotLeaveAsOwner, 409, ''owner must transfer ownership first''),
    (CodeInvalidRole, 400, ''invalid group role''),
    (CodeMemberNotFriend, 403, ''group member must be a friend''),
    (CodeCannotRemovePeer, 403, ''cannot remove a peer administrator''),
    (CodeGroupMemberNotFound, 404, ''group member not found''),
    (CodeMsgNotRevocable, 409, ''message cannot be revoked''),
    (CodeMsgRevokeNotOwner, 403, ''only the sender can revoke this message''),
    (CodeMsgDeleteFailed, 500, ''message deletion failed''),
    (CodeMomentContentEmpty, 400, ''moment content is empty''),
    (CodeMomentNotFound, 404, ''moment not found''),
    (CodeNotCommentOwner, 403, ''not the comment owner''),
    (CodeInvalidVisibility, 400, ''invalid moment visibility''),
    (CodeCommentNotFound, 404, ''comment not found''),
    (CodeNotMomentOwner, 403, ''not the moment owner''),
    (CodeSettingsNotFound, 404, ''settings not found''),
    (CodeMuteConvExists, 409, ''conversation is already muted''),
    (CodeMuteConvNotFound, 404, ''muted conversation not found''),
    (CodeNotImplemented, 501, ''feature not implemented''),
    (CodePrivateNotFriend, 403, ''private messages require friendship''),
    (CodePrivateBlocked, 403, ''private message blocked''),
    (CodePrivateDuplicate, 409, ''duplicate private message''),
    (CodeGroupNotMember, 403, ''not a group member''),
    (CodeGroupMuted, 403, ''group member is muted''),
    (CodeGroupDuplicate, 409, ''duplicate group message'')]"

definition definition_for :: "int \<Rightarrow> (int \<times> string) option" where
  "definition_for code = map_of catalog code"

definition catalog_size :: int where
  "catalog_size = int (length catalog)"

subsection \<open>Constructors and inspection\<close>

definition wrap_code :: "int \<Rightarrow> go_error option \<Rightarrow> go_error" where
  "wrap_code code cause =
     (case definition_for code of
        Some (status, msg) \<Rightarrow> AppErr code status msg cause
      | None \<Rightarrow> (case definition_for CodeInternalFailure of
                   Some (status, msg) \<Rightarrow> AppErr CodeInternalFailure status msg cause
                 | None \<Rightarrow> AppErr CodeInternalFailure 0 [] cause))"

definition new_err :: "int \<Rightarrow> go_error" where
  "new_err code = wrap_code code None"

definition with_message :: "int \<Rightarrow> string \<Rightarrow> go_error" where
  "with_message code safe =
     (case new_err code of
        AppErr c st m cause \<Rightarrow> AppErr c st (if safe \<noteq> [] then safe else m) cause
      | e \<Rightarrow> e)"

text \<open>\<open>errors.As(err, &appErr)\<close>: the first application error met in pre-order.\<close>

fun as_app :: "go_error \<Rightarrow> go_error option" and as_app_list :: "go_error list \<Rightarrow> go_error option" where
  "as_app (AppErr c st m cause) = Some (AppErr c st m cause)"
| "as_app (Sentinel s) = None"
| "as_app (DriverErr n) = None"
| "as_app (PlainErr m) = None"
| "as_app (WrapErr m e) = as_app e"
| "as_app (CacheTruthErr l op res i e) = as_app e"
| "as_app (JoinErr es) = as_app_list es"
| "as_app_list [] = None"
| "as_app_list (e # es) = (case as_app e of Some a \<Rightarrow> Some a | None \<Rightarrow> as_app_list es)"

text \<open>\<open>errors.Is(err, s)\<close> for a sentinel \<open>s\<close>.\<close>

fun err_is :: "sentinel \<Rightarrow> go_error \<Rightarrow> bool" and err_is_list :: "sentinel \<Rightarrow> go_error list \<Rightarrow> bool" where
  "err_is s (AppErr c st m cause) = (case cause of None \<Rightarrow> False | Some e \<Rightarrow> err_is s e)"
| "err_is s (Sentinel s') = (s = s')"
| "err_is s (DriverErr n) = False"
| "err_is s (PlainErr m) = False"
| "err_is s (WrapErr m e) = err_is s e"
| "err_is s (CacheTruthErr l op res i e) = err_is s e"
| "err_is s (JoinErr es) = err_is_list s es"
| "err_is_list s [] = False"
| "err_is_list s (e # es) = (err_is s e \<or> err_is_list s es)"

text \<open>\<open>errors.As\<close> for the MySQL driver error (its number) and for \<open>CacheTruthError\<close>.\<close>

fun as_driver :: "go_error \<Rightarrow> int option" and as_driver_list :: "go_error list \<Rightarrow> int option" where
  "as_driver (AppErr c st m cause) = (case cause of None \<Rightarrow> None | Some e \<Rightarrow> as_driver e)"
| "as_driver (Sentinel s) = None"
| "as_driver (DriverErr n) = Some n"
| "as_driver (PlainErr m) = None"
| "as_driver (WrapErr m e) = as_driver e"
| "as_driver (CacheTruthErr l op res i e) = as_driver e"
| "as_driver (JoinErr es) = as_driver_list es"
| "as_driver_list [] = None"
| "as_driver_list (e # es) = (case as_driver e of Some a \<Rightarrow> Some a | None \<Rightarrow> as_driver_list es)"

fun is_cache_truth :: "go_error \<Rightarrow> bool" and is_cache_truth_list :: "go_error list \<Rightarrow> bool" where
  "is_cache_truth (AppErr c st m cause) = (case cause of None \<Rightarrow> False | Some e \<Rightarrow> is_cache_truth e)"
| "is_cache_truth (Sentinel s) = False"
| "is_cache_truth (DriverErr n) = False"
| "is_cache_truth (PlainErr m) = False"
| "is_cache_truth (WrapErr m e) = is_cache_truth e"
| "is_cache_truth (CacheTruthErr l op res i e) = True"
| "is_cache_truth (JoinErr es) = is_cache_truth_list es"
| "is_cache_truth_list [] = False"
| "is_cache_truth_list (e # es) = (is_cache_truth e \<or> is_cache_truth_list es)"

definition from_err :: "go_error option \<Rightarrow> go_error option" where
  "from_err err = (case err of
      None \<Rightarrow> None
    | Some e \<Rightarrow> (case as_app e of Some a \<Rightarrow> Some a | None \<Rightarrow> Some (wrap_code CodeInternalFailure (Some e))))"

text \<open>\<open>errors.Join\<close> drops nil errors and is nil when nothing is left.\<close>

definition join_errs :: "go_error option list \<Rightarrow> go_error option" where
  "join_errs es = (case List.map_filter id es of [] \<Rightarrow> None | f # fs \<Rightarrow> Some (JoinErr (f # fs)))"

fun app_code :: "go_error \<Rightarrow> int" where
  "app_code (AppErr c st m cause) = c"
| "app_code e = 0"

fun app_status :: "go_error \<Rightarrow> int" where
  "app_status (AppErr c st m cause) = st"
| "app_status e = 0"

subsection \<open>Facts\<close>

lemma catalog_distinct: "distinct (map fst catalog)"
  by (simp add: catalog_def app_codes)

lemma catalog_size_value: "catalog_size = 46"
  by (simp add: catalog_size_def catalog_def)

lemma definition_for_internal: "definition_for CodeInternalFailure = Some (500, ''internal server error'')"
  by (simp add: definition_for_def catalog_def)

lemma wrap_code_shape: "\<exists>c st m. wrap_code code cause = AppErr c st m cause"
  by (auto simp: wrap_code_def definition_for_internal split: option.splits prod.splits)

lemma as_app_wrap_code [simp]: "as_app (wrap_code code cause) = Some (wrap_code code cause)"
  by (metis as_app.simps(1) wrap_code_shape)

lemma as_app_new_err [simp]: "as_app (new_err code) = Some (new_err code)"
  by (simp add: new_err_def)

lemma as_app_with_message [simp]: "as_app (with_message code m) = Some (with_message code m)"
  using wrap_code_shape [of code None] by (auto simp: with_message_def new_err_def)

lemma err_is_new_err [simp]: "\<not> err_is s (new_err code)"
  using wrap_code_shape [of code None] by (auto simp: new_err_def)

lemma err_is_with_message [simp]: "\<not> err_is s (with_message code m)"
  using wrap_code_shape [of code None] by (auto simp: with_message_def new_err_def)

lemma app_code_new_err:
  "app_code (new_err code) = (if definition_for code = None then CodeInternalFailure else code)"
  by (auto simp: new_err_def wrap_code_def definition_for_internal split: option.splits prod.splits)

lemma app_code_with_message: "app_code (with_message code m) = app_code (new_err code)"
  using wrap_code_shape [of code None] by (auto simp: with_message_def new_err_def)

lemma new_err_eq_iff:
  assumes "definition_for c \<noteq> None" "definition_for d \<noteq> None"
  shows "new_err c = new_err d \<longleftrightarrow> c = d"
  using assms app_code_new_err by metis

lemma definition_for_catalog: "c \<in> fst ` set catalog \<Longrightarrow> definition_for c \<noteq> None"
  by (simp add: definition_for_def map_of_eq_None_iff)

lemma app_code_catalog: "c \<in> fst ` set catalog \<Longrightarrow> app_code (new_err c) = c"
  by (simp add: app_code_new_err definition_for_catalog)

lemma catalog_codes: "map fst catalog = [
    CodeInternalFailure, CodeMissingParam, CodeInvalidParam, CodeUnauthorized,
    CodeUsernameTooShort, CodePasswordTooShort, CodeUsernameTaken, CodeUserNotFound,
    CodeWrongPassword, CodeInvalidToken, CodeSelfRequest, CodeAlreadyFriends,
    CodeFriendBlocked, CodeDuplicateRequest, CodeRequestNotFound, CodeNotRequestTarget,
    CodeAlreadyBlocked, CodeNotOwnerOrAdmin, CodeGroupNotFound, CodeAlreadyMember,
    CodeGroupFull, CodeCannotRemoveOwner, CodeCannotLeaveAsOwner, CodeInvalidRole,
    CodeMemberNotFriend, CodeCannotRemovePeer, CodeGroupMemberNotFound, CodeMsgNotRevocable,
    CodeMsgRevokeNotOwner, CodeMsgDeleteFailed, CodeMomentContentEmpty, CodeMomentNotFound,
    CodeNotCommentOwner, CodeInvalidVisibility, CodeCommentNotFound, CodeNotMomentOwner,
    CodeSettingsNotFound, CodeMuteConvExists, CodeMuteConvNotFound, CodeNotImplemented,
    CodePrivateNotFriend, CodePrivateBlocked, CodePrivateDuplicate, CodeGroupNotMember,
    CodeGroupMuted, CodeGroupDuplicate]"
  by (simp add: catalog_def)

text \<open>Every code of the catalogue survives \<open>new_err\<close>.\<close>

lemma app_codes_known: "list_all (\<lambda>c. app_code (new_err c) = c) (map fst catalog)"
  by (simp add: list_all_iff app_code_catalog)

lemmas app_code_known [simp] = app_codes_known [unfolded catalog_codes list.pred_inject]

lemma app_code_with_message_catalog [simp]:
  "app_code (with_message CodeInvalidParam m) = CodeInvalidParam"
  by (simp add: app_code_with_message)

end
