(* ===== verification/Model.thy ===== *)
theory Model
  imports AppError
begin

text \<open>
  \<open>internal/model\<close>: the rows and messages of the program, one record per Go struct with the
  fields in source order. 64-bit identifiers that are only stored and compared are \<open>int\<close>;
  times are nanoseconds since the Unix epoch; an optional time is an \<open>option\<close>.
\<close>

subsection \<open>Users and friends (\<open>model/user.go\<close>)\<close>

record user =
  u_id :: int
  u_username :: string
  u_password_hash :: string
  u_nickname :: string
  u_avatar_url :: string
  u_sign :: string
  u_gender :: int
  u_created_at :: int
  u_updated_at :: int

record friend_request =
  fr_id :: int
  fr_from :: int
  fr_to :: int
  fr_username :: string
  fr_avatar_url :: string
  fr_message :: string
  fr_status :: int
  fr_created_at :: int
  fr_updated_at :: int

definition FriendRequestPending :: int where "FriendRequestPending = 0"
definition FriendRequestAccepted :: int where "FriendRequestAccepted = 1"
definition FriendRequestRejected :: int where "FriendRequestRejected = 2"

lemmas request_status = FriendRequestPending_def FriendRequestAccepted_def FriendRequestRejected_def

record friendship =
  fs_id :: int
  fs_user :: int
  fs_friend :: int
  fs_nickname :: string
  fs_avatar_url :: string
  fs_online :: bool
  fs_is_blocked :: bool
  fs_created_at :: int

record blacklist_entry =
  bl_id :: int
  bl_user :: int
  bl_blocked :: int
  bl_created_at :: int

subsection \<open>Groups (\<open>model/group.go\<close>)\<close>

definition GroupRoleMember :: int where "GroupRoleMember = 0"
definition GroupRoleAdmin :: int where "GroupRoleAdmin = 1"
definition GroupRoleOwner :: int where "GroupRoleOwner = 2"

lemmas group_roles = GroupRoleMember_def GroupRoleAdmin_def GroupRoleOwner_def

definition GroupRemovedReasonLeft :: string where "GroupRemovedReasonLeft = ''left''"
definition GroupRemovedReasonDissolved :: string where "GroupRemovedReasonDissolved = ''dissolved''"
definition GroupUpdatedReasonOwnerTransferred :: string where
  "GroupUpdatedReasonOwnerTransferred = ''owner_transferred''"
definition GroupUpdatedReasonMemberLeft :: string where
  "GroupUpdatedReasonMemberLeft = ''member_left''"

record group =
  g_id :: int
  g_name :: string
  g_notice :: string
  g_owner :: int
  g_max_members :: int
  g_created_at :: int
  g_updated_at :: int

record group_member =
  gm_id :: int
  gm_group :: int
  gm_user :: int
  gm_role :: int
  gm_muted_until :: "int option"
  gm_joined_at :: int

record group_tombstone =
  gt_group :: int
  gt_owner :: int

text \<open>The payloads pushed to online clients; \<open>model/group.go\<close> and \<open>protocol/protocol.go\<close>.\<close>

datatype payload =
    GroupUpdatedNotification int string
  | GroupRemovedNotification int string
  | FriendApplyPayload int int string string string int
  | FriendAcceptedPayload int int int string string

text \<open>\<open>Page\<close> of \<open>service/contracts.go\<close>.\<close>

record 'a page =
  pg_items :: "'a list"
  pg_total :: int
  pg_limit :: int
  pg_offset :: int

subsection \<open>Conversations (\<open>model/common.go\<close>)\<close>

definition MsgTypeText :: int where "MsgTypeText = 1"
definition MsgTypeRevoked :: int where "MsgTypeRevoked = 6"
definition ConvTypePrivate :: int where "ConvTypePrivate = 1"
definition ConvTypeGroup :: int where "ConvTypeGroup = 2"

text \<open>A conversation identifier is the pair of kind and IDs its printed form is built from.\<close>

datatype conv_id = GroupConv int | PrivateConv int int

definition build_conv_id :: "int \<Rightarrow> int \<Rightarrow> int \<Rightarrow> conv_id" where
  "build_conv_id conv_type id1 id2 =
     (if conv_type = ConvTypeGroup then GroupConv id1
      else if id1 > id2 then PrivateConv id2 id1 else PrivateConv id1 id2)"

lemma build_conv_id_private_sym:
  "build_conv_id ConvTypePrivate a b = build_conv_id ConvTypePrivate b a"
  by (simp add: build_conv_id_def ConvTypePrivate_def ConvTypeGroup_def)

lemma build_conv_id_private_eq:
  "build_conv_id ConvTypePrivate a b = build_conv_id ConvTypePrivate c d \<longleftrightarrow> {a, b} = {c, d}"
  by (auto simp: build_conv_id_def ConvTypePrivate_def ConvTypeGroup_def doubleton_eq_iff)

subsection \<open>Messages in Redis (\<open>model/message.go\<close>, \<open>model/moment.go\<close>)\<close>

text \<open>Conversation identifiers appear in Redis in their printed form, as a \<open>string\<close>.\<close>

record inbox_message =
  im_msg_id :: int
  im_conv_id :: string
  im_conv_type :: int
  im_from :: int
  im_to :: int
  im_msg_type :: int
  im_content :: string
  im_read_status :: int
  im_group_seq :: int
  im_timestamp :: int

record conv_summary =
  cs_conv_id :: string
  cs_conv_type :: int
  cs_target_id :: int
  cs_target_name :: string
  cs_target_avatar :: string
  cs_last_msg :: string
  cs_last_msg_time :: int

text \<open>\<open>FeedEntry\<close>: a moment and the time it was published (milliseconds).\<close>

record feed_entry =
  fe_moment :: int
  fe_ts :: int

subsection \<open>Archived messages, moments and settings (\<open>model/message.go\<close>, \<open>model/moment.go\<close>, \<open>model/settings.go\<close>)\<close>

text \<open>
  One record per Go struct, which is also the row of its table; an empty client message ID is
  stored as NULL. The fields of a moment that only responses fill are left out.
\<close>

record private_message =
  pm_id :: int
  pm_client_msg_id :: string
  pm_sender :: int
  pm_receiver :: int
  pm_content :: string
  pm_msg_type :: int
  pm_created_at :: int

record group_message =
  gq_id :: int
  gq_client_msg_id :: string
  gq_group :: int
  gq_sender :: int
  gq_content :: string
  gq_msg_type :: int
  gq_seq :: int
  gq_created_at :: int

record msg_revoked =
  rv_id :: int
  rv_msg :: int
  rv_conv :: string
  rv_operator :: int
  rv_at :: int

record message_user_state =
  us_user :: int
  us_conv :: string
  us_msg :: int
  us_deleted_at :: "int option"

record moment =
  mo_id :: int
  mo_author :: int
  mo_content :: string
  mo_media_urls :: "string option"
  mo_visibility :: int
  mo_created_at :: int

record moment_like =
  ml_id :: int
  ml_moment :: int
  ml_user :: int
  ml_created_at :: int

record moment_comment =
  mc_id :: int
  mc_moment :: int
  mc_user :: int
  mc_content :: string
  mc_created_at :: int
  mc_username :: string
  mc_avatar_url :: string

record user_settings =
  se_id :: int
  se_user :: int
  se_notification :: bool
  se_preview :: bool
  se_mute_list :: string
  se_created_at :: int
  se_updated_at :: int

record archive =
  tb_private :: "private_message list"
  tb_group :: "group_message list"
  tb_revoked :: "msg_revoked list"
  tb_states :: "message_user_state list"
  tb_moments :: "moment list"
  tb_likes :: "moment_like list"
  tb_comments :: "moment_comment list"
  tb_settings :: "user_settings list"

definition empty_archive :: archive where
  "empty_archive = \<lparr>tb_private = [], tb_group = [], tb_revoked = [], tb_states = [], tb_moments = [],
     tb_likes = [], tb_comments = [], tb_settings = []\<rparr>"

subsection \<open>The reconcile queue (\<open>repository/cache_contracts.go\<close>)\<close>

datatype cache_resource = Friends | Blacklist | GroupMembers | OtherResource string

fun resource_valid :: "cache_resource \<Rightarrow> bool" where
  "resource_valid Friends = True"
| "resource_valid Blacklist = True"
| "resource_valid GroupMembers = True"
| "resource_valid (OtherResource s) = False"

text \<open>The row of \<open>cache_reconcile_events\<close>: status 0 pending, 1 processing, 2 done.\<close>

record cache_event =
  ce_id :: int
  ce_resource :: cache_resource
  ce_resource_id :: int
  ce_status :: int
  ce_attempts :: int
  ce_available_at :: int
  ce_locked_at :: "int option"
  ce_lock_token :: "(string \<times> nat) option"
  ce_last_error :: string

end
