(* ===== verification/KeyStore.thy ===== *)
theory KeyStore
  imports Model
begin

text \<open>
  The Redis keys outside the relationship projection: refresh sessions, presence leases, message
  boxes, counters, feeds and likes. A key name is kept as the IDs in it; a key with a lifetime is
  stored with the instant it expires (nanoseconds), and an expired key is absent. Sorted sets
  are lists of (score, member) in ascending order, as Redis keeps them.
\<close>

text \<open>The hash \<open>refresh:{jti}\<close>, with the text of its fields; a missing field reads as the empty text.\<close>

record session_hash =
  sh_user_id :: string
  sh_family_id :: string
  sh_expires_at :: string

text \<open>
  A member of a message box: the JSON of a message; JSON that a Lua script wrote with a number of 15
  digits or more, which \<open>cjson\<close> rounds and prints with an exponent, so that Lua still reads it but
  Go's \<open>int64\<close> fields do not; or text that neither decodes.
\<close>

datatype box_member = Message inbox_message | Rounded inbox_message | Undecodable string

text \<open>A member of \<open>conv_list:{user}\<close>: the JSON of a summary, or a bare conversation ID.\<close>

datatype conv_member = Summary conv_summary | BareConv string

type_synonym 'm zset = "(int \<times> 'm) list"

record kv_store =
  kv_sessions :: "string \<rightharpoonup> session_hash \<times> int"
  kv_user_sessions :: "int \<rightharpoonup> string list \<times> int"
  kv_conn :: "int \<rightharpoonup> string \<times> int"
  kv_online :: "int \<rightharpoonup> string \<times> int"
  kv_dedup :: "int \<times> string \<rightharpoonup> unit \<times> int"
  kv_inbox :: "int \<Rightarrow> box_member zset"
  kv_conv_list :: "int \<Rightarrow> conv_member zset"
  kv_unread :: "int \<times> string \<rightharpoonup> int"
  kv_read_pos :: "int \<times> string \<rightharpoonup> int"
  kv_timeline :: "int \<Rightarrow> int zset"
  kv_moment_outbox :: "int \<Rightarrow> int zset"
  kv_big_users :: "int list"
  kv_likes :: "int \<rightharpoonup> int list \<times> int option"
  kv_like_count :: "int \<rightharpoonup> int \<times> int option"
  kv_like_loaded :: "int \<rightharpoonup> unit \<times> int"
  kv_like_lock :: "int \<rightharpoonup> unit \<times> int"

definition empty_store :: kv_store where
  "empty_store = \<lparr>kv_sessions = Map.empty, kv_user_sessions = Map.empty, kv_conn = Map.empty,
     kv_online = Map.empty, kv_dedup = Map.empty, kv_inbox = (\<lambda>_. []), kv_conv_list = (\<lambda>_. []),
     kv_unread = Map.empty, kv_read_pos = Map.empty, kv_timeline = (\<lambda>_. []),
     kv_moment_outbox = (\<lambda>_. []), kv_big_users = [], kv_likes = Map.empty,
     kv_like_count = Map.empty, kv_like_loaded = Map.empty, kv_like_lock = Map.empty\<rparr>"

text \<open>Reading a key with a lifetime at an instant.\<close>

definition live :: "int \<Rightarrow> ('v \<times> int) option \<Rightarrow> 'v option" where
  "live t k = (case k of Some (v, expiry) \<Rightarrow> if t < expiry then Some v else None | None \<Rightarrow> None)"

lemma live_Some: "live t k = Some v \<longleftrightarrow> (\<exists>e. k = Some (v, e) \<and> t < e)"
  by (auto simp: live_def split: option.splits)

lemma live_None: "live t k = None \<longleftrightarrow> (\<forall>v e. k = Some (v, e) \<longrightarrow> e \<le> t)"
  by (auto simp: live_def split: option.splits)

lemma live_simps [simp]: "live t None = None" "live t (Some (v, e)) = (if t < e then Some v else None)"
  by (simp_all add: live_def)

end
