(* ===== verification/World.thy ===== *)
theory World
  imports KeyStore
begin

text \<open>
  The state every operation works on, and the effect monad.
  A \<open>world\<close> holds the MySQL database (tables as lists of rows), the AUTO_INCREMENT counters
  (which a rollback does not restore), the Redis relationship projection, the other Redis keys, the clock, the draws
  taken from \<open>crypto/rand\<close>, the notifications pushed so far, the uploaded files, and two scripts that stand for the
  environment: \<open>w_net\<close> fixes the outcome of each remote call in turn, \<open>w_ticks\<close> how far the clock
  moves before each reading. A call can pass, fail without an effect, or take effect while
  its acknowledgement is lost.
\<close>

record db =
  users :: "user list"
  friend_requests :: "friend_request list"
  friendships :: "friendship list"
  blacklists :: "blacklist_entry list"
  groups :: "group list"
  group_members :: "group_member list"
  group_tombstones :: "group_tombstone list"
  cache_events :: "cache_event list"
  allocators :: "string \<rightharpoonup> 64 word"
  d_archive :: archive

record counters =
  ai_users :: int
  ai_friend_requests :: int
  ai_friendships :: int
  ai_blacklist :: int
  ai_groups :: int
  ai_group_members :: int
  ai_cache_events :: int
  ai_revoked :: int
  ai_moments :: int
  ai_moment_likes :: int
  ai_moment_comments :: int
  ai_settings :: int

text \<open>\<open>cachedGroupMemberInfo\<close>: role, and the mute deadline in Unix milliseconds (0 for none).\<close>

record member_info =
  mi_role :: int
  mi_muted_until :: int

text \<open>
  The Redis keys of the relationship projection. \<open>friend:{a}:{b}\<close>, the sets and the marker keys
  are kept as lists of the IDs in their names; a hash is an association list.
\<close>

record rel_cache =
  rc_friend :: "(int \<times> int) list"
  rc_friend_loaded :: "int list"
  rc_friend_index :: "(int \<times> int) list"
  rc_friend_index_loaded :: "int list"
  rc_blacklist :: "(int \<times> int) list"
  rc_blacklist_loaded :: "int list"
  rc_group_members :: "(int \<times> int) list"
  rc_group_info :: "((int \<times> int) \<times> member_info) list"
  rc_group_loaded :: "int \<rightharpoonup> int"
  rc_user_groups :: "(int \<times> int) list"
  rc_reverse_index :: "(int \<times> int) list"
  rc_reverse_loaded :: "int list"
  rc_locks :: "(cache_resource \<times> int) \<rightharpoonup> (nat \<times> int)"
  rc_outbox :: "int \<Rightarrow> box_member zset"
  rc_group_seq :: "int \<rightharpoonup> int"

datatype net_outcome = Pass | Fail | LostAck

record world =
  w_db :: db
  w_auto :: counters
  w_cache :: rel_cache
  w_clock :: int
  w_rand :: nat
  w_sent :: "(int \<times> string \<times> payload) list"
  w_net :: "net_outcome list"
  w_ticks :: "nat list"
  w_kv :: kv_store
  w_files :: "string list \<rightharpoonup> string"

type_synonym 'a io = "world \<Rightarrow> (go_error + 'a) \<times> world"

subsection \<open>Sequencing\<close>

definition ret :: "'a \<Rightarrow> 'a io" where
  "ret x w = (Inr x, w)"

definition throw :: "go_error \<Rightarrow> 'a io" where
  "throw e w = (Inl e, w)"

definition andThen :: "'a io \<Rightarrow> ('a \<Rightarrow> 'b io) \<Rightarrow> 'b io" where
  "andThen m f w = (case m w of (Inl e, w') \<Rightarrow> (Inl e, w') | (Inr x, w') \<Rightarrow> f x w')"

text \<open>\<open>if err != nil { return g(err) }\<close>.\<close>

definition on_error :: "(go_error \<Rightarrow> go_error) \<Rightarrow> 'a io \<Rightarrow> 'a io" where
  "on_error g m w = (case m w of (Inl e, w') \<Rightarrow> (Inl (g e), w') | (Inr x, w') \<Rightarrow> (Inr x, w'))"

text \<open>\<open>_ = f()\<close>: run and ignore the outcome.\<close>

definition best_effort :: "'a io \<Rightarrow> unit io" where
  "best_effort m w = (Inr (), snd (m w))"

text \<open>Run and hand the outcome over as a value.\<close>

definition attempt :: "'a io \<Rightarrow> (go_error + 'a) io" where
  "attempt m w = (case m w of (r, w') \<Rightarrow> (Inr r, w'))"

definition require :: "bool \<Rightarrow> go_error \<Rightarrow> unit io" where
  "require b e = (if b then ret () else throw e)"

definition when_ok :: "bool \<Rightarrow> unit io \<Rightarrow> unit io" where
  "when_ok b m = (if b then m else ret ())"

fun for_each :: "('a \<Rightarrow> unit io) \<Rightarrow> 'a list \<Rightarrow> unit io" where
  "for_each f [] = ret ()"
| "for_each f (x # xs) = andThen (f x) (\<lambda>_. for_each f xs)"

subsection \<open>Time, randomness and remote calls\<close>

text \<open>\<open>time.Now()\<close>.\<close>

definition now :: "int io" where
  "now w = (let t = w_clock w + (case w_ticks w of [] \<Rightarrow> 0 | d # _ \<Rightarrow> int d)
            in (Inr t, w\<lparr>w_clock := t, w_ticks := tl (w_ticks w)\<rparr>))"

definition second :: int where "second = 1000000000"

text \<open>The value a DATETIME column without fraction stores: MySQL rounds to the nearest second.\<close>

definition sql_datetime :: "int \<Rightarrow> int" where
  "sql_datetime t = ((t + second div 2) div second) * second"

text \<open>\<open>NOW()\<close> and \<open>CURRENT_TIMESTAMP\<close> have whole seconds.\<close>

definition sql_now :: "world \<Rightarrow> int" where
  "sql_now w = (w_clock w div second) * second"

text \<open>\<open>CURRENT_TIMESTAMP(6)\<close> has whole microseconds.\<close>

definition sql_now6 :: "world \<Rightarrow> int" where
  "sql_now6 w = (w_clock w div 1000) * 1000"

definition net_now :: "world \<Rightarrow> net_outcome" where
  "net_now w = (case w_net w of [] \<Rightarrow> Pass | f # _ \<Rightarrow> f)"

definition net_pop :: "world \<Rightarrow> world" where
  "net_pop w = w\<lparr>w_net := tl (w_net w)\<rparr>"

definition remote_err :: go_error where
  "remote_err = DriverErr 0"

text \<open>One remote call whose effect is \<open>op\<close>.\<close>

definition remote :: "'a io \<Rightarrow> 'a io" where
  "remote op w =
     (case net_now w of
        Pass \<Rightarrow> op (net_pop w)
      | Fail \<Rightarrow> (Inl remote_err, net_pop w)
      | LostAck \<Rightarrow> (Inl remote_err, snd (op (net_pop w))))"

definition random_token :: "nat io" where
  "random_token = remote (\<lambda>w. (Inr (w_rand w), w\<lparr>w_rand := Suc (w_rand w)\<rparr>))"

subsection \<open>Statements (\<open>repository/mysql_runner.go\<close>)\<close>

text \<open>Error 1062 is MySQL's duplicate-key error.\<close>

definition map_mysql_error :: "go_error \<Rightarrow> go_error" where
  "map_mysql_error err =
     (if as_driver err = Some 1062 then WrapErr [] (Sentinel ErrConflict) else err)"

definition null_if_empty :: "string \<Rightarrow> string option" where
  "null_if_empty value = (if value = [] then None else Some value)"

definition query :: "(db \<Rightarrow> 'a) \<Rightarrow> 'a io" where
  "query f = remote (\<lambda>w. (Inr (f (w_db w)), w))"

definition exec :: "(world \<Rightarrow> db \<Rightarrow> db) \<Rightarrow> unit io" where
  "exec f = on_error map_mysql_error (remote (\<lambda>w. (Inr (), w\<lparr>w_db := f w (w_db w)\<rparr>)))"

text \<open>A statement that reports the number of rows it affected.\<close>

definition exec_count :: "(world \<Rightarrow> db \<Rightarrow> int \<times> db) \<Rightarrow> int io" where
  "exec_count f = on_error map_mysql_error
     (remote (\<lambda>w. let (n, d) = f w (w_db w) in (Inr n, w\<lparr>w_db := d\<rparr>)))"

text \<open>
  An INSERT with an AUTO_INCREMENT key: the counter advances even when the row violates a
  UNIQUE key or the transaction is rolled back later.
\<close>

definition insert_row ::
  "(counters \<Rightarrow> int) \<Rightarrow> (counters \<Rightarrow> counters) \<Rightarrow> (db \<Rightarrow> bool) \<Rightarrow> (int \<Rightarrow> world \<Rightarrow> db \<Rightarrow> db) \<Rightarrow> int io" where
  "insert_row cur advance duplicate f = on_error map_mysql_error
     (remote (\<lambda>w.
        let k = cur (w_auto w); w1 = w\<lparr>w_auto := advance (w_auto w)\<rparr>
        in if duplicate (w_db w) then (Inl (DriverErr 1062), w1)
           else (Inr k, w1\<lparr>w_db := f k w (w_db w)\<rparr>)))"

subsection \<open>Transactions\<close>

text \<open>
  \<open>WithinTransaction\<close> and its friend and group variants: begin, run the callback, then roll back on
  an error and commit otherwise. The failures a rollback reports are joined to the callback's
  error (\<open>within_tx\<close>) or, where the rollback is deferred and its result dropped, ignored
  (\<open>deferred_tx\<close>). A commit whose acknowledgement is lost has taken effect.
\<close>

definition tx_block :: "bool \<Rightarrow> string \<Rightarrow> 'a io \<Rightarrow> 'a io" where
  "tx_block report_rollback what body w =
     (case net_now w of
        Pass \<Rightarrow>
          (case body (net_pop w) of
             (Inl e, w1) \<Rightarrow>
               (if net_now w1 = Pass \<or> \<not> report_rollback then Inl e
                else Inl (JoinErr [e, WrapErr (''rollback '' @ what) remote_err]),
                (net_pop w1)\<lparr>w_db := w_db w\<rparr>)
           | (Inr x, w1) \<Rightarrow>
               (case net_now w1 of
                  Pass \<Rightarrow> (Inr x, net_pop w1)
                | Fail \<Rightarrow> (Inl (WrapErr (''commit '' @ what) remote_err), (net_pop w1)\<lparr>w_db := w_db w\<rparr>)
                | LostAck \<Rightarrow> (Inl (WrapErr (''commit '' @ what) remote_err), net_pop w1)))
      | _ \<Rightarrow> (Inl (WrapErr (''begin '' @ what) remote_err), net_pop w))"

abbreviation within_tx :: "string \<Rightarrow> 'a io \<Rightarrow> 'a io" where
  "within_tx \<equiv> tx_block True"

abbreviation deferred_tx :: "string \<Rightarrow> 'a io \<Rightarrow> 'a io" where
  "deferred_tx \<equiv> tx_block False"

subsection \<open>Inversion rules\<close>

lemma ret_ok [io_simps]: "ret x w = (Inr y, w') \<longleftrightarrow> y = x \<and> w' = w"
  by (auto simp: ret_def)

lemma ret_err [io_simps]: "ret x w = (Inl e, w') \<longleftrightarrow> False"
  by (simp add: ret_def)

lemma throw_ok [io_simps]: "throw e w = (Inr y, w') \<longleftrightarrow> False"
  by (simp add: throw_def)

lemma throw_err [io_simps]: "throw e w = (Inl e', w') \<longleftrightarrow> e' = e \<and> w' = w"
  by (auto simp: throw_def)

lemma andThen_ok [io_simps]:
  "andThen m f w = (Inr y, w') \<longleftrightarrow> (\<exists>x w1. m w = (Inr x, w1) \<and> f x w1 = (Inr y, w'))"
  by (auto simp: andThen_def split: prod.splits sum.splits)

lemma andThen_err [io_simps]:
  "andThen m f w = (Inl e, w') \<longleftrightarrow>
     m w = (Inl e, w') \<or> (\<exists>x w1. m w = (Inr x, w1) \<and> f x w1 = (Inl e, w'))"
  by (auto simp: andThen_def split: prod.splits sum.splits)

lemma on_error_ok [io_simps]: "on_error g m w = (Inr x, w') \<longleftrightarrow> m w = (Inr x, w')"
  by (auto simp: on_error_def split: prod.splits sum.splits)

lemma on_error_err [io_simps]:
  "on_error g m w = (Inl e, w') \<longleftrightarrow> (\<exists>e0. m w = (Inl e0, w') \<and> e = g e0)"
  by (auto simp: on_error_def split: prod.splits sum.splits)

lemma best_effort_ok [io_simps]: "best_effort m w = (Inr x, w') \<longleftrightarrow> w' = snd (m w)"
  by (auto simp: best_effort_def)

lemma best_effort_err [io_simps]: "best_effort m w = (Inl e, w') \<longleftrightarrow> False"
  by (simp add: best_effort_def)

lemma attempt_ok [io_simps]: "attempt m w = (Inr r, w') \<longleftrightarrow> m w = (r, w')"
  by (auto simp: attempt_def split: prod.splits)

lemma attempt_err [io_simps]: "attempt m w = (Inl e, w') \<longleftrightarrow> False"
  by (auto simp: attempt_def split: prod.splits)

lemma require_ok [io_simps]: "require b e w = (Inr x, w') \<longleftrightarrow> b \<and> w' = w"
  by (auto simp: require_def ret_def throw_def)

lemma require_err [io_simps]: "require b e w = (Inl e', w') \<longleftrightarrow> \<not> b \<and> e' = e \<and> w' = w"
  by (auto simp: require_def ret_def throw_def)

lemma when_ok_ok [io_simps]:
  "when_ok b m w = (Inr x, w') \<longleftrightarrow> (if b then m w = (Inr x, w') else w' = w)"
  by (auto simp: when_ok_def ret_def)

lemma when_ok_err [io_simps]: "when_ok b m w = (Inl e, w') \<longleftrightarrow> b \<and> m w = (Inl e, w')"
  by (auto simp: when_ok_def ret_def)

lemma query_ok [io_simps]:
  "query f w = (Inr x, w') \<longleftrightarrow> net_now w = Pass \<and> x = f (w_db w) \<and> w' = net_pop w"
  by (auto simp: query_def remote_def net_pop_def split: net_outcome.splits)

lemma query_err [io_simps]:
  "query f w = (Inl e, w') \<longleftrightarrow> net_now w \<noteq> Pass \<and> e = remote_err \<and> w' = net_pop w"
  by (auto simp: query_def remote_def split: net_outcome.splits)

lemma exec_ok [io_simps]:
  "exec f w = (Inr x, w') \<longleftrightarrow>
     net_now w = Pass \<and> w' = (net_pop w)\<lparr>w_db := f (net_pop w) (w_db w)\<rparr>"
  by (auto simp: exec_def on_error_def remote_def net_pop_def split: net_outcome.splits)

lemma exec_count_ok [io_simps]:
  "exec_count f w = (Inr n, w') \<longleftrightarrow>
     net_now w = Pass \<and> n = fst (f (net_pop w) (w_db w)) \<and>
     w' = (net_pop w)\<lparr>w_db := snd (f (net_pop w) (w_db w))\<rparr>"
  by (auto simp: exec_count_def on_error_def remote_def net_pop_def split: net_outcome.splits prod.splits)

lemma insert_row_ok [io_simps]:
  "insert_row cur adv dup f w = (Inr k, w') \<longleftrightarrow>
     net_now w = Pass \<and> \<not> dup (w_db w) \<and> k = cur (w_auto w) \<and>
     w' = (net_pop w)\<lparr>w_auto := adv (w_auto w), w_db := f k (net_pop w) (w_db w)\<rparr>"
  by (auto simp: insert_row_def on_error_def remote_def net_pop_def Let_def split: net_outcome.splits)

lemma net_pop_fields [simp]:
  "w_db (net_pop w) = w_db w" "w_auto (net_pop w) = w_auto w" "w_cache (net_pop w) = w_cache w"
  "w_clock (net_pop w) = w_clock w" "w_rand (net_pop w) = w_rand w" "w_sent (net_pop w) = w_sent w"
  "w_ticks (net_pop w) = w_ticks w" "w_net (net_pop w) = tl (w_net w)" "w_kv (net_pop w) = w_kv w"
  by (simp_all add: net_pop_def)

lemma sql_now_net_pop [simp]: "sql_now (net_pop w) = sql_now w" "sql_now6 (net_pop w) = sql_now6 w"
  by (simp_all add: sql_now_def sql_now6_def)

lemma sql_now_update [simp]:
  "sql_now (w\<lparr>w_db := d\<rparr>) = sql_now w" "sql_now (w\<lparr>w_auto := a\<rparr>) = sql_now w"
  "sql_now6 (w\<lparr>w_db := d\<rparr>) = sql_now6 w" "sql_now6 (w\<lparr>w_auto := a\<rparr>) = sql_now6 w"
  by (simp_all add: sql_now_def sql_now6_def)

lemma net_now_Nil [simp]: "w_net w = [] \<Longrightarrow> net_now w = Pass"
  by (simp add: net_now_def)

lemma now_ok [io_simps]:
  "now w = (Inr t, w') \<longleftrightarrow> t = w_clock w + (case w_ticks w of [] \<Rightarrow> 0 | d # _ \<Rightarrow> int d) \<and>
     w' = w\<lparr>w_clock := t, w_ticks := tl (w_ticks w)\<rparr>"
  by (auto simp: now_def Let_def)

lemma now_err [io_simps]: "now w = (Inl e, w') \<longleftrightarrow> False"
  by (auto simp: now_def Let_def)

lemma tx_ok [io_simps]:
  "tx_block rep what body w = (Inr x, w') \<longleftrightarrow>
     net_now w = Pass \<and> (\<exists>w1. body (net_pop w) = (Inr x, w1) \<and> net_now w1 = Pass \<and> w' = net_pop w1)"
  by (auto simp: tx_block_def split: net_outcome.splits prod.splits sum.splits if_splits)

text \<open>
  Atomicity of a transaction, whatever its callback is: it leaves the database as it was, or
  the callback ran to its end and its database is the one kept.
\<close>

lemma tx_atomic:
  "w_db (snd (tx_block rep what body w)) = w_db w \<or>
   (\<exists>x w1. body (net_pop w) = (Inr x, w1) \<and> snd (tx_block rep what body w) = net_pop w1)"
  by (auto simp: tx_block_def split: net_outcome.splits prod.splits sum.splits if_splits)

lemma tx_keeps:
  assumes "I (w_db w)"
    and "\<And>x w1. body (net_pop w) = (Inr x, w1) \<Longrightarrow> I (w_db w1)"
  shows "I (w_db (snd (tx_block rep what body w)))"
  using tx_atomic [of rep what body w] assms by fastforce

text \<open>An error of the callback itself: the database is untouched.\<close>

lemma tx_error:
  assumes "body (net_pop w) = (Inl e, w1)" "net_now w = Pass"
  shows "w_db (snd (tx_block rep what body w)) = w_db w"
  using assms by (auto simp: tx_block_def)

text \<open>Without faults, a transaction is its callback, with the database restored on an error.\<close>

definition calm :: "world \<Rightarrow> bool" where
  "calm w \<longleftrightarrow> w_net w = []"

lemma calm_net_pop [simp]: "calm w \<Longrightarrow> net_pop w = w"
  by (simp add: calm_def net_pop_def)

lemma calm_net_now [simp]: "calm w \<Longrightarrow> net_now w = Pass"
  by (simp add: calm_def net_now_def)

lemma calm_update [simp]:
  "calm (w\<lparr>w_db := d\<rparr>) = calm w" "calm (w\<lparr>w_auto := a\<rparr>) = calm w" "calm (w\<lparr>w_cache := c\<rparr>) = calm w"
  "calm (w\<lparr>w_clock := t\<rparr>) = calm w" "calm (w\<lparr>w_rand := n\<rparr>) = calm w" "calm (w\<lparr>w_sent := x\<rparr>) = calm w"
  "calm (w\<lparr>w_ticks := y\<rparr>) = calm w" "calm (w\<lparr>w_kv := kv\<rparr>) = calm w"
  by (simp_all add: calm_def)

lemma calm_query: "calm w \<Longrightarrow> query f w = (Inr (f (w_db w)), w)"
  by (simp add: query_def remote_def)

lemma calm_exec: "calm w \<Longrightarrow> exec f w = (Inr (), w\<lparr>w_db := f w (w_db w)\<rparr>)"
  by (simp add: exec_def on_error_def remote_def)

lemma calm_insert_row:
  "calm w \<Longrightarrow> insert_row cur adv dup f w =
     (let w1 = w\<lparr>w_auto := adv (w_auto w)\<rparr> in
      if dup (w_db w) then (Inl (WrapErr [] (Sentinel ErrConflict)), w1)
      else (Inr (cur (w_auto w)), w1\<lparr>w_db := f (cur (w_auto w)) w (w_db w)\<rparr>))"
  by (simp add: insert_row_def on_error_def remote_def map_mysql_error_def Let_def)

lemma calm_tx:
  assumes "calm w" "body w = (r, v)" "calm v"
  shows "tx_block rep what body w =
    (r, case r of Inl e \<Rightarrow> v\<lparr>w_db := w_db w\<rparr> | Inr x \<Rightarrow> v)"
  using assms by (auto simp: tx_block_def split: sum.splits)

subsection \<open>What an operation leaves alone\<close>

text \<open>
  A frame is a preorder on worlds that ignores the environment script. Operations built from
  framed ones are framed; the components below use it for the counters (they never go back)
  and for the parts of the world a repository does not own.
\<close>

definition framed :: "(world \<Rightarrow> world \<Rightarrow> bool) \<Rightarrow> 'a io \<Rightarrow> bool" where
  "framed R m \<longleftrightarrow> (\<forall>w. R w (snd (m w)))"

locale world_frame =
  fixes R :: "world \<Rightarrow> world \<Rightarrow> bool"
  assumes frame_refl: "R w w"
    and frame_trans: "R u v \<Longrightarrow> R v w \<Longrightarrow> R u w"
    and frame_net_pop: "R w (net_pop w)"
begin

lemma framed_ret: "framed R (ret x)"
  by (simp add: framed_def ret_def frame_refl)

lemma framed_throw: "framed R (throw e)"
  by (simp add: framed_def throw_def frame_refl)

lemma framed_require: "framed R (require b e)"
  by (simp add: framed_def require_def ret_def throw_def frame_refl)

lemma framed_andThen:
  assumes "framed R m" "\<And>x. framed R (f x)"
  shows "framed R (andThen m f)"
  unfolding framed_def
proof
  fix w
  obtain r w1 where m: "m w = (r, w1)" by fastforce
  with assms(1) have "R w w1" unfolding framed_def by (metis snd_conv)
  moreover have "R w1 (snd (f x w1))" for x using assms(2) by (simp add: framed_def)
  ultimately show "R w (snd (andThen m f w))"
    using m by (auto simp: andThen_def split: sum.splits intro: frame_trans)
qed

lemma framed_on_error: "framed R m \<Longrightarrow> framed R (on_error g m)"
  by (auto simp: framed_def on_error_def split: prod.splits sum.splits) (metis snd_conv)+

lemma framed_when_ok: "framed R m \<Longrightarrow> framed R (when_ok b m)"
  by (simp add: framed_def when_ok_def ret_def frame_refl)

lemma framed_best_effort: "framed R m \<Longrightarrow> framed R (best_effort m)"
  by (simp add: framed_def best_effort_def)

lemma framed_attempt: "framed R m \<Longrightarrow> framed R (attempt m)"
  by (auto simp: framed_def attempt_def split: prod.splits) (metis snd_conv)

lemma framed_for_each: "(\<And>x. framed R (f x)) \<Longrightarrow> framed R (for_each f xs)"
  by (induction xs) (auto intro: framed_ret framed_andThen)

lemma framed_if: "framed R m \<Longrightarrow> framed R n \<Longrightarrow> framed R (if b then m else n)"
  by simp

lemma framed_option:
  "framed R m \<Longrightarrow> (\<And>x. framed R (f x)) \<Longrightarrow> framed R (case opt of None \<Rightarrow> m | Some x \<Rightarrow> f x)"
  by (simp split: option.split)

lemma framed_prod: "(\<And>x y. framed R (f x y)) \<Longrightarrow> framed R (case p of (x, y) \<Rightarrow> f x y)"
  by (simp split: prod.split)

lemma framed_sum:
  "(\<And>e. framed R (f e)) \<Longrightarrow> (\<And>x. framed R (g x)) \<Longrightarrow> framed R (case r of Inl e \<Rightarrow> f e | Inr x \<Rightarrow> g x)"
  by (simp split: sum.split)

lemma framed_remote:
  assumes "framed R m"
  shows "framed R (remote m)"
  unfolding framed_def
proof
  fix w
  have "R (net_pop w) (snd (m (net_pop w)))" using assms by (simp add: framed_def)
  then have "R w (snd (m (net_pop w)))" using frame_net_pop frame_trans by blast
  then show "R w (snd (remote m w))"
    using frame_net_pop by (simp add: remote_def split: net_outcome.splits)
qed

lemma framed_query: "framed R (query f)"
  unfolding query_def by (rule framed_remote) (simp add: framed_def frame_refl)

lemmas framed_intros =
  framed_ret framed_throw framed_require framed_andThen framed_on_error framed_when_ok
  framed_best_effort framed_attempt framed_for_each framed_if framed_option framed_prod framed_sum
  framed_query

end

definition same_cache :: "world \<Rightarrow> world \<Rightarrow> bool" where
  "same_cache w w' \<longleftrightarrow> w_cache w' = w_cache w"

definition same_db :: "world \<Rightarrow> world \<Rightarrow> bool" where
  "same_db w w' \<longleftrightarrow> w_db w' = w_db w \<and> w_auto w' = w_auto w"

definition auto_le :: "world \<Rightarrow> world \<Rightarrow> bool" where
  "auto_le w w' \<longleftrightarrow>
     ai_users (w_auto w) \<le> ai_users (w_auto w') \<and>
     ai_friend_requests (w_auto w) \<le> ai_friend_requests (w_auto w') \<and>
     ai_friendships (w_auto w) \<le> ai_friendships (w_auto w') \<and>
     ai_blacklist (w_auto w) \<le> ai_blacklist (w_auto w') \<and>
     ai_groups (w_auto w) \<le> ai_groups (w_auto w') \<and>
     ai_group_members (w_auto w) \<le> ai_group_members (w_auto w') \<and>
     ai_cache_events (w_auto w) \<le> ai_cache_events (w_auto w')"

interpretation cache_frame: world_frame same_cache
  by unfold_locales (auto simp: same_cache_def)

interpretation db_frame: world_frame same_db
  by unfold_locales (auto simp: same_db_def)

interpretation auto_frame: world_frame auto_le
  by unfold_locales (auto simp: auto_le_def)

lemma framed_db_now: "framed same_db now"
  by (simp add: framed_def now_def same_db_def Let_def)

lemma framed_auto_exec: "framed auto_le (exec f)"
  unfolding exec_def
  by (intro auto_frame.framed_on_error auto_frame.framed_remote) (simp add: framed_def auto_le_def)

lemma framed_auto_exec_count: "framed auto_le (exec_count f)"
  unfolding exec_count_def
  by (intro auto_frame.framed_on_error auto_frame.framed_remote)
    (simp add: framed_def auto_le_def split: prod.splits)

lemma framed_auto_insert:
  assumes "\<And>w. auto_le w (w\<lparr>w_auto := adv (w_auto w)\<rparr>)"
  shows "framed auto_le (insert_row cur adv dup f)"
  unfolding insert_row_def
  by (intro auto_frame.framed_on_error auto_frame.framed_remote)
    (use assms in \<open>simp add: framed_def auto_le_def Let_def\<close>)

lemma framed_auto_tx:
  assumes "framed auto_le m"
  shows "framed auto_le (tx_block rep what m)"
  unfolding framed_def
proof
  fix w
  have "auto_le (net_pop w) (snd (m (net_pop w)))" using assms by (simp add: framed_def)
  then have "auto_le w (snd (m (net_pop w)))" by (simp add: auto_le_def)
  then show "auto_le w (snd (tx_block rep what m w))"
    by (auto simp: tx_block_def auto_le_def split: net_outcome.splits prod.splits sum.splits)
qed

lemmas auto_intros = auto_frame.framed_intros framed_auto_exec framed_auto_exec_count
  framed_auto_insert framed_auto_tx

subsection \<open>Invariants of the tables and the counters\<close>

text \<open>
  An invariant that a counter moving on cannot break. A transaction keeps it when its callback
  does on success; the steps around the transaction leave the database alone.
\<close>

definition keeps :: "(world \<Rightarrow> bool) \<Rightarrow> 'a io \<Rightarrow> bool" where
  "keeps I m \<longleftrightarrow> (\<forall>w. I w \<longrightarrow> I (snd (m w)))"

definition keeps_ok :: "(world \<Rightarrow> bool) \<Rightarrow> 'a io \<Rightarrow> bool" where
  "keeps_ok I m \<longleftrightarrow> (\<forall>w x w1. I w \<longrightarrow> m w = (Inr x, w1) \<longrightarrow> I w1)"

lemma on_error_snd: "snd (on_error g m w) = snd (m w)"
  by (simp add: on_error_def split: prod.split sum.split)

locale world_invariant =
  fixes I :: "world \<Rightarrow> bool"
  assumes inv_mono: "I w \<Longrightarrow> w_db w' = w_db w \<Longrightarrow> auto_le w w' \<Longrightarrow> I w'"
begin

lemma inv_same_db: "I w \<Longrightarrow> same_db w w' \<Longrightarrow> I w'"
  by (rule inv_mono) (auto simp: same_db_def auto_le_def)

lemma inv_net_pop: "I w \<Longrightarrow> I (net_pop w)"
  by (erule inv_same_db) (simp add: same_db_def)

lemma keeps_framed: "framed same_db m \<Longrightarrow> keeps I m"
  unfolding framed_def keeps_def using inv_same_db by blast

lemma keeps_throw: "keeps I (throw e)"
  by (simp add: keeps_def throw_def)

lemma keeps_if: "keeps I m \<Longrightarrow> keeps I n \<Longrightarrow> keeps I (if b then m else n)"
  by simp

lemma keeps_option:
  "keeps I m \<Longrightarrow> (\<And>x. keeps I (f x)) \<Longrightarrow> keeps I (case opt of None \<Rightarrow> m | Some x \<Rightarrow> f x)"
  by (simp split: option.split)

lemma keeps_sum:
  "(\<And>e. keeps I (f e)) \<Longrightarrow> (\<And>x. keeps I (g x)) \<Longrightarrow> keeps I (case r of Inl e \<Rightarrow> f e | Inr x \<Rightarrow> g x)"
  by (simp split: sum.split)

lemma keeps_prod: "(\<And>x y. keeps I (f x y)) \<Longrightarrow> keeps I (case p of (x, y) \<Rightarrow> f x y)"
  by (simp split: prod.split)

lemma keeps_andThen:
  assumes "keeps I m" "\<And>x. keeps I (f x)" shows "keeps I (andThen m f)"
  unfolding keeps_def
proof (intro allI impI)
  fix w assume "I w"
  obtain r w1 where m: "m w = (r, w1)" by fastforce
  then have "I w1" using assms(1) \<open>I w\<close> unfolding keeps_def by (metis snd_conv)
  then show "I (snd (andThen m f w))" using m assms(2)
    by (auto simp: andThen_def keeps_def split: sum.splits)
qed

lemma keeps_on_error: "keeps I m \<Longrightarrow> keeps I (on_error h m)"
  by (simp add: keeps_def on_error_snd)

lemma keeps_tx:
  assumes "framed auto_le body" "keeps_ok I body"
  shows "keeps I (tx_block rep what body)"
  unfolding keeps_def
proof (intro allI impI)
  fix w assume inv: "I w"
  show "I (snd (tx_block rep what body w))"
    using tx_atomic [where rep = rep and what = what and body = body and w = w]
  proof
    assume db: "w_db (snd (tx_block rep what body w)) = w_db w"
    have "auto_le w (snd (tx_block rep what body w))"
      using framed_auto_tx [OF assms(1), where rep = rep and what = what] by (simp add: framed_def)
    then show ?thesis using inv_mono [OF inv db] by blast
  next
    assume "\<exists>x w1. body (net_pop w) = (Inr x, w1) \<and> snd (tx_block rep what body w) = net_pop w1"
    then show ?thesis using assms(2) inv_net_pop [OF inv] inv_net_pop unfolding keeps_ok_def by metis
  qed
qed

lemma keeps_command:
  "framed auto_le body \<Longrightarrow> keeps_ok I body \<Longrightarrow> (\<And>x. framed same_db (rest x)) \<Longrightarrow>
    keeps I (andThen (on_error h (tx_block rep what body)) rest)"
  by (intro keeps_andThen keeps_on_error keeps_tx keeps_framed)

lemma keeps_after: "framed same_db m \<Longrightarrow> (\<And>x. keeps I (f x)) \<Longrightarrow> keeps I (andThen m f)"
  by (rule keeps_andThen [OF keeps_framed])

end

subsection \<open>All or nothing\<close>

text \<open>
  The same world with a network that never fails. An operation is robust when, whenever it
  succeeds under some script, it succeeds in the quiet world with the same value and effect.
\<close>

definition quiet :: "world \<Rightarrow> world" where
  "quiet w = w\<lparr>w_net := []\<rparr>"

lemma quiet_fields [simp]:
  "w_db (quiet w) = w_db w" "w_auto (quiet w) = w_auto w" "w_cache (quiet w) = w_cache w"
  "w_clock (quiet w) = w_clock w" "w_rand (quiet w) = w_rand w" "w_sent (quiet w) = w_sent w"
  "w_ticks (quiet w) = w_ticks w" "w_net (quiet w) = []" "w_kv (quiet w) = w_kv w" "calm (quiet w)" "quiet (quiet w) = quiet w"
  "quiet (net_pop w) = quiet w" "sql_now (quiet w) = sql_now w"
  "sql_now6 (quiet w) = sql_now6 w"
  by (simp_all add: quiet_def calm_def net_pop_def sql_now_def sql_now6_def)

lemma quiet_net_pop: "quiet (net_pop w) = quiet w"
  by simp

lemma quiet_updates [simp]:
  "quiet (w\<lparr>w_db := d\<rparr>) = (quiet w)\<lparr>w_db := d\<rparr>" "quiet (w\<lparr>w_auto := a\<rparr>) = (quiet w)\<lparr>w_auto := a\<rparr>"
  "quiet (w\<lparr>w_clock := t\<rparr>) = (quiet w)\<lparr>w_clock := t\<rparr>" "quiet (w\<lparr>w_ticks := y\<rparr>) = (quiet w)\<lparr>w_ticks := y\<rparr>"
  by (simp_all add: quiet_def)

definition net_robust :: "'a io \<Rightarrow> bool" where
  "net_robust m \<longleftrightarrow> (\<forall>w x w1. m w = (Inr x, w1) \<longrightarrow> m (quiet w) = (Inr x, quiet w1))"

lemma robust_ret: "net_robust (ret x)"
  by (simp add: net_robust_def io_simps)

lemma robust_throw: "net_robust (throw e)"
  by (simp add: net_robust_def io_simps)

lemma robust_require: "net_robust (require b e)"
  by (simp add: net_robust_def io_simps)

lemma robust_andThen:
  assumes "net_robust m" "\<And>x. net_robust (f x)" shows "net_robust (andThen m f)"
  unfolding net_robust_def
proof (intro allI impI)
  fix w y w2
  assume "andThen m f w = (Inr y, w2)"
  then obtain x w1 where "m w = (Inr x, w1)" "f x w1 = (Inr y, w2)" by (auto simp: io_simps)
  then have "m (quiet w) = (Inr x, quiet w1)" "f x (quiet w1) = (Inr y, quiet w2)"
    using assms unfolding net_robust_def by blast+
  then show "andThen m f (quiet w) = (Inr y, quiet w2)" by (simp add: andThen_def)
qed

lemma robust_on_error: "net_robust m \<Longrightarrow> net_robust (on_error g m)"
  by (simp add: net_robust_def io_simps)

lemma robust_when_ok: "net_robust m \<Longrightarrow> net_robust (when_ok b m)"
  by (simp add: net_robust_def io_simps)

lemma robust_query: "net_robust (query f)"
  by (simp add: net_robust_def io_simps)

lemma robust_exec: "(\<And>w. f (quiet w) = f w) \<Longrightarrow> net_robust (exec f)"
  unfolding net_robust_def by (auto simp: io_simps) (metis quiet_net_pop)

lemma robust_exec_count: "(\<And>w. f (quiet w) = f w) \<Longrightarrow> net_robust (exec_count f)"
  unfolding net_robust_def by (auto simp: io_simps) (metis quiet_net_pop)+

lemma robust_insert: "(\<And>k w. f k (quiet w) = f k w) \<Longrightarrow> net_robust (insert_row cur adv dup f)"
  unfolding net_robust_def by (auto simp: io_simps) (metis quiet_net_pop)

lemma robust_now: "net_robust now"
  by (simp add: net_robust_def io_simps)

lemma robust_if: "net_robust m \<Longrightarrow> net_robust n \<Longrightarrow> net_robust (if b then m else n)"
  by simp

lemma robust_option:
  "net_robust m \<Longrightarrow> (\<And>x. net_robust (f x)) \<Longrightarrow> net_robust (case opt of None \<Rightarrow> m | Some x \<Rightarrow> f x)"
  by (simp split: option.split)

lemma robust_prod: "(\<And>x y. net_robust (f x y)) \<Longrightarrow> net_robust (case p of (x, y) \<Rightarrow> f x y)"
  by (simp split: prod.split)

lemma robust_sum:
  "(\<And>e. net_robust (f e)) \<Longrightarrow> (\<And>x. net_robust (g x)) \<Longrightarrow> net_robust (case r of Inl e \<Rightarrow> f e | Inr x \<Rightarrow> g x)"
  by (simp split: sum.split)

lemmas robust_intros = robust_ret robust_throw robust_require robust_andThen robust_on_error robust_when_ok
  robust_query robust_exec robust_exec_count robust_insert robust_now robust_if robust_option
  robust_prod robust_sum

text \<open>
  A command that is one transaction followed by steps that leave the database alone has, under
  any faults, either no effect on the database or exactly its effect in the quiet world.
\<close>

lemma tx_all_or_nothing:
  assumes "net_robust body" "\<And>x. framed same_db (rest x)" "\<And>x. framed same_db (rest' x)"
  shows "w_db (snd (andThen (on_error h (tx_block rep what body)) rest w)) = w_db w \<or>
    w_db (snd (andThen (on_error h (tx_block rep what body)) rest w)) =
    w_db (snd (andThen (on_error h' (tx_block rep what body)) rest' (quiet w)))"
proof -
  obtain r w1 where t: "tx_block rep what body w = (r, w1)" by fastforce
  have db: "w_db (snd (andThen (on_error h (tx_block rep what body)) rest w)) = w_db w1"
  proof (cases r)
    case (Inr x)
    then show ?thesis using t assms(2) [of x]
      by (simp add: andThen_def on_error_def framed_def same_db_def)
  qed (simp add: t andThen_def on_error_def)
  consider (same) "w_db w1 = w_db w" | (full) x w2 where "body (net_pop w) = (Inr x, w2)" "w1 = net_pop w2"
    using tx_atomic [where rep = rep and what = what and body = body and w = w] t by auto
  then show ?thesis
  proof cases
    case same
    then show ?thesis using db by simp
  next
    case full
    then have "body (quiet w) = (Inr x, quiet w2)"
      using assms(1) unfolding net_robust_def by (metis quiet_net_pop)
    then have "tx_block rep what body (quiet w) = (Inr x, quiet w2)"
      using calm_tx [where body = body and w = "quiet w" and r = "Inr x" and v = "quiet w2"] by simp
    then have "w_db (snd (andThen (on_error h' (tx_block rep what body)) rest' (quiet w))) = w_db w2"
      using assms(3) [of x] by (simp add: andThen_def on_error_def framed_def same_db_def)
    then show ?thesis using db full by simp
  qed
qed

text \<open>An operation whose effect on the database, under any faults, is all or nothing.\<close>

definition db_atomic :: "'a io \<Rightarrow> bool" where
  "db_atomic m \<longleftrightarrow> (\<forall>w. w_db (snd (m w)) = w_db w \<or> w_db (snd (m w)) = w_db (snd (m (quiet w))))"

lemma atomic_tx:
  "net_robust body \<Longrightarrow> (\<And>x. framed same_db (rest x)) \<Longrightarrow>
    db_atomic (andThen (on_error h (tx_block rep what body)) rest)"
  unfolding db_atomic_def using tx_all_or_nothing by blast

lemma andThen_ret: "andThen m ret = m"
  by (rule ext) (auto simp: andThen_def ret_def split: prod.splits sum.splits)

lemma atomic_tx_only: "net_robust body \<Longrightarrow> db_atomic (on_error h (tx_block rep what body))"
  using atomic_tx [where rest = ret] by (simp add: andThen_ret db_frame.framed_ret)

lemma atomic_throw: "db_atomic (throw e)"
  by (simp add: db_atomic_def throw_def)

lemma atomic_if: "db_atomic m \<Longrightarrow> db_atomic n \<Longrightarrow> db_atomic (if b then m else n)"
  by simp

lemma atomic_sum:
  "(\<And>e. db_atomic (f e)) \<Longrightarrow> (\<And>x. db_atomic (g x)) \<Longrightarrow> db_atomic (case r of Inl e \<Rightarrow> f e | Inr x \<Rightarrow> g x)"
  by (simp split: sum.split)

lemma atomic_prod: "(\<And>x y. db_atomic (f x y)) \<Longrightarrow> db_atomic (case p of (x, y) \<Rightarrow> f x y)"
  by (simp split: prod.split)

text \<open>A first part that leaves the database alone.\<close>

lemma atomic_after:
  assumes "framed same_db m" "net_robust m" "\<And>x. db_atomic (f x)"
  shows "db_atomic (andThen m f)"
  unfolding db_atomic_def
proof
  fix w
  obtain r w1 where m: "m w = (r, w1)" by fastforce
  have db: "w_db w1 = w_db w"
    using assms(1) m unfolding framed_def same_db_def by (metis snd_conv)
  show "w_db (snd (andThen m f w)) = w_db w \<or> w_db (snd (andThen m f w)) = w_db (snd (andThen m f (quiet w)))"
  proof (cases r)
    case (Inl e)
    then show ?thesis using m db by (simp add: andThen_def)
  next
    case (Inr x)
    then have "m (quiet w) = (Inr x, quiet w1)" using m assms(2) unfolding net_robust_def by blast
    moreover have "w_db (snd (f x w1)) = w_db w1 \<or> w_db (snd (f x w1)) = w_db (snd (f x (quiet w1)))"
      using assms(3) [of x] unfolding db_atomic_def by blast
    ultimately show ?thesis using m db Inr by (simp add: andThen_def)
  qed
qed

lemmas atomic_intros = atomic_tx atomic_tx_only atomic_throw atomic_if atomic_sum atomic_prod atomic_after

subsection \<open>An empty world\<close>

definition empty_db :: db where
  "empty_db = \<lparr>users = [], friend_requests = [], friendships = [], blacklists = [], groups = [],
     group_members = [], group_tombstones = [], cache_events = [], allocators = Map.empty, d_archive = empty_archive\<rparr>"

definition empty_cache :: rel_cache where
  "empty_cache = \<lparr>rc_friend = [], rc_friend_loaded = [], rc_friend_index = [],
     rc_friend_index_loaded = [], rc_blacklist = [], rc_blacklist_loaded = [], rc_group_members = [],
     rc_group_info = [], rc_group_loaded = Map.empty, rc_user_groups = [], rc_reverse_index = [],
     rc_reverse_loaded = [], rc_locks = Map.empty, rc_outbox = (\<lambda>_. []), rc_group_seq = Map.empty\<rparr>"

definition empty_world :: world where
  "empty_world = \<lparr>w_db = empty_db,
     w_auto = \<lparr>ai_users = 1, ai_friend_requests = 1, ai_friendships = 1, ai_blacklist = 1,
               ai_groups = 1, ai_group_members = 1, ai_cache_events = 1, ai_revoked = 1, ai_moments = 1,
               ai_moment_likes = 1, ai_moment_comments = 1, ai_settings = 1\<rparr>,
     w_cache = empty_cache, w_clock = 0, w_rand = 0, w_sent = [], w_net = [], w_ticks = [], w_kv = empty_store, w_files = Map.empty\<rparr>"

lemma empty_world_fields [simp]:
  "w_db empty_world = empty_db" "w_cache empty_world = empty_cache" "w_clock empty_world = 0"
  "w_sent empty_world = []" "w_kv empty_world = empty_store" "w_net empty_world = []" "w_ticks empty_world = []" "calm empty_world"
  by (simp_all add: empty_world_def calm_def)

end
