(* ===== verification/GoBase.thy ===== *)
theory GoBase
  imports World
begin

text \<open>
  The parts of Go the components rely on: signed 64-bit arithmetic (\<open>int64\<close>, \<open>time.Duration\<close>) as
  \<open>64 word\<close> read by \<open>sint\<close>, and strings as byte lists with the UTF-8 decoding of a \<open>for range\<close>
  loop, \<open>utf8.RuneCountInString\<close>, \<open>unicode.IsControl\<close>, \<open>unicode.IsSpace\<close> and
  \<open>strings.TrimSpace\<close>.
\<close>

subsection \<open>Signed 64-bit integers\<close>

type_synonym int64 = "64 word"

lemma sint64_range: "- (2 ^ 63) \<le> sint (a :: int64)" "sint (a :: int64) < 2 ^ 63"
  using sint_greater_eq [of a] sint_less [of a] by simp_all

lemma sint64_add:
  assumes "- (2 ^ 63) \<le> sint a + sint b" "sint a + sint b < 2 ^ 63"
  shows "sint (a + b :: int64) = sint a + sint b"
  using assms by (simp add: sint_word_ariths signed_take_bit_int_eq_self)

lemma sint64_sub:
  assumes "- (2 ^ 63) \<le> sint a - sint b" "sint a - sint b < 2 ^ 63"
  shows "sint (a - b :: int64) = sint a - sint b"
  using assms by (simp add: sint_word_ariths signed_take_bit_int_eq_self)

lemma sint64_mult:
  assumes "- (2 ^ 63) \<le> sint a * sint b" "sint a * sint b < 2 ^ 63"
  shows "sint (a * b :: int64) = sint a * sint b"
  using assms by (simp add: sint_word_ariths signed_take_bit_int_eq_self)

lemma sint64_of_int:
  assumes "- (2 ^ 63) \<le> k" "k < 2 ^ 63"
  shows "sint (word_of_int k :: int64) = k"
  using assms by (simp add: sint_uint unsigned_of_int signed_take_bit_take_bit
      signed_take_bit_int_eq_self)

lemma sint64_one [simp]: "sint (1 :: int64) = 1"
  by simp

lemma sint64_zero_iff: "sint (a :: int64) = 0 \<longleftrightarrow> a = 0"
  by (metis signed_0 word_eq_iff_signed)

subsection \<open>UTF-8\<close>

definition byte :: "char \<Rightarrow> int" where
  "byte c = of_char c"

definition cont :: "int \<Rightarrow> int \<Rightarrow> char \<Rightarrow> bool" where
  "cont lo hi c = (lo \<le> byte c \<and> byte c \<le> hi)"

definition rune_error :: int where "rune_error = 65533"

text \<open>
  \<open>utf8.DecodeRuneInString\<close> on a non-empty string: the rune and its width. An invalid encoding
  is the error rune with width 1; the ranges of the second byte exclude overlong forms,
  surrogates and values above U+10FFFF.
\<close>

definition second_range :: "int \<Rightarrow> int \<times> int" where
  "second_range b0 =
     (if b0 = 224 then (160, 191) else if b0 = 237 then (128, 159)
      else if b0 = 240 then (144, 191) else if b0 = 244 then (128, 143) else (128, 191))"

fun decode_rune :: "string \<Rightarrow> int \<times> nat" where
  "decode_rune [] = (rune_error, 0)"
| "decode_rune (c # cs) =
    (let b0 = byte c; (lo, hi) = second_range b0 in
     if b0 < 128 then (b0, 1)
     else if 194 \<le> b0 \<and> b0 \<le> 223 then
       (case cs of c1 # _ \<Rightarrow> if cont lo hi c1 then ((b0 - 192) * 64 + (byte c1 - 128), 2) else (rune_error, 1)
         | _ \<Rightarrow> (rune_error, 1))
     else if 224 \<le> b0 \<and> b0 \<le> 239 then
       (case cs of c1 # c2 # _ \<Rightarrow>
           if cont lo hi c1 \<and> cont 128 191 c2
           then ((b0 - 224) * 4096 + (byte c1 - 128) * 64 + (byte c2 - 128), 3) else (rune_error, 1)
         | _ \<Rightarrow> (rune_error, 1))
     else if 240 \<le> b0 \<and> b0 \<le> 244 then
       (case cs of c1 # c2 # c3 # _ \<Rightarrow>
           if cont lo hi c1 \<and> cont 128 191 c2 \<and> cont 128 191 c3
           then ((b0 - 240) * 262144 + (byte c1 - 128) * 4096 + (byte c2 - 128) * 64 + (byte c3 - 128), 4)
           else (rune_error, 1)
         | _ \<Rightarrow> (rune_error, 1))
     else (rune_error, 1))"

lemma decode_rune_width: "s \<noteq> [] \<Longrightarrow> 0 < snd (decode_rune s)"
  by (cases s) (auto simp: Let_def split: prod.splits list.splits)

text \<open>The runes a \<open>for range\<close> loop sees, each with the bytes it was decoded from.\<close>

function segments :: "string \<Rightarrow> (int \<times> string) list" where
  "segments s = (if s = [] then []
     else (let (r, n) = decode_rune s in (r, take n s) # segments (drop n s)))"
  by auto
termination
  by (relation "measure length") (auto, metis Pair_inject decode_rune_width diff_less length_greater_0_conv prod.collapse snd_conv)

declare segments.simps [simp del]

lemma segments_Nil [simp]: "segments [] = []"
  by (simp add: segments.simps)

lemma concat_segments [simp]: "concat (map snd (segments s)) = s"
proof (induction s rule: segments.induct)
  case (1 s)
  show ?case
  proof (cases "s = []")
    case False
    obtain r n where d: "decode_rune s = (r, n)" by fastforce
    have "concat (map snd (segments s)) = take n s @ concat (map snd (segments (drop n s)))"
      using False d by (subst segments.simps) simp
    also have "\<dots> = take n s @ drop n s"
      using 1 [OF False refl d [symmetric]] d by simp
    finally show ?thesis by simp
  qed simp
qed

definition runes :: "string \<Rightarrow> int list" where
  "runes s = map fst (segments s)"

definition rune_count :: "string \<Rightarrow> int" where
  "rune_count s = int (length (segments s))"

definition is_control :: "int \<Rightarrow> bool" where
  "is_control r = ((0 \<le> r \<and> r < 32) \<or> (127 \<le> r \<and> r < 160))"

definition is_space :: "int \<Rightarrow> bool" where
  "is_space r = (r \<in> {9, 10, 11, 12, 13, 32, 133, 160, 5760, 8232, 8233, 8239, 8287, 12288}
                 \<or> (8192 \<le> r \<and> r \<le> 8202))"

definition space_seg :: "int \<times> string \<Rightarrow> bool" where
  "space_seg p = is_space (fst p)"

definition trim_segments :: "(int \<times> string) list \<Rightarrow> (int \<times> string) list" where
  "trim_segments ss = rev (dropWhile space_seg (rev (dropWhile space_seg ss)))"

definition trim_space :: "string \<Rightarrow> string" where
  "trim_space s = concat (map snd (trim_segments (segments s)))"

lemma length_trim_segments: "length (trim_segments ss) \<le> length ss"
  by (metis (no_types) dual_order.trans length_dropWhile_le length_rev trim_segments_def)

lemma trim_segments_infix: "\<exists>as bs. ss = as @ trim_segments ss @ bs"
proof -
  let ?d = "dropWhile space_seg ss"
  have "ss = takeWhile space_seg ss @ ?d" by simp
  moreover have "?d = rev (dropWhile space_seg (rev ?d)) @ rev (takeWhile space_seg (rev ?d))"
    by (metis rev_append rev_rev_ident takeWhile_dropWhile_id)
  ultimately show ?thesis unfolding trim_segments_def by metis
qed

lemma set_trim_segments: "set (trim_segments ss) \<subseteq> set ss"
  using trim_segments_infix [of ss] by (metis UnCI set_append subsetI)

lemma length_trim_space: "length (trim_space s) \<le> length s"
proof -
  obtain as bs where "segments s = as @ trim_segments (segments s) @ bs"
    using trim_segments_infix by metis
  then have "s = concat (map snd as) @ trim_space s @ concat (map snd bs)"
    unfolding trim_space_def by (metis concat_append concat_segments map_append)
  then show ?thesis by (metis le_add1 le_add2 length_append order_trans)
qed

lemma trim_space_no_edge:
  "trim_segments ss \<noteq> [] \<Longrightarrow> \<not> space_seg (hd (trim_segments ss)) \<and> \<not> space_seg (last (trim_segments ss))"
proof -
  assume ne: "trim_segments ss \<noteq> []"
  let ?d = "dropWhile space_seg ss"
  let ?e = "dropWhile space_seg (rev ?d)"
  have e: "?e \<noteq> []" using ne by (simp add: trim_segments_def)
  have last: "\<not> space_seg (last (trim_segments ss))"
    unfolding trim_segments_def last_rev [of ?e] using hd_dropWhile [OF e] by metis
  obtain zs where "rev ?d = zs @ ?e"
    by (metis takeWhile_dropWhile_id)
  then have "?d = rev ?e @ rev zs" by (metis rev_append rev_rev_ident)
  then have "hd ?d = hd (rev ?e)" using e by (metis hd_append2 rev_is_Nil_conv)
  moreover have "?d \<noteq> []" using e by (metis dropWhile.simps(1) rev.simps(1))
  ultimately have "\<not> space_seg (hd (rev ?e))" using hd_dropWhile by metis
  then show ?thesis using last by (simp add: trim_segments_def)
qed

end
