(* ===== verification/MessageId.thy ===== *)
theory MessageId
  imports GoBase
begin

text \<open>
  \<open>internal/messageid\<close>: the segment store over the row of \<open>message_id_allocators\<close>
  (\<open>mysql_store.go\<close>) and the generator that serves IDs from a reserved segment
  (\<open>generator.go\<close>). IDs are \<open>64 word\<close> with Go's signed comparison; \<open>sint\<close> reads them. The locale
  \<open>segment_store\<close> is the contract of Go's \<open>SegmentStore\<close> interface, \<open>id_step\<close> a system of
  processes that share one store, start, crash and fail.
\<close>

definition MaxID :: int64 where "MaxID = push_bit 53 1 - 1"
definition DefaultSegmentSize :: int64 where "DefaultSegmentSize = 65536"
definition MaxSegmentSize :: int64 where "MaxSegmentSize = 1000000"

lemma sint_MaxID: "sint MaxID = 9007199254740991"
  by (simp add: MaxID_def)

lemma sint_sizes: "sint DefaultSegmentSize = 65536" "sint MaxSegmentSize = 1000000"
  by (simp_all add: DefaultSegmentSize_def MaxSegmentSize_def)

record segment =
  First :: int64
  Last :: int64

subsection \<open>The generator\<close>

record generator =
  gen_segment_size :: int64
  gen_next :: int64
  gen_last :: int64

definition new_generator :: "bool \<Rightarrow> int64 \<Rightarrow> go_error + generator" where
  "new_generator store_is_nil sz =
     (if store_is_nil then Inl (PlainErr ''message ID segment store is nil'')
      else let segment_size = (if sz = 0 then DefaultSegmentSize else sz) in
        if sint segment_size < 1 \<or> sint segment_size > sint MaxSegmentSize
        then Inl (PlainErr ''message ID segment size out of range'')
        else Inr \<lparr>gen_segment_size = segment_size, gen_next = 0, gen_last = 0\<rparr>)"

definition validate_segment :: "segment \<Rightarrow> int64 \<Rightarrow> go_error option" where
  "validate_segment segment expected_size =
     (if sint (First segment) < 1 \<or> sint (Last segment) < sint (First segment)
         \<or> sint (Last segment) > sint MaxID
      then Some (WrapErr ''bounds'' (Sentinel ErrInvalidSegment))
      else let actual_size = Last segment - First segment + 1 in
        if sint actual_size > sint expected_size
        then Some (WrapErr ''size'' (Sentinel ErrInvalidSegment))
        else None)"

text \<open>
  \<open>Next\<close>. The two readings of \<open>ctx.Err()\<close>, before and after the mutex is taken, are arguments. The
  mutex makes one call a single step for the other goroutines of the process.
\<close>

definition next_id ::
  "(int64 \<Rightarrow> 's \<Rightarrow> (go_error + segment) \<times> 's) \<Rightarrow> go_error option \<Rightarrow> go_error option \<Rightarrow>
   generator \<Rightarrow> 's \<Rightarrow> (go_error + int64) \<times> generator \<times> 's" where
  "next_id reserve ctx_before ctx_locked g s =
     (case ctx_before of Some e \<Rightarrow> (Inl e, g, s) | None \<Rightarrow>
      (case ctx_locked of Some e \<Rightarrow> (Inl e, g, s) | None \<Rightarrow>
       if gen_next g = 0 \<or> sint (gen_next g) > sint (gen_last g)
       then (case reserve (gen_segment_size g) s of
               (Inl e, s') \<Rightarrow> (Inl (WrapErr ''reserve message ID segment'' e), g, s')
             | (Inr segment, s') \<Rightarrow>
                 (case validate_segment segment (gen_segment_size g) of
                    Some e \<Rightarrow> (Inl e, g, s')
                  | None \<Rightarrow> (Inr (First segment),
                      g\<lparr>gen_next := First segment + 1, gen_last := Last segment\<rparr>, s')))
       else (Inr (gen_next g), g\<lparr>gen_next := gen_next g + 1\<rparr>, s)))"

subsection \<open>The MySQL store\<close>

record mysql_store =
  ms_namespace :: string
  ms_timeout :: int

definition new_mysql_store :: "bool \<Rightarrow> string \<Rightarrow> int \<Rightarrow> go_error + mysql_store" where
  "new_mysql_store db_is_nil namespace timeout =
     (if db_is_nil then Inl (PlainErr ''message ID MySQL handle is nil'')
      else let ns = trim_space namespace in
        if ns = [] \<or> length ns > 64
        then Inl (PlainErr ''message ID namespace must contain 1 to 64 bytes'')
        else if timeout < 0 then Inl (PlainErr ''message ID MySQL timeout must not be negative'')
        else Inr \<lparr>ms_namespace = ns, ms_timeout = (if timeout = 0 then 3 * second else timeout)\<rparr>)"

definition select_next_id :: "string \<Rightarrow> int64 option io" where
  "select_next_id namespace = query (\<lambda>d. allocators d namespace)"

definition store_validate :: "mysql_store \<Rightarrow> unit io" where
  "store_validate st =
     andThen (on_error (WrapErr ''validate message ID allocator'') (select_next_id (ms_namespace st)))
       (\<lambda>row. case row of
          None \<Rightarrow> throw (PlainErr ''message ID namespace is not initialized; run migrations'')
        | Some nxt \<Rightarrow>
            if sint nxt < 1 then throw (PlainErr ''validate message ID allocator: invalid next_id'')
            else if sint nxt > sint MaxID then throw (Sentinel ErrIDExhausted)
            else ret ())"

definition update_next_id :: "string \<Rightarrow> int64 \<Rightarrow> int io" where
  "update_next_id namespace nxt = exec_count (\<lambda>w d.
     case allocators d namespace of
       None \<Rightarrow> (0, d)
     | Some _ \<Rightarrow> (1, d\<lparr>allocators := (allocators d)(namespace \<mapsto> nxt)\<rparr>))"

text \<open>The statements between BEGIN and COMMIT of \<open>Reserve\<close>.\<close>

definition reserve_body :: "mysql_store \<Rightarrow> int64 \<Rightarrow> segment io" where
  "reserve_body st sz =
     andThen (on_error (WrapErr ''lock message ID allocator'') (select_next_id (ms_namespace st)))
       (\<lambda>row. case row of
          None \<Rightarrow> throw (PlainErr ''message ID namespace is not initialized; run migrations'')
        | Some first \<Rightarrow>
            if sint first < 1 \<or> sint first > sint MaxID then throw (Sentinel ErrIDExhausted)
            else
              let remaining = MaxID - first + 1;
                  take_n = (if sint sz > sint remaining then remaining else sz);
                  seg_last = first + take_n - 1;
                  nxt = seg_last + 1
              in andThen (on_error (WrapErr ''advance message ID allocator'')
                            (update_next_id (ms_namespace st) nxt))
                  (\<lambda>rows. andThen (require (rows = 1) (PlainErr ''advance message ID allocator: updated rows''))
                  (\<lambda>_. ret \<lparr>First = first, Last = seg_last\<rparr>)))"

definition reserve :: "mysql_store \<Rightarrow> int64 \<Rightarrow> segment io" where
  "reserve st sz =
     (if sint sz < 1 \<or> sint sz > sint MaxSegmentSize
      then throw (PlainErr ''message ID segment size out of range'')
      else deferred_tx ''message ID reservation'' (reserve_body st sz))"

subsection \<open>What a reservation does\<close>

lemma reserve_body_ok:
  assumes "reserve_body st sz w = (Inr seg, w')" "1 \<le> sint sz"
  obtains f n where "allocators (w_db w) (ms_namespace st) = Some f"
    "1 \<le> sint f" "sint f \<le> sint MaxID" "First seg = f"
    "sint (Last seg) = min (sint MaxID) (sint f + sint sz - 1)"
    "sint n = sint (Last seg) + 1"
    "w_db w' = (w_db w)\<lparr>allocators := (allocators (w_db w))(ms_namespace st \<mapsto> n)\<rparr>"
proof -
  from assms(1) obtain f where f: "allocators (w_db w) (ms_namespace st) = Some f"
    and rng: "1 \<le> sint f" "sint f \<le> sint MaxID"
    by (auto simp: reserve_body_def select_next_id_def io_simps split: option.splits if_splits)
  define take_n where "take_n = (if sint sz > sint (MaxID - f + 1) then MaxID - f + 1 else sz)"
  define l where "l = f + take_n - 1"
  from assms(1) f rng have seg: "seg = \<lparr>First = f, Last = l\<rparr>"
    and w': "w_db w' = (w_db w)\<lparr>allocators := (allocators (w_db w))(ms_namespace st \<mapsto> l + 1)\<rparr>"
    by (auto simp: reserve_body_def select_next_id_def update_next_id_def io_simps Let_def
        l_def take_n_def split: option.splits if_splits)
  have rem: "sint (MaxID - f + 1) = sint MaxID - sint f + 1"
    using rng by (simp add: sint64_add sint64_sub sint_MaxID)
  have take: "sint take_n = min (sint sz) (sint MaxID - sint f + 1)" "1 \<le> sint take_n"
    using rem assms(2) rng by (auto simp: take_n_def)
  have ft: "sint (f + take_n) = sint f + sint take_n"
    using take rng by (auto simp: sint64_add sint_MaxID)
  then have l: "sint l = sint f + sint take_n - 1"
    using take rng by (auto simp: l_def sint64_sub sint_MaxID)
  then have lm: "sint l = min (sint MaxID) (sint f + sint sz - 1)"
    using take by auto
  moreover have "sint (l + 1) = sint l + 1"
    using lm rng assms(2) by (simp add: sint64_add sint_MaxID)
  ultimately show thesis using that [of f "l + 1"] f rng seg w' by simp
qed

text \<open>The durable high-water mark of a namespace; 0 while its row does not exist.\<close>

definition high_water :: "string \<Rightarrow> world \<Rightarrow> int" where
  "high_water namespace w =
     (case allocators (w_db w) namespace of None \<Rightarrow> 0 | Some n \<Rightarrow> sint n)"

lemma high_water_net_pop [simp]: "high_water ns (net_pop w) = high_water ns w"
  by (simp add: high_water_def)

lemma reserve_body_mark:
  assumes "reserve_body st sz w = (Inr seg, w')" "1 \<le> sint sz"
  shows "high_water (ms_namespace st) w = sint (First seg)"
    and "high_water (ms_namespace st) w' = sint (Last seg) + 1"
    and "sint (First seg) \<le> sint (Last seg)"
proof -
  obtain f n where r: "allocators (w_db w) (ms_namespace st) = Some f"
    "1 \<le> sint f" "sint f \<le> sint MaxID" "First seg = f"
    "sint (Last seg) = min (sint MaxID) (sint f + sint sz - 1)" "sint n = sint (Last seg) + 1"
    "w_db w' = (w_db w)\<lparr>allocators := (allocators (w_db w))(ms_namespace st \<mapsto> n)\<rparr>"
    using reserve_body_ok [OF assms] .
  then show "high_water (ms_namespace st) w = sint (First seg)"
    "high_water (ms_namespace st) w' = sint (Last seg) + 1"
    "sint (First seg) \<le> sint (Last seg)"
    using assms(2) by (auto simp: high_water_def)
qed

lemma reserve_ok:
  assumes "reserve st sz w = (Inr seg, w')"
  shows "1 \<le> sint sz" "\<exists>w1. reserve_body st sz (net_pop w) = (Inr seg, w1) \<and> w' = net_pop w1"
  using assms by (auto simp: reserve_def io_simps split: if_splits)

lemma reserve_high_water_mono: "high_water (ms_namespace st) w \<le> high_water (ms_namespace st) (snd (reserve st sz w))"
proof (cases "sint sz < 1 \<or> sint sz > sint MaxSegmentSize")
  case True
  then show ?thesis by (simp add: reserve_def throw_def)
next
  case False
  have "w_db (snd (deferred_tx what (reserve_body st sz) w)) = w_db w \<or>
    (\<exists>x w1. reserve_body st sz (net_pop w) = (Inr x, w1) \<and>
       snd (deferred_tx what (reserve_body st sz) w) = net_pop w1)" for what
    by (rule tx_atomic)
  then show ?thesis
  proof (rule disjE)
    fix what
    assume "w_db (snd (deferred_tx ''message ID reservation'' (reserve_body st sz) w)) = w_db w"
    then show ?thesis using False by (simp add: reserve_def high_water_def)
  next
    assume "\<exists>x w1. reserve_body st sz (net_pop w) = (Inr x, w1) \<and>
      snd (deferred_tx ''message ID reservation'' (reserve_body st sz) w) = net_pop w1"
    then obtain x w1 where b: "reserve_body st sz (net_pop w) = (Inr x, w1)"
      "snd (deferred_tx ''message ID reservation'' (reserve_body st sz) w) = net_pop w1" by blast
    then have "high_water (ms_namespace st) w \<le> high_water (ms_namespace st) w1"
      using reserve_body_mark [OF b(1)] False by simp
    then show ?thesis using False b(2) by (simp add: reserve_def)
  qed
qed

subsection \<open>The contract of a segment store\<close>

text \<open>
  \<open>SegmentStore must never return overlapping committed segments\<close>: a reservation starts at or
  above the mark and leaves the mark above its last ID; the mark never falls, neither by a
  reservation (even one that reports an error) nor by what else happens to the store.
\<close>

locale segment_store =
  fixes store_reserve :: "int64 \<Rightarrow> 's \<Rightarrow> (go_error + segment) \<times> 's"
    and mark :: "'s \<Rightarrow> int"
    and env :: "'s \<Rightarrow> 's \<Rightarrow> bool"
  assumes reserve_fresh: "store_reserve n s = (Inr seg, s') \<Longrightarrow>
            mark s \<le> sint (First seg) \<and> sint (Last seg) < mark s'"
    and reserve_mono: "mark s \<le> mark (snd (store_reserve n s))"
    and env_mono: "env s s' \<Longrightarrow> mark s \<le> mark s'"

subsection \<open>Processes sharing a store\<close>

record 's id_system =
  procs :: "generator option list"
  store :: 's
  issued :: "(nat \<times> int64) list"

text \<open>
  A step: a process starts (with any accepted segment size), asks for an ID (the call may fail
  in any way), crashes and loses its segment, or something else happens to the store.
\<close>

inductive id_step ::
  "(int64 \<Rightarrow> 's \<Rightarrow> (go_error + segment) \<times> 's) \<Rightarrow> ('s \<Rightarrow> 's \<Rightarrow> bool) \<Rightarrow>
   's id_system \<Rightarrow> 's id_system \<Rightarrow> bool"
  for rsv env where
  start: "i < length (procs \<sigma>) \<Longrightarrow> new_generator False sz = Inr g \<Longrightarrow>
    id_step rsv env \<sigma> (\<sigma>\<lparr>procs := (procs \<sigma>)[i := Some g]\<rparr>)"
| crash: "i < length (procs \<sigma>) \<Longrightarrow> id_step rsv env \<sigma> (\<sigma>\<lparr>procs := (procs \<sigma>)[i := None]\<rparr>)"
| issue: "i < length (procs \<sigma>) \<Longrightarrow> procs \<sigma> ! i = Some g \<Longrightarrow>
    next_id rsv cb cl g (store \<sigma>) = (Inr k, g', s') \<Longrightarrow>
    id_step rsv env \<sigma> (\<sigma>\<lparr>procs := (procs \<sigma>)[i := Some g'], store := s', issued := issued \<sigma> @ [(i, k)]\<rparr>)"
| refuse: "i < length (procs \<sigma>) \<Longrightarrow> procs \<sigma> ! i = Some g \<Longrightarrow>
    next_id rsv cb cl g (store \<sigma>) = (Inl e, g', s') \<Longrightarrow>
    id_step rsv env \<sigma> (\<sigma>\<lparr>procs := (procs \<sigma>)[i := Some g'], store := s'\<rparr>)"
| outside: "env (store \<sigma>) s' \<Longrightarrow> id_step rsv env \<sigma> (\<sigma>\<lparr>store := s'\<rparr>)"

inductive_cases id_stepE: "id_step rsv env \<sigma> \<sigma>'"

definition initial_system :: "nat \<Rightarrow> 's \<Rightarrow> 's id_system" where
  "initial_system n s = \<lparr>procs = replicate n None, store = s, issued = []\<rparr>"

inductive reachable :: "('s id_system \<Rightarrow> 's id_system \<Rightarrow> bool) \<Rightarrow> 's id_system \<Rightarrow> 's id_system \<Rightarrow> bool"
  for stp where
  refl: "reachable stp \<sigma> \<sigma>"
| step: "reachable stp \<sigma> \<sigma>' \<Longrightarrow> stp \<sigma>' \<sigma>'' \<Longrightarrow> reachable stp \<sigma> \<sigma>''"

text \<open>The IDs a generator has reserved and not yet handed out.\<close>

definition remaining :: "generator \<Rightarrow> int set" where
  "remaining g = (if gen_next g = 0 then {} else {sint (gen_next g)..sint (gen_last g)})"

definition issued_ids :: "'s id_system \<Rightarrow> int list" where
  "issued_ids \<sigma> = map (\<lambda>p. sint (snd p)) (issued \<sigma>)"

text \<open>
  The invariant: issued IDs are distinct, in range and below the mark; so are the IDs held by
  the running processes, which no two processes share and none of which was issued.
\<close>

definition id_inv :: "('s \<Rightarrow> int) \<Rightarrow> 's id_system \<Rightarrow> bool" where
  "id_inv mark \<sigma> \<longleftrightarrow>
     distinct (issued_ids \<sigma>) \<and>
     (\<forall>k\<in>set (issued_ids \<sigma>). 1 \<le> k \<and> k \<le> sint MaxID \<and> k < mark (store \<sigma>)) \<and>
     (\<forall>i<length (procs \<sigma>). \<forall>g. procs \<sigma> ! i = Some g \<longrightarrow>
        (\<forall>k\<in>remaining g. 1 \<le> k \<and> k \<le> sint MaxID \<and> k < mark (store \<sigma>) \<and> k \<notin> set (issued_ids \<sigma>))) \<and>
     (\<forall>i<length (procs \<sigma>). \<forall>j<length (procs \<sigma>). \<forall>g h. i \<noteq> j \<longrightarrow>
        procs \<sigma> ! i = Some g \<longrightarrow> procs \<sigma> ! j = Some h \<longrightarrow> remaining g \<inter> remaining h = {})"

lemma new_generator_remaining: "new_generator b sz = Inr g \<Longrightarrow> remaining g = {}"
  by (auto simp: new_generator_def remaining_def Let_def split: if_splits)

lemma validate_segment_None:
  "validate_segment seg n = None \<Longrightarrow>
     1 \<le> sint (First seg) \<and> sint (First seg) \<le> sint (Last seg) \<and> sint (Last seg) \<le> sint MaxID"
  by (auto simp: validate_segment_def Let_def split: if_splits)

text \<open>
  One call of \<open>Next\<close>: an issued ID either comes from what the generator holds, or is the first of
  a fresh segment; the generator keeps exactly the rest.
\<close>

lemma next_id_ok:
  assumes "next_id rsv c1 c2 g s = (Inr k, g', s')"
    and "\<And>j. j \<in> remaining g \<Longrightarrow> 1 \<le> j \<and> j \<le> sint MaxID"
  shows "(s' = s \<and> sint k \<in> remaining g \<and> remaining g' = remaining g - {sint k}) \<or>
    (\<exists>n seg. rsv n s = (Inr seg, s') \<and> k = First seg \<and> 1 \<le> sint k \<and> sint k \<le> sint (Last seg) \<and>
       sint (Last seg) \<le> sint MaxID \<and> remaining g' = {sint k + 1..sint (Last seg)})"
proof (cases "gen_next g = 0 \<or> sint (gen_next g) > sint (gen_last g)")
  case False
  then have k: "k = gen_next g" "g' = g\<lparr>gen_next := gen_next g + 1\<rparr>" "s' = s"
    using assms(1) by (auto simp: next_id_def split: option.splits)
  have in_rem: "sint k \<in> remaining g" using False k by (simp add: remaining_def)
  with assms(2) have r: "1 \<le> sint k" "sint k \<le> sint MaxID" by auto
  then have plus: "sint (gen_next g + 1) = sint k + 1" using k by (simp add: sint64_add sint_MaxID)
  then have nz: "gen_next g + 1 \<noteq> 0" using r by (metis sint64_zero_iff add_nonneg_pos less_numeral_extra(3) order_trans zero_le_one zero_less_one)
  have "remaining g' = {sint k + 1..sint (gen_last g)}" using k plus nz by (simp add: remaining_def)
  moreover have "remaining g = {sint k..sint (gen_last g)}" using False k by (simp add: remaining_def)
  ultimately show ?thesis using k in_rem by auto
next
  case True
  then obtain seg where seg: "rsv (gen_segment_size g) s = (Inr seg, s')"
    "validate_segment seg (gen_segment_size g) = None" "k = First seg"
    "g' = g\<lparr>gen_next := First seg + 1, gen_last := Last seg\<rparr>"
    using assms(1) by (auto simp: next_id_def split: option.splits prod.splits sum.splits if_splits)
  note v = validate_segment_None [OF seg(2)]
  then have plus: "sint (First seg + 1) = sint k + 1" using seg(3) by (simp add: sint64_add sint_MaxID)
  then have nz: "First seg + 1 \<noteq> 0" using v seg(3) by (metis sint64_zero_iff add_nonneg_pos less_numeral_extra(3) order_trans zero_le_one zero_less_one)
  have "remaining g' = {sint k + 1..sint (Last seg)}" using seg plus nz by (simp add: remaining_def)
  then show ?thesis using seg(1,3) v by auto
qed

lemma next_id_err:
  assumes "next_id rsv c1 c2 g s = (Inl e, g', s')"
  shows "g' = g \<and> (s' = s \<or> s' = snd (rsv (gen_segment_size g) s))"
  using assms by (auto simp: next_id_def split: option.splits prod.splits sum.splits if_splits)

lemma id_inv_issued:
  "id_inv mark \<sigma> \<Longrightarrow> k \<in> set (issued_ids \<sigma>) \<Longrightarrow> 1 \<le> k \<and> k \<le> sint MaxID \<and> k < mark (store \<sigma>)"
  by (simp add: id_inv_def)

lemma id_inv_held:
  "id_inv mark \<sigma> \<Longrightarrow> i < length (procs \<sigma>) \<Longrightarrow> procs \<sigma> ! i = Some g \<Longrightarrow> k \<in> remaining g \<Longrightarrow>
     1 \<le> k \<and> k \<le> sint MaxID \<and> k < mark (store \<sigma>) \<and> k \<notin> set (issued_ids \<sigma>)"
  by (simp add: id_inv_def)

lemma id_inv_disjoint:
  "id_inv mark \<sigma> \<Longrightarrow> i < length (procs \<sigma>) \<Longrightarrow> j < length (procs \<sigma>) \<Longrightarrow> i \<noteq> j \<Longrightarrow>
     procs \<sigma> ! i = Some g \<Longrightarrow> procs \<sigma> ! j = Some h \<Longrightarrow> k \<in> remaining g \<Longrightarrow> k \<notin> remaining h"
  unfolding id_inv_def by (metis disjoint_iff)

text \<open>Replacing one process while IDs may be issued and the store may move on.\<close>

lemma id_inv_replace:
  assumes inv: "id_inv mark \<sigma>" and i: "i < length (procs \<sigma>)"
    and mono: "mark (store \<sigma>) \<le> mark s'"
    and rem: "\<And>g k. p = Some g \<Longrightarrow> k \<in> remaining g \<Longrightarrow>
       1 \<le> k \<and> k \<le> sint MaxID \<and> k < mark s' \<and> k \<notin> set (issued_ids \<sigma>) \<and> k \<notin> set (map (\<lambda>q. sint (snd q)) new)"
    and disj: "\<And>g j h k. p = Some g \<Longrightarrow> j < length (procs \<sigma>) \<Longrightarrow> j \<noteq> i \<Longrightarrow> procs \<sigma> ! j = Some h \<Longrightarrow>
       k \<in> remaining g \<Longrightarrow> k \<notin> remaining h"
    and new: "length new \<le> 1" "\<And>k. k \<in> set (map (\<lambda>q. sint (snd q)) new) \<Longrightarrow>
       1 \<le> k \<and> k \<le> sint MaxID \<and> k < mark s' \<and> k \<notin> set (issued_ids \<sigma>)"
    and new_disj: "\<And>k j h. k \<in> set (map (\<lambda>q. sint (snd q)) new) \<Longrightarrow> j < length (procs \<sigma>) \<Longrightarrow> j \<noteq> i \<Longrightarrow>
       procs \<sigma> ! j = Some h \<Longrightarrow> k \<notin> remaining h"
  shows "id_inv mark (\<sigma>\<lparr>procs := (procs \<sigma>)[i := p], store := s', issued := issued \<sigma> @ new\<rparr>)"
proof -
  let ?new = "map (\<lambda>q. sint (snd q)) new"
  let ?\<sigma>' = "\<sigma>\<lparr>procs := (procs \<sigma>)[i := p], store := s', issued := issued \<sigma> @ new\<rparr>"
  have ids: "issued_ids ?\<sigma>' = issued_ids \<sigma> @ ?new" by (simp add: issued_ids_def)
  have dn: "distinct ?new" using new(1) by (cases new) auto
  have "distinct (issued_ids ?\<sigma>')"
    using inv dn new(2) unfolding ids id_inv_def by auto
  moreover have "\<forall>k\<in>set (issued_ids ?\<sigma>'). 1 \<le> k \<and> k \<le> sint MaxID \<and> k < mark (store ?\<sigma>')"
    using id_inv_issued [OF inv] mono new(2) unfolding ids by (fastforce dest: order_less_le_trans)
  moreover have "1 \<le> k \<and> k \<le> sint MaxID \<and> k < mark (store ?\<sigma>') \<and> k \<notin> set (issued_ids ?\<sigma>')"
    if j: "j < length (procs ?\<sigma>')" "procs ?\<sigma>' ! j = Some g" and k: "k \<in> remaining g" for j g k
  proof (cases "j = i")
    case True
    then have "p = Some g" using j i by simp
    then show ?thesis using rem k unfolding ids by auto
  next
    case False
    then have jp: "j < length (procs \<sigma>)" "procs \<sigma> ! j = Some g" using j by auto
    then have "1 \<le> k \<and> k \<le> sint MaxID \<and> k < mark (store \<sigma>) \<and> k \<notin> set (issued_ids \<sigma>)"
      using id_inv_held [OF inv] k by blast
    then show ?thesis using mono new_disj [OF _ jp(1) False jp(2)] k unfolding ids by auto
  qed
  moreover have "k \<notin> remaining h"
    if ab: "a < length (procs ?\<sigma>')" "b < length (procs ?\<sigma>')" "a \<noteq> b"
      "procs ?\<sigma>' ! a = Some g" "procs ?\<sigma>' ! b = Some h" and k: "k \<in> remaining g" for a b g h k
  proof -
    consider "a = i" | "b = i" | "a \<noteq> i" "b \<noteq> i" by blast
    then show ?thesis
    proof cases
      case 1
      with ab i have "p = Some g" "b < length (procs \<sigma>)" "b \<noteq> i" "procs \<sigma> ! b = Some h" by auto
      then show ?thesis using disj k by blast
    next
      case 2
      with ab i have "p = Some h" "a < length (procs \<sigma>)" "a \<noteq> i" "procs \<sigma> ! a = Some g" by auto
      then show ?thesis using disj k by blast
    next
      case 3
      with ab have "a < length (procs \<sigma>)" "b < length (procs \<sigma>)" "procs \<sigma> ! a = Some g" "procs \<sigma> ! b = Some h"
        by auto
      then show ?thesis using id_inv_disjoint [OF inv] ab(3) k by blast
    qed
  qed
  ultimately show ?thesis unfolding id_inv_def disjoint_iff by blast
qed

lemma id_inv_store:
  assumes inv: "id_inv mark \<sigma>" and mono: "mark (store \<sigma>) \<le> mark s'"
  shows "id_inv mark (\<sigma>\<lparr>store := s'\<rparr>)"
proof -
  let ?\<sigma>' = "\<sigma>\<lparr>store := s'\<rparr>"
  have ids: "issued_ids ?\<sigma>' = issued_ids \<sigma>" by (simp add: issued_ids_def)
  have up: "k < mark (store \<sigma>) \<Longrightarrow> k < mark s'" for k using mono by linarith
  have "distinct (issued_ids ?\<sigma>')" using inv unfolding ids by (simp add: id_inv_def)
  moreover have "\<forall>k\<in>set (issued_ids ?\<sigma>'). 1 \<le> k \<and> k \<le> sint MaxID \<and> k < mark (store ?\<sigma>')"
    using id_inv_issued [OF inv] up unfolding ids by simp
  moreover have "\<forall>i<length (procs ?\<sigma>'). \<forall>g. procs ?\<sigma>' ! i = Some g \<longrightarrow> (\<forall>k\<in>remaining g.
      1 \<le> k \<and> k \<le> sint MaxID \<and> k < mark (store ?\<sigma>') \<and> k \<notin> set (issued_ids ?\<sigma>'))"
    using id_inv_held [OF inv] up unfolding ids by simp
  moreover have "\<forall>i<length (procs ?\<sigma>'). \<forall>j<length (procs ?\<sigma>'). \<forall>g h. i \<noteq> j \<longrightarrow>
      procs ?\<sigma>' ! i = Some g \<longrightarrow> procs ?\<sigma>' ! j = Some h \<longrightarrow> remaining g \<inter> remaining h = {}"
    using id_inv_disjoint [OF inv] by (simp add: disjoint_iff)
  ultimately show ?thesis unfolding id_inv_def by blast
qed

lemma id_inv_initial: "id_inv mark (initial_system n s)"
  by (simp add: id_inv_def initial_system_def issued_ids_def)

context segment_store
begin

lemma inv_issue:
  assumes inv: "id_inv mark \<sigma>" and i: "i < length (procs \<sigma>)" "procs \<sigma> ! i = Some g"
    and nxt: "next_id store_reserve c1 c2 g (store \<sigma>) = (Inr k, g', s')"
  shows "id_inv mark (\<sigma>\<lparr>procs := (procs \<sigma>)[i := Some g'], store := s', issued := issued \<sigma> @ [(i, k)]\<rparr>)"
proof -
  have old: "1 \<le> j \<and> j \<le> sint MaxID \<and> j < mark (store \<sigma>) \<and> j \<notin> set (issued_ids \<sigma>)"
    if "j \<in> remaining g" for j by (rule id_inv_held [OF inv i that])
  have others: "k \<notin> remaining h"
    if "j < length (procs \<sigma>)" "j \<noteq> i" "procs \<sigma> ! j = Some h" "k \<in> remaining g" for j h k
    using id_inv_disjoint [OF inv i(1) that(1)] i that by metis
  have below: "l < mark (store \<sigma>)" if "j < length (procs \<sigma>)" "procs \<sigma> ! j = Some h" "l \<in> remaining h" for j h l
    using id_inv_held [OF inv that] by blast
  have issued_below: "l < mark (store \<sigma>)" if "l \<in> set (issued_ids \<sigma>)" for l
    using id_inv_issued [OF inv that] by blast
  from next_id_ok [OF nxt] old consider
    (held) "s' = store \<sigma>" "sint k \<in> remaining g" "remaining g' = remaining g - {sint k}"
  | (fresh) n seg where "store_reserve n (store \<sigma>) = (Inr seg, s')" "k = First seg" "1 \<le> sint k"
      "sint k \<le> sint (Last seg)" "sint (Last seg) \<le> sint MaxID" "remaining g' = {sint k + 1..sint (Last seg)}"
    by blast
  then show ?thesis
  proof cases
    case held
    show ?thesis
      by (rule id_inv_replace [OF inv i(1)]) (use held old others in auto)
  next
    case fresh
    have f: "mark (store \<sigma>) \<le> sint k" "sint (Last seg) < mark s'"
      using reserve_fresh [OF fresh(1)] fresh(2) by auto
    have mono: "mark (store \<sigma>) \<le> mark s'" using reserve_mono [of "store \<sigma>" n] fresh(1) by simp
    show ?thesis
    proof (rule id_inv_replace [OF inv i(1) mono])
      show "1 \<le> l \<and> l \<le> sint MaxID \<and> l < mark s' \<and> l \<notin> set (issued_ids \<sigma>) \<and>
          l \<notin> set (map (\<lambda>q. sint (snd q)) [(i, k)])"
        if "Some g' = Some h" "l \<in> remaining h" for h l
        using that fresh f issued_below [of l] by auto
      show "l \<notin> remaining h'"
        if "Some g' = Some h" "j < length (procs \<sigma>)" "j \<noteq> i" "procs \<sigma> ! j = Some h'" "l \<in> remaining h" for h j h' l
        using that fresh f below [OF that(2,4), of l] by auto
      show "1 \<le> l \<and> l \<le> sint MaxID \<and> l < mark s' \<and> l \<notin> set (issued_ids \<sigma>)"
        if "l \<in> set (map (\<lambda>q. sint (snd q)) [(i, k)])" for l
        using that fresh f issued_below [of l] by auto
      show "l \<notin> remaining h"
        if "l \<in> set (map (\<lambda>q. sint (snd q)) [(i, k)])" "j < length (procs \<sigma>)" "procs \<sigma> ! j = Some h" for l j h
        using that f below [OF that(2,3), of l] by auto
    qed simp
  qed
qed

lemma inv_step:
  assumes inv: "id_inv mark \<sigma>" and stp: "id_step store_reserve env \<sigma> \<sigma>'"
  shows "id_inv mark \<sigma>'"
  using stp
proof cases
  case (start i sz g)
  have "id_inv mark (\<sigma>\<lparr>procs := (procs \<sigma>)[i := Some g], store := store \<sigma>, issued := issued \<sigma> @ []\<rparr>)"
    by (rule id_inv_replace [OF inv start(2)]) (use new_generator_remaining [OF start(3)] in auto)
  then show ?thesis using start(1) by simp
next
  case (crash i)
  have "id_inv mark (\<sigma>\<lparr>procs := (procs \<sigma>)[i := None], store := store \<sigma>, issued := issued \<sigma> @ []\<rparr>)"
    by (rule id_inv_replace [OF inv crash(2)]) simp_all
  then show ?thesis using crash(1) by simp
next
  case (issue i g c1 c2 k g' s')
  then show ?thesis using inv_issue [OF inv] by simp
next
  case (refuse i g c1 c2 e g' s')
  from next_id_err [OF refuse(4)] have g: "g' = g" and s: "mark (store \<sigma>) \<le> mark s'"
    using reserve_mono by auto
  have "id_inv mark (\<sigma>\<lparr>procs := (procs \<sigma>)[i := Some g'], store := s', issued := issued \<sigma> @ []\<rparr>)"
  proof (rule id_inv_replace [OF inv refuse(2) s])
    show "1 \<le> l \<and> l \<le> sint MaxID \<and> l < mark s' \<and> l \<notin> set (issued_ids \<sigma>) \<and>
        l \<notin> set (map (\<lambda>q. sint (snd q)) [])"
      if "Some g' = Some h" "l \<in> remaining h" for h l
      using that g s id_inv_held [OF inv refuse(2,3), of l] by auto
    show "l \<notin> remaining h'"
      if "Some g' = Some h" "j < length (procs \<sigma>)" "j \<noteq> i" "procs \<sigma> ! j = Some h'" "l \<in> remaining h" for h j h' l
      using that g id_inv_disjoint [OF inv refuse(2) that(2) _ refuse(3) that(4), of l] by auto
  qed simp_all
  then show ?thesis using refuse(1) by simp
next
  case (outside s')
  then show ?thesis using id_inv_store [OF inv env_mono] by simp
qed

lemma reachable_inv:
  assumes "reachable (id_step store_reserve env) (initial_system n s) \<sigma>"
  shows "id_inv mark \<sigma>"
  using assms by (induction "initial_system n s" \<sigma> rule: reachable.induct)
    (auto intro: id_inv_initial inv_step)

end

subsection \<open>The MySQL store meets the contract\<close>

text \<open>
  What may happen to the world between the operations on one namespace: anything that does not
  lower its mark, so faults, clock, other tables and other instances are all covered.
\<close>

definition mark_kept :: "string \<Rightarrow> world \<Rightarrow> world \<Rightarrow> bool" where
  "mark_kept namespace w w' \<longleftrightarrow> high_water namespace w \<le> high_water namespace w'"

interpretation mysql_ids: segment_store "reserve st" "high_water (ms_namespace st)" "mark_kept (ms_namespace st)"
  for st
proof unfold_locales
  fix n s seg s'
  assume "reserve st n s = (Inr seg, s')"
  with reserve_ok obtain w1 where "1 \<le> sint n" "reserve_body st n (net_pop s) = (Inr seg, w1)" "s' = net_pop w1"
    by blast
  then show "high_water (ms_namespace st) s \<le> sint (First seg) \<and> sint (Last seg) < high_water (ms_namespace st) s'"
    using reserve_body_mark [of st n "net_pop s" seg w1] by simp
next
  show "high_water (ms_namespace st) s \<le> high_water (ms_namespace st) (snd (reserve st n s))" for s n
    by (rule reserve_high_water_mono)
qed (simp add: mark_kept_def)

subsection \<open>Reserve against its specification\<close>

text \<open>
  The specification over unbounded integers: the segment a reservation yields (if any) and the
  mark it leaves, from the mark it finds.
\<close>

definition reserve_spec :: "int option \<Rightarrow> int \<Rightarrow> (int \<times> int) option \<times> int option" where
  "reserve_spec hw sz =
     (case hw of None \<Rightarrow> (None, None)
      | Some f \<Rightarrow>
          if sz < 1 \<or> sz > 1000000 \<or> f < 1 \<or> f > 2 ^ 53 - 1 then (None, Some f)
          else let l = min (2 ^ 53 - 1) (f + sz - 1) in (Some (f, l), Some (l + 1)))"

definition segment_ints :: "go_error + segment \<Rightarrow> (int \<times> int) option" where
  "segment_ints r = (case r of Inl e \<Rightarrow> None | Inr seg \<Rightarrow> Some (sint (First seg), sint (Last seg)))"

definition mark_row :: "string \<Rightarrow> world \<Rightarrow> int option" where
  "mark_row namespace w = map_option sint (allocators (w_db w) namespace)"

lemma reserve_body_calm:
  assumes "calm w" "1 \<le> sint sz"
  shows "\<exists>r w1. reserve_body st sz w = (r, w1) \<and> calm w1 \<and>
    (case mark_row (ms_namespace st) w of
       None \<Rightarrow> \<exists>e. r = Inl e
     | Some f \<Rightarrow> if f < 1 \<or> f > sint MaxID then \<exists>e. r = Inl e else \<exists>seg. r = Inr seg)"
proof (cases "allocators (w_db w) (ms_namespace st)")
  case None
  then show ?thesis using assms(1)
    by (simp add: reserve_body_def select_next_id_def andThen_def on_error_def calm_query throw_def mark_row_def)
next
  case (Some f)
  then show ?thesis using assms(1)
    by (simp add: reserve_body_def select_next_id_def update_next_id_def andThen_def on_error_def
        calm_query throw_def mark_row_def Let_def exec_count_def remote_def require_def ret_def)
qed

lemma reserve_calm_body:
  assumes "calm w" "1 \<le> sint sz" "sint sz \<le> sint MaxSegmentSize"
    and "reserve_body st sz w = (r, w1)" "calm w1"
  shows "reserve st sz w = (r, case r of Inl e \<Rightarrow> w1\<lparr>w_db := w_db w\<rparr> | Inr x \<Rightarrow> w1)"
  using assms by (simp add: reserve_def calm_tx)

text \<open>
  C2. Reserve agrees with its specification over unbounded integers: which sizes and marks it
  refuses, the segment it returns (truncated at the end of the ID space), and the mark it leaves,
  with no wrap-around in the 64-bit arithmetic.
\<close>

theorem reserve_refines_spec:
  assumes "calm w"
  shows "(segment_ints (fst (reserve st sz w)), mark_row (ms_namespace st) (snd (reserve st sz w)))
         = reserve_spec (mark_row (ms_namespace st) w) (sint sz)"
proof (cases "sint sz < 1 \<or> sint sz > sint MaxSegmentSize")
  case True
  then show ?thesis
    by (auto simp: reserve_def throw_def reserve_spec_def segment_ints_def sint_sizes mark_row_def
        split: option.splits)
next
  case False
  then have sz: "1 \<le> sint sz" "sint sz \<le> sint MaxSegmentSize" by auto
  obtain r w1 where b: "reserve_body st sz w = (r, w1)" "calm w1"
    and shape: "case mark_row (ms_namespace st) w of None \<Rightarrow> \<exists>e. r = Inl e
      | Some f \<Rightarrow> if f < 1 \<or> f > sint MaxID then \<exists>e. r = Inl e else \<exists>seg. r = Inr seg"
    using reserve_body_calm [OF assms sz(1), of st] by blast
  note run = reserve_calm_body [OF assms sz b]
  show ?thesis
  proof (cases r)
    case (Inl e)
    then show ?thesis using shape sz run
      by (auto simp: reserve_spec_def segment_ints_def mark_row_def sint_sizes sint_MaxID
          split: option.splits if_splits)
  next
    case (Inr seg)
    obtain f n where "allocators (w_db w) (ms_namespace st) = Some f" "1 \<le> sint f" "sint f \<le> sint MaxID"
      "First seg = f" "sint (Last seg) = min (sint MaxID) (sint f + sint sz - 1)" "sint n = sint (Last seg) + 1"
      "w_db w1 = (w_db w)\<lparr>allocators := (allocators (w_db w))(ms_namespace st \<mapsto> n)\<rparr>"
      using reserve_body_ok [OF b(1) [unfolded Inr] sz(1)] .
    then show ?thesis using run Inr sz
      by (simp add: reserve_spec_def segment_ints_def mark_row_def sint_sizes sint_MaxID Let_def)
  qed
qed

text \<open>A world whose database holds one allocator row.\<close>

definition allocator_world :: "int64 \<Rightarrow> world" where
  "allocator_world n = empty_world\<lparr>w_db := empty_db\<lparr>allocators := [''message'' \<mapsto> n]\<rparr>\<rparr>"

definition message_store :: mysql_store where
  "message_store = \<lparr>ms_namespace = ''message'', ms_timeout = 3000000000\<rparr>"

theorem reserve_refines_spec_witness:
  "(segment_ints (fst (reserve message_store 5 (allocator_world (MaxID - 2)))),
    mark_row ''message'' (snd (reserve message_store 5 (allocator_world (MaxID - 2)))))
   = (Some (2 ^ 53 - 3, 2 ^ 53 - 1), Some (2 ^ 53))"
  using reserve_refines_spec [of "allocator_world (MaxID - 2)" message_store 5]
  by (simp add: allocator_world_def message_store_def mark_row_def reserve_spec_def MaxID_def)

subsection \<open>Progress and uniqueness\<close>

text \<open>
  C3. Next always produces an ID when the database answers, the row exists and IDs are left: the
  store's segment always passes the generator's own validation.
\<close>

theorem next_id_progress:
  assumes "calm w" "new_generator False sz = Inr g0" "gen_segment_size g = gen_segment_size g0"
    and "1 \<le> high_water (ms_namespace st) w" "high_water (ms_namespace st) w \<le> sint MaxID"
  shows "\<exists>k g' w'. next_id (reserve st) None None g w = (Inr k, g', w')"
proof (cases "gen_next g = 0 \<or> sint (gen_next g) > sint (gen_last g)")
  case False
  then show ?thesis by (simp add: next_id_def)
next
  case True
  let ?n = "gen_segment_size g"
  have n: "1 \<le> sint ?n" "sint ?n \<le> sint MaxSegmentSize"
    using assms(2,3) by (auto simp: new_generator_def Let_def split: if_splits)
  obtain f where f: "allocators (w_db w) (ms_namespace st) = Some f" "1 \<le> sint f" "sint f \<le> sint MaxID"
    using assms(4,5) by (auto simp: high_water_def split: option.splits)
  then obtain seg w1 where b: "reserve_body st ?n w = (Inr seg, w1)" "calm w1"
    using reserve_body_calm [OF assms(1) n(1), of st] by (auto simp: mark_row_def)
  have run: "reserve st ?n w = (Inr seg, w1)"
    using reserve_calm_body [OF assms(1) n b] by simp
  obtain f' m where s: "1 \<le> sint f'" "sint f' \<le> sint MaxID" "First seg = f'"
    "sint (Last seg) = min (sint MaxID) (sint f' + sint ?n - 1)"
    using reserve_body_ok [OF b(1) n(1)] by metis
  have "sint (Last seg - First seg) = sint (Last seg) - sint (First seg)"
    using s n by (intro sint64_sub) (auto simp: sint_MaxID sint_sizes)
  then have "sint (Last seg - First seg + 1) = sint (Last seg) - sint (First seg) + 1"
    using s n by (subst sint64_add) (auto simp: sint_MaxID sint_sizes)
  then have "validate_segment seg ?n = None"
    using s n by (auto simp: validate_segment_def Let_def)
  then show ?thesis using True run by (simp add: next_id_def)
qed

text \<open>A generator without a segment that reserves \<open>n\<close> IDs at a time.\<close>

definition idle_generator :: "int64 \<Rightarrow> generator" where
  "idle_generator n = \<lparr>gen_segment_size = n, gen_next = 0, gen_last = 0\<rparr>"

lemma new_generator_idle:
  "n \<noteq> 0 \<Longrightarrow> 1 \<le> sint n \<Longrightarrow> sint n \<le> 1000000 \<Longrightarrow> new_generator False n = Inr (idle_generator n)"
  by (simp add: new_generator_def idle_generator_def sint_sizes)

theorem next_id_progress_witness:
  "\<exists>k g' w'. next_id (reserve message_store) None None (idle_generator 5) (allocator_world 7) = (Inr k, g', w')"
  by (rule next_id_progress [where sz = 5 and g0 = "idle_generator 5"])
    (simp_all add: allocator_world_def message_store_def new_generator_idle high_water_def sint_MaxID)

text \<open>
  C1. However many instances share the allocator row, and whatever calls fail, time out after
  taking effect, or crash in between: all IDs ever issued are distinct, positive and exactly
  representable in JavaScript.
\<close>

theorem message_ids_unique:
  assumes "reachable (id_step (reserve st) (mark_kept (ms_namespace st))) (initial_system n w) \<sigma>"
  shows "distinct (issued_ids \<sigma>) \<and> (\<forall>k\<in>set (issued_ids \<sigma>). 1 \<le> k \<and> k \<le> 2 ^ 53 - 1)"
  using mysql_ids.reachable_inv [OF assms] by (auto simp: id_inv_def sint_MaxID)

lemma allocator_world_next:
  assumes "n = 1 \<or> n = 2"
  shows "next_id (reserve message_store) None None (idle_generator 1) (allocator_world n) =
    (Inr n, (idle_generator 1)\<lparr>gen_next := n + 1, gen_last := n\<rparr>, allocator_world (n + 1))"
  using assms
  by (elim disjE) (simp_all add: next_id_def idle_generator_def reserve_def sint_sizes tx_block_def
      reserve_body_def select_next_id_def update_next_id_def andThen_def on_error_def calm_query
      allocator_world_def message_store_def exec_count_def remote_def Let_def require_def ret_def
      MaxID_def validate_segment_def)

theorem message_ids_unique_witness:
  "\<exists>\<sigma>. reachable (id_step (reserve message_store) (mark_kept ''message''))
         (initial_system 2 (allocator_world 1)) \<sigma> \<and>
       issued_ids \<sigma> = [1, 2] \<and> distinct (issued_ids \<sigma>) \<and> (\<forall>k\<in>set (issued_ids \<sigma>). 1 \<le> k \<and> k \<le> 2 ^ 53 - 1)"
proof -
  let ?stp = "id_step (reserve message_store) (mark_kept ''message'')"
  let ?g = "idle_generator 1"
  let ?h = "\<lambda>n. ?g\<lparr>gen_next := n + 1, gen_last := n\<rparr>"
  let ?s0 = "initial_system 2 (allocator_world 1)"
  let ?s1 = "\<lparr>procs = [Some ?g, None], store = allocator_world 1, issued = []\<rparr>"
  let ?s2 = "\<lparr>procs = [Some ?g, Some ?g], store = allocator_world 1, issued = []\<rparr>"
  let ?s3 = "\<lparr>procs = [Some (?h 1), Some ?g], store = allocator_world (1 + 1), issued = [(0, 1)]\<rparr>"
  let ?s4 = "\<lparr>procs = [Some (?h 1), Some (?h (1 + 1))], store = allocator_world (1 + 1 + 1),
               issued = [(0, 1), (1, 1 + 1)]\<rparr>"
  have g: "new_generator False 1 = Inr ?g" by (simp add: new_generator_idle)
  have "?stp ?s0 ?s1"
    using id_step.start [of 0 ?s0 1 ?g] g by (simp add: initial_system_def numeral_2_eq_2)
  moreover have "?stp ?s1 ?s2" using id_step.start [of 1 ?s1 1 ?g] g by simp
  moreover have "?stp ?s2 ?s3"
    using id_step.issue [where i = 0 and \<sigma> = ?s2 and g = ?g and rsv = "reserve message_store" and cb = None
        and cl = None and k = 1 and g' = "?h 1" and s' = "allocator_world (1 + 1)"] allocator_world_next [of 1]
    by simp
  moreover have "?stp ?s3 ?s4"
    using id_step.issue [where i = 1 and \<sigma> = ?s3 and g = ?g and rsv = "reserve message_store" and cb = None
        and cl = None and k = "1 + 1" and g' = "?h (1 + 1)" and s' = "allocator_world (1 + 1 + 1)"]
      allocator_world_next [of 2]
    by simp
  ultimately have r: "reachable ?stp ?s0 ?s4" by (meson reachable.refl reachable.step)
  have "distinct (issued_ids ?s4) \<and> (\<forall>k\<in>set (issued_ids ?s4). 1 \<le> k \<and> k \<le> 2 ^ 53 - 1)"
    using message_ids_unique [of message_store 2 "allocator_world 1" ?s4] r by (simp add: message_store_def)
  moreover have "issued_ids ?s4 = [1, 2]" by (simp add: issued_ids_def)
  ultimately show ?thesis using r by blast
qed

end
