(* ===== verification/GroupRepo.thy ===== *)
theory GroupRepo
  imports GoBase "HOL-Library.Product_Lexorder"
begin

text \<open>
  The statements of \<open>repository/group_repository.go\<close> and the group part of
  \<open>repository/mysql_repository.go\<close>, plus \<open>EnqueueCacheReconcile\<close> (\<open>cache_mysql.go\<close>) and
  \<open>IsFriendPair\<close> (\<open>friend_repository.go\<close>), which the group transactions call. A row lock
  (\<open>FOR UPDATE\<close>) makes the transaction that takes it a single step for the others that lock the
  same row, so a locking read is an ordinary read here.
\<close>

subsection \<open>Shared statements\<close>

text \<open>\<open>INSERT INTO cache_reconcile_events\<close>; the columns left out take their defaults.\<close>

definition new_event :: "int \<Rightarrow> cache_resource \<Rightarrow> int \<Rightarrow> int \<Rightarrow> cache_event" where
  "new_event k resource resource_id t = \<lparr>ce_id = k, ce_resource = resource, ce_resource_id = resource_id,
     ce_status = 0, ce_attempts = 0, ce_available_at = t, ce_locked_at = None, ce_lock_token = None,
     ce_last_error = []\<rparr>"

definition insert_event :: "cache_resource \<Rightarrow> int \<Rightarrow> int io" where
  "insert_event resource resource_id =
     insert_row ai_cache_events (\<lambda>a. a\<lparr>ai_cache_events := ai_cache_events a + 1\<rparr>) (\<lambda>_. False)
       (\<lambda>k w d. d\<lparr>cache_events := cache_events d @ [new_event k resource resource_id (sql_now6 w)]\<rparr>)"

definition enqueue_cache_reconcile :: "cache_resource \<Rightarrow> int \<Rightarrow> unit io" where
  "enqueue_cache_reconcile resource resource_id =
     (if \<not> resource_valid resource then throw (PlainErr ''enqueue cache reconcile: invalid resource type'')
      else if resource_id \<le> 0 then throw (PlainErr ''enqueue cache reconcile: resource ID must be positive'')
      else andThen (on_error (WrapErr ''enqueue cache reconcile'') (insert_event resource resource_id))
             (\<lambda>_. ret ()))"

definition friend_row :: "int \<Rightarrow> int \<Rightarrow> friendship \<Rightarrow> bool" where
  "friend_row a b r = ((fs_user r = a \<and> fs_friend r = b) \<or> (fs_user r = b \<and> fs_friend r = a))"

definition friends_in :: "int \<Rightarrow> int \<Rightarrow> db \<Rightarrow> bool" where
  "friends_in user_id peer_id d = exists_row (friend_row user_id peer_id) (friendships d)"

definition is_friend_pair :: "int \<Rightarrow> int \<Rightarrow> bool io" where
  "is_friend_pair user_id peer_id =
     on_error (WrapErr ''check friendship pair'') (query (friends_in user_id peer_id))"

text \<open>\<open>LockFriendUsers\<close> and \<open>LockGroupUsers\<close> are the same: lock in ascending order, count the rows found.\<close>

definition user_exists :: "int \<Rightarrow> db \<Rightarrow> bool" where
  "user_exists user_id d = exists_row (\<lambda>u. u_id u = user_id) (users d)"

definition lock_user :: "string \<Rightarrow> int \<Rightarrow> bool io" where
  "lock_user what user_id = on_error (WrapErr what) (query (user_exists user_id))"

definition lock_users :: "string \<Rightarrow> int \<Rightarrow> int \<Rightarrow> int io" where
  "lock_users what first_id second_id =
     (if first_id = second_id
      then andThen (lock_user what first_id) (\<lambda>a. ret (if a then 1 else 0))
      else andThen (lock_user what (min first_id second_id))
        (\<lambda>a. andThen (lock_user what (max first_id second_id))
        (\<lambda>b. ret ((if a then 1 else 0) + (if b then 1 else 0)))))"

definition lock_group_users :: "int \<Rightarrow> int \<Rightarrow> int io" where
  "lock_group_users = lock_users ''lock group operation user''"

definition require_one_affected :: "string \<Rightarrow> int \<Rightarrow> unit io" where
  "require_one_affected operation affected =
     (if affected \<noteq> 1 then throw (WrapErr operation (Sentinel ErrNotFound)) else ret ())"

subsection \<open>Groups\<close>

definition lock_group_creator :: "int \<Rightarrow> bool io" where
  "lock_group_creator user_id = lock_user ''lock group creator'' user_id"

definition find_group :: "int \<Rightarrow> db \<Rightarrow> group option" where
  "find_group gid d = find (\<lambda>g. g_id g = gid) (groups d)"

definition get_group_for_update :: "int \<Rightarrow> group option io" where
  "get_group_for_update gid = on_error (WrapErr ''scan group'') (query (find_group gid))"

definition get_group_by_id :: "int \<Rightarrow> group option io" where
  "get_group_by_id gid =
     on_error (WrapErr ''get group by id'') (on_error (WrapErr ''scan group'') (query (find_group gid)))"

definition create_group :: "group \<Rightarrow> int io" where
  "create_group g = on_error (WrapErr ''create group'')
     (insert_row ai_groups (\<lambda>a. a\<lparr>ai_groups := ai_groups a + 1\<rparr>) (\<lambda>_. False)
       (\<lambda>k w d. d\<lparr>groups := groups d @ [g\<lparr>g_id := k, g_created_at := sql_now w, g_updated_at := sql_now w\<rparr>]\<rparr>))"

definition is_group :: "int \<Rightarrow> group \<Rightarrow> bool" where
  "is_group gid g = (g_id g = gid)"

definition update_group_owner :: "int \<Rightarrow> int \<Rightarrow> unit io" where
  "update_group_owner gid owner = on_error (WrapErr ''update group owner'')
     (exec (\<lambda>w d. d\<lparr>groups := update_where (is_group gid)
        (\<lambda>g. g\<lparr>g_owner := owner, g_updated_at := sql_now w\<rparr>) (groups d)\<rparr>))"

definition update_group_profile :: "int \<Rightarrow> string \<Rightarrow> string \<Rightarrow> unit io" where
  "update_group_profile gid name notice = on_error (WrapErr ''update group profile'')
     (exec (\<lambda>w d. d\<lparr>groups := update_where (is_group gid)
        (\<lambda>g. g\<lparr>g_name := name, g_notice := notice, g_updated_at := sql_now w\<rparr>) (groups d)\<rparr>))"

definition delete_group :: "int \<Rightarrow> unit io" where
  "delete_group gid =
     andThen (on_error (WrapErr ''delete group'')
         (exec_count (\<lambda>w d. (count_where (is_group gid) (groups d),
            d\<lparr>groups := delete_where (is_group gid) (groups d)\<rparr>))))
       (require_one_affected ''delete group'')"

text \<open>\<open>INSERT ... ON DUPLICATE KEY UPDATE owner_id = ?\<close>.\<close>

definition put_tombstone :: "int \<Rightarrow> int \<Rightarrow> group_tombstone list \<Rightarrow> group_tombstone list" where
  "put_tombstone gid owner ts =
     (if exists_row (\<lambda>t. gt_group t = gid) ts
      then update_where (\<lambda>t. gt_group t = gid) (\<lambda>t. t\<lparr>gt_owner := owner\<rparr>) ts
      else ts @ [\<lparr>gt_group = gid, gt_owner = owner\<rparr>])"

definition upsert_group_tombstone :: "int \<Rightarrow> int \<Rightarrow> unit io" where
  "upsert_group_tombstone gid owner = on_error (WrapErr ''upsert group tombstone'')
     (exec (\<lambda>w d. d\<lparr>group_tombstones := put_tombstone gid owner (group_tombstones d)\<rparr>))"

definition tombstoned :: "int \<Rightarrow> db \<Rightarrow> bool" where
  "tombstoned gid d = exists_row (\<lambda>t. gt_group t = gid) (group_tombstones d)"

definition is_group_tombstoned :: "int \<Rightarrow> bool io" where
  "is_group_tombstoned gid = on_error (WrapErr ''check group tombstone'') (query (tombstoned gid))"

subsection \<open>Members\<close>

definition member_row :: "int \<Rightarrow> int \<Rightarrow> group_member \<Rightarrow> bool" where
  "member_row gid uid m = (gm_group m = gid \<and> gm_user m = uid)"

definition find_member :: "int \<Rightarrow> int \<Rightarrow> db \<Rightarrow> group_member option" where
  "find_member gid uid d = find (member_row gid uid) (group_members d)"

definition get_group_member :: "int \<Rightarrow> int \<Rightarrow> group_member option io" where
  "get_group_member gid uid = on_error (WrapErr ''scan group member'') (query (find_member gid uid))"

definition get_group_member_for_update :: "int \<Rightarrow> int \<Rightarrow> group_member option io" where
  "get_group_member_for_update gid uid = on_error (WrapErr ''scan group member'') (query (find_member gid uid))"

definition add_group_member :: "group_member \<Rightarrow> int io" where
  "add_group_member m = on_error (WrapErr ''add group member'')
     (insert_row ai_group_members (\<lambda>a. a\<lparr>ai_group_members := ai_group_members a + 1\<rparr>)
       (\<lambda>d. exists_row (member_row (gm_group m) (gm_user m)) (group_members d))
       (\<lambda>k w d. d\<lparr>group_members := group_members d @
          [m\<lparr>gm_id := k, gm_muted_until := map_option sql_datetime (gm_muted_until m),
             gm_joined_at := sql_now w\<rparr>]\<rparr>))"

definition remove_group_member :: "int \<Rightarrow> int \<Rightarrow> unit io" where
  "remove_group_member gid uid = on_error (WrapErr ''remove group member'')
     (exec (\<lambda>w d. d\<lparr>group_members := delete_where (member_row gid uid) (group_members d)\<rparr>))"

definition delete_group_members :: "int \<Rightarrow> unit io" where
  "delete_group_members gid = on_error (WrapErr ''delete all group members'')
     (exec (\<lambda>w d. d\<lparr>group_members := delete_where (\<lambda>m. gm_group m = gid) (group_members d)\<rparr>))"

definition update_group_member_role :: "int \<Rightarrow> int \<Rightarrow> int \<Rightarrow> unit io" where
  "update_group_member_role gid uid role = on_error (WrapErr ''update group member role'')
     (exec (\<lambda>w d. d\<lparr>group_members := update_where (member_row gid uid) (\<lambda>m. m\<lparr>gm_role := role\<rparr>) (group_members d)\<rparr>))"

definition update_group_member_mute :: "int \<Rightarrow> int \<Rightarrow> int option \<Rightarrow> unit io" where
  "update_group_member_mute gid uid until = on_error (WrapErr ''update group member mute deadline'')
     (exec (\<lambda>w d. d\<lparr>group_members := update_where (member_row gid uid)
        (\<lambda>m. m\<lparr>gm_muted_until := map_option sql_datetime until\<rparr>) (group_members d)\<rparr>))"

definition members_of :: "int \<Rightarrow> db \<Rightarrow> group_member list" where
  "members_of gid d = filter (\<lambda>m. gm_group m = gid) (group_members d)"

definition get_group_members :: "int \<Rightarrow> group_member list io" where
  "get_group_members gid = on_error (WrapErr ''get group members'') (query (members_of gid))"

definition member_count :: "int \<Rightarrow> db \<Rightarrow> int" where
  "member_count gid d = count_where (\<lambda>m. gm_group m = gid) (group_members d)"

definition count_group_members :: "int \<Rightarrow> int io" where
  "count_group_members gid = on_error (WrapErr ''count group members'') (query (member_count gid))"

record group_member_profile =
  gp_member :: group_member
  gp_username :: string
  gp_avatar_url :: string

text \<open>The JOIN with \<open>users\<close>, ordered by role (owner first), joining time and row ID.\<close>

definition member_profiles :: "int \<Rightarrow> db \<Rightarrow> group_member_profile list" where
  "member_profiles gid d =
     sort_key (\<lambda>p. (- gm_role (gp_member p), gm_joined_at (gp_member p), gm_id (gp_member p)))
       [\<lparr>gp_member = m, gp_username = u_username u, gp_avatar_url = u_avatar_url u\<rparr>.
         m \<leftarrow> members_of gid d, u \<leftarrow> users d, u_id u = gm_user m]"

definition list_group_members_page :: "int \<Rightarrow> int \<Rightarrow> int \<Rightarrow> group_member_profile list io" where
  "list_group_members_page gid limit offset = on_error (WrapErr ''list group members page'')
     (query (\<lambda>d. page_of limit offset (member_profiles gid d)))"

definition list_groups_by_user :: "int \<Rightarrow> group list io" where
  "list_groups_by_user uid = on_error (WrapErr ''list groups by user'')
     (query (\<lambda>d. map snd (sort_key (\<lambda>p. (- gm_joined_at (fst p), - g_id (snd p)))
        [(m, g). m \<leftarrow> group_members d, gm_user m = uid, g \<leftarrow> groups d, g_id g = gm_group m])))"

subsection \<open>Inversion rules\<close>

lemma lock_user_ok [io_simps]:
  "lock_user what u w = (Inr b, w') \<longleftrightarrow> net_now w = Pass \<and> b = user_exists u (w_db w) \<and> w' = net_pop w"
  by (simp add: lock_user_def io_simps)

definition locked_count :: "int \<Rightarrow> int \<Rightarrow> db \<Rightarrow> int" where
  "locked_count a b d = (if a = b then (if user_exists a d then 1 else 0)
     else (if user_exists a d then 1 else 0) + (if user_exists b d then 1 else 0))"

lemma locked_count_2: "locked_count a b d = 2 \<longleftrightarrow> a \<noteq> b \<and> user_exists a d \<and> user_exists b d"
  by (simp add: locked_count_def)

lemma lock_users_ok [io_simps]:
  "lock_users what a b w = (Inr n, w') \<longleftrightarrow>
     net_now w = Pass \<and> n = locked_count a b (w_db w) \<and>
     (if a = b then w' = net_pop w else net_now (net_pop w) = Pass \<and> w' = net_pop (net_pop w))"
  by (auto simp: lock_users_def locked_count_def io_simps min_def max_def)

lemma lock_group_users_ok [io_simps]:
  "lock_group_users a b w = (Inr n, w') \<longleftrightarrow>
     net_now w = Pass \<and> n = locked_count a b (w_db w) \<and>
     (if a = b then w' = net_pop w else net_now (net_pop w) = Pass \<and> w' = net_pop (net_pop w))"
  by (simp add: lock_group_users_def io_simps)

lemma require_one_affected_ok [io_simps]:
  "require_one_affected what n w = (Inr x, w') \<longleftrightarrow> n = 1 \<and> w' = w"
  by (auto simp: require_one_affected_def io_simps)

lemma group_reads_ok [io_simps]:
  "is_friend_pair a b w = (Inr f, w') \<longleftrightarrow> net_now w = Pass \<and> f = friends_in a b (w_db w) \<and> w' = net_pop w"
  "lock_group_creator u w = (Inr f, w') \<longleftrightarrow> net_now w = Pass \<and> f = user_exists u (w_db w) \<and> w' = net_pop w"
  "get_group_for_update gid w = (Inr r, w') \<longleftrightarrow> net_now w = Pass \<and> r = find_group gid (w_db w) \<and> w' = net_pop w"
  "get_group_by_id gid w = (Inr r, w') \<longleftrightarrow> net_now w = Pass \<and> r = find_group gid (w_db w) \<and> w' = net_pop w"
  "get_group_member gid u w = (Inr m, w') \<longleftrightarrow> net_now w = Pass \<and> m = find_member gid u (w_db w) \<and> w' = net_pop w"
  "get_group_member_for_update gid u w = (Inr m, w') \<longleftrightarrow>
     net_now w = Pass \<and> m = find_member gid u (w_db w) \<and> w' = net_pop w"
  "is_group_tombstoned gid w = (Inr f, w') \<longleftrightarrow> net_now w = Pass \<and> f = tombstoned gid (w_db w) \<and> w' = net_pop w"
  "get_group_members gid w = (Inr ms, w') \<longleftrightarrow> net_now w = Pass \<and> ms = members_of gid (w_db w) \<and> w' = net_pop w"
  "count_group_members gid w = (Inr k, w') \<longleftrightarrow> net_now w = Pass \<and> k = member_count gid (w_db w) \<and> w' = net_pop w"
  by (simp_all add: is_friend_pair_def lock_group_creator_def get_group_for_update_def get_group_by_id_def
      get_group_member_def get_group_member_for_update_def is_group_tombstoned_def get_group_members_def
      count_group_members_def io_simps)

lemma group_writes_ok [io_simps]:
  "update_group_owner gid v w = (Inr x, w') \<longleftrightarrow> net_now w = Pass \<and>
     w' = (net_pop w)\<lparr>w_db := (w_db w)\<lparr>groups := update_where (is_group gid)
       (\<lambda>g. g\<lparr>g_owner := v, g_updated_at := sql_now w\<rparr>) (groups (w_db w))\<rparr>\<rparr>"
  "update_group_profile gid nm nt w = (Inr x, w') \<longleftrightarrow> net_now w = Pass \<and>
     w' = (net_pop w)\<lparr>w_db := (w_db w)\<lparr>groups := update_where (is_group gid)
       (\<lambda>g. g\<lparr>g_name := nm, g_notice := nt, g_updated_at := sql_now w\<rparr>) (groups (w_db w))\<rparr>\<rparr>"
  "upsert_group_tombstone gid v w = (Inr x, w') \<longleftrightarrow> net_now w = Pass \<and>
     w' = (net_pop w)\<lparr>w_db := (w_db w)\<lparr>group_tombstones := put_tombstone gid v (group_tombstones (w_db w))\<rparr>\<rparr>"
  "remove_group_member gid u w = (Inr x, w') \<longleftrightarrow> net_now w = Pass \<and>
     w' = (net_pop w)\<lparr>w_db := (w_db w)\<lparr>group_members := delete_where (member_row gid u) (group_members (w_db w))\<rparr>\<rparr>"
  "delete_group_members gid w = (Inr x, w') \<longleftrightarrow> net_now w = Pass \<and>
     w' = (net_pop w)\<lparr>w_db := (w_db w)\<lparr>group_members := delete_where (\<lambda>m. gm_group m = gid) (group_members (w_db w))\<rparr>\<rparr>"
  "update_group_member_role gid u r w = (Inr x, w') \<longleftrightarrow> net_now w = Pass \<and>
     w' = (net_pop w)\<lparr>w_db := (w_db w)\<lparr>group_members :=
       update_where (member_row gid u) (\<lambda>m. m\<lparr>gm_role := r\<rparr>) (group_members (w_db w))\<rparr>\<rparr>"
  "update_group_member_mute gid u t w = (Inr x, w') \<longleftrightarrow> net_now w = Pass \<and>
     w' = (net_pop w)\<lparr>w_db := (w_db w)\<lparr>group_members := update_where (member_row gid u)
       (\<lambda>m. m\<lparr>gm_muted_until := map_option sql_datetime t\<rparr>) (group_members (w_db w))\<rparr>\<rparr>"
  by (simp_all add: update_group_owner_def update_group_profile_def upsert_group_tombstone_def
      remove_group_member_def delete_group_members_def update_group_member_role_def
      update_group_member_mute_def io_simps)

lemma delete_group_ok [io_simps]:
  "delete_group gid w = (Inr x, w') \<longleftrightarrow> net_now w = Pass \<and> count_where (is_group gid) (groups (w_db w)) = 1 \<and>
     w' = (net_pop w)\<lparr>w_db := (w_db w)\<lparr>groups := delete_where (is_group gid) (groups (w_db w))\<rparr>\<rparr>"
  by (auto simp: delete_group_def io_simps)

lemma create_group_ok [io_simps]:
  "create_group g w = (Inr k, w') \<longleftrightarrow> net_now w = Pass \<and> k = ai_groups (w_auto w) \<and>
     w' = (net_pop w)\<lparr>w_auto := (w_auto w)\<lparr>ai_groups := k + 1\<rparr>, w_db := (w_db w)\<lparr>groups := groups (w_db w) @
       [g\<lparr>g_id := k, g_created_at := sql_now w, g_updated_at := sql_now w\<rparr>]\<rparr>\<rparr>"
  by (auto simp: create_group_def io_simps)

lemma add_group_member_ok [io_simps]:
  "add_group_member m w = (Inr k, w') \<longleftrightarrow> net_now w = Pass \<and> k = ai_group_members (w_auto w) \<and>
     \<not> exists_row (member_row (gm_group m) (gm_user m)) (group_members (w_db w)) \<and>
     w' = (net_pop w)\<lparr>w_auto := (w_auto w)\<lparr>ai_group_members := k + 1\<rparr>,
       w_db := (w_db w)\<lparr>group_members := group_members (w_db w) @
       [m\<lparr>gm_id := k, gm_muted_until := map_option sql_datetime (gm_muted_until m), gm_joined_at := sql_now w\<rparr>]\<rparr>\<rparr>"
  by (auto simp: add_group_member_def io_simps)

subsection \<open>Frames and facts\<close>

lemma framed_auto_lock_user: "framed auto_le (lock_user what u)"
  unfolding lock_user_def by (intro auto_intros)

lemma framed_auto_lock_users: "framed auto_le (lock_users what a b)"
  unfolding lock_users_def by (intro auto_intros framed_auto_lock_user)

lemma framed_auto_enqueue: "framed auto_le (enqueue_cache_reconcile r i)"
  unfolding enqueue_cache_reconcile_def insert_event_def by (intro auto_intros) (simp add: auto_le_def)

lemma framed_auto_group_reads:
  "framed auto_le (is_friend_pair a b)" "framed auto_le (lock_group_creator a)"
  "framed auto_le (lock_group_users a b)" "framed auto_le (get_group_for_update gid)"
  "framed auto_le (get_group_by_id gid)" "framed auto_le (get_group_member gid a)"
  "framed auto_le (get_group_member_for_update gid a)" "framed auto_le (is_group_tombstoned gid)"
  "framed auto_le (get_group_members gid)" "framed auto_le (count_group_members gid)"
  "framed auto_le (list_group_members_page gid limit offset)" "framed auto_le (list_groups_by_user a)"
  unfolding is_friend_pair_def lock_group_creator_def lock_group_users_def get_group_for_update_def
    get_group_by_id_def get_group_member_def get_group_member_for_update_def is_group_tombstoned_def
    get_group_members_def count_group_members_def list_group_members_page_def list_groups_by_user_def
  by (intro auto_intros framed_auto_lock_user framed_auto_lock_users)+

lemma framed_auto_group_writes:
  "framed auto_le (update_group_owner gid a)" "framed auto_le (update_group_profile gid nm nt)"
  "framed auto_le (upsert_group_tombstone gid a)" "framed auto_le (remove_group_member gid a)"
  "framed auto_le (delete_group_members gid)" "framed auto_le (update_group_member_role gid a r)"
  "framed auto_le (update_group_member_mute gid a t)" "framed auto_le (delete_group gid)"
  unfolding update_group_owner_def update_group_profile_def upsert_group_tombstone_def
    remove_group_member_def delete_group_members_def update_group_member_role_def
    update_group_member_mute_def delete_group_def require_one_affected_def
  by (intro auto_intros)+

lemma framed_auto_group_inserts: "framed auto_le (create_group g)" "framed auto_le (add_group_member m)"
  unfolding create_group_def add_group_member_def by (intro auto_intros, simp add: auto_le_def)+

lemmas framed_auto_group = auto_intros framed_auto_enqueue framed_auto_group_reads
  framed_auto_group_writes framed_auto_group_inserts

lemma robust_lock_user: "net_robust (lock_user what u)"
  unfolding lock_user_def by (intro robust_intros)

lemma robust_lock_users: "net_robust (lock_users what a b)"
  unfolding lock_users_def by (intro robust_intros robust_lock_user)

lemma robust_enqueue: "net_robust (enqueue_cache_reconcile r i)"
  unfolding enqueue_cache_reconcile_def insert_event_def by (intro robust_intros) simp

lemma robust_group_reads:
  "net_robust (is_friend_pair a b)" "net_robust (lock_group_creator a)"
  "net_robust (lock_group_users a b)" "net_robust (get_group_for_update gid)"
  "net_robust (get_group_by_id gid)" "net_robust (get_group_member gid a)"
  "net_robust (get_group_member_for_update gid a)" "net_robust (is_group_tombstoned gid)"
  "net_robust (get_group_members gid)" "net_robust (count_group_members gid)"
  unfolding is_friend_pair_def lock_group_creator_def lock_group_users_def get_group_for_update_def
    get_group_by_id_def get_group_member_def get_group_member_for_update_def is_group_tombstoned_def
    get_group_members_def count_group_members_def
  by (intro robust_intros robust_lock_user robust_lock_users)+

lemma robust_group_writes:
  "net_robust (update_group_owner gid a)" "net_robust (update_group_profile gid nm nt)"
  "net_robust (upsert_group_tombstone gid a)" "net_robust (remove_group_member gid a)"
  "net_robust (delete_group_members gid)" "net_robust (update_group_member_role gid a r)"
  "net_robust (update_group_member_mute gid a t)" "net_robust (delete_group gid)"
  "net_robust (create_group g)" "net_robust (add_group_member m)"
  unfolding update_group_owner_def update_group_profile_def upsert_group_tombstone_def
    remove_group_member_def delete_group_members_def update_group_member_role_def
    update_group_member_mute_def delete_group_def require_one_affected_def create_group_def add_group_member_def
  by (intro robust_intros; simp)+

lemmas robust_group = robust_intros robust_enqueue robust_group_reads robust_group_writes

lemma enqueue_ok [io_simps]:
  "enqueue_cache_reconcile r i w = (Inr x, w') \<longleftrightarrow>
     resource_valid r \<and> 0 < i \<and> net_now w = Pass \<and>
     w' = (net_pop w)\<lparr>w_auto := (w_auto w)\<lparr>ai_cache_events := ai_cache_events (w_auto w) + 1\<rparr>,
       w_db := (w_db w)\<lparr>cache_events := cache_events (w_db w) @
         [new_event (ai_cache_events (w_auto w)) r i (sql_now6 w)]\<rparr>\<rparr>"
  by (auto simp: enqueue_cache_reconcile_def insert_event_def io_simps)

lemma calm_enqueue:
  assumes "calm w" "resource_valid r" "0 < i"
  shows "enqueue_cache_reconcile r i w =
    (Inr (), w\<lparr>w_auto := (w_auto w)\<lparr>ai_cache_events := ai_cache_events (w_auto w) + 1\<rparr>,
       w_db := (w_db w)\<lparr>cache_events := cache_events (w_db w) @
         [new_event (ai_cache_events (w_auto w)) r i (sql_now6 w)]\<rparr>\<rparr>)"
  using assms
  by (simp add: enqueue_cache_reconcile_def insert_event_def andThen_def on_error_def
      calm_insert_row ret_def Let_def)

lemma find_member_SomeD:
  "find_member gid uid d = Some m \<Longrightarrow> m \<in> set (group_members d) \<and> gm_group m = gid \<and> gm_user m = uid"
  by (auto simp: find_member_def member_row_def dest!: find_Some_iff2)

lemma find_group_SomeD: "find_group gid d = Some g \<Longrightarrow> g \<in> set (groups d) \<and> g_id g = gid"
  by (auto simp: find_group_def dest!: find_Some_iff2)

lemma find_member_None: "find_member gid uid d = None \<longleftrightarrow>
    (\<forall>m\<in>set (group_members d). \<not> (gm_group m = gid \<and> gm_user m = uid))"
  by (auto simp: find_member_def member_row_def find_None_set)

end
