(* ===== verification/GroupService.thy ===== *)
theory GroupService
  imports GroupRepo
begin

text \<open>
  \<open>service/group.go\<close>: the group use cases. Every write is one transaction that locks the group row
  first; the cache refresh and the notifications after the commit are best effort. The ports the
  service holds (\<open>GroupCacheRefresher\<close>, \<open>GroupEventNotifier\<close>) are fields of its record.
\<close>

definition maxGroupNameRunes :: int where "maxGroupNameRunes = 50"
definition maxGroupNoticeRunes :: int where "maxGroupNoticeRunes = 300"
definition defaultGroupMaxMembers :: int where "defaultGroupMaxMembers = 500"
definition defaultGroupMemberPageSize :: int where "defaultGroupMemberPageSize = 20"
definition maxGroupMemberPageSize :: int where "maxGroupMemberPageSize = 100"

definition TypeGroupRemoved :: string where "TypeGroupRemoved = ''groupRemoved''"
definition TypeGroupUpdated :: string where "TypeGroupUpdated = ''groupUpdated''"

record group_service =
  gs_cache :: "(int \<Rightarrow> unit io) option"
  gs_notifier :: "(int \<Rightarrow> string \<Rightarrow> payload \<Rightarrow> unit io) option"

subsection \<open>Helpers\<close>

definition group_service_error :: "go_error \<Rightarrow> go_error" where
  "group_service_error err = (case as_app err of
      Some a \<Rightarrow> a
    | None \<Rightarrow> wrap_code CodeInternalFailure (Some (WrapErr ''group service'' err)))"

definition normalize_group_profile :: "string \<Rightarrow> string \<Rightarrow> go_error + (string \<times> string)" where
  "normalize_group_profile raw_name raw_notice =
     (let name = trim_space raw_name; notice = trim_space raw_notice in
      if name = [] then Inl (with_message CodeInvalidParam ''group name must not be empty'')
      else if rune_count name > maxGroupNameRunes
      then Inl (with_message CodeInvalidParam ''group name must not exceed 50 characters'')
      else if list_ex is_control (runes name)
      then Inl (with_message CodeInvalidParam ''group name must not contain control characters'')
      else if rune_count notice > maxGroupNoticeRunes
      then Inl (with_message CodeInvalidParam ''group notice must not exceed 300 characters'')
      else if list_ex (\<lambda>r. is_control r \<and> r \<noteq> 10 \<and> r \<noteq> 13 \<and> r \<noteq> 9) (runes notice)
      then Inl (with_message CodeInvalidParam ''group notice contains an unsupported control character'')
      else Inr (name, notice))"

definition normalize_group_member_page :: "int \<Rightarrow> int \<Rightarrow> go_error + (int \<times> int)" where
  "normalize_group_member_page limit offset =
     (if offset < 0 then Inl (with_message CodeInvalidParam ''offset must not be negative'')
      else let limit' = (if limit \<le> 0 then defaultGroupMemberPageSize else limit) in
        if limit' > maxGroupMemberPageSize
        then Inl (with_message CodeInvalidParam ''limit must not exceed 100'')
        else Inr (limit', offset))"

definition can_manage_group_members :: "group \<Rightarrow> group_member option \<Rightarrow> int \<Rightarrow> bool" where
  "can_manage_group_members g operator operator_id =
     (case operator of None \<Rightarrow> False | Some m \<Rightarrow> g_owner g = operator_id \<or> gm_role m = GroupRoleAdmin)"

text \<open>Unix seconds of the first instants of the years 1000 and 10000.\<close>

definition year_1000 :: int where "year_1000 = - 30610224000"
definition year_10000 :: int where "year_10000 = 253402300800"

definition truncate_second :: "int \<Rightarrow> int" where
  "truncate_second t = (t div second) * second"

definition normalize_group_mute_deadline :: "int option \<Rightarrow> int option io" where
  "normalize_group_mute_deadline deadline = (case deadline of
      None \<Rightarrow> ret None
    | Some t \<Rightarrow> (let n = truncate_second t in
        if n div second < year_1000 \<or> n div second \<ge> year_10000
        then throw (with_message CodeInvalidParam ''muted_until must be in the future'')
        else andThen now (\<lambda>t0.
          if \<not> n > t0 then throw (with_message CodeInvalidParam ''muted_until must be in the future'')
          else ret (Some n))))"

definition same_optional_group_time :: "int option \<Rightarrow> int option \<Rightarrow> bool" where
  "same_optional_group_time a b = (case (a, b) of (Some x, Some y) \<Rightarrow> x = y | (None, None) \<Rightarrow> True | _ \<Rightarrow> False)"

definition refresh_group_member_cache :: "group_service \<Rightarrow> int \<Rightarrow> unit io" where
  "refresh_group_member_cache s gid = (case gs_cache s of None \<Rightarrow> ret () | Some f \<Rightarrow> best_effort (f gid))"

definition notify_group_user :: "group_service \<Rightarrow> int \<Rightarrow> string \<Rightarrow> payload \<Rightarrow> unit io" where
  "notify_group_user s uid event_type p =
     (case gs_notifier s of None \<Rightarrow> ret () | Some f \<Rightarrow> best_effort (f uid event_type p))"

text \<open>Recipients in order, the first occurrence of each ID (a map of seen IDs in the source).\<close>

fun first_occurrences :: "int list \<Rightarrow> int list \<Rightarrow> int list" where
  "first_occurrences seen [] = []"
| "first_occurrences seen (x # xs) =
     (if x \<in> set seen then first_occurrences seen xs else x # first_occurrences (x # seen) xs)"

definition notify_current_group_members ::
  "group_service \<Rightarrow> int \<Rightarrow> string \<Rightarrow> payload \<Rightarrow> int list \<Rightarrow> unit io" where
  "notify_current_group_members s gid event_type p fallback =
     (case gs_notifier s of None \<Rightarrow> ret ()
      | Some _ \<Rightarrow> andThen (attempt (get_group_members gid)) (\<lambda>r.
          let user_ids = (case r of Inl _ \<Rightarrow> fallback | Inr ms \<Rightarrow> map gm_user ms)
          in for_each (\<lambda>u. notify_group_user s u event_type p)
               (first_occurrences [] (filter (\<lambda>u. 0 < u) user_ids))))"

subsection \<open>Create\<close>

definition group_create_body :: "int \<Rightarrow> string \<Rightarrow> string \<Rightarrow> int io" where
  "group_create_body owner_id name notice =
     andThen (lock_group_creator owner_id) (\<lambda>exists.
     andThen (require exists (new_err CodeUserNotFound)) (\<lambda>_.
     andThen (create_group \<lparr>g_id = 0, g_name = name, g_notice = notice, g_owner = owner_id,
                g_max_members = defaultGroupMaxMembers, g_created_at = 0, g_updated_at = 0\<rparr>) (\<lambda>gid.
     andThen (add_group_member \<lparr>gm_id = 0, gm_group = gid, gm_user = owner_id,
                gm_role = GroupRoleOwner, gm_muted_until = None, gm_joined_at = 0\<rparr>) (\<lambda>_.
     andThen (enqueue_cache_reconcile GroupMembers gid) (\<lambda>_.
     ret gid)))))"

definition group_create :: "group_service \<Rightarrow> int \<Rightarrow> string \<Rightarrow> string \<Rightarrow> int io" where
  "group_create s owner_id raw_name raw_notice =
     (if owner_id \<le> 0 then throw (new_err CodeInvalidParam)
      else (case normalize_group_profile raw_name raw_notice of
        Inl e \<Rightarrow> throw e
      | Inr (name, notice) \<Rightarrow>
          andThen (on_error group_service_error
              (within_tx ''group transaction'' (group_create_body owner_id name notice))) (\<lambda>gid.
          andThen (refresh_group_member_cache s gid) (\<lambda>_. ret gid))))"

subsection \<open>Adding and removing members\<close>

definition group_add_member_body :: "int \<Rightarrow> int \<Rightarrow> int \<Rightarrow> unit io" where
  "group_add_member_body gid operator_id member_id =
     andThen (get_group_for_update gid) (\<lambda>found. case found of
       None \<Rightarrow> throw (new_err CodeGroupNotFound)
     | Some g \<Rightarrow>
     andThen (get_group_member_for_update gid operator_id) (\<lambda>operator.
     andThen (require (can_manage_group_members g operator operator_id) (new_err CodeNotOwnerOrAdmin)) (\<lambda>_.
     andThen (get_group_member_for_update gid member_id) (\<lambda>existing.
     andThen (require (existing = None) (new_err CodeAlreadyMember)) (\<lambda>_.
     andThen (lock_group_users operator_id member_id) (\<lambda>locked.
     andThen (require (locked = 2) (new_err CodeUserNotFound)) (\<lambda>_.
     andThen (is_friend_pair operator_id member_id) (\<lambda>friends.
     andThen (require friends (new_err CodeMemberNotFriend)) (\<lambda>_.
     andThen (count_group_members gid) (\<lambda>member_count.
     andThen (require (\<not> member_count \<ge> g_max_members g) (new_err CodeGroupFull)) (\<lambda>_.
     andThen (add_group_member \<lparr>gm_id = 0, gm_group = gid, gm_user = member_id,
                gm_role = GroupRoleMember, gm_muted_until = None, gm_joined_at = 0\<rparr>) (\<lambda>_.
     enqueue_cache_reconcile GroupMembers gid))))))))))))"

definition group_add_member :: "group_service \<Rightarrow> int \<Rightarrow> int \<Rightarrow> int \<Rightarrow> unit io" where
  "group_add_member s gid operator_id member_id =
     (if gid \<le> 0 \<or> operator_id \<le> 0 \<or> member_id \<le> 0 then throw (new_err CodeInvalidParam)
      else andThen (on_error
              (\<lambda>e. if err_is ErrConflict e then new_err CodeAlreadyMember else group_service_error e)
              (within_tx ''group transaction'' (group_add_member_body gid operator_id member_id))) (\<lambda>_.
           refresh_group_member_cache s gid))"

definition group_remove_member_body :: "int \<Rightarrow> int \<Rightarrow> int \<Rightarrow> unit io" where
  "group_remove_member_body gid operator_id member_id =
     andThen (get_group_for_update gid) (\<lambda>found. case found of
       None \<Rightarrow> throw (new_err CodeGroupNotFound)
     | Some g \<Rightarrow>
     andThen (get_group_member_for_update gid operator_id) (\<lambda>operator.
     andThen (require (can_manage_group_members g operator operator_id) (new_err CodeNotOwnerOrAdmin)) (\<lambda>_.
     andThen (get_group_member_for_update gid member_id) (\<lambda>target_row. case target_row of
       None \<Rightarrow> throw (new_err CodeGroupMemberNotFound)
     | Some target \<Rightarrow>
     andThen (require (gm_user target \<noteq> g_owner g) (new_err CodeCannotRemoveOwner)) (\<lambda>_.
     andThen (require (\<not> (g_owner g \<noteq> operator_id \<and> gm_role target \<noteq> GroupRoleMember))
                (new_err CodeCannotRemovePeer)) (\<lambda>_.
     andThen (remove_group_member gid member_id) (\<lambda>_.
     enqueue_cache_reconcile GroupMembers gid)))))))"

definition group_remove_member :: "group_service \<Rightarrow> int \<Rightarrow> int \<Rightarrow> int \<Rightarrow> unit io" where
  "group_remove_member s gid operator_id member_id =
     (if gid \<le> 0 \<or> operator_id \<le> 0 \<or> member_id \<le> 0 then throw (new_err CodeInvalidParam)
      else andThen (on_error group_service_error
              (within_tx ''group transaction'' (group_remove_member_body gid operator_id member_id))) (\<lambda>_.
           refresh_group_member_cache s gid))"

subsection \<open>Roles, mutes and ownership\<close>

text \<open>The callback's result is the flag \<open>changed\<close>.\<close>

definition group_update_role_body :: "int \<Rightarrow> int \<Rightarrow> int \<Rightarrow> int \<Rightarrow> bool io" where
  "group_update_role_body gid operator_id member_id role =
     andThen (get_group_for_update gid) (\<lambda>found. case found of
       None \<Rightarrow> throw (new_err CodeGroupNotFound)
     | Some g \<Rightarrow>
     andThen (get_group_member_for_update gid operator_id) (\<lambda>operator.
     andThen (require (\<not> (operator = None \<or> g_owner g \<noteq> operator_id)) (new_err CodeNotOwnerOrAdmin)) (\<lambda>_.
     andThen (get_group_member_for_update gid member_id) (\<lambda>target_row. case target_row of
       None \<Rightarrow> throw (new_err CodeGroupMemberNotFound)
     | Some target \<Rightarrow>
     andThen (require (gm_user target \<noteq> g_owner g) (new_err CodeNotOwnerOrAdmin)) (\<lambda>_.
     if gm_role target = role then ret False
     else andThen (update_group_member_role gid member_id role) (\<lambda>_.
          andThen (enqueue_cache_reconcile GroupMembers gid) (\<lambda>_. ret True)))))))"

definition group_update_role :: "group_service \<Rightarrow> int \<Rightarrow> int \<Rightarrow> int \<Rightarrow> int \<Rightarrow> unit io" where
  "group_update_role s gid operator_id member_id role =
     (if gid \<le> 0 \<or> operator_id \<le> 0 \<or> member_id \<le> 0 then throw (new_err CodeInvalidParam)
      else if role \<noteq> GroupRoleMember \<and> role \<noteq> GroupRoleAdmin then throw (new_err CodeInvalidRole)
      else andThen (on_error group_service_error
              (within_tx ''group transaction'' (group_update_role_body gid operator_id member_id role))) (\<lambda>changed.
           when_ok changed (refresh_group_member_cache s gid)))"

definition group_mute_body :: "int \<Rightarrow> int \<Rightarrow> int \<Rightarrow> int option \<Rightarrow> bool io" where
  "group_mute_body gid operator_id member_id deadline =
     andThen (get_group_for_update gid) (\<lambda>found. case found of
       None \<Rightarrow> throw (new_err CodeGroupNotFound)
     | Some g \<Rightarrow>
     andThen (get_group_member_for_update gid operator_id) (\<lambda>operator.
     andThen (require (can_manage_group_members g operator operator_id) (new_err CodeNotOwnerOrAdmin)) (\<lambda>_.
     andThen (get_group_member_for_update gid member_id) (\<lambda>target_row. case target_row of
       None \<Rightarrow> throw (new_err CodeGroupMemberNotFound)
     | Some target \<Rightarrow>
     andThen (require (\<not> (gm_user target = g_owner g \<or>
                  (g_owner g \<noteq> operator_id \<and> gm_role target \<noteq> GroupRoleMember)))
                (new_err CodeNotOwnerOrAdmin)) (\<lambda>_.
     andThen (case deadline of None \<Rightarrow> ret () | Some t \<Rightarrow> andThen now (\<lambda>t0.
                require (t > t0) (with_message CodeInvalidParam ''muted_until must be in the future''))) (\<lambda>_.
     if same_optional_group_time (gm_muted_until target) deadline then ret False
     else andThen (update_group_member_mute gid member_id deadline) (\<lambda>_.
          andThen (enqueue_cache_reconcile GroupMembers gid) (\<lambda>_. ret True))))))))"

definition group_mute_member :: "group_service \<Rightarrow> int \<Rightarrow> int \<Rightarrow> int \<Rightarrow> int option \<Rightarrow> unit io" where
  "group_mute_member s gid operator_id member_id muted_until =
     (if gid \<le> 0 \<or> operator_id \<le> 0 \<or> member_id \<le> 0 then throw (new_err CodeInvalidParam)
      else andThen (normalize_group_mute_deadline muted_until) (\<lambda>deadline.
           andThen (on_error group_service_error
              (within_tx ''group transaction'' (group_mute_body gid operator_id member_id deadline))) (\<lambda>changed.
           when_ok changed (refresh_group_member_cache s gid))))"

definition group_transfer_body :: "int \<Rightarrow> int \<Rightarrow> int \<Rightarrow> unit io" where
  "group_transfer_body gid operator_id new_owner_id =
     andThen (get_group_for_update gid) (\<lambda>found. case found of
       None \<Rightarrow> throw (new_err CodeGroupNotFound)
     | Some g \<Rightarrow>
     andThen (get_group_member_for_update gid operator_id) (\<lambda>old_owner.
     andThen (require (\<not> (old_owner = None \<or> g_owner g \<noteq> operator_id)) (new_err CodeNotOwnerOrAdmin)) (\<lambda>_.
     andThen (get_group_member_for_update gid new_owner_id) (\<lambda>new_row. case new_row of
       None \<Rightarrow> throw (new_err CodeGroupMemberNotFound)
     | Some new_owner \<Rightarrow>
     andThen (update_group_member_role gid operator_id GroupRoleMember) (\<lambda>_.
     andThen (update_group_member_role gid new_owner_id GroupRoleOwner) (\<lambda>_.
     andThen (when_ok (gm_muted_until new_owner \<noteq> None) (update_group_member_mute gid new_owner_id None)) (\<lambda>_.
     andThen (update_group_owner gid new_owner_id) (\<lambda>_.
     enqueue_cache_reconcile GroupMembers gid))))))))"

definition group_transfer_ownership :: "group_service \<Rightarrow> int \<Rightarrow> int \<Rightarrow> int \<Rightarrow> unit io" where
  "group_transfer_ownership s gid operator_id new_owner_id =
     (if gid \<le> 0 \<or> operator_id \<le> 0 \<or> new_owner_id \<le> 0 then throw (new_err CodeInvalidParam)
      else if operator_id = new_owner_id
      then throw (with_message CodeInvalidParam ''new owner must differ from current owner'')
      else andThen (on_error group_service_error
              (within_tx ''group transaction'' (group_transfer_body gid operator_id new_owner_id))) (\<lambda>_.
           andThen (refresh_group_member_cache s gid) (\<lambda>_.
           notify_current_group_members s gid TypeGroupUpdated
             (GroupUpdatedNotification gid GroupUpdatedReasonOwnerTransferred) [operator_id, new_owner_id])))"

subsection \<open>Leaving and disbanding\<close>

definition group_leave_body :: "int \<Rightarrow> int \<Rightarrow> unit io" where
  "group_leave_body gid uid =
     andThen (get_group_for_update gid) (\<lambda>found. case found of
       None \<Rightarrow> throw (new_err CodeGroupNotFound)
     | Some g \<Rightarrow>
     andThen (get_group_member_for_update gid uid) (\<lambda>member.
     andThen (require (member \<noteq> None) (new_err CodeGroupNotMember)) (\<lambda>_.
     andThen (require (g_owner g \<noteq> uid) (new_err CodeCannotLeaveAsOwner)) (\<lambda>_.
     andThen (remove_group_member gid uid) (\<lambda>_.
     enqueue_cache_reconcile GroupMembers gid)))))"

definition group_leave :: "group_service \<Rightarrow> int \<Rightarrow> int \<Rightarrow> unit io" where
  "group_leave s gid uid =
     (if gid \<le> 0 \<or> uid \<le> 0 then throw (new_err CodeInvalidParam)
      else andThen (on_error group_service_error (within_tx ''group transaction'' (group_leave_body gid uid))) (\<lambda>_.
           andThen (refresh_group_member_cache s gid) (\<lambda>_.
           andThen (notify_group_user s uid TypeGroupRemoved (GroupRemovedNotification gid GroupRemovedReasonLeft)) (\<lambda>_.
           notify_current_group_members s gid TypeGroupUpdated
             (GroupUpdatedNotification gid GroupUpdatedReasonMemberLeft) []))))"

text \<open>The callback's result: whether cleanup is required, and the recipients collected.\<close>

definition group_disband_body :: "int \<Rightarrow> int \<Rightarrow> (bool \<times> int list) io" where
  "group_disband_body gid operator_id =
     andThen (get_group_for_update gid) (\<lambda>found. case found of
       None \<Rightarrow> andThen (is_group_tombstoned gid) (\<lambda>t. ret (t, []))
     | Some g \<Rightarrow>
     andThen (require (g_owner g = operator_id) (new_err CodeNotOwnerOrAdmin)) (\<lambda>_.
     andThen (get_group_members gid) (\<lambda>members.
     andThen (upsert_group_tombstone gid (g_owner g)) (\<lambda>_.
     andThen (delete_group_members gid) (\<lambda>_.
     andThen (delete_group gid) (\<lambda>_.
     andThen (enqueue_cache_reconcile GroupMembers gid) (\<lambda>_.
     ret (True, filter (\<lambda>u. 0 < u) (map gm_user members) @ [operator_id]))))))))"

definition group_disband :: "group_service \<Rightarrow> int \<Rightarrow> int \<Rightarrow> unit io" where
  "group_disband s gid operator_id =
     (if gid \<le> 0 \<or> operator_id \<le> 0 then throw (new_err CodeInvalidParam)
      else andThen (on_error group_service_error (within_tx ''group transaction'' (group_disband_body gid operator_id)))
        (\<lambda>(cleanup_required, recipients).
           when_ok cleanup_required
             (andThen (refresh_group_member_cache s gid) (\<lambda>_.
              for_each (\<lambda>u. notify_group_user s u TypeGroupRemoved
                               (GroupRemovedNotification gid GroupRemovedReasonDissolved))
                (first_occurrences [] recipients)))))"

subsection \<open>Reading and the profile\<close>

record group_member_item =
  gi_member :: group_member
  gi_username :: string
  gi_avatar_url :: string

definition group_list_members_body :: "int \<Rightarrow> int \<Rightarrow> int \<Rightarrow> int \<Rightarrow> group_member_item page io" where
  "group_list_members_body gid viewer_id limit offset =
     andThen (get_group_for_update gid) (\<lambda>found. case found of
       None \<Rightarrow> throw (new_err CodeGroupNotFound)
     | Some g \<Rightarrow>
     andThen (get_group_member_for_update gid viewer_id) (\<lambda>viewer.
     andThen (require (viewer \<noteq> None) (new_err CodeGroupNotMember)) (\<lambda>_.
     andThen (list_group_members_page gid limit offset) (\<lambda>rows.
     andThen (count_group_members gid) (\<lambda>total.
     ret \<lparr>pg_items = map (\<lambda>p. \<lparr>gi_member = gp_member p, gi_username = gp_username p,
                                   gi_avatar_url = gp_avatar_url p\<rparr>) rows,
          pg_total = total, pg_limit = limit, pg_offset = offset\<rparr>)))))"

definition group_list_members :: "group_service \<Rightarrow> int \<Rightarrow> int \<Rightarrow> int \<Rightarrow> int \<Rightarrow> group_member_item page io" where
  "group_list_members s gid viewer_id limit offset =
     (if gid \<le> 0 \<or> viewer_id \<le> 0 then throw (new_err CodeInvalidParam)
      else (case normalize_group_member_page limit offset of
        Inl e \<Rightarrow> throw e
      | Inr (l, off) \<Rightarrow> on_error group_service_error
          (within_tx ''group transaction'' (group_list_members_body gid viewer_id l off))))"

definition group_list_by_user :: "group_service \<Rightarrow> int \<Rightarrow> group list io" where
  "group_list_by_user s uid =
     (if uid \<le> 0 then throw (new_err CodeInvalidParam)
      else on_error group_service_error (list_groups_by_user uid))"

definition group_get :: "group_service \<Rightarrow> int \<Rightarrow> int \<Rightarrow> group io" where
  "group_get s uid gid =
     (if uid \<le> 0 \<or> gid \<le> 0 then throw (new_err CodeInvalidParam)
      else andThen (on_error group_service_error (get_group_by_id gid)) (\<lambda>found. case found of
        None \<Rightarrow> throw (new_err CodeGroupNotFound)
      | Some g \<Rightarrow> andThen (on_error group_service_error (get_group_member gid uid)) (\<lambda>member.
          if member = None then throw (new_err CodeGroupNotMember) else ret g)))"

definition group_update_body :: "int \<Rightarrow> int \<Rightarrow> string \<Rightarrow> string \<Rightarrow> unit io" where
  "group_update_body operator_id gid name notice =
     andThen (get_group_for_update gid) (\<lambda>found. case found of
       None \<Rightarrow> throw (new_err CodeGroupNotFound)
     | Some g \<Rightarrow>
     andThen (get_group_member_for_update gid operator_id) (\<lambda>member.
     andThen (require (case member of None \<Rightarrow> False
                | Some m \<Rightarrow> \<not> (g_owner g \<noteq> operator_id \<and> gm_role m \<noteq> GroupRoleAdmin))
                (new_err CodeNotOwnerOrAdmin)) (\<lambda>_.
     update_group_profile gid name notice)))"

definition group_update :: "group_service \<Rightarrow> int \<Rightarrow> int \<Rightarrow> string \<Rightarrow> string \<Rightarrow> unit io" where
  "group_update s operator_id gid raw_name raw_notice =
     (if operator_id \<le> 0 \<or> gid \<le> 0 then throw (new_err CodeInvalidParam)
      else (case normalize_group_profile raw_name raw_notice of
        Inl e \<Rightarrow> throw e
      | Inr (name, notice) \<Rightarrow> on_error group_service_error
          (within_tx ''group transaction'' (group_update_body operator_id gid name notice))))"

subsection \<open>All commands\<close>

text \<open>A write of the service as a value, so that the invariants below can quantify over histories.\<close>

datatype group_command =
    GCreate int string string
  | GAddMember int int int
  | GRemoveMember int int int
  | GUpdateRole int int int int
  | GMuteMember int int int "int option"
  | GTransfer int int int
  | GLeave int int
  | GDisband int int
  | GUpdate int int string string

fun run_group_command :: "group_service \<Rightarrow> group_command \<Rightarrow> world \<Rightarrow> world" where
  "run_group_command s (GCreate o_id n t) w = snd (group_create s o_id n t w)"
| "run_group_command s (GAddMember g o_id m) w = snd (group_add_member s g o_id m w)"
| "run_group_command s (GRemoveMember g o_id m) w = snd (group_remove_member s g o_id m w)"
| "run_group_command s (GUpdateRole g o_id m r) w = snd (group_update_role s g o_id m r w)"
| "run_group_command s (GMuteMember g o_id m t) w = snd (group_mute_member s g o_id m t w)"
| "run_group_command s (GTransfer g o_id m) w = snd (group_transfer_ownership s g o_id m w)"
| "run_group_command s (GLeave g u) w = snd (group_leave s g u w)"
| "run_group_command s (GDisband g o_id) w = snd (group_disband s g o_id w)"
| "run_group_command s (GUpdate o_id g n t) w = snd (group_update s o_id g n t w)"

end
