(* ===== verification/GroupInv.thy ===== *)
theory GroupInv
  imports GroupService
begin

text \<open>
  The invariant of the group tables: what \<open>group_create\<close>, the membership operations, the transfer
  and the disbanding keep between \<open>groups\<close>, \<open>group_members\<close> and \<open>group_tombstones\<close>, whatever calls
  fail. First the effect of each callback on the tables (\<open>*_ok\<close>), then the preservation of the
  invariant by each effect (\<open>ginv_*\<close>), then the commands.
\<close>

subsection \<open>The invariant\<close>

definition owner_row_ok :: "group \<Rightarrow> group_member \<Rightarrow> bool" where
  "owner_row_ok g m \<longleftrightarrow> gm_group m = g_id g \<and> gm_user m = g_owner g \<and> gm_role m = GroupRoleOwner
     \<and> gm_muted_until m = None"

definition group_ok :: "int \<Rightarrow> group_member list \<Rightarrow> group_tombstone list \<Rightarrow> group \<Rightarrow> bool" where
  "group_ok n ms ts g \<longleftrightarrow> 0 < g_id g \<and> g_id g < n \<and> (\<forall>t\<in>set ts. gt_group t \<noteq> g_id g) \<and>
     (\<exists>m\<in>set ms. owner_row_ok g m) \<and>
     count_where (\<lambda>m. gm_group m = g_id g) ms \<le> g_max_members g"

definition member_ok :: "group list \<Rightarrow> group_member \<Rightarrow> bool" where
  "member_ok gs m \<longleftrightarrow> (\<exists>g\<in>set gs. g_id g = gm_group m \<and> (gm_role m = GroupRoleOwner \<longrightarrow> gm_user m = g_owner g))
     \<and> gm_role m \<in> {GroupRoleMember, GroupRoleAdmin, GroupRoleOwner}"

definition member_key :: "group_member \<Rightarrow> int \<times> int" where
  "member_key m = (gm_group m, gm_user m)"

definition ginv :: "int \<Rightarrow> group list \<Rightarrow> group_member list \<Rightarrow> group_tombstone list \<Rightarrow> bool" where
  "ginv n gs ms ts \<longleftrightarrow>
     distinct (map g_id gs) \<and> distinct (map member_key ms) \<and> distinct (map gt_group ts) \<and>
     (\<forall>g\<in>set gs. group_ok n ms ts g) \<and> (\<forall>m\<in>set ms. member_ok gs m) \<and>
     (\<forall>t\<in>set ts. gt_group t < n) \<and> 0 < n"

definition groups_inv :: "world \<Rightarrow> bool" where
  "groups_inv w \<longleftrightarrow> ginv (ai_groups (w_auto w)) (groups (w_db w)) (group_members (w_db w)) (group_tombstones (w_db w))"

lemma ginv_mono: "ginv n gs ms ts \<Longrightarrow> n \<le> n' \<Longrightarrow> ginv n' gs ms ts"
  by (fastforce simp: ginv_def group_ok_def)

lemma ginv_same_group:
  "ginv n gs ms ts \<Longrightarrow> g \<in> set gs \<Longrightarrow> h \<in> set gs \<Longrightarrow> g_id g = g_id h \<Longrightarrow> g = h"
  unfolding ginv_def by (metis distinct_map inj_onD)

lemma ginv_same_member:
  "ginv n gs ms ts \<Longrightarrow> a \<in> set ms \<Longrightarrow> b \<in> set ms \<Longrightarrow> gm_group a = gm_group b \<Longrightarrow> gm_user a = gm_user b \<Longrightarrow> a = b"
  unfolding ginv_def distinct_map by (metis inj_onD member_key_def)

lemma ginv_owner_role:
  assumes "ginv n gs ms ts" "g \<in> set gs" "m \<in> set ms" "gm_group m = g_id g" "gm_role m = GroupRoleOwner"
  shows "gm_user m = g_owner g"
proof -
  obtain h where h: "h \<in> set gs" "g_id h = gm_group m" "gm_user m = g_owner h"
    using assms unfolding ginv_def member_ok_def by blast
  then have "h = g" using ginv_same_group [OF assms(1) h(1) assms(2)] assms(4) by simp
  then show ?thesis using h(3) by simp
qed

subsection \<open>Effects on the tables\<close>

lemma ginv_create:
  assumes inv: "ginv n gs ms ts" and g: "g_id g = n" "1 \<le> g_max_members g"
    and m: "owner_row_ok g m"
  shows "ginv (n + 1) (gs @ [g]) (ms @ [m]) ts"
proof -
  have fresh_g: "g_id h < n" if "h \<in> set gs" for h using inv that by (simp add: ginv_def group_ok_def)
  have fresh_m: "gm_group k \<noteq> n" if "k \<in> set ms" for k
    using inv that fresh_g unfolding ginv_def member_ok_def by (metis order_less_irrefl)
  have mg: "gm_group m = n" using m g by (simp add: owner_row_ok_def)
  have zero: "count_where (\<lambda>k. gm_group k = n) ms = 0"
    using fresh_m by (simp add: count_where_zero)
  have old: "group_ok (n + 1) (ms @ [m]) ts h" if "h \<in> set gs" for h
    using inv that fresh_g [OF that] mg by (auto simp: ginv_def group_ok_def)
  have new: "group_ok (n + 1) (ms @ [m]) ts g"
    using inv g m mg zero by (auto simp: ginv_def group_ok_def)
  have dg: "distinct (map g_id (gs @ [g]))" using inv g fresh_g by (force simp: ginv_def)
  have dm: "distinct (map member_key (ms @ [m]))"
    using inv mg fresh_m by (force simp: ginv_def member_key_def)
  have mok_old: "member_ok (gs @ [g]) k" if "k \<in> set ms" for k
    using inv that unfolding ginv_def member_ok_def by (metis UnCI set_append)
  have mok_new: "member_ok (gs @ [g]) m"
    using m unfolding member_ok_def owner_row_ok_def by auto
  show ?thesis unfolding ginv_def using inv old new dg dm mok_old mok_new by (auto simp: ginv_def)
qed

lemma ginv_add:
  assumes inv: "ginv n gs ms ts" and g: "g \<in> set gs"
    and m: "gm_group m = g_id g" "gm_role m = GroupRoleMember"
    and absent: "\<forall>k\<in>set ms. \<not> member_row (g_id g) (gm_user m) k"
    and room: "count_where (\<lambda>k. gm_group k = g_id g) ms < g_max_members g"
  shows "ginv n gs (ms @ [m]) ts"
proof -
  have "group_ok n (ms @ [m]) ts h" if h: "h \<in> set gs" for h
  proof -
    have ok: "group_ok n ms ts h" using inv h by (simp add: ginv_def)
    then obtain k where k: "k \<in> set (ms @ [m])" "owner_row_ok h k" by (auto simp: group_ok_def)
    show ?thesis
    proof (cases "g_id h = g_id g")
      case True
      then have "h = g" by (rule ginv_same_group [OF inv h g])
      then show ?thesis using ok k m room unfolding group_ok_def by fastforce
    next
      case False
      then show ?thesis using ok k m unfolding group_ok_def by fastforce
    qed
  qed
  moreover have "member_ok gs k" if "k \<in> set (ms @ [m])" for k
    using inv that g m by (auto simp: ginv_def member_ok_def group_roles)
  moreover have "distinct (map member_key (ms @ [m]))"
    using inv absent m by (force simp: ginv_def member_key_def member_row_def)
  ultimately show ?thesis using inv by (simp add: ginv_def)
qed

lemma ginv_remove:
  assumes inv: "ginv n gs ms ts" and g: "g \<in> set gs" and u: "u \<noteq> g_owner g"
  shows "ginv n gs (delete_where (member_row (g_id g) u) ms) ts"
proof -
  let ?ms = "delete_where (member_row (g_id g) u) ms"
  have "group_ok n ?ms ts h" if h: "h \<in> set gs" for h
  proof -
    have ok: "group_ok n ms ts h" using inv h by (simp add: ginv_def)
    then obtain m where m: "m \<in> set ms" "owner_row_ok h m" by (auto simp: group_ok_def)
    have "\<not> member_row (g_id g) u m"
      using m ginv_same_group [OF inv h g] u by (auto simp: member_row_def owner_row_ok_def)
    then have "m \<in> set ?ms" using m by simp
    moreover have "count_where (\<lambda>m. gm_group m = g_id h) ?ms \<le> g_max_members h"
      using ok count_where_delete_le by (auto simp: group_ok_def intro: order_trans)
    ultimately show ?thesis using ok m by (auto simp: group_ok_def)
  qed
  then show ?thesis using inv by (auto simp: ginv_def distinct_delete_where)
qed

text \<open>An update of one member row that keeps the group, the user and the owner's state.\<close>

lemma ginv_update_member:
  assumes inv: "ginv n gs ms ts" and g: "g \<in> set gs" and u: "u \<noteq> g_owner g"
    and f: "\<And>m. gm_group (f m) = gm_group m" "\<And>m. gm_user (f m) = gm_user m"
    and role: "\<And>m. gm_role m \<in> {GroupRoleMember, GroupRoleAdmin} \<Longrightarrow> gm_role (f m) \<in> {GroupRoleMember, GroupRoleAdmin}"
  shows "ginv n gs (update_where (member_row (g_id g) u) f ms) ts"
proof -
  let ?p = "member_row (g_id g) u"
  let ?ms = "update_where ?p f ms"
  have key: "member_key (f m) = member_key m" for m using f by (simp add: member_key_def)
  have "group_ok n ?ms ts h" if h: "h \<in> set gs" for h
  proof -
    have ok: "group_ok n ms ts h" using inv h by (simp add: ginv_def)
    then obtain m where m: "m \<in> set ms" "owner_row_ok h m" by (auto simp: group_ok_def)
    have "\<not> ?p m"
      using m ginv_same_group [OF inv h g] u by (auto simp: member_row_def owner_row_ok_def)
    then have "m \<in> set ?ms" using m unfolding set_update_where by force
    then show ?thesis using ok m f by (auto simp: group_ok_def count_where_update)
  qed
  moreover have "member_ok gs k" if "k \<in> set ?ms" for k
  proof -
    obtain m where m: "m \<in> set ms" "k = (if ?p m then f m else m)"
      using \<open>k \<in> set ?ms\<close> unfolding set_update_where by auto
    then have ok: "member_ok gs m" using inv by (simp add: ginv_def)
    show ?thesis
    proof (cases "?p m")
      case True
      then have "gm_role m \<noteq> GroupRoleOwner"
        using ginv_owner_role [OF inv g m(1)] u by (auto simp: member_row_def)
      then have "gm_role m \<in> {GroupRoleMember, GroupRoleAdmin}" using ok by (auto simp: member_ok_def)
      then have "gm_role (f m) \<in> {GroupRoleMember, GroupRoleAdmin}" by (rule role)
      then show ?thesis using ok m True f by (auto simp: member_ok_def group_roles)
    next
      case False
      then show ?thesis using ok m by simp
    qed
  qed
  ultimately show ?thesis using inv key by (simp add: ginv_def map_update_where)
qed

lemma ginv_profile:
  assumes inv: "ginv n gs ms ts"
    and f: "\<And>g. g_id (f g) = g_id g" "\<And>g. g_owner (f g) = g_owner g" "\<And>g. g_max_members (f g) = g_max_members g"
  shows "ginv n (update_where p f gs) ms ts"
proof -
  have "group_ok n ms ts h" if h: "h \<in> set (update_where p f gs)" for h
  proof -
    obtain g where g: "g \<in> set gs" "h = (if p g then f g else g)" using h unfolding set_update_where by auto
    then have "group_ok n ms ts g" using inv by (simp add: ginv_def)
    then show ?thesis using g f by (auto simp: group_ok_def owner_row_ok_def)
  qed
  moreover have "member_ok (update_where p f gs) m" if m: "m \<in> set ms" for m
  proof -
    obtain g where g: "g \<in> set gs" "g_id g = gm_group m" "gm_role m = GroupRoleOwner \<longrightarrow> gm_user m = g_owner g"
      "gm_role m \<in> {GroupRoleMember, GroupRoleAdmin, GroupRoleOwner}"
      using inv m unfolding ginv_def member_ok_def by blast
    let ?h = "if p g then f g else g"
    have "?h \<in> set (update_where p f gs)" using g(1) unfolding set_update_where by auto
    moreover have "g_id ?h = gm_group m" "gm_role m = GroupRoleOwner \<longrightarrow> gm_user m = g_owner ?h" using g f by auto
    ultimately show ?thesis using g(4) unfolding member_ok_def by blast
  qed
  ultimately show ?thesis using inv f by (simp add: ginv_def map_update_where)
qed

lemma ginv_disband:
  assumes inv: "ginv n gs ms ts" and g: "g \<in> set gs"
  shows "ginv n (delete_where (is_group (g_id g)) gs) (delete_where (\<lambda>m. gm_group m = g_id g) ms)
           (put_tombstone (g_id g) (g_owner g) ts)"
proof -
  let ?gs = "delete_where (is_group (g_id g)) gs" and ?ms = "delete_where (\<lambda>m. gm_group m = g_id g) ms"
  have none: "\<not> exists_row (\<lambda>t. gt_group t = g_id g) ts"
    using inv g by (auto simp: ginv_def group_ok_def exists_row_iff)
  then have ts: "put_tombstone (g_id g) (g_owner g) ts = ts @ [\<lparr>gt_group = g_id g, gt_owner = g_owner g\<rparr>]"
    by (simp add: put_tombstone_def)
  have "group_ok n ?ms (ts @ [\<lparr>gt_group = g_id g, gt_owner = g_owner g\<rparr>]) h" if h: "h \<in> set ?gs" for h
  proof -
    have ok: "group_ok n ms ts h" "g_id h \<noteq> g_id g" using inv h by (auto simp: ginv_def is_group_def)
    moreover have "count_where (\<lambda>m. gm_group m = g_id h) ?ms \<le> g_max_members h"
      using ok count_where_delete_le by (auto simp: group_ok_def intro: order_trans)
    ultimately show ?thesis by (auto simp: group_ok_def owner_row_ok_def)
  qed
  moreover have "member_ok ?gs m" if "m \<in> set ?ms" for m
    using inv that by (fastforce simp: ginv_def member_ok_def is_group_def)
  moreover have "distinct (map gt_group (ts @ [\<lparr>gt_group = g_id g, gt_owner = g_owner g\<rparr>]))"
    using inv none by (auto simp: ginv_def exists_row_iff)
  ultimately show ?thesis
    using inv g unfolding ts by (auto simp: ginv_def distinct_delete_where group_ok_def)
qed

text \<open>
  A transfer: \<open>f\<close> changes only the rows of the old and the new owner, demotes the one and promotes
  and unmutes the other, while the group row changes its owner.
\<close>

lemma ginv_transfer:
  assumes inv: "ginv n gs ms ts" and g: "g \<in> set gs" and new: "nm \<in> set ms" "gm_group nm = g_id g" "gm_user nm = v"
    and ne: "v \<noteq> g_owner g"
    and key: "\<And>m. gm_group (f m) = gm_group m" "\<And>m. gm_user (f m) = gm_user m"
    and other: "\<And>m. \<not> member_row (g_id g) (g_owner g) m \<Longrightarrow> \<not> member_row (g_id g) v m \<Longrightarrow> f m = m"
    and demote: "\<And>m. member_row (g_id g) (g_owner g) m \<Longrightarrow> gm_role (f m) = GroupRoleMember"
    and promote: "gm_role (f nm) = GroupRoleOwner" "gm_muted_until (f nm) = None"
    and h: "\<And>x. g_id (h x) = g_id x" "\<And>x. g_owner (h x) = v" "\<And>x. g_max_members (h x) = g_max_members x"
  shows "ginv n (update_where (is_group (g_id g)) h gs) (map f ms) ts"
proof -
  let ?gs = "update_where (is_group (g_id g)) h gs"
  have mkey: "member_key (f m) = member_key m" for m using key by (simp add: member_key_def)
  have cnt: "count_where (\<lambda>m. gm_group m = i) (map f ms) = count_where (\<lambda>m. gm_group m = i) ms" for i
    by (induction ms) (auto simp: key)
  have gok: "group_ok n (map f ms) ts x" if "x \<in> set ?gs" for x
  proof -
    obtain y where y: "y \<in> set gs" "x = (if is_group (g_id g) y then h y else y)"
      using \<open>x \<in> set ?gs\<close> unfolding set_update_where by auto
    have ok: "group_ok n ms ts y" using inv y by (simp add: ginv_def)
    show ?thesis
    proof (cases "g_id y = g_id g")
      case True
      then have x: "x = h g" using y ginv_same_group [OF inv y(1) g] by (simp add: is_group_def)
      have "owner_row_ok (h g) (f nm)" using new key promote h by (simp add: owner_row_ok_def)
      then show ?thesis using ok new(1) h cnt x True
        by (auto simp: group_ok_def ginv_same_group [OF inv y(1) g True])
    next
      case False
      then have x: "x = y" using y by (simp add: is_group_def)
      obtain m where m: "m \<in> set ms" "owner_row_ok y m" using ok by (auto simp: group_ok_def)
      then have "f m = m" using other False by (auto simp: member_row_def owner_row_ok_def)
      then have "m \<in> set (map f ms)" using m(1) by (metis image_eqI list.set_map)
      then show ?thesis using ok m x cnt by (auto simp: group_ok_def)
    qed
  qed
  have mok: "member_ok ?gs (f m)" if m: "m \<in> set ms" for m
  proof -
    obtain y where y: "y \<in> set gs" "g_id y = gm_group m" "gm_role m = GroupRoleOwner \<longrightarrow> gm_user m = g_owner y"
      and role: "gm_role m \<in> {GroupRoleMember, GroupRoleAdmin, GroupRoleOwner}"
      using inv m unfolding ginv_def member_ok_def by blast
    let ?y = "if is_group (g_id g) y then h y else y"
    have iny: "?y \<in> set ?gs" using y(1) unfolding set_update_where by auto
    have idy: "g_id ?y = gm_group (f m)" using y(2) h key by simp
    consider "member_row (g_id g) (g_owner g) m" | "member_row (g_id g) v m"
      | "\<not> member_row (g_id g) (g_owner g) m" "\<not> member_row (g_id g) v m" by blast
    then show ?thesis
    proof cases
      case 1
      then have "gm_role (f m) = GroupRoleMember" by (rule demote)
      then show ?thesis using iny idy unfolding member_ok_def by (auto simp: group_roles)
    next
      case 2
      then have "m = nm" using ginv_same_member [OF inv m new(1)] new by (simp add: member_row_def)
      moreover have "is_group (g_id g) y" using 2 y by (simp add: is_group_def member_row_def)
      ultimately have "gm_user (f m) = g_owner ?y" "gm_role (f m) = GroupRoleOwner"
        using promote h key new by simp_all
      then show ?thesis using iny idy unfolding member_ok_def by blast
    next
      case 3
      then have f: "f m = m" by (rule other)
      have "gm_role m = GroupRoleOwner \<longrightarrow> gm_user m = g_owner ?y"
      proof
        assume r: "gm_role m = GroupRoleOwner"
        then have u: "gm_user m = g_owner y" using y by simp
        have "g_id y \<noteq> g_id g"
          using 3(1) u ginv_same_group [OF inv y(1) g] y(2) by (auto simp: member_row_def)
        then show "gm_user m = g_owner ?y" using u by (simp add: is_group_def)
      qed
      then show ?thesis using iny idy f role unfolding member_ok_def by auto
    qed
  qed
  show ?thesis
    using inv mkey gok mok h unfolding ginv_def
    by (auto simp: map_update_where comp_def)
qed

subsection \<open>What each callback does to the tables\<close>

lemma group_create_body_ok:
  assumes "group_create_body o_id name notice w = (Inr gid, w1)"
  shows "\<exists>t. gid = ai_groups (w_auto w) \<and> ai_groups (w_auto w1) = gid + 1 \<and>
    groups (w_db w1) = groups (w_db w) @ [\<lparr>g_id = gid, g_name = name, g_notice = notice, g_owner = o_id,
      g_max_members = 500, g_created_at = t, g_updated_at = t\<rparr>] \<and>
    group_members (w_db w1) = group_members (w_db w) @ [\<lparr>gm_id = ai_group_members (w_auto w), gm_group = gid,
      gm_user = o_id, gm_role = GroupRoleOwner, gm_muted_until = None, gm_joined_at = t\<rparr>] \<and>
    group_tombstones (w_db w1) = group_tombstones (w_db w) \<and>
    cache_events (w_db w1) = cache_events (w_db w) @ [new_event (ai_cache_events (w_auto w)) GroupMembers gid (sql_now6 w)]"
  using assms
  by (clarsimp simp: group_create_body_def io_simps defaultGroupMaxMembers_def)

lemma group_add_member_body_ok:
  assumes "group_add_member_body gid op m w = (Inr x, w1)"
  shows "\<exists>g k t. find_group gid (w_db w) = Some g \<and>
    can_manage_group_members g (find_member gid op (w_db w)) op \<and>
    find_member gid m (w_db w) = None \<and>
    count_where (\<lambda>k. gm_group k = gid) (group_members (w_db w)) < g_max_members g \<and>
    ai_groups (w_auto w1) = ai_groups (w_auto w) \<and> groups (w_db w1) = groups (w_db w) \<and>
    group_tombstones (w_db w1) = group_tombstones (w_db w) \<and>
    group_members (w_db w1) = group_members (w_db w) @ [\<lparr>gm_id = k, gm_group = gid, gm_user = m,
      gm_role = GroupRoleMember, gm_muted_until = None, gm_joined_at = t\<rparr>]"
  using assms
  by (cases "op = m")
    (clarsimp simp: group_add_member_body_def io_simps member_count_def locked_count_2 split: option.splits)+

lemma group_remove_member_body_ok:
  assumes "group_remove_member_body gid op m w = (Inr x, w1)"
  shows "\<exists>g. find_group gid (w_db w) = Some g \<and> m \<noteq> g_owner g \<and>
    ai_groups (w_auto w1) = ai_groups (w_auto w) \<and> groups (w_db w1) = groups (w_db w) \<and>
    group_tombstones (w_db w1) = group_tombstones (w_db w) \<and>
    group_members (w_db w1) = delete_where (member_row gid m) (group_members (w_db w))"
  using assms
  by (clarsimp simp: group_remove_member_body_def io_simps split: option.splits)
    (auto dest: find_member_SomeD)

lemma group_leave_body_ok:
  assumes "group_leave_body gid u w = (Inr x, w1)"
  shows "\<exists>g. find_group gid (w_db w) = Some g \<and> u \<noteq> g_owner g \<and>
    ai_groups (w_auto w1) = ai_groups (w_auto w) \<and> groups (w_db w1) = groups (w_db w) \<and>
    group_tombstones (w_db w1) = group_tombstones (w_db w) \<and>
    group_members (w_db w1) = delete_where (member_row gid u) (group_members (w_db w))"
  using assms
  by (clarsimp simp: group_leave_body_def io_simps split: option.splits)

lemma group_update_role_body_ok:
  assumes "group_update_role_body gid op m role w = (Inr changed, w1)"
  shows "\<exists>g. find_group gid (w_db w) = Some g \<and> m \<noteq> g_owner g \<and>
    ai_groups (w_auto w1) = ai_groups (w_auto w) \<and> groups (w_db w1) = groups (w_db w) \<and>
    group_tombstones (w_db w1) = group_tombstones (w_db w) \<and>
    group_members (w_db w1) = (if changed
      then update_where (member_row gid m) (\<lambda>m. m\<lparr>gm_role := role\<rparr>) (group_members (w_db w))
      else group_members (w_db w))"
  using assms
  by (clarsimp simp: group_update_role_body_def io_simps split: option.splits if_splits)
    (auto dest: find_member_SomeD)

lemma group_mute_body_ok:
  assumes "group_mute_body gid op m deadline w = (Inr changed, w1)"
  shows "\<exists>g. find_group gid (w_db w) = Some g \<and> m \<noteq> g_owner g \<and>
    ai_groups (w_auto w1) = ai_groups (w_auto w) \<and> groups (w_db w1) = groups (w_db w) \<and>
    group_tombstones (w_db w1) = group_tombstones (w_db w) \<and>
    group_members (w_db w1) = (if changed
      then update_where (member_row gid m) (\<lambda>m. m\<lparr>gm_muted_until := map_option sql_datetime deadline\<rparr>) (group_members (w_db w))
      else group_members (w_db w))"
  using assms
  by (clarsimp simp: group_mute_body_def io_simps split: option.splits if_splits)
    (auto dest: find_member_SomeD)

lemma group_update_body_ok:
  assumes "group_update_body op gid nm nt w = (Inr x, w1)"
  shows "ai_groups (w_auto w1) = ai_groups (w_auto w) \<and> group_members (w_db w1) = group_members (w_db w) \<and>
    group_tombstones (w_db w1) = group_tombstones (w_db w) \<and>
    (\<exists>t. groups (w_db w1) = update_where (is_group gid)
        (\<lambda>g. g\<lparr>g_name := nm, g_notice := nt, g_updated_at := t\<rparr>) (groups (w_db w)))"
  using assms by (auto simp: group_update_body_def io_simps split: option.splits)

definition transfer_members :: "int \<Rightarrow> int \<Rightarrow> int \<Rightarrow> bool \<Rightarrow> group_member list \<Rightarrow> group_member list" where
  "transfer_members gid old new unmute ms =
     (let ms2 = update_where (member_row gid new) (\<lambda>m. m\<lparr>gm_role := GroupRoleOwner\<rparr>)
                  (update_where (member_row gid old) (\<lambda>m. m\<lparr>gm_role := GroupRoleMember\<rparr>) ms)
      in if unmute then update_where (member_row gid new) (\<lambda>m. m\<lparr>gm_muted_until := None\<rparr>) ms2 else ms2)"

lemma group_transfer_body_ok:
  assumes "group_transfer_body gid op v w = (Inr x, w1)"
  shows "\<exists>g. find_group gid (w_db w) = Some g \<and> g_owner g = op \<and>
    ai_groups (w_auto w1) = ai_groups (w_auto w) \<and> group_tombstones (w_db w1) = group_tombstones (w_db w) \<and>
    groups (w_db w1) = update_where (is_group gid) (\<lambda>g. g\<lparr>g_owner := v, g_updated_at := sql_now w\<rparr>) (groups (w_db w))"
    and "\<exists>nm. find_member gid v (w_db w) = Some nm"
    and "group_members (w_db w1) = transfer_members gid op v
      (gm_muted_until (the (find_member gid v (w_db w))) \<noteq> None) (group_members (w_db w))"
proof -
  show "\<exists>g. find_group gid (w_db w) = Some g \<and> g_owner g = op \<and>
    ai_groups (w_auto w1) = ai_groups (w_auto w) \<and> group_tombstones (w_db w1) = group_tombstones (w_db w) \<and>
    groups (w_db w1) = update_where (is_group gid) (\<lambda>g. g\<lparr>g_owner := v, g_updated_at := sql_now w\<rparr>) (groups (w_db w))"
    and "\<exists>nm. find_member gid v (w_db w) = Some nm"
    using assms
    by (cases "gm_muted_until (the (find_member gid v (w_db w)))";
        clarsimp simp: group_transfer_body_def io_simps split: option.splits)+
  show "group_members (w_db w1) = transfer_members gid op v
      (gm_muted_until (the (find_member gid v (w_db w))) \<noteq> None) (group_members (w_db w))"
    using assms
    by (cases "gm_muted_until (the (find_member gid v (w_db w)))";
        clarsimp simp: group_transfer_body_def io_simps transfer_members_def Let_def split: option.splits)
qed

lemma group_disband_body_ok:
  assumes "group_disband_body gid op w = (Inr (cleanup, rcpts), w1)"
  shows "ai_groups (w_auto w1) = ai_groups (w_auto w) \<and>
    (case find_group gid (w_db w) of
       None \<Rightarrow> w_db w1 = w_db w \<and> cleanup = tombstoned gid (w_db w)
     | Some g \<Rightarrow> cleanup \<and> g_owner g = op \<and>
         groups (w_db w1) = delete_where (is_group gid) (groups (w_db w)) \<and>
         group_members (w_db w1) = delete_where (\<lambda>m. gm_group m = gid) (group_members (w_db w)) \<and>
         group_tombstones (w_db w1) = put_tombstone gid (g_owner g) (group_tombstones (w_db w)))"
  using assms by (clarsimp simp: group_disband_body_def io_simps split: option.splits)

subsection \<open>Every command keeps the invariant\<close>

text \<open>A service whose ports do not write to MySQL; \<open>CacheTruth\<close> and the hub are of that kind.\<close>

definition ports_ok :: "group_service \<Rightarrow> bool" where
  "ports_ok s \<longleftrightarrow> (\<forall>f gid. gs_cache s = Some f \<longrightarrow> framed same_db (f gid)) \<and>
     (\<forall>f u t p. gs_notifier s = Some f \<longrightarrow> framed same_db (f u t p))"

lemma framed_db_refresh: "ports_ok s \<Longrightarrow> framed same_db (refresh_group_member_cache s gid)"
  by (auto simp: refresh_group_member_cache_def ports_ok_def intro: db_frame.framed_intros split: option.split)

lemma framed_db_notify: "ports_ok s \<Longrightarrow> framed same_db (notify_group_user s u t p)"
  by (auto simp: notify_group_user_def ports_ok_def intro: db_frame.framed_intros split: option.split)

lemma framed_db_notify_all: "ports_ok s \<Longrightarrow> framed same_db (notify_current_group_members s gid t p fb)"
  unfolding notify_current_group_members_def get_group_members_def Let_def
  by (auto intro!: db_frame.framed_intros framed_db_notify split: option.split)

lemmas framed_db_ports = framed_db_refresh framed_db_notify framed_db_notify_all

lemma groups_inv_same_db: "same_db w w' \<Longrightarrow> groups_inv w \<Longrightarrow> groups_inv w'"
  by (simp add: groups_inv_def same_db_def)

lemma groups_inv_net_pop [simp]: "groups_inv (net_pop w) = groups_inv w"
  by (simp add: groups_inv_def)

lemma groups_inv_tx:
  assumes inv: "groups_inv w" and mono: "framed auto_le body"
    and ok: "\<And>x w1. body (net_pop w) = (Inr x, w1) \<Longrightarrow> groups_inv w1"
  shows "groups_inv (snd (tx_block rep what body w))"
  using tx_atomic [where rep = rep and what = what and body = body and w = w]
proof
  assume db: "w_db (snd (tx_block rep what body w)) = w_db w"
  have "auto_le w (snd (tx_block rep what body w))"
    using framed_auto_tx [OF mono, where rep = rep and what = what] by (simp add: framed_def)
  then show ?thesis using inv ginv_mono unfolding groups_inv_def db auto_le_def by blast
next
  assume "\<exists>x w1. body (net_pop w) = (Inr x, w1) \<and> snd (tx_block rep what body w) = net_pop w1"
  then show ?thesis using ok by auto
qed

text \<open>A transaction, then something that leaves the database alone.\<close>

lemma groups_inv_command:
  assumes "groups_inv w" "framed auto_le body"
    and "\<And>x w1. body (net_pop w) = (Inr x, w1) \<Longrightarrow> groups_inv w1"
    and "\<And>x. framed same_db (rest x)"
  shows "groups_inv (snd (andThen (on_error h (tx_block rep what body)) rest w))"
proof -
  obtain r w1 where m: "tx_block rep what body w = (r, w1)" by fastforce
  then have "groups_inv w1" using groups_inv_tx [OF assms(1,2,3), where rep = rep and what = what] by simp
  then have "groups_inv (snd (rest x w1))" for x
    using assms(4) unfolding framed_def by (metis groups_inv_same_db)
  then show ?thesis using m \<open>groups_inv w1\<close> by (auto simp: andThen_def on_error_def split: sum.splits)
qed

lemma framed_auto_group_bodies:
  "framed auto_le (group_create_body a nm nt)" "framed auto_le (group_add_member_body gid a b)"
  "framed auto_le (group_remove_member_body gid a b)" "framed auto_le (group_leave_body gid a)"
  "framed auto_le (group_update_role_body gid a b r)" "framed auto_le (group_transfer_body gid a b)"
  "framed auto_le (group_disband_body gid a)" "framed auto_le (group_update_body a gid nm nt)"
  unfolding group_create_body_def group_add_member_body_def group_remove_member_body_def
    group_leave_body_def group_update_role_body_def group_transfer_body_def group_disband_body_def
    group_update_body_def
  by (intro framed_auto_group)+

lemma framed_auto_now: "framed auto_le now"
  by (simp add: framed_def now_def auto_le_def Let_def)

lemma framed_auto_mute_body: "framed auto_le (group_mute_body gid a b t)"
  unfolding group_mute_body_def by (intro framed_auto_group framed_auto_now)

lemma groups_inv_keep:
  assumes "groups_inv w" "ai_groups (w_auto w1) = ai_groups (w_auto w)" "groups (w_db w1) = groups (w_db w)"
    "group_members (w_db w1) = group_members (w_db w)" "group_tombstones (w_db w1) = group_tombstones (w_db w)"
  shows "groups_inv w1"
  using assms by (simp add: groups_inv_def)

lemma inv_create_body:
  assumes "groups_inv w" "group_create_body a nm nt w = (Inr gid, w1)"
  shows "groups_inv w1"
proof -
  from group_create_body_ok [OF assms(2)] obtain t where e:
    "gid = ai_groups (w_auto w)" "ai_groups (w_auto w1) = gid + 1"
    "groups (w_db w1) = groups (w_db w) @ [\<lparr>g_id = gid, g_name = nm, g_notice = nt, g_owner = a,
      g_max_members = 500, g_created_at = t, g_updated_at = t\<rparr>]"
    "group_members (w_db w1) = group_members (w_db w) @ [\<lparr>gm_id = ai_group_members (w_auto w), gm_group = gid,
      gm_user = a, gm_role = GroupRoleOwner, gm_muted_until = None, gm_joined_at = t\<rparr>]"
    "group_tombstones (w_db w1) = group_tombstones (w_db w)" by blast
  show ?thesis
    unfolding groups_inv_def e(2-5) unfolding e(1)
    by (rule ginv_create) (use assms(1) in \<open>simp_all add: groups_inv_def owner_row_ok_def\<close>)
qed

lemma inv_add_body:
  assumes "groups_inv w" "group_add_member_body gid a b w = (Inr x, w1)"
  shows "groups_inv w1"
proof -
  from group_add_member_body_ok [OF assms(2)] obtain g k t where e:
    "find_group gid (w_db w) = Some g" "find_member gid b (w_db w) = None"
    "count_where (\<lambda>k. gm_group k = gid) (group_members (w_db w)) < g_max_members g"
    "ai_groups (w_auto w1) = ai_groups (w_auto w)" "groups (w_db w1) = groups (w_db w)"
    "group_tombstones (w_db w1) = group_tombstones (w_db w)"
    "group_members (w_db w1) = group_members (w_db w) @ [\<lparr>gm_id = k, gm_group = gid, gm_user = b,
      gm_role = GroupRoleMember, gm_muted_until = None, gm_joined_at = t\<rparr>]" by blast
  note g = find_group_SomeD [OF e(1)]
  show ?thesis
    unfolding groups_inv_def e(4-7)
    by (rule ginv_add [where g = g])
      (use assms(1) e(2,3) g in \<open>auto simp: groups_inv_def find_member_None member_row_def\<close>)
qed

lemma inv_delete_member:
  assumes "groups_inv w" "find_group gid (w_db w) = Some g" "u \<noteq> g_owner g"
    "ai_groups (w_auto w1) = ai_groups (w_auto w)" "groups (w_db w1) = groups (w_db w)"
    "group_tombstones (w_db w1) = group_tombstones (w_db w)"
    "group_members (w_db w1) = delete_where (member_row gid u) (group_members (w_db w))"
  shows "groups_inv w1"
  using ginv_remove [of _ "groups (w_db w)" "group_members (w_db w)" _ g u] assms
    find_group_SomeD [OF assms(2)] by (simp add: groups_inv_def)

lemma inv_change_member:
  assumes "groups_inv w" "find_group gid (w_db w) = Some g" "u \<noteq> g_owner g"
    "ai_groups (w_auto w1) = ai_groups (w_auto w)" "groups (w_db w1) = groups (w_db w)"
    "group_tombstones (w_db w1) = group_tombstones (w_db w)"
    "group_members (w_db w1) = (if changed then update_where (member_row gid u) f (group_members (w_db w))
       else group_members (w_db w))"
    "\<And>m. gm_group (f m) = gm_group m" "\<And>m. gm_user (f m) = gm_user m"
    "\<And>m. gm_role m \<in> {GroupRoleMember, GroupRoleAdmin} \<Longrightarrow> gm_role (f m) \<in> {GroupRoleMember, GroupRoleAdmin}"
  shows "groups_inv w1"
proof (cases changed)
  case True
  have "ginv (ai_groups (w_auto w)) (groups (w_db w)) (update_where (member_row (g_id g) u) f (group_members (w_db w)))
     (group_tombstones (w_db w))"
    by (rule ginv_update_member) (use assms find_group_SomeD [OF assms(2)] in \<open>auto simp: groups_inv_def\<close>)
  then show ?thesis using True assms find_group_SomeD [OF assms(2)] by (simp add: groups_inv_def)
next
  case False
  then show ?thesis using assms groups_inv_keep by simp
qed

lemma transfer_members_map:
  "transfer_members gid old new unmute ms = map (\<lambda>m.
     let m1 = (if member_row gid old m then m\<lparr>gm_role := GroupRoleMember\<rparr> else m);
         m2 = (if member_row gid new m1 then m1\<lparr>gm_role := GroupRoleOwner\<rparr> else m1)
     in if unmute \<and> member_row gid new m2 then m2\<lparr>gm_muted_until := None\<rparr> else m2) ms"
  by (simp add: transfer_members_def update_where_def Let_def)

lemma inv_transfer_body:
  assumes "groups_inv w" "group_transfer_body gid a v w = (Inr x, w1)" "a \<noteq> v"
  shows "groups_inv w1"
proof -
  note ok = group_transfer_body_ok [OF assms(2)]
  from ok(1) obtain g where g: "find_group gid (w_db w) = Some g" "g_owner g = a"
    "ai_groups (w_auto w1) = ai_groups (w_auto w)" "group_tombstones (w_db w1) = group_tombstones (w_db w)"
    "groups (w_db w1) = update_where (is_group gid) (\<lambda>g. g\<lparr>g_owner := v, g_updated_at := sql_now w\<rparr>) (groups (w_db w))"
    by blast
  from ok(2) obtain nm where nm: "find_member gid v (w_db w) = Some nm" by blast
  note gd = find_group_SomeD [OF g(1)] and nd = find_member_SomeD [OF nm]
  show ?thesis
    unfolding groups_inv_def g(3-5) ok(3) transfer_members_map unfolding gd [THEN conjunct2, symmetric]
    by (rule ginv_transfer [where g = g and v = v and nm = nm])
      (use assms(1,3) gd nd nm g(2) in \<open>auto simp: groups_inv_def member_row_def Let_def\<close>)
qed

lemma inv_disband_body:
  assumes "groups_inv w" "group_disband_body gid a w = (Inr r, w1)"
  shows "groups_inv w1"
proof -
  obtain c rs where "r = (c, rs)" by fastforce
  note e = group_disband_body_ok [OF assms(2) [unfolded this]]
  show ?thesis
  proof (cases "find_group gid (w_db w)")
    case None
    then show ?thesis using e assms(1) groups_inv_keep by auto
  next
    case (Some g)
    then show ?thesis
      using e assms(1) find_group_SomeD [OF Some]
        ginv_disband [of _ "groups (w_db w)" "group_members (w_db w)" "group_tombstones (w_db w)" g]
      by (simp add: groups_inv_def)
  qed
qed

lemma inv_update_body:
  assumes "groups_inv w" "group_update_body a gid nm nt w = (Inr x, w1)"
  shows "groups_inv w1"
proof -
  from group_update_body_ok [OF assms(2)] obtain t where
    "groups (w_db w1) = update_where (is_group gid) (\<lambda>g. g\<lparr>g_name := nm, g_notice := nt, g_updated_at := t\<rparr>) (groups (w_db w))"
    "ai_groups (w_auto w1) = ai_groups (w_auto w)" "group_members (w_db w1) = group_members (w_db w)"
    "group_tombstones (w_db w1) = group_tombstones (w_db w)" by blast
  then show ?thesis using assms(1) by (auto simp: groups_inv_def intro: ginv_profile)
qed

lemma inv_remove_body:
  assumes "groups_inv w" "group_remove_member_body gid a m w = (Inr x, w1)"
  shows "groups_inv w1"
  using group_remove_member_body_ok [OF assms(2)] inv_delete_member [OF assms(1)] by blast

lemma inv_leave_body:
  assumes "groups_inv w" "group_leave_body gid u w = (Inr x, w1)"
  shows "groups_inv w1"
  using group_leave_body_ok [OF assms(2)] inv_delete_member [OF assms(1)] by blast

lemma inv_role_body:
  assumes "groups_inv w" "group_update_role_body gid a m r w = (Inr changed, w1)"
    "r = GroupRoleMember \<or> r = GroupRoleAdmin"
  shows "groups_inv w1"
proof -
  from group_update_role_body_ok [OF assms(2)] obtain g where g: "find_group gid (w_db w) = Some g" "m \<noteq> g_owner g"
    "ai_groups (w_auto w1) = ai_groups (w_auto w)" "groups (w_db w1) = groups (w_db w)"
    "group_tombstones (w_db w1) = group_tombstones (w_db w)"
    "group_members (w_db w1) = (if changed
      then update_where (member_row gid m) (\<lambda>m. m\<lparr>gm_role := r\<rparr>) (group_members (w_db w)) else group_members (w_db w))"
    by blast
  show ?thesis by (rule inv_change_member [OF assms(1) g]) (use assms(3) in auto)
qed

lemma inv_mute_body:
  assumes "groups_inv w" "group_mute_body gid a m t w = (Inr changed, w1)"
  shows "groups_inv w1"
proof -
  from group_mute_body_ok [OF assms(2)] obtain g where g: "find_group gid (w_db w) = Some g" "m \<noteq> g_owner g"
    "ai_groups (w_auto w1) = ai_groups (w_auto w)" "groups (w_db w1) = groups (w_db w)"
    "group_tombstones (w_db w1) = group_tombstones (w_db w)"
    "group_members (w_db w1) = (if changed
      then update_where (member_row gid m) (\<lambda>m. m\<lparr>gm_muted_until := map_option sql_datetime t\<rparr>) (group_members (w_db w))
      else group_members (w_db w))"
    by blast
  show ?thesis by (rule inv_change_member [OF assms(1) g]) auto
qed

lemma groups_inv_throw: "groups_inv w \<Longrightarrow> groups_inv (snd (throw e w))"
  by (simp add: throw_def)

lemma groups_inv_andThen:
  assumes "groups_inv w" "framed same_db m" "\<And>x w1. groups_inv w1 \<Longrightarrow> groups_inv (snd (f x w1))"
  shows "groups_inv (snd (andThen m f w))"
proof -
  obtain r w1 where m: "m w = (r, w1)" by fastforce
  with assms(2) have "same_db w w1" unfolding framed_def by (metis snd_conv)
  then have "groups_inv w1" using assms(1) groups_inv_same_db by blast
  then show ?thesis using m assms(3) by (auto simp: andThen_def split: sum.splits)
qed

lemma framed_db_mute_deadline: "framed same_db (normalize_group_mute_deadline t)"
  unfolding normalize_group_mute_deadline_def Let_def
  by (auto intro!: db_frame.framed_intros framed_db_now split: option.split)

lemma groups_inv_net: "groups_inv w \<Longrightarrow> groups_inv (net_pop w)"
  by simp

lemma command_inv_GCreate:
  assumes "groups_inv w" "ports_ok s"
    and GCreate: "c = GCreate a nm nt"
  shows "groups_inv (run_group_command s c w)"
proof -
  show ?thesis
    unfolding GCreate run_group_command.simps group_create_def
    by (auto simp: assms groups_inv_throw split: sum.split
        intro!: groups_inv_command db_frame.framed_intros framed_db_ports framed_auto_group_bodies
        dest: inv_create_body [OF groups_inv_net [OF assms(1)]])
qed

lemma command_inv_GAddMember:
  assumes "groups_inv w" "ports_ok s"
    and GAddMember: "c = GAddMember gid a b"
  shows "groups_inv (run_group_command s c w)"
proof -
  show ?thesis
    unfolding GAddMember run_group_command.simps group_add_member_def
    by (auto simp: assms groups_inv_throw
        intro!: groups_inv_command framed_db_ports framed_auto_group_bodies
        dest: inv_add_body [OF groups_inv_net [OF assms(1)]])
qed

lemma command_inv_GRemoveMember:
  assumes "groups_inv w" "ports_ok s"
    and GRemoveMember: "c = GRemoveMember gid a b"
  shows "groups_inv (run_group_command s c w)"
proof -
  show ?thesis
    unfolding GRemoveMember run_group_command.simps group_remove_member_def
    by (auto simp: assms groups_inv_throw
        intro!: groups_inv_command framed_db_ports framed_auto_group_bodies
        dest: inv_remove_body [OF groups_inv_net [OF assms(1)]])
qed

lemma command_inv_GUpdateRole:
  assumes "groups_inv w" "ports_ok s"
    and GUpdateRole: "c = GUpdateRole gid a b r"
  shows "groups_inv (run_group_command s c w)"
proof -
  show ?thesis
    unfolding GUpdateRole run_group_command.simps group_update_role_def
    by (auto simp: assms groups_inv_throw
        intro!: groups_inv_command db_frame.framed_intros framed_db_ports framed_auto_group_bodies
        dest: inv_role_body [OF groups_inv_net [OF assms(1)]])
qed

lemma command_inv_GMuteMember:
  assumes "groups_inv w" "ports_ok s"
    and GMuteMember: "c = GMuteMember gid a b t"
  shows "groups_inv (run_group_command s c w)"
proof -
  have tx: "groups_inv (snd (andThen (on_error group_service_error
      (within_tx ''group transaction'' (group_mute_body gid a b d)))
      (\<lambda>changed. when_ok changed (refresh_group_member_cache s gid)) w1))" if "groups_inv w1" for d w1
    by (rule groups_inv_command [OF that framed_auto_mute_body])
      (auto intro!: db_frame.framed_intros framed_db_ports simp: assms dest: inv_mute_body [OF groups_inv_net [OF that]])
  show ?thesis
    unfolding GMuteMember run_group_command.simps group_mute_member_def
    using groups_inv_andThen [OF assms(1) framed_db_mute_deadline tx]
    by (simp add: assms groups_inv_throw)
qed

lemma command_inv_GTransfer:
  assumes "groups_inv w" "ports_ok s"
    and GTransfer: "c = GTransfer gid a b"
  shows "groups_inv (run_group_command s c w)"
proof -
  show ?thesis
    unfolding GTransfer run_group_command.simps group_transfer_ownership_def
    by (auto simp: assms groups_inv_throw
        intro!: groups_inv_command db_frame.framed_intros framed_db_ports framed_auto_group_bodies
        dest: inv_transfer_body [OF groups_inv_net [OF assms(1)]])
qed

lemma command_inv_GLeave:
  assumes "groups_inv w" "ports_ok s"
    and GLeave: "c = GLeave gid a"
  shows "groups_inv (run_group_command s c w)"
proof -
  show ?thesis
    unfolding GLeave run_group_command.simps group_leave_def
    by (auto simp: assms groups_inv_throw
        intro!: groups_inv_command db_frame.framed_intros framed_db_ports framed_auto_group_bodies
        dest: inv_leave_body [OF groups_inv_net [OF assms(1)]])
qed

lemma command_inv_GDisband:
  assumes "groups_inv w" "ports_ok s"
    and GDisband: "c = GDisband gid a"
  shows "groups_inv (run_group_command s c w)"
proof -
  show ?thesis
    unfolding GDisband run_group_command.simps group_disband_def
    by (auto simp: assms groups_inv_throw split: prod.split
        intro!: groups_inv_command db_frame.framed_intros framed_db_ports framed_auto_group_bodies
        dest: inv_disband_body [OF groups_inv_net [OF assms(1)]])
qed

lemma command_inv_GUpdate:
  assumes "groups_inv w" "ports_ok s"
    and GUpdate: "c = GUpdate a gid nm nt"
  shows "groups_inv (run_group_command s c w)"
proof -
  have "framed same_db (\<lambda>w. (Inr x, w))" for x :: unit by (simp add: framed_def same_db_def)
  have eq: "groups_inv (snd (on_error h m w)) = groups_inv (snd (m w))" for h and m :: "unit io"
    by (auto simp: on_error_def split: prod.splits sum.splits)
  show ?thesis
    unfolding GUpdate run_group_command.simps group_update_def
    by (auto simp: assms groups_inv_throw eq split: sum.split
        intro!: groups_inv_tx framed_auto_group_bodies
        dest: inv_update_body [OF groups_inv_net [OF assms(1)]])
qed

text \<open>
  C4. Every group command keeps the group invariant, whichever of its remote calls fail or lose
  their acknowledgement: unique rows, one owner row per live group that carries the owner role and
  is not muted, no other owner role, at most \<open>max_members\<close> members, members only of live groups, and
  no tombstone for a live group or for an ID that can still be allocated.
\<close>

theorem group_commands_keep_invariant:
  assumes "groups_inv w" "ports_ok s"
  shows "groups_inv (run_group_command s c w)"
  by (cases c)
    (erule command_inv_GCreate [OF assms] |
     erule command_inv_GAddMember [OF assms] |
     erule command_inv_GRemoveMember [OF assms] |
     erule command_inv_GUpdateRole [OF assms] |
     erule command_inv_GMuteMember [OF assms] |
     erule command_inv_GTransfer [OF assms] |
     erule command_inv_GLeave [OF assms] |
     erule command_inv_GDisband [OF assms] |
     erule command_inv_GUpdate [OF assms])+

subsection \<open>A small world\<close>

definition demo_user :: "int \<Rightarrow> string \<Rightarrow> user" where
  "demo_user i nm = \<lparr>u_id = i, u_username = nm, u_password_hash = [], u_nickname = [], u_avatar_url = [],
     u_sign = [], u_gender = 0, u_created_at = 0, u_updated_at = 0\<rparr>"

definition demo_member :: "int \<Rightarrow> int \<Rightarrow> int \<Rightarrow> group_member" where
  "demo_member k u r = \<lparr>gm_id = k, gm_group = 1, gm_user = u, gm_role = r, gm_muted_until = None, gm_joined_at = 0\<rparr>"

definition demo_friendship :: "int \<Rightarrow> int \<Rightarrow> int \<Rightarrow> friendship" where
  "demo_friendship k a b = \<lparr>fs_id = k, fs_user = a, fs_friend = b, fs_nickname = [], fs_avatar_url = [],
     fs_online = False, fs_is_blocked = False, fs_created_at = 0\<rparr>"

text \<open>Three users, a friendship between the first two, and a group of the first and the third.\<close>

definition demo_world :: world where
  "demo_world = empty_world\<lparr>
     w_db := empty_db\<lparr>
       users := [demo_user 1 ''ann'', demo_user 2 ''bob'', demo_user 3 ''cyd''],
       friendships := [demo_friendship 1 1 2, demo_friendship 2 2 1],
       groups := [\<lparr>g_id = 1, g_name = ''team'', g_notice = [], g_owner = 1, g_max_members = 500,
                   g_created_at = 0, g_updated_at = 0\<rparr>],
       group_members := [demo_member 1 1 GroupRoleOwner, demo_member 2 3 GroupRoleMember]\<rparr>,
     w_auto := \<lparr>ai_users = 4, ai_friend_requests = 1, ai_friendships = 3, ai_blacklist = 1,
               ai_groups = 2, ai_group_members = 3, ai_cache_events = 1, ai_revoked = 1, ai_moments = 1,
               ai_moment_likes = 1, ai_moment_comments = 1, ai_settings = 1\<rparr>\<rparr>"

definition no_ports :: group_service where
  "no_ports = \<lparr>gs_cache = None, gs_notifier = None\<rparr>"

lemma ports_ok_none [simp]: "ports_ok no_ports"
  by (simp add: ports_ok_def no_ports_def)

lemma groups_inv_demo: "groups_inv demo_world"
  by (simp add: groups_inv_def demo_world_def empty_db_def ginv_def group_ok_def member_ok_def owner_row_ok_def
      demo_member_def member_key_def group_roles)

lemma groups_inv_env: "groups_inv (w\<lparr>w_net := n\<rparr>) = groups_inv w"
  by (simp add: groups_inv_def)

theorem group_commands_keep_invariant_witness:
  "groups_inv (run_group_command no_ports (GTransfer 1 1 3) (demo_world\<lparr>w_net := [Pass, Pass, Pass, Pass, Pass, Fail]\<rparr>))"
  by (rule group_commands_keep_invariant) (simp_all add: groups_inv_env groups_inv_demo)

end
