(* ===== verification/Refinement.thy ===== *)
theory Refinement
  imports World
begin

text \<open>
  What it means for a transaction, and for a command built around one, to implement a
  specification on an abstract state. \<open>view\<close> is the abstraction of the database; the
  specification gives an error code or the new abstract state. \<open>h\<close> is the translation that the
  service applies to the transaction's error.
\<close>

definition body_refines_via ::
  "(db \<Rightarrow> 's) \<Rightarrow> (go_error \<Rightarrow> go_error) \<Rightarrow> (go_error + 'a) \<times> world \<Rightarrow> int + 's \<Rightarrow> bool" where
  "body_refines_via view h rw sp \<longleftrightarrow> calm (snd rw) \<and> (case sp of
      Inl c \<Rightarrow> (\<exists>e. fst rw = Inl e \<and> app_code (h e) = c)
    | Inr st \<Rightarrow> \<not> isl (fst rw) \<and> view (w_db (snd rw)) = st)"

text \<open>The usual case: the error is one of the program's own, and is passed through.\<close>

definition body_refines :: "(db \<Rightarrow> 's) \<Rightarrow> (go_error + 'a) \<times> world \<Rightarrow> int + 's \<Rightarrow> bool" where
  "body_refines view rw sp \<longleftrightarrow> calm (snd rw) \<and> (case sp of
      Inl c \<Rightarrow> (\<exists>e. fst rw = Inl e \<and> as_app e = Some e \<and> \<not> err_is ErrConflict e \<and> app_code e = c)
    | Inr st \<Rightarrow> \<not> isl (fst rw) \<and> view (w_db (snd rw)) = st)"

definition command_refines :: "(db \<Rightarrow> 's) \<Rightarrow> (go_error + 'a) \<times> world \<Rightarrow> 's \<Rightarrow> int + 's \<Rightarrow> bool" where
  "command_refines view rw st0 sp \<longleftrightarrow> (case sp of
      Inl c \<Rightarrow> (\<exists>e. fst rw = Inl e \<and> app_code e = c) \<and> view (w_db (snd rw)) = st0
    | Inr st \<Rightarrow> \<not> isl (fst rw) \<and> view (w_db (snd rw)) = st)"

lemma body_refines_via:
  assumes "body_refines view rw sp"
    and "\<And>e. as_app e = Some e \<Longrightarrow> \<not> err_is ErrConflict e \<Longrightarrow> app_code (h e) = app_code e"
  shows "body_refines_via view h rw sp"
  using assms by (auto simp: body_refines_def body_refines_via_def split: sum.splits)

subsection \<open>Steps that cannot fail\<close>

definition succeeds :: "'a io \<Rightarrow> bool" where
  "succeeds m \<longleftrightarrow> (\<forall>w. \<exists>x. fst (m w) = Inr x)"

lemma succeeds_intros:
  "succeeds (ret x)" "succeeds (best_effort m)"
  "succeeds m \<Longrightarrow> succeeds (when_ok b m)"
  by (auto simp: succeeds_def ret_def best_effort_def when_ok_def)

lemma succeeds_andThen:
  assumes "succeeds m" "\<And>x. succeeds (f x)" shows "succeeds (andThen m f)"
  unfolding succeeds_def
proof
  fix w
  obtain x w1 where "m w = (Inr x, w1)" using assms(1) unfolding succeeds_def by (metis prod.collapse)
  then show "\<exists>x. fst (andThen m f w) = Inr x" using assms(2) by (simp add: andThen_def succeeds_def)
qed

lemma succeeds_attempt: "succeeds (attempt m)"
  by (simp add: succeeds_def attempt_def split: prod.split)

lemma succeeds_for_each: "(\<And>x. succeeds (f x)) \<Longrightarrow> succeeds (for_each f xs)"
  by (induction xs) (auto intro: succeeds_intros succeeds_andThen)

lemma succeeds_prod: "(\<And>x y. succeeds (f x y)) \<Longrightarrow> succeeds (case p of (x, y) \<Rightarrow> f x y)"
  by (simp split: prod.split)

lemma succeeds_option:
  "succeeds m \<Longrightarrow> (\<And>x. succeeds (f x)) \<Longrightarrow> succeeds (case opt of None \<Rightarrow> m | Some x \<Rightarrow> f x)"
  by (simp split: option.split)

subsection \<open>From the callback to the command\<close>

lemma command_refines_viaI:
  assumes "calm w" "body_refines_via view h (body w) sp" "\<And>x. framed same_db (rest x)" "\<And>x. succeeds (rest x)"
  shows "command_refines view (andThen (on_error h (tx_block rep what body)) rest w) (view (w_db w)) sp"
proof -
  obtain r w1 where b: "body w = (r, w1)" by fastforce
  then have "calm w1" using assms(2) by (simp add: body_refines_via_def)
  then have tx: "tx_block rep what body w = (r, case r of Inl e \<Rightarrow> w1\<lparr>w_db := w_db w\<rparr> | Inr x \<Rightarrow> w1)"
    using calm_tx [where body = body, OF assms(1) b] by simp
  show ?thesis
  proof (cases r)
    case (Inl e)
    then show ?thesis using assms(2) tx b
      by (auto simp: body_refines_via_def command_refines_def andThen_def on_error_def split: sum.splits)
  next
    case (Inr x)
    have "w_db (snd (rest x w1)) = w_db w1" using assms(3) [of x] by (simp add: framed_def same_db_def)
    moreover obtain y where "fst (rest x w1) = Inr y" using assms(4) [of x] unfolding succeeds_def by blast
    ultimately show ?thesis using Inr assms(2) tx b
      by (auto simp: body_refines_via_def command_refines_def andThen_def on_error_def split: sum.splits)
  qed
qed

lemma command_refinesI:
  assumes "calm w" "body_refines view (body w) sp" "\<And>x. framed same_db (rest x)" "\<And>x. succeeds (rest x)"
    and "\<And>e. as_app e = Some e \<Longrightarrow> \<not> err_is ErrConflict e \<Longrightarrow> app_code (h e) = app_code e"
  shows "command_refines view (andThen (on_error h (tx_block rep what body)) rest w) (view (w_db w)) sp"
proof (rule command_refines_viaI)
  show "body_refines_via view h (body w) sp" using body_refines_via [OF assms(2), of h] assms(5) by blast
qed (use assms in auto)

lemma command_refines_throw:
  "app_code e = c \<Longrightarrow> command_refines view (throw e w) (view (w_db w)) (Inl c)"
  by (simp add: command_refines_def throw_def)

text \<open>Forget the result of a command.\<close>

definition isolate :: "'a io \<Rightarrow> unit io" where
  "isolate m = andThen m (\<lambda>_. ret ())"

lemma isolate_snd: "snd (isolate m w) = snd (m w)"
  by (simp add: isolate_def andThen_def ret_def split: prod.splits sum.splits)

lemma command_refines_isolate:
  "command_refines view (m w) st sp \<Longrightarrow> command_refines view (isolate m w) st sp"
  by (auto simp: command_refines_def isolate_def andThen_def ret_def split: sum.splits prod.splits)

lemma atomic_isolate: "db_atomic m \<Longrightarrow> db_atomic (isolate m)"
  by (simp add: db_atomic_def isolate_snd)

lemma calm_okI: "calm w \<Longrightarrow> net_now w = Pass \<and> net_pop w = w"
  by simp

lemma calm_require: "require b e w = (if b then (Inr (), w) else (Inl e, w))"
  by (simp add: require_def ret_def throw_def)

end
