(* ===== verification/GroupSpec.thy ===== *)
theory GroupSpec
  imports GroupInv Refinement
begin

text \<open>
  An abstract specification of the group commands and the refinement to it. The specification
  knows groups as a map from IDs to owner, capacity, profile and a map of members, and the set of
  dissolved IDs; it has no rows, row IDs, joining times or transactions. The refinement says that
  without faults every command gives the specified error code, or the specified new state.
\<close>

record agroup =
  ag_name :: string
  ag_notice :: string
  ag_owner :: int
  ag_max :: int
  ag_members :: "int \<rightharpoonup> (int \<times> int option)"

record gspec =
  sp_groups :: "int \<rightharpoonup> agroup"
  sp_dead :: "int set"

text \<open>What the commands observe of the rest of the system.\<close>

record genv =
  ge_user :: "int \<Rightarrow> bool"
  ge_friends :: "int \<Rightarrow> int \<Rightarrow> bool"
  ge_now :: int
  ge_fresh :: int

definition may_manage :: "agroup \<Rightarrow> int \<Rightarrow> bool" where
  "may_manage g u = (case ag_members g u of None \<Rightarrow> False | Some (r, _) \<Rightarrow> ag_owner g = u \<or> r = GroupRoleAdmin)"

text \<open>A target below the operator: the owner manages everybody else, an administrator only plain members.\<close>

definition below :: "agroup \<Rightarrow> int \<Rightarrow> int \<Rightarrow> bool" where
  "below g operator r = (ag_owner g = operator \<or> r = GroupRoleMember)"

definition set_member :: "int \<Rightarrow> (int \<times> int option) option \<Rightarrow> agroup \<Rightarrow> agroup" where
  "set_member u v g = g\<lparr>ag_members := (ag_members g)(u := v)\<rparr>"

definition put_group :: "int \<Rightarrow> agroup option \<Rightarrow> gspec \<Rightarrow> gspec" where
  "put_group gid g st = st\<lparr>sp_groups := (sp_groups st)(gid := g)\<rparr>"

definition mute_deadline_ok :: "int \<Rightarrow> int \<Rightarrow> bool" where
  "mute_deadline_ok t0 t = (year_1000 \<le> truncate_second t div second \<and> truncate_second t div second < year_10000
     \<and> t0 < truncate_second t)"

fun spec_group :: "genv \<Rightarrow> group_command \<Rightarrow> gspec \<Rightarrow> int + gspec" where
  "spec_group E (GCreate u nm nt) st =
    (if u \<le> 0 then Inl CodeInvalidParam
     else case normalize_group_profile nm nt of
       Inl e \<Rightarrow> Inl (app_code e)
     | Inr (name, notice) \<Rightarrow>
         if \<not> ge_user E u then Inl CodeUserNotFound
         else Inr (put_group (ge_fresh E) (Some \<lparr>ag_name = name, ag_notice = notice, ag_owner = u, ag_max = 500,
                ag_members = [u \<mapsto> (GroupRoleOwner, None)]\<rparr>) st))"
| "spec_group E (GAddMember gid a b) st =
    (if gid \<le> 0 \<or> a \<le> 0 \<or> b \<le> 0 then Inl CodeInvalidParam
     else case sp_groups st gid of None \<Rightarrow> Inl CodeGroupNotFound | Some g \<Rightarrow>
       if \<not> may_manage g a then Inl CodeNotOwnerOrAdmin
       else if b \<in> dom (ag_members g) then Inl CodeAlreadyMember
       else if a = b \<or> \<not> ge_user E a \<or> \<not> ge_user E b then Inl CodeUserNotFound
       else if \<not> ge_friends E a b then Inl CodeMemberNotFriend
       else if int (card (dom (ag_members g))) \<ge> ag_max g then Inl CodeGroupFull
       else Inr (put_group gid (Some (set_member b (Some (GroupRoleMember, None)) g)) st))"
| "spec_group E (GRemoveMember gid a b) st =
    (if gid \<le> 0 \<or> a \<le> 0 \<or> b \<le> 0 then Inl CodeInvalidParam
     else case sp_groups st gid of None \<Rightarrow> Inl CodeGroupNotFound | Some g \<Rightarrow>
       if \<not> may_manage g a then Inl CodeNotOwnerOrAdmin
       else case ag_members g b of None \<Rightarrow> Inl CodeGroupMemberNotFound | Some (r, _) \<Rightarrow>
         if b = ag_owner g then Inl CodeCannotRemoveOwner
         else if \<not> below g a r then Inl CodeCannotRemovePeer
         else Inr (put_group gid (Some (set_member b None g)) st))"
| "spec_group E (GUpdateRole gid a b role) st =
    (if gid \<le> 0 \<or> a \<le> 0 \<or> b \<le> 0 then Inl CodeInvalidParam
     else if role \<noteq> GroupRoleMember \<and> role \<noteq> GroupRoleAdmin then Inl CodeInvalidRole
     else case sp_groups st gid of None \<Rightarrow> Inl CodeGroupNotFound | Some g \<Rightarrow>
       if \<not> (a \<in> dom (ag_members g) \<and> ag_owner g = a) then Inl CodeNotOwnerOrAdmin
       else case ag_members g b of None \<Rightarrow> Inl CodeGroupMemberNotFound | Some (_, mu) \<Rightarrow>
         if b = ag_owner g then Inl CodeNotOwnerOrAdmin
         else Inr (put_group gid (Some (set_member b (Some (role, mu)) g)) st))"
| "spec_group E (GMuteMember gid a b t) st =
    (if gid \<le> 0 \<or> a \<le> 0 \<or> b \<le> 0 then Inl CodeInvalidParam
     else if \<not> (case t of None \<Rightarrow> True | Some x \<Rightarrow> mute_deadline_ok (ge_now E) x) then Inl CodeInvalidParam
     else case sp_groups st gid of None \<Rightarrow> Inl CodeGroupNotFound | Some g \<Rightarrow>
       if \<not> may_manage g a then Inl CodeNotOwnerOrAdmin
       else case ag_members g b of None \<Rightarrow> Inl CodeGroupMemberNotFound | Some (r, _) \<Rightarrow>
         if b = ag_owner g \<or> \<not> below g a r then Inl CodeNotOwnerOrAdmin
         else Inr (put_group gid (Some (set_member b (Some (r, map_option truncate_second t)) g)) st))"
| "spec_group E (GTransfer gid a b) st =
    (if gid \<le> 0 \<or> a \<le> 0 \<or> b \<le> 0 \<or> a = b then Inl CodeInvalidParam
     else case sp_groups st gid of None \<Rightarrow> Inl CodeGroupNotFound | Some g \<Rightarrow>
       case ag_members g a of None \<Rightarrow> Inl CodeNotOwnerOrAdmin | Some (_, mu) \<Rightarrow>
         if ag_owner g \<noteq> a then Inl CodeNotOwnerOrAdmin
         else if b \<notin> dom (ag_members g) then Inl CodeGroupMemberNotFound
         else Inr (put_group gid (Some ((set_member b (Some (GroupRoleOwner, None))
                (set_member a (Some (GroupRoleMember, mu)) g))\<lparr>ag_owner := b\<rparr>)) st))"
| "spec_group E (GLeave gid a) st =
    (if gid \<le> 0 \<or> a \<le> 0 then Inl CodeInvalidParam
     else case sp_groups st gid of None \<Rightarrow> Inl CodeGroupNotFound | Some g \<Rightarrow>
       if a \<notin> dom (ag_members g) then Inl CodeGroupNotMember
       else if ag_owner g = a then Inl CodeCannotLeaveAsOwner
       else Inr (put_group gid (Some (set_member a None g)) st))"
| "spec_group E (GDisband gid a) st =
    (if gid \<le> 0 \<or> a \<le> 0 then Inl CodeInvalidParam
     else case sp_groups st gid of None \<Rightarrow> Inr st | Some g \<Rightarrow>
       if ag_owner g \<noteq> a then Inl CodeNotOwnerOrAdmin
       else Inr ((put_group gid None st)\<lparr>sp_dead := insert gid (sp_dead st)\<rparr>))"
| "spec_group E (GUpdate a gid nm nt) st =
    (if a \<le> 0 \<or> gid \<le> 0 then Inl CodeInvalidParam
     else case normalize_group_profile nm nt of
       Inl e \<Rightarrow> Inl (app_code e)
     | Inr (name, notice) \<Rightarrow>
       case sp_groups st gid of None \<Rightarrow> Inl CodeGroupNotFound | Some g \<Rightarrow>
         if \<not> may_manage g a then Inl CodeNotOwnerOrAdmin
         else Inr (put_group gid (Some (g\<lparr>ag_name := name, ag_notice := notice\<rparr>)) st))"

subsection \<open>The abstraction\<close>

definition ag_of :: "db \<Rightarrow> int \<Rightarrow> group \<Rightarrow> agroup" where
  "ag_of d gid g = \<lparr>ag_name = g_name g, ag_notice = g_notice g, ag_owner = g_owner g, ag_max = g_max_members g,
        ag_members = (\<lambda>u. map_option (\<lambda>m. (gm_role m, gm_muted_until m)) (find_member gid u d))\<rparr>"

definition aview :: "db \<Rightarrow> gspec" where
  "aview d = \<lparr>sp_groups = (\<lambda>gid. map_option (ag_of d gid) (find_group gid d)),
     sp_dead = gt_group ` set (group_tombstones d)\<rparr>"

definition genv_of :: "world \<Rightarrow> genv" where
  "genv_of w = \<lparr>ge_user = (\<lambda>u. user_exists u (w_db w)), ge_friends = (\<lambda>a b. friends_in a b (w_db w)),
     ge_now = w_clock w, ge_fresh = ai_groups (w_auto w)\<rparr>"

lemma genv_of_sel [simp]:
  "ge_user (genv_of w) u = user_exists u (w_db w)" "ge_friends (genv_of w) a b = friends_in a b (w_db w)"
  "ge_now (genv_of w) = w_clock w" "ge_fresh (genv_of w) = ai_groups (w_auto w)"
  by (simp_all add: genv_of_def)

lemma sp_groups_aview: "sp_groups (aview d) gid = map_option (ag_of d gid) (find_group gid d)"
  by (simp add: aview_def)

lemma ag_of_fields [simp]:
  "ag_owner (ag_of d gid g) = g_owner g" "ag_max (ag_of d gid g) = g_max_members g"
  "ag_members (ag_of d gid g) u = map_option (\<lambda>m. (gm_role m, gm_muted_until m)) (find_member gid u d)"
  "u \<in> dom (ag_members (ag_of d gid g)) \<longleftrightarrow> find_member gid u d \<noteq> None"
  by (auto simp: ag_of_def)

lemma may_manage_ag_of: "may_manage (ag_of d gid g) u = can_manage_group_members g (find_member gid u d) u"
  by (auto simp: may_manage_def can_manage_group_members_def split: option.splits)

lemma member_count_card:
  assumes "distinct (map member_key (group_members d))"
  shows "member_count gid d = int (card (dom (ag_members (ag_of d gid g))))"
proof -
  let ?ms = "filter (\<lambda>m. gm_group m = gid) (group_members d)"
  have dist: "distinct (map member_key ?ms)" using assms by (rule distinct_map_filter)
  have inj: "inj_on gm_user (set ?ms)"
    using dist unfolding distinct_map by (auto simp: inj_on_def member_key_def)
  have dom: "dom (ag_members (ag_of d gid g)) = gm_user ` set ?ms"
    by (auto simp: ag_of_def dom_def find_member_None find_member_def member_row_def find_None_set image_iff)
  have "card (gm_user ` set ?ms) = card (set ?ms)" by (rule card_image [OF inj])
  also have "\<dots> = length ?ms" using dist by (metis distinct_card distinct_map)
  finally show ?thesis by (simp add: dom member_count_def count_where_def)
qed

subsection \<open>Effects seen through the abstraction\<close>

lemma aview_cong:
  assumes "groups d' = groups d" "group_members d' = group_members d" "group_tombstones d' = group_tombstones d"
  shows "aview d' = aview d"
  using assms by (simp add: aview_def ag_of_def [abs_def] find_group_def find_member_def)

lemma aview_member:
  assumes "groups d' = groups d" "group_tombstones d' = group_tombstones d" "find_group gid d = Some g"
    and "\<And>gid' u'. find_member gid' u' d' = (if gid' = gid \<and> u' = u then v else find_member gid' u' d)"
  shows "aview d' = put_group gid (Some (set_member u (map_option (\<lambda>m. (gm_role m, gm_muted_until m)) v)
     (ag_of d gid g))) (aview d)"
  using assms
  by (auto simp: aview_def put_group_def set_member_def ag_of_def find_group_def fun_eq_iff map_option_case
      split: option.splits)

lemma find_member_append:
  assumes "find_member (gm_group m) (gm_user m) d = None" "group_members d' = group_members d @ [m]"
  shows "find_member gid' u' d' = (if gid' = gm_group m \<and> u' = gm_user m then Some m else find_member gid' u' d)"
  using assms by (auto simp: find_member_def find_append member_row_def split: option.splits)

lemma find_member_delete:
  assumes "group_members d' = delete_where (member_row gid u) (group_members d)"
  shows "find_member gid' u' d' = (if gid' = gid \<and> u' = u then None else find_member gid' u' d)"
proof (cases "gid' = gid \<and> u' = u")
  case True
  then show ?thesis unfolding find_member_def assms by (simp add: find_delete_same)
next
  case False
  then show ?thesis unfolding find_member_def assms by (auto simp: member_row_def intro!: find_delete_where)
qed

lemma find_member_update:
  assumes "group_members d' = update_where (member_row gid u) f (group_members d)"
    and "\<And>m. gm_group (f m) = gm_group m" "\<And>m. gm_user (f m) = gm_user m"
  shows "find_member gid' u' d' = (if gid' = gid \<and> u' = u then map_option f (find_member gid u d)
     else find_member gid' u' d)"
proof -
  have "find_member gid' u' d' = map_option (\<lambda>r. if member_row gid u r then f r else r) (find_member gid' u' d)"
    unfolding find_member_def assms(1) by (rule find_update_where) (simp add: member_row_def assms)
  also have "\<dots> = (if gid' = gid \<and> u' = u then map_option f (find_member gid u d) else find_member gid' u' d)"
  proof (cases "find_member gid' u' d")
    case (Some m)
    then show ?thesis using find_member_SomeD [OF Some] by (auto simp: member_row_def)
  qed auto
  finally show ?thesis .
qed

lemma succeeds_ports:
  "succeeds (refresh_group_member_cache s gid)" "succeeds (notify_group_user s u t p)"
  "succeeds (notify_current_group_members s gid t p fb)"
  by (auto simp: refresh_group_member_cache_def notify_group_user_def notify_current_group_members_def Let_def
      intro!: succeeds_intros succeeds_andThen succeeds_attempt succeeds_for_each split: option.split)

lemma group_service_error_code: "as_app e = Some e \<Longrightarrow> app_code (group_service_error e) = app_code e"
  by (simp add: group_service_error_def)

subsection \<open>Each callback against the specification\<close>

lemma calm_group_reads:
  assumes "calm w"
  shows "is_friend_pair a b w = (Inr (friends_in a b (w_db w)), w)"
    "lock_group_creator a w = (Inr (user_exists a (w_db w)), w)"
    "lock_group_users a b w = (Inr (locked_count a b (w_db w)), w)"
    "get_group_for_update gid w = (Inr (find_group gid (w_db w)), w)"
    "get_group_member_for_update gid a w = (Inr (find_member gid a (w_db w)), w)"
    "is_group_tombstoned gid w = (Inr (tombstoned gid (w_db w)), w)"
    "get_group_members gid w = (Inr (members_of gid (w_db w)), w)"
    "count_group_members gid w = (Inr (member_count gid (w_db w)), w)"
  using assms by (simp_all add: io_simps)

lemma calm_group_writes:
  assumes "calm w"
  shows "update_group_owner gid v w = (Inr (), w\<lparr>w_db := (w_db w)\<lparr>groups := update_where (is_group gid)
       (\<lambda>g. g\<lparr>g_owner := v, g_updated_at := sql_now w\<rparr>) (groups (w_db w))\<rparr>\<rparr>)"
    "update_group_profile gid nm nt w = (Inr (), w\<lparr>w_db := (w_db w)\<lparr>groups := update_where (is_group gid)
       (\<lambda>g. g\<lparr>g_name := nm, g_notice := nt, g_updated_at := sql_now w\<rparr>) (groups (w_db w))\<rparr>\<rparr>)"
    "upsert_group_tombstone gid v w = (Inr (), w\<lparr>w_db := (w_db w)\<lparr>group_tombstones :=
       put_tombstone gid v (group_tombstones (w_db w))\<rparr>\<rparr>)"
    "remove_group_member gid a w = (Inr (), w\<lparr>w_db := (w_db w)\<lparr>group_members :=
       delete_where (member_row gid a) (group_members (w_db w))\<rparr>\<rparr>)"
    "delete_group_members gid w = (Inr (), w\<lparr>w_db := (w_db w)\<lparr>group_members :=
       delete_where (\<lambda>m. gm_group m = gid) (group_members (w_db w))\<rparr>\<rparr>)"
    "update_group_member_role gid a r w = (Inr (), w\<lparr>w_db := (w_db w)\<lparr>group_members :=
       update_where (member_row gid a) (\<lambda>m. m\<lparr>gm_role := r\<rparr>) (group_members (w_db w))\<rparr>\<rparr>)"
    "update_group_member_mute gid a t w = (Inr (), w\<lparr>w_db := (w_db w)\<lparr>group_members :=
       update_where (member_row gid a) (\<lambda>m. m\<lparr>gm_muted_until := map_option sql_datetime t\<rparr>) (group_members (w_db w))\<rparr>\<rparr>)"
    "count_where (is_group gid) (groups (w_db w)) = 1 \<Longrightarrow>
     delete_group gid w = (Inr (), w\<lparr>w_db := (w_db w)\<lparr>groups := delete_where (is_group gid) (groups (w_db w))\<rparr>\<rparr>)"
    "create_group g w = (Inr (ai_groups (w_auto w)), w\<lparr>w_auto := (w_auto w)\<lparr>ai_groups := ai_groups (w_auto w) + 1\<rparr>,
       w_db := (w_db w)\<lparr>groups := groups (w_db w) @
       [g\<lparr>g_id := ai_groups (w_auto w), g_created_at := sql_now w, g_updated_at := sql_now w\<rparr>]\<rparr>\<rparr>)"
    "find_member (gm_group m) (gm_user m) (w_db w) = None \<Longrightarrow>
     add_group_member m w = (Inr (ai_group_members (w_auto w)), w\<lparr>w_auto := (w_auto w)\<lparr>ai_group_members :=
         ai_group_members (w_auto w) + 1\<rparr>,
       w_db := (w_db w)\<lparr>group_members := group_members (w_db w) @
       [m\<lparr>gm_id := ai_group_members (w_auto w), gm_muted_until := map_option sql_datetime (gm_muted_until m),
          gm_joined_at := sql_now w\<rparr>]\<rparr>\<rparr>)"
  using assms by (simp_all add: io_simps exists_row_iff find_member_None member_row_def)

lemmas calm_group = andThen_def calm_require calm_group_reads calm_group_writes calm_enqueue when_ok_def

lemma find_member_db_cong [simp]:
  "find_member gid u (d\<lparr>cache_events := es\<rparr>) = find_member gid u d"
  "find_member gid u (d\<lparr>groups := gs\<rparr>) = find_member gid u d"
  "find_group gid (d\<lparr>group_members := ms\<rparr>) = find_group gid d"
  "find_group gid (d\<lparr>cache_events := es\<rparr>) = find_group gid d"
  "find_group gid (d\<lparr>group_tombstones := ts\<rparr>) = find_group gid d"
  by (simp_all add: find_member_def find_group_def)

lemma aview_events [simp]: "aview (d\<lparr>cache_events := es\<rparr>) = aview d"
  by (rule aview_cong) simp_all

lemma groups_inv_distinct: "groups_inv w \<Longrightarrow> distinct (map member_key (group_members (w_db w)))"
  by (simp add: groups_inv_def ginv_def)

lemma add_member_refines:
  assumes "calm w" "groups_inv w" "0 < gid" "0 < a" "0 < b"
  shows "body_refines aview (group_add_member_body gid a b w)
           (spec_group (genv_of w) (GAddMember gid a b) (aview (w_db w)))"
proof (cases "find_group gid (w_db w)")
  case None
  then show ?thesis using assms
    by (simp add: body_refines_def group_add_member_body_def calm_group throw_def sp_groups_aview)
next
  case (Some g)
  note count = member_count_card [OF groups_inv_distinct [OF assms(2)], of gid g]
  show ?thesis
  proof (cases "find_member gid b (w_db w)")
    case (Some m)
    then show ?thesis using assms \<open>find_group gid (w_db w) = Some g\<close>
      by (simp add: body_refines_def group_add_member_body_def calm_group throw_def sp_groups_aview may_manage_ag_of)
  next
    case None
    have eff: "aview ((w_db w)\<lparr>group_members := group_members (w_db w) @ [\<lparr>gm_id = k, gm_group = gid, gm_user = b,
        gm_role = GroupRoleMember, gm_muted_until = None, gm_joined_at = t\<rparr>]\<rparr>) =
      put_group gid (Some (set_member b (Some (GroupRoleMember, None)) (ag_of (w_db w) gid g))) (aview (w_db w))" for k t
    proof -
      let ?m = "\<lparr>gm_id = k, gm_group = gid, gm_user = b, gm_role = GroupRoleMember, gm_muted_until = None, gm_joined_at = t\<rparr>"
      let ?d = "(w_db w)\<lparr>group_members := group_members (w_db w) @ [?m]\<rparr>"
      have "find_member gid' u' ?d = (if gid' = gid \<and> u' = b then Some ?m else find_member gid' u' (w_db w))" for gid' u'
        using find_member_append [where m = ?m and d = "w_db w" and d' = ?d] None by simp
      then show ?thesis using aview_member [where d' = ?d and d = "w_db w" and v = "Some ?m" and u = b] Some by simp
    qed
    show ?thesis using assms Some None count eff
      by (simp add: body_refines_def group_add_member_body_def calm_group throw_def sp_groups_aview may_manage_ag_of locked_count_2)
  qed
qed

lemma aview_put:
  assumes "\<And>gid'. find_group gid' d' = (if gid' = gid then g' else find_group gid' d)"
    and "\<And>gid' u. gid' \<noteq> gid \<Longrightarrow> find_member gid' u d' = find_member gid' u d"
    and "group_tombstones d' = group_tombstones d"
  shows "aview d' = put_group gid (map_option (ag_of d' gid) g') (aview d)"
  using assms by (auto simp: aview_def put_group_def ag_of_def fun_eq_iff map_option_case split: option.splits)

lemma aview_update:
  assumes "find_group gid d = Some g" "find_member gid u d = Some m"
    and "\<And>m. gm_group (f m) = gm_group m" "\<And>m. gm_user (f m) = gm_user m"
  shows "aview (d\<lparr>group_members := update_where (member_row gid u) f (group_members d)\<rparr>) =
    put_group gid (Some (set_member u (Some (gm_role (f m), gm_muted_until (f m))) (ag_of d gid g))) (aview d)"
proof -
  let ?d = "d\<lparr>group_members := update_where (member_row gid u) f (group_members d)\<rparr>"
  have "find_member gid' u' ?d = (if gid' = gid \<and> u' = u then Some (f m) else find_member gid' u' d)" for gid' u'
    using find_member_update [where d' = ?d and d = d and f = f and gid = gid and u = u] assms by simp
  then show ?thesis using aview_member [where d' = ?d and d = d and v = "Some (f m)" and u = u] assms(1) by simp
qed

lemma aview_delete:
  assumes "find_group gid d = Some g"
  shows "aview (d\<lparr>group_members := delete_where (member_row gid u) (group_members d)\<rparr>) =
    put_group gid (Some (set_member u None (ag_of d gid g))) (aview d)"
proof -
  let ?d = "d\<lparr>group_members := delete_where (member_row gid u) (group_members d)\<rparr>"
  have "find_member gid' u' ?d = (if gid' = gid \<and> u' = u then None else find_member gid' u' d)" for gid' u'
    using find_member_delete [where d' = ?d and d = d and gid = gid and u = u] by simp
  then show ?thesis using aview_member [where d' = ?d and d = d and v = None and u = u] assms by simp
qed

lemma put_group_same:
  assumes "find_group gid d = Some g" "find_member gid u d = Some m" "gm_role m = r" "gm_muted_until m = mu"
  shows "put_group gid (Some (set_member u (Some (r, mu)) (ag_of d gid g))) (aview d) = aview d"
proof -
  have "set_member u (Some (r, mu)) (ag_of d gid g) = ag_of d gid g"
    using assms by (auto simp: set_member_def ag_of_def fun_eq_iff)
  moreover have "sp_groups (aview d) gid = Some (ag_of d gid g)" using assms by (simp add: sp_groups_aview)
  ultimately show ?thesis by (simp add: put_group_def fun_upd_idem)
qed

lemma below_ag_of: "below (ag_of d gid g) a r \<longleftrightarrow> \<not> (g_owner g \<noteq> a \<and> r \<noteq> GroupRoleMember)"
  by (auto simp: below_def)

lemma remove_member_refines:
  assumes "calm w" "0 < gid" "0 < a" "0 < b"
  shows "body_refines aview (group_remove_member_body gid a b w)
           (spec_group (genv_of w) (GRemoveMember gid a b) (aview (w_db w)))"
proof (cases "find_group gid (w_db w)")
  case None
  then show ?thesis using assms
    by (simp add: body_refines_def group_remove_member_body_def calm_group throw_def sp_groups_aview)
next
  case (Some g)
  show ?thesis
  proof (cases "find_member gid b (w_db w)")
    case None
    then show ?thesis using assms \<open>find_group gid (w_db w) = Some g\<close>
      by (simp add: body_refines_def group_remove_member_body_def calm_group throw_def sp_groups_aview may_manage_ag_of)
  next
    case (Some m)
    then show ?thesis using assms \<open>find_group gid (w_db w) = Some g\<close> find_member_SomeD [OF Some]
      by (auto simp: body_refines_def group_remove_member_body_def calm_group throw_def sp_groups_aview
          may_manage_ag_of aview_delete below_ag_of)
  qed
qed

lemma leave_refines:
  assumes "calm w" "0 < gid" "0 < a"
  shows "body_refines aview (group_leave_body gid a w) (spec_group (genv_of w) (GLeave gid a) (aview (w_db w)))"
proof (cases "find_group gid (w_db w)")
  case None
  then show ?thesis using assms
    by (simp add: body_refines_def group_leave_body_def calm_group throw_def sp_groups_aview)
next
  case (Some g)
  then show ?thesis using assms
    by (auto simp: body_refines_def group_leave_body_def calm_group throw_def sp_groups_aview aview_delete)
qed

lemma update_role_refines:
  assumes "calm w" "0 < gid" "0 < a" "0 < b" "role = GroupRoleMember \<or> role = GroupRoleAdmin"
  shows "body_refines aview (group_update_role_body gid a b role w)
           (spec_group (genv_of w) (GUpdateRole gid a b role) (aview (w_db w)))"
proof (cases "find_group gid (w_db w)")
  case None
  then show ?thesis using assms
    by (auto simp: body_refines_def group_update_role_body_def calm_group throw_def sp_groups_aview)
next
  case (Some g)
  show ?thesis
  proof (cases "find_member gid b (w_db w)")
    case None
    then show ?thesis using assms \<open>find_group gid (w_db w) = Some g\<close>
      by (auto simp: body_refines_def group_update_role_body_def calm_group throw_def sp_groups_aview)
  next
    case (Some m)
    note facts = \<open>find_group gid (w_db w) = Some g\<close> Some find_member_SomeD [OF Some]
      aview_update [OF \<open>find_group gid (w_db w) = Some g\<close> Some, where f = "\<lambda>m. m\<lparr>gm_role := role\<rparr>"]
      put_group_same [OF \<open>find_group gid (w_db w) = Some g\<close> Some, where r = role and mu = "gm_muted_until m"]
    show ?thesis
    proof (cases "gm_role m = role")
      case True
      then show ?thesis using assms facts
        by (auto simp: body_refines_def group_update_role_body_def calm_group throw_def ret_def sp_groups_aview)
    next
      case False
      then show ?thesis using assms facts
        by (auto simp: body_refines_def group_update_role_body_def calm_group throw_def ret_def sp_groups_aview)
    qed
  qed
qed

lemma sql_datetime_truncated [simp]: "sql_datetime (truncate_second t) = truncate_second t"
proof -
  have "(t div second * second + second div 2) div second = t div second"
    by (simp add: second_def)
  then show ?thesis unfolding sql_datetime_def truncate_second_def by simp
qed

lemma same_optional_iff: "same_optional_group_time a b \<longleftrightarrow> a = b"
  by (auto simp: same_optional_group_time_def split: option.splits)

lemma mute_refines:
  assumes "calm w" "w_ticks w = []" "0 < gid" "0 < a" "0 < b"
    and t: "case t of None \<Rightarrow> True | Some x \<Rightarrow> mute_deadline_ok (ge_now (genv_of w)) x"
  shows "body_refines aview (group_mute_body gid a b (map_option truncate_second t) w)
           (spec_group (genv_of w) (GMuteMember gid a b t) (aview (w_db w)))"
proof (cases "find_group gid (w_db w)")
  case None
  then show ?thesis using assms
    by (auto simp: body_refines_def group_mute_body_def calm_group throw_def sp_groups_aview)
next
  case (Some g)
  show ?thesis
  proof (cases "find_member gid b (w_db w)")
    case None
    then show ?thesis using assms \<open>find_group gid (w_db w) = Some g\<close>
      by (auto simp: body_refines_def group_mute_body_def calm_group throw_def sp_groups_aview may_manage_ag_of)
  next
    case (Some m)
    let ?t = "map_option truncate_second t"
    have now: "(case ?t of None \<Rightarrow> ret () | Some x \<Rightarrow> andThen now (\<lambda>t0.
        require (x > t0) (with_message CodeInvalidParam ''muted_until must be in the future''))) w = (Inr (), w)"
      using t assms(2) by (auto simp: ret_def andThen_def now_def Let_def require_def mute_deadline_ok_def split: option.splits)
    have col: "map_option sql_datetime ?t = ?t" by (cases t) auto
    note facts = \<open>find_group gid (w_db w) = Some g\<close> Some find_member_SomeD [OF Some] now
      aview_update [OF \<open>find_group gid (w_db w) = Some g\<close> Some, where f = "\<lambda>m. m\<lparr>gm_muted_until := ?t\<rparr>"]
      put_group_same [OF \<open>find_group gid (w_db w) = Some g\<close> Some, where r = "gm_role m" and mu = ?t]
    show ?thesis
    proof (cases "gm_muted_until m = ?t")
      case True
      then show ?thesis using assms(1,3-5) t facts
        by (simp add: body_refines_def group_mute_body_def calm_group throw_def ret_def sp_groups_aview
            may_manage_ag_of below_ag_of same_optional_iff)
    next
      case False
      then show ?thesis using assms(1,3-5) t facts
        by (simp add: body_refines_def group_mute_body_def calm_group throw_def ret_def sp_groups_aview
            may_manage_ag_of below_ag_of same_optional_iff col)
    qed
  qed
qed

lemma find_member_map:
  assumes "group_members d' = map f (group_members d)"
    and "\<And>m. gm_group (f m) = gm_group m" "\<And>m. gm_user (f m) = gm_user m"
  shows "find_member gid u d' = map_option f (find_member gid u d)"
proof -
  have "find (member_row gid u) (map f ms) = map_option f (find (member_row gid u) ms)" for ms
    by (induction ms) (auto simp: member_row_def assms)
  then show ?thesis by (simp add: find_member_def assms)
qed

lemma aview_transfer:
  assumes g: "find_group gid d = Some g" "g_owner g = a" and m: "find_member gid a d = Some am" "find_member gid b d = Some bm"
    and ab: "a \<noteq> b"
  shows "aview (d\<lparr>group_members := transfer_members gid a b (gm_muted_until bm \<noteq> None) (group_members d),
      groups := update_where (is_group gid) (\<lambda>g. g\<lparr>g_owner := b, g_updated_at := t\<rparr>) (groups d)\<rparr>) =
    put_group gid (Some ((set_member b (Some (GroupRoleOwner, None))
       (set_member a (Some (GroupRoleMember, gm_muted_until am)) (ag_of d gid g)))\<lparr>ag_owner := b\<rparr>)) (aview d)"
proof -
  let ?d = "d\<lparr>group_members := transfer_members gid a b (gm_muted_until bm \<noteq> None) (group_members d),
      groups := update_where (is_group gid) (\<lambda>g. g\<lparr>g_owner := b, g_updated_at := t\<rparr>) (groups d)\<rparr>"
  let ?g = "g\<lparr>g_owner := b, g_updated_at := t\<rparr>"
  define f where "f m = (let m1 = (if member_row gid a m then m\<lparr>gm_role := GroupRoleMember\<rparr> else m);
         m2 = (if member_row gid b m1 then m1\<lparr>gm_role := GroupRoleOwner\<rparr> else m1)
     in if gm_muted_until bm \<noteq> None \<and> member_row gid b m2 then m2\<lparr>gm_muted_until := None\<rparr> else m2)" for m
  have fm: "find_member gid' u ?d = map_option f (find_member gid' u d)" for gid' u
    by (rule find_member_map) (simp_all add: transfer_members_map f_def Let_def)
  have fg: "find_group gid' ?d = (if gid' = gid then Some ?g else find_group gid' d)" for gid'
  proof -
    have "find_group gid' ?d = map_option (\<lambda>g. if is_group gid g then g\<lparr>g_owner := b, g_updated_at := t\<rparr> else g) (find_group gid' d)"
      by (simp add: find_group_def find_update_where)
    then show ?thesis using g find_group_SomeD [of gid' d]
      by (cases "find_group gid' d") (auto simp: is_group_def)
  qed
  have other: "find_member gid' u ?d = find_member gid' u d" if "gid' \<noteq> gid" for gid' u
    using that find_member_SomeD [of gid' u d] unfolding fm
    by (cases "find_member gid' u d") (auto simp: f_def Let_def member_row_def)
  have mem: "map_option (\<lambda>m. (gm_role m, gm_muted_until m)) (find_member gid u ?d) =
      (if u = b then Some (GroupRoleOwner, None) else if u = a then Some (GroupRoleMember, gm_muted_until am)
       else map_option (\<lambda>m. (gm_role m, gm_muted_until m)) (find_member gid u d))" for u
    using find_member_SomeD [of gid u d] m ab unfolding fm
    by (cases "find_member gid u d") (auto simp: f_def Let_def member_row_def)
  have memf: "(\<lambda>u. map_option (\<lambda>m. (gm_role m, gm_muted_until m)) (find_member gid u ?d)) =
      (\<lambda>u. map_option (\<lambda>m. (gm_role m, gm_muted_until m)) (find_member gid u d))
        (a \<mapsto> (GroupRoleMember, gm_muted_until am), b \<mapsto> (GroupRoleOwner, None))"
    by (rule ext, unfold mem) auto
  have "aview ?d = put_group gid (map_option (ag_of ?d gid) (Some ?g)) (aview d)"
    by (rule aview_put) (use fg other in auto)
  moreover have "ag_of ?d gid ?g = (set_member b (Some (GroupRoleOwner, None))
       (set_member a (Some (GroupRoleMember, gm_muted_until am)) (ag_of d gid g)))\<lparr>ag_owner := b\<rparr>"
    unfolding ag_of_def set_member_def memf by simp
  ultimately show ?thesis by simp
qed

lemma transfer_refines:
  assumes "calm w" "0 < gid" "0 < a" "0 < b" "a \<noteq> b"
  shows "body_refines aview (group_transfer_body gid a b w) (spec_group (genv_of w) (GTransfer gid a b) (aview (w_db w)))"
proof (cases "find_group gid (w_db w)")
  case None
  then show ?thesis using assms
    by (simp add: body_refines_def group_transfer_body_def calm_group throw_def sp_groups_aview)
next
  case (Some g)
  note g = this
  show ?thesis
  proof (cases "find_member gid a (w_db w) \<noteq> None \<and> g_owner g = a \<and> find_member gid b (w_db w) \<noteq> None")
    case False
    then show ?thesis using assms g
      by (auto simp: body_refines_def group_transfer_body_def calm_group throw_def sp_groups_aview split: option.splits)
  next
    case True
    then obtain am bm where m: "find_member gid a (w_db w) = Some am" "find_member gid b (w_db w) = Some bm" by auto
    note eff = aview_transfer [OF g _ m assms(5), where t = "sql_now w", unfolded transfer_members_def Let_def]
    show ?thesis
      using assms g m True eff
      by (cases "gm_muted_until bm")
        (simp_all add: body_refines_def group_transfer_body_def calm_group throw_def ret_def sp_groups_aview)
  qed
qed

lemma count_group_one:
  assumes "distinct (map g_id gs)" "find (\<lambda>g. g_id g = gid) gs = Some g"
  shows "count_where (is_group gid) gs = 1"
  using assms
proof (induction gs)
  case (Cons h gs)
  show ?case
  proof (cases "is_group gid h")
    case True
    then have "\<forall>x\<in>set gs. \<not> is_group gid x" using Cons.prems(1) by (auto simp: is_group_def image_iff)
    then show ?thesis using True by (simp add: count_where_zero)
  next
    case False
    then have "find (\<lambda>g. g_id g = gid) gs = Some g" using Cons.prems(2) by (simp add: is_group_def)
    then show ?thesis using False Cons by simp
  qed
qed simp

lemma aview_disband:
  assumes "find_group gid d = Some g"
  shows "aview (d\<lparr>group_tombstones := put_tombstone gid v (group_tombstones d),
      group_members := delete_where (\<lambda>m. gm_group m = gid) (group_members d),
      groups := delete_where (is_group gid) (groups d)\<rparr>) =
    (put_group gid None (aview d))\<lparr>sp_dead := insert gid (sp_dead (aview d))\<rparr>"
proof -
  let ?d = "d\<lparr>group_tombstones := put_tombstone gid v (group_tombstones d),
      group_members := delete_where (\<lambda>m. gm_group m = gid) (group_members d),
      groups := delete_where (is_group gid) (groups d)\<rparr>"
  have fg: "find_group gid' ?d = (if gid' = gid then None else find_group gid' d)" for gid'
    by (auto simp: find_group_def is_group_def find_delete_same intro!: find_delete_where)
  have fm: "find_member gid' u ?d = find_member gid' u d" if "gid' \<noteq> gid" for gid' u
    using that by (auto simp: find_member_def member_row_def intro!: find_delete_where)
  have "gt_group ` set (put_tombstone gid v ts) = insert gid (gt_group ` set ts)" for ts
  proof -
    have "gt_group ` set (update_where p (\<lambda>t. t\<lparr>gt_owner := v\<rparr>) ts) = gt_group ` set ts" for p
      unfolding set_map [symmetric] by (simp add: map_update_where)
    then show ?thesis by (auto simp: put_tombstone_def exists_row_iff)
  qed
  then show ?thesis
    using fg fm by (auto simp: aview_def put_group_def ag_of_def fun_eq_iff map_option_case split: option.splits)
qed

lemma disband_refines:
  assumes "calm w" "groups_inv w" "0 < gid" "0 < a"
  shows "body_refines aview (group_disband_body gid a w) (spec_group (genv_of w) (GDisband gid a) (aview (w_db w)))"
proof (cases "find_group gid (w_db w)")
  case None
  then show ?thesis using assms
    by (simp add: body_refines_def group_disband_body_def calm_group throw_def ret_def sp_groups_aview)
next
  case (Some g)
  have "count_where (is_group gid) (groups (w_db w)) = 1"
    using assms(2) Some by (intro count_group_one) (auto simp: groups_inv_def ginv_def find_group_def)
  then show ?thesis using assms Some aview_disband [OF Some, where v = "g_owner g"]
    by (auto simp: body_refines_def group_disband_body_def calm_group throw_def ret_def sp_groups_aview)
qed

lemma aview_create:
  assumes "groups_inv w" "g_id g = ai_groups (w_auto w)" "gm_group m = g_id g"
    "g_name g = nm" "g_notice g = nt" "g_owner g = a" "g_max_members g = 500"
    "gm_user m = a" "gm_role m = GroupRoleOwner" "gm_muted_until m = None"
  shows "aview ((w_db w)\<lparr>groups := groups (w_db w) @ [g], group_members := group_members (w_db w) @ [m]\<rparr>) =
    put_group (g_id g) (Some \<lparr>ag_name = nm, ag_notice = nt, ag_owner = a, ag_max = 500,
      ag_members = [a \<mapsto> (GroupRoleOwner, None)]\<rparr>) (aview (w_db w))"
proof -
  let ?d = "(w_db w)\<lparr>groups := groups (w_db w) @ [g], group_members := group_members (w_db w) @ [m]\<rparr>"
  have fresh: "g_id x \<noteq> g_id g" if "x \<in> set (groups (w_db w))" for x
    using assms(1,2) that by (auto simp: groups_inv_def ginv_def group_ok_def)
  then have no_m: "gm_group x \<noteq> g_id g" if "x \<in> set (group_members (w_db w))" for x
    using assms(1) that unfolding groups_inv_def ginv_def member_ok_def by metis
  have "find_group (g_id g) (w_db w) = None" using fresh by (auto simp: find_group_def find_None_set)
  then have fg: "find_group gid' ?d = (if gid' = g_id g then Some g else find_group gid' (w_db w))" for gid'
    by (auto simp: find_group_def find_append split: option.splits)
  have "find_member (g_id g) u (w_db w) = None" for u using no_m by (auto simp: find_member_None)
  then have fm: "find_member gid' u ?d = (if gid' = g_id g \<and> u = a then Some m else find_member gid' u (w_db w))" for gid' u
    using assms(3,8) by (auto simp: find_member_def find_append member_row_def split: option.splits)
  have "aview ?d = put_group (g_id g) (map_option (ag_of ?d (g_id g)) (Some g)) (aview (w_db w))"
    by (rule aview_put) (use fg fm in auto)
  moreover have "ag_of ?d (g_id g) g = \<lparr>ag_name = nm, ag_notice = nt, ag_owner = a, ag_max = 500,
      ag_members = [a \<mapsto> (GroupRoleOwner, None)]\<rparr>"
    using assms \<open>\<And>u. find_member (g_id g) u (w_db w) = None\<close> by (simp add: ag_of_def fm fun_eq_iff)
  ultimately show ?thesis by simp
qed

lemma create_refines:
  assumes "calm w" "groups_inv w" "0 < a" "normalize_group_profile raw_name raw_notice = Inr (nm, nt)"
  shows "body_refines aview (group_create_body a nm nt w) (spec_group (genv_of w) (GCreate a raw_name raw_notice) (aview (w_db w)))"
proof -
  let ?k = "ai_groups (w_auto w)"
  let ?g = "\<lparr>g_id = ?k, g_name = nm, g_notice = nt, g_owner = a, g_max_members = 500,
     g_created_at = sql_now w, g_updated_at = sql_now w\<rparr>"
  let ?m = "\<lparr>gm_id = ai_group_members (w_auto w), gm_group = ?k, gm_user = a, gm_role = GroupRoleOwner,
     gm_muted_until = None, gm_joined_at = sql_now w\<rparr>"
  have "\<forall>x\<in>set (groups (w_db w)). g_id x \<noteq> ?k" "0 < ?k"
    using assms(2) by (auto simp: groups_inv_def ginv_def group_ok_def)
  then have none: "find_member ?k a (w_db w) = None"
    using assms(2) unfolding groups_inv_def ginv_def member_ok_def find_member_None by metis
  note eff = aview_create [OF assms(2), where g = ?g and m = ?m and nm = nm and nt = nt and a = a]
  show ?thesis using assms none \<open>0 < ?k\<close> eff
    by (simp add: body_refines_def group_create_body_def calm_group throw_def ret_def defaultGroupMaxMembers_def)
qed

lemma update_refines:
  assumes "calm w" "0 < gid" "0 < a" "normalize_group_profile raw_name raw_notice = Inr (nm, nt)"
  shows "body_refines aview (group_update_body a gid nm nt w)
           (spec_group (genv_of w) (GUpdate a gid raw_name raw_notice) (aview (w_db w)))"
proof (cases "find_group gid (w_db w)")
  case None
  then show ?thesis using assms
    by (simp add: body_refines_def group_update_body_def calm_group throw_def sp_groups_aview)
next
  case (Some g)
  let ?f = "\<lambda>g. g\<lparr>g_name := nm, g_notice := nt, g_updated_at := sql_now w\<rparr>"
  let ?d = "(w_db w)\<lparr>groups := update_where (is_group gid) ?f (groups (w_db w))\<rparr>"
  have fg: "find_group gid' ?d = (if gid' = gid then Some (?f g) else find_group gid' (w_db w))" for gid'
  proof -
    have "find_group gid' ?d = map_option (\<lambda>g. if is_group gid g then ?f g else g) (find_group gid' (w_db w))"
      by (simp add: find_group_def find_update_where)
    then show ?thesis using Some find_group_SomeD [of gid' "w_db w"]
      by (cases "find_group gid' (w_db w)") (auto simp: is_group_def)
  qed
  have "aview ?d = put_group gid (map_option (ag_of ?d gid) (Some (?f g))) (aview (w_db w))"
    by (rule aview_put) (use fg in auto)
  moreover have "ag_of ?d gid (?f g) = (ag_of (w_db w) gid g)\<lparr>ag_name := nm, ag_notice := nt\<rparr>"
    by (simp add: ag_of_def)
  ultimately have eff: "aview ?d = put_group gid (Some ((ag_of (w_db w) gid g)\<lparr>ag_name := nm, ag_notice := nt\<rparr>)) (aview (w_db w))"
    by simp
  have perm: "(case find_member gid a (w_db w) of None \<Rightarrow> False
      | Some m \<Rightarrow> \<not> (g_owner g \<noteq> a \<and> gm_role m \<noteq> GroupRoleAdmin)) = may_manage (ag_of (w_db w) gid g) a"
    by (auto simp: may_manage_ag_of can_manage_group_members_def split: option.splits)
  show ?thesis using assms Some eff perm
    by (simp add: body_refines_def group_update_body_def calm_group throw_def sp_groups_aview)
qed

subsection \<open>The commands\<close>

fun group_command :: "group_service \<Rightarrow> group_command \<Rightarrow> unit io" where
  "group_command s (GCreate u nm nt) = isolate (group_create s u nm nt)"
| "group_command s (GAddMember gid a b) = group_add_member s gid a b"
| "group_command s (GRemoveMember gid a b) = group_remove_member s gid a b"
| "group_command s (GUpdateRole gid a b r) = group_update_role s gid a b r"
| "group_command s (GMuteMember gid a b t) = group_mute_member s gid a b t"
| "group_command s (GTransfer gid a b) = group_transfer_ownership s gid a b"
| "group_command s (GLeave gid a) = group_leave s gid a"
| "group_command s (GDisband gid a) = group_disband s gid a"
| "group_command s (GUpdate a gid nm nt) = group_update s a gid nm nt"

lemma group_command_run: "snd (group_command s c w) = run_group_command s c w"
  by (cases c) (simp_all add: isolate_snd)

lemma normalize_error_code:
  "normalize_group_profile a b = Inl e \<Longrightarrow> app_code e = CodeInvalidParam"
  by (auto simp: normalize_group_profile_def Let_def split: if_splits)

lemma mute_deadline_calm:
  assumes "w_ticks w = []"
  shows "normalize_group_mute_deadline t w =
    (if (case t of None \<Rightarrow> True | Some x \<Rightarrow> mute_deadline_ok (ge_now (genv_of w)) x)
     then (Inr (map_option truncate_second t), w)
     else (Inl (with_message CodeInvalidParam ''muted_until must be in the future''), w))"
proof -
  have "w\<lparr>w_clock := w_clock w, w_ticks := []\<rparr> = w" using assms by simp
  then show ?thesis using assms
    by (auto simp: normalize_group_mute_deadline_def ret_def throw_def mute_deadline_ok_def Let_def andThen_def
        now_def split: option.splits)
qed

lemmas command_intros = command_refinesI [where rep = True] db_frame.framed_intros framed_db_ports
  succeeds_intros succeeds_andThen succeeds_ports succeeds_for_each group_service_error_code

lemma command_refines_GCreate:
  assumes "calm w" "w_ticks w = []" "groups_inv w" "ports_ok s"
    and GCreate: "c = GCreate u nm nt"
  shows "command_refines aview (group_command s c w) (aview (w_db w)) (spec_group (genv_of w) c (aview (w_db w)))"
proof -
  show ?thesis
  proof (cases "u \<le> 0")
    case False
    show ?thesis
    proof (cases "normalize_group_profile nm nt")
      case (Inl e)
      then show ?thesis using False GCreate normalize_error_code [OF Inl]
        by (auto simp: group_create_def intro!: command_refines_isolate command_refines_throw)
    next
      case (Inr p)
      obtain name notice where p: "p = (name, notice)" by fastforce
      have "command_refines aview (group_create s u nm nt w) (aview (w_db w)) (spec_group (genv_of w) c (aview (w_db w)))"
        unfolding group_create_def using False Inr p GCreate create_refines [OF assms(1,3), of u nm nt] assms
        by (auto intro!: command_intros simp del: spec_group.simps)
      then show ?thesis using GCreate by (simp add: command_refines_isolate del: spec_group.simps)
    qed
  qed (use GCreate in \<open>auto simp: group_create_def intro!: command_refines_isolate command_refines_throw\<close>)
qed

lemma command_refines_GAddMember:
  assumes "calm w" "w_ticks w = []" "groups_inv w" "ports_ok s"
    and GAddMember: "c = GAddMember gid a b"
  shows "command_refines aview (group_command s c w) (aview (w_db w)) (spec_group (genv_of w) c (aview (w_db w)))"
proof -
  show ?thesis
  proof (cases "gid \<le> 0 \<or> a \<le> 0 \<or> b \<le> 0")
    case False
    then show ?thesis unfolding GAddMember group_command.simps group_add_member_def
      using add_member_refines [OF assms(1,3), of gid a b] assms
      by (auto intro!: command_intros simp del: spec_group.simps)
  qed (use GAddMember in \<open>auto simp: group_add_member_def intro!: command_refines_throw\<close>)
qed

lemma command_refines_GRemoveMember:
  assumes "calm w" "w_ticks w = []" "groups_inv w" "ports_ok s"
    and GRemoveMember: "c = GRemoveMember gid a b"
  shows "command_refines aview (group_command s c w) (aview (w_db w)) (spec_group (genv_of w) c (aview (w_db w)))"
proof -
  show ?thesis
  proof (cases "gid \<le> 0 \<or> a \<le> 0 \<or> b \<le> 0")
    case False
    then show ?thesis unfolding GRemoveMember group_command.simps group_remove_member_def
      using remove_member_refines [OF assms(1), of gid a b] assms
      by (auto intro!: command_intros simp del: spec_group.simps)
  qed (use GRemoveMember in \<open>auto simp: group_remove_member_def intro!: command_refines_throw\<close>)
qed

lemma command_refines_GUpdateRole:
  assumes "calm w" "w_ticks w = []" "groups_inv w" "ports_ok s"
    and GUpdateRole: "c = GUpdateRole gid a b r"
  shows "command_refines aview (group_command s c w) (aview (w_db w)) (spec_group (genv_of w) c (aview (w_db w)))"
proof -
  show ?thesis
  proof (cases "gid \<le> 0 \<or> a \<le> 0 \<or> b \<le> 0 \<or> (r \<noteq> GroupRoleMember \<and> r \<noteq> GroupRoleAdmin)")
    case False
    then show ?thesis unfolding GUpdateRole group_command.simps group_update_role_def
      using update_role_refines [OF assms(1), of gid a b r] assms
      by (auto intro!: command_intros simp del: spec_group.simps)
  qed (use GUpdateRole in \<open>auto simp: group_update_role_def intro!: command_refines_throw\<close>)
qed

lemma command_refines_GMuteMember:
  assumes "calm w" "w_ticks w = []" "groups_inv w" "ports_ok s"
    and GMuteMember: "c = GMuteMember gid a b t"
  shows "command_refines aview (group_command s c w) (aview (w_db w)) (spec_group (genv_of w) c (aview (w_db w)))"
proof -
  show ?thesis
  proof (cases "gid \<le> 0 \<or> a \<le> 0 \<or> b \<le> 0 \<or>
      \<not> (case t of None \<Rightarrow> True | Some x \<Rightarrow> mute_deadline_ok (ge_now (genv_of w)) x)")
    case False
    have "command_refines aview (andThen (on_error group_service_error
        (within_tx ''group transaction'' (group_mute_body gid a b (map_option truncate_second t))))
        (\<lambda>changed. when_ok changed (refresh_group_member_cache s gid)) w) (aview (w_db w))
        (spec_group (genv_of w) c (aview (w_db w)))"
      using mute_refines [OF assms(1,2), of gid a b t] False assms GMuteMember
      by (auto intro!: command_intros simp del: spec_group.simps)
    then show ?thesis unfolding GMuteMember group_command.simps group_mute_member_def
      using False mute_deadline_calm [OF assms(2), of t] by (simp add: andThen_def del: spec_group.simps)
  next
    case True
    then show ?thesis using GMuteMember mute_deadline_calm [OF assms(2), of t]
      by (auto simp: group_mute_member_def command_refines_throw andThen_def command_refines_def throw_def)
  qed
qed

lemma command_refines_GTransfer:
  assumes "calm w" "w_ticks w = []" "groups_inv w" "ports_ok s"
    and GTransfer: "c = GTransfer gid a b"
  shows "command_refines aview (group_command s c w) (aview (w_db w)) (spec_group (genv_of w) c (aview (w_db w)))"
proof -
  show ?thesis
  proof (cases "gid \<le> 0 \<or> a \<le> 0 \<or> b \<le> 0 \<or> a = b")
    case False
    then show ?thesis unfolding GTransfer group_command.simps group_transfer_ownership_def
      using transfer_refines [OF assms(1), of gid a b] assms
      by (auto intro!: command_intros simp del: spec_group.simps)
  qed (use GTransfer in \<open>auto simp: group_transfer_ownership_def intro!: command_refines_throw\<close>)
qed

lemma command_refines_GLeave:
  assumes "calm w" "w_ticks w = []" "groups_inv w" "ports_ok s"
    and GLeave: "c = GLeave gid a"
  shows "command_refines aview (group_command s c w) (aview (w_db w)) (spec_group (genv_of w) c (aview (w_db w)))"
proof -
  show ?thesis
  proof (cases "gid \<le> 0 \<or> a \<le> 0")
    case False
    then show ?thesis unfolding GLeave group_command.simps group_leave_def
      using leave_refines [OF assms(1), of gid a] assms
      by (auto intro!: command_intros simp del: spec_group.simps)
  qed (use GLeave in \<open>auto simp: group_leave_def intro!: command_refines_throw\<close>)
qed

lemma command_refines_GDisband:
  assumes "calm w" "w_ticks w = []" "groups_inv w" "ports_ok s"
    and GDisband: "c = GDisband gid a"
  shows "command_refines aview (group_command s c w) (aview (w_db w)) (spec_group (genv_of w) c (aview (w_db w)))"
proof -
  show ?thesis
  proof (cases "gid \<le> 0 \<or> a \<le> 0")
    case False
    then show ?thesis unfolding GDisband group_command.simps group_disband_def
      using disband_refines [OF assms(1,3), of gid a] assms
      by (auto intro!: command_intros simp del: spec_group.simps split: prod.split)
  qed (use GDisband in \<open>auto simp: group_disband_def intro!: command_refines_throw\<close>)
qed

lemma command_refines_GUpdate:
  assumes "calm w" "w_ticks w = []" "groups_inv w" "ports_ok s"
    and GUpdate: "c = GUpdate a gid nm nt"
  shows "command_refines aview (group_command s c w) (aview (w_db w)) (spec_group (genv_of w) c (aview (w_db w)))"
proof -
  show ?thesis
  proof (cases "a \<le> 0 \<or> gid \<le> 0")
    case False
    show ?thesis
    proof (cases "normalize_group_profile nm nt")
      case (Inl e)
      then show ?thesis using False GUpdate normalize_error_code [OF Inl]
        by (auto simp: group_update_def intro!: command_refines_throw)
    next
      case (Inr p)
      obtain name notice where p: "p = (name, notice)" by fastforce
      have "command_refines aview (andThen (on_error group_service_error
          (within_tx ''group transaction'' (group_update_body a gid name notice))) ret w) (aview (w_db w))
          (spec_group (genv_of w) c (aview (w_db w)))"
        using update_refines [OF assms(1), of gid a nm nt name notice] False Inr p assms GUpdate
        by (auto intro!: command_intros simp del: spec_group.simps)
      moreover have "andThen m ret w = m w" for m :: "unit io"
        by (auto simp: andThen_def ret_def split: prod.splits sum.splits)
      ultimately show ?thesis unfolding GUpdate group_command.simps group_update_def using False Inr p
        by (auto simp del: spec_group.simps)
    qed
  qed (use GUpdate in \<open>auto simp: group_update_def intro!: command_refines_throw\<close>)
qed

text \<open>
  C5. Without faults, every group command refines its specification on maps of groups: the same
  error code on every refused branch (with nothing changed), and otherwise exactly the specified
  new owners, profiles, capacities, members, roles, mutes and dissolved IDs.
\<close>

theorem group_commands_refine_spec:
  assumes "calm w" "w_ticks w = []" "groups_inv w" "ports_ok s"
  shows "command_refines aview (group_command s c w) (aview (w_db w)) (spec_group (genv_of w) c (aview (w_db w)))"
  by (cases c)
    (erule command_refines_GCreate [OF assms] |
     erule command_refines_GAddMember [OF assms] |
     erule command_refines_GRemoveMember [OF assms] |
     erule command_refines_GUpdateRole [OF assms] |
     erule command_refines_GMuteMember [OF assms] |
     erule command_refines_GTransfer [OF assms] |
     erule command_refines_GLeave [OF assms] |
     erule command_refines_GDisband [OF assms] |
     erule command_refines_GUpdate [OF assms])+

lemma demo_calm: "calm demo_world" "w_ticks demo_world = []"
  by (simp_all add: demo_world_def)

theorem group_commands_refine_spec_witness:
  "command_refines aview (group_command no_ports (GLeave 1 3) demo_world) (aview (w_db demo_world))
     (Inr (put_group 1 (Some (set_member 3 None (ag_of (w_db demo_world) 1
        \<lparr>g_id = 1, g_name = ''team'', g_notice = [], g_owner = 1, g_max_members = 500,
         g_created_at = 0, g_updated_at = 0\<rparr>))) (aview (w_db demo_world))))"
  using group_commands_refine_spec [OF demo_calm groups_inv_demo ports_ok_none, of "GLeave 1 3"]
  by (simp add: sp_groups_aview find_group_def find_member_def demo_world_def demo_member_def member_row_def)

end
