(* ===== verification/GroupFaults.thy ===== *)
theory GroupFaults
  imports GroupInv
begin

text \<open>
  What a fault can do to a group command. The callbacks are robust, so each command has either no
  effect on the database or the effect it has when nothing fails, even when the caller receives an
  error because the acknowledgement of the commit was lost.
\<close>

lemma robust_group_bodies:
  "net_robust (group_create_body a nm nt)" "net_robust (group_add_member_body gid a b)"
  "net_robust (group_remove_member_body gid a b)" "net_robust (group_update_role_body gid a b r)"
  "net_robust (group_mute_body gid a b t)" "net_robust (group_transfer_body gid a b)"
  "net_robust (group_leave_body gid a)" "net_robust (group_disband_body gid a)"
  "net_robust (group_update_body a gid nm nt)"
  unfolding group_create_body_def group_add_member_body_def group_remove_member_body_def
    group_update_role_body_def group_mute_body_def group_transfer_body_def group_leave_body_def
    group_disband_body_def group_update_body_def
  by (intro robust_group)+

lemma robust_mute_deadline: "net_robust (normalize_group_mute_deadline t)"
  unfolding normalize_group_mute_deadline_def Let_def by (intro robust_intros)

lemmas group_atomic_intros = atomic_intros robust_group_bodies robust_mute_deadline framed_db_mute_deadline
  framed_db_ports db_frame.framed_intros

lemma atomic_group_commands:
  assumes "ports_ok s"
  shows "db_atomic (group_create s a nm nt)" "db_atomic (group_add_member s gid a b)"
    "db_atomic (group_remove_member s gid a b)" "db_atomic (group_update_role s gid a b r)"
    "db_atomic (group_mute_member s gid a b t)" "db_atomic (group_transfer_ownership s gid a b)"
    "db_atomic (group_leave s gid a)" "db_atomic (group_disband s gid a)"
    "db_atomic (group_update s a gid nm nt)"
  unfolding group_create_def group_add_member_def group_remove_member_def group_update_role_def
    group_mute_member_def group_transfer_ownership_def group_leave_def group_disband_def group_update_def
  by (intro group_atomic_intros assms)+

text \<open>
  C6. Atomicity under faults: whatever remote calls of a group command fail or lose their
  acknowledgement, at any point, the database afterwards is the one before the command, or exactly
  the one the command produces when no call fails.
\<close>

theorem group_commands_atomic:
  assumes "ports_ok s"
  shows "w_db (run_group_command s c w) = w_db w \<or>
    w_db (run_group_command s c w) = w_db (run_group_command s c (quiet w))"
  using atomic_group_commands [OF assms] by (cases c) (simp_all add: db_atomic_def)

theorem group_commands_atomic_witness:
  "w_db (run_group_command no_ports (GTransfer 1 1 3) (demo_world\<lparr>w_net := [Pass, Pass, Fail]\<rparr>)) = w_db demo_world \<or>
   w_db (run_group_command no_ports (GTransfer 1 1 3) (demo_world\<lparr>w_net := [Pass, Pass, Fail]\<rparr>)) =
   w_db (run_group_command no_ports (GTransfer 1 1 3) (quiet (demo_world\<lparr>w_net := [Pass, Pass, Fail]\<rparr>)))"
  using group_commands_atomic [OF ports_ok_none, of "GTransfer 1 1 3" "demo_world\<lparr>w_net := [Pass, Pass, Fail]\<rparr>"]
  by simp

end
