(* ===== verification/FriendRepo.thy ===== *)
theory FriendRepo
  imports GroupRepo
begin

text \<open>
  The statements of \<open>repository/friend_repository.go\<close>. A stored request has no user name and no
  avatar (those columns come from a JOIN); \<open>uk_pair\<close>, \<open>uk_bidirectional\<close> and the blacklist's
  unique key are the duplicate conditions of the inserts.
\<close>

definition lock_friend_users :: "int \<Rightarrow> int \<Rightarrow> int io" where
  "lock_friend_users = lock_users ''lock friend user''"

text \<open>Only the four selected columns are scanned.\<close>

definition friend_profile :: "user \<Rightarrow> user" where
  "friend_profile u = u\<lparr>u_password_hash := [], u_sign := [], u_gender := 0, u_created_at := 0, u_updated_at := 0\<rparr>"

definition find_profile :: "int \<Rightarrow> db \<Rightarrow> user option" where
  "find_profile uid d = map_option friend_profile (find (\<lambda>u. u_id u = uid) (users d))"

definition get_friend_user_profile :: "int \<Rightarrow> user option io" where
  "get_friend_user_profile uid = on_error (WrapErr ''get friend user profile'') (query (find_profile uid))"

definition blocks :: "int \<Rightarrow> int \<Rightarrow> blacklist_entry \<Rightarrow> bool" where
  "blocks a b r = (bl_user r = a \<and> bl_blocked r = b)"

definition either_blocked :: "int \<Rightarrow> int \<Rightarrow> db \<Rightarrow> bool" where
  "either_blocked user_id peer_id d = exists_row (\<lambda>r. blocks user_id peer_id r \<or> blocks peer_id user_id r) (blacklists d)"

definition is_either_blocked :: "int \<Rightarrow> int \<Rightarrow> bool io" where
  "is_either_blocked user_id peer_id =
     on_error (WrapErr ''check blacklist pair'') (query (either_blocked user_id peer_id))"

subsection \<open>Requests\<close>

definition request_pair :: "int \<Rightarrow> int \<Rightarrow> friend_request \<Rightarrow> bool" where
  "request_pair a b r = ((fr_from r = a \<and> fr_to r = b) \<or> (fr_from r = b \<and> fr_to r = a))"

text \<open>\<open>ORDER BY created_at DESC, id DESC LIMIT 1\<close>.\<close>

definition find_pending :: "int \<Rightarrow> int \<Rightarrow> db \<Rightarrow> friend_request option" where
  "find_pending user_id peer_id d =
     (case sort_key (\<lambda>r. (- fr_created_at r, - fr_id r))
             (filter (\<lambda>r. fr_status r = FriendRequestPending \<and> request_pair user_id peer_id r) (friend_requests d)) of
        [] \<Rightarrow> None | r # _ \<Rightarrow> Some r)"

definition find_pending_friend_request :: "int \<Rightarrow> int \<Rightarrow> friend_request option io" where
  "find_pending_friend_request user_id peer_id =
     on_error (WrapErr ''scan friend request'') (query (find_pending user_id peer_id))"

text \<open>The row that \<open>SaveFriendRequest\<close> inserts for a request.\<close>

definition stored_request :: "int \<Rightarrow> friend_request \<Rightarrow> friend_request" where
  "stored_request k r = r\<lparr>fr_id := k, fr_username := [], fr_avatar_url := [],
     fr_created_at := sql_datetime (fr_created_at r), fr_updated_at := sql_datetime (fr_updated_at r)\<rparr>"

definition terminal_of :: "friend_request \<Rightarrow> friend_request \<Rightarrow> bool" where
  "terminal_of q r = (fr_from r = fr_from q \<and> fr_to r = fr_to q \<and> fr_status r \<noteq> FriendRequestPending)"

definition save_friend_request :: "friend_request \<Rightarrow> friend_request io" where
  "save_friend_request q =
     andThen (on_error (WrapErr ''remove terminal friend request'')
         (exec (\<lambda>w d. d\<lparr>friend_requests := delete_where (terminal_of q) (friend_requests d)\<rparr>))) (\<lambda>_.
     andThen (on_error (WrapErr ''save friend request'')
         (insert_row ai_friend_requests (\<lambda>a. a\<lparr>ai_friend_requests := ai_friend_requests a + 1\<rparr>)
           (\<lambda>d. exists_row (\<lambda>r. fr_from r = fr_from q \<and> fr_to r = fr_to q) (friend_requests d))
           (\<lambda>k w d. d\<lparr>friend_requests := friend_requests d @ [stored_request k q]\<rparr>))) (\<lambda>k.
     ret (q\<lparr>fr_id := k\<rparr>)))"

definition find_request :: "int \<Rightarrow> db \<Rightarrow> friend_request option" where
  "find_request rid d = find (\<lambda>r. fr_id r = rid) (friend_requests d)"

definition get_friend_request :: "int \<Rightarrow> friend_request option io" where
  "get_friend_request rid = on_error (WrapErr ''scan friend request'') (query (find_request rid))"

definition get_friend_request_for_update :: "int \<Rightarrow> friend_request option io" where
  "get_friend_request_for_update rid = on_error (WrapErr ''scan friend request'') (query (find_request rid))"

text \<open>
  \<open>RowsAffected\<close> counts the rows an UPDATE changes: a row that already has the status and the
  timestamp is not one of them.
\<close>

definition with_status :: "int \<Rightarrow> int \<Rightarrow> friend_request \<Rightarrow> friend_request" where
  "with_status status t r = r\<lparr>fr_status := status, fr_updated_at := t\<rparr>"

definition set_friend_request_status :: "int \<Rightarrow> int \<Rightarrow> unit io" where
  "set_friend_request_status rid status =
     andThen (on_error (WrapErr ''set friend request status'')
         (exec_count (\<lambda>w d.
            (count_where (\<lambda>r. fr_id r = rid \<and> with_status status (sql_now w) r \<noteq> r) (friend_requests d),
             d\<lparr>friend_requests := update_where (\<lambda>r. fr_id r = rid) (with_status status (sql_now w)) (friend_requests d)\<rparr>))))
       (\<lambda>affected. if affected = 0 then throw (Sentinel ErrNotFound) else ret ())"

definition update_pair_status :: "string \<Rightarrow> int \<Rightarrow> int \<Rightarrow> int \<Rightarrow> int \<Rightarrow> unit io" where
  "update_pair_status what old new a b = on_error (WrapErr what)
     (exec (\<lambda>w d. d\<lparr>friend_requests := update_where (\<lambda>r. fr_status r = old \<and> request_pair a b r)
        (with_status new (sql_now w)) (friend_requests d)\<rparr>))"

definition invalidate_accepted_friend_requests :: "int \<Rightarrow> int \<Rightarrow> unit io" where
  "invalidate_accepted_friend_requests =
     update_pair_status ''invalidate accepted friend requests'' FriendRequestAccepted FriendRequestRejected"

definition reject_pending_friend_requests :: "int \<Rightarrow> int \<Rightarrow> unit io" where
  "reject_pending_friend_requests =
     update_pair_status ''reject pending blocked friend requests'' FriendRequestPending FriendRequestRejected"

definition incoming_requests :: "int \<Rightarrow> db \<Rightarrow> friend_request list" where
  "incoming_requests uid d =
     sort_key (\<lambda>r. (- fr_created_at r, - fr_id r))
       [r\<lparr>fr_username := u_username u, fr_avatar_url := u_avatar_url u\<rparr>.
         r \<leftarrow> friend_requests d, fr_to r = uid \<and> fr_status r = FriendRequestPending,
         u \<leftarrow> users d, u_id u = fr_from r]"

definition list_incoming_friend_requests :: "int \<Rightarrow> int \<Rightarrow> int \<Rightarrow> friend_request list io" where
  "list_incoming_friend_requests uid limit offset = on_error (WrapErr ''list incoming friend requests'')
     (query (\<lambda>d. page_of limit offset (incoming_requests uid d)))"

definition count_incoming_friend_requests :: "int \<Rightarrow> int io" where
  "count_incoming_friend_requests uid = on_error (WrapErr ''count incoming friend requests'')
     (query (\<lambda>d. count_where (\<lambda>r. fr_to r = uid \<and> fr_status r = FriendRequestPending) (friend_requests d)))"

subsection \<open>Friendships\<close>

definition directed :: "int \<Rightarrow> int \<Rightarrow> friendship \<Rightarrow> bool" where
  "directed a b r = (fs_user r = a \<and> fs_friend r = b)"

definition new_friendship :: "int \<Rightarrow> int \<Rightarrow> int \<Rightarrow> int \<Rightarrow> friendship" where
  "new_friendship k a b t = \<lparr>fs_id = k, fs_user = a, fs_friend = b, fs_nickname = [], fs_avatar_url = [],
     fs_online = False, fs_is_blocked = False, fs_created_at = t\<rparr>"

text \<open>\<open>INSERT IGNORE\<close>: a row whose key exists is skipped; both key values are used up.\<close>

definition insert_ignore :: "friendship \<Rightarrow> friendship list \<Rightarrow> friendship list" where
  "insert_ignore r rs = (if exists_row (directed (fs_user r) (fs_friend r)) rs then rs else rs @ [r])"

definition ensure_friendship_pair :: "int \<Rightarrow> int \<Rightarrow> unit io" where
  "ensure_friendship_pair a b = on_error (WrapErr ''ensure friendship pair'')
     (andThen (insert_row ai_friendships (\<lambda>c. c\<lparr>ai_friendships := ai_friendships c + 2\<rparr>) (\<lambda>_. False)
        (\<lambda>k w d. d\<lparr>friendships := insert_ignore (new_friendship (k + 1) b a (sql_now w))
           (insert_ignore (new_friendship k a b (sql_now w)) (friendships d))\<rparr>)) (\<lambda>_. ret ()))"

definition delete_friendship_pair :: "int \<Rightarrow> int \<Rightarrow> unit io" where
  "delete_friendship_pair a b = on_error (WrapErr ''delete friendship pair'')
     (exec (\<lambda>w d. d\<lparr>friendships := delete_where (friend_row a b) (friendships d)\<rparr>))"

text \<open>\<open>COALESCE(NULLIF(u.nickname, ''''), u.username)\<close>.\<close>

definition display_name :: "user \<Rightarrow> string" where
  "display_name u = (if u_nickname u = [] then u_username u else u_nickname u)"

definition friendship_rows :: "int \<Rightarrow> db \<Rightarrow> friendship list" where
  "friendship_rows uid d =
     sort_key (\<lambda>f. (- fs_created_at f, - fs_id f))
       [f\<lparr>fs_nickname := display_name u, fs_avatar_url := u_avatar_url u,
           fs_is_blocked := exists_row (blocks (fs_user f) (fs_friend f)) (blacklists d)\<rparr>.
         f \<leftarrow> friendships d, fs_user f = uid, u \<leftarrow> users d, u_id u = fs_friend f]"

definition list_friendships_page :: "int \<Rightarrow> int \<Rightarrow> int \<Rightarrow> friendship list io" where
  "list_friendships_page uid limit offset = on_error (WrapErr ''list friendships'')
     (query (\<lambda>d. page_of limit offset (friendship_rows uid d)))"

definition count_friendships :: "int \<Rightarrow> int io" where
  "count_friendships uid = on_error (WrapErr ''count friendships'')
     (query (\<lambda>d. count_where (\<lambda>f. fs_user f = uid) (friendships d)))"

subsection \<open>Blacklist\<close>

definition add_blacklist_entry :: "blacklist_entry \<Rightarrow> int io" where
  "add_blacklist_entry b = on_error (WrapErr ''add blacklist entry'')
     (insert_row ai_blacklist (\<lambda>a. a\<lparr>ai_blacklist := ai_blacklist a + 1\<rparr>)
       (\<lambda>d. exists_row (blocks (bl_user b) (bl_blocked b)) (blacklists d))
       (\<lambda>k w d. d\<lparr>blacklists := blacklists d @
          [b\<lparr>bl_id := k, bl_created_at := sql_datetime (bl_created_at b)\<rparr>]\<rparr>))"

definition remove_blacklist_entry :: "int \<Rightarrow> int \<Rightarrow> unit io" where
  "remove_blacklist_entry a b = on_error (WrapErr ''remove blacklist entry'')
     (exec (\<lambda>w d. d\<lparr>blacklists := delete_where (blocks a b) (blacklists d)\<rparr>))"

subsection \<open>Inversion rules\<close>

lemma friend_reads_ok [io_simps]:
  "lock_friend_users a b w = (Inr n, w') \<longleftrightarrow>
     net_now w = Pass \<and> n = locked_count a b (w_db w) \<and>
     (if a = b then w' = net_pop w else net_now (net_pop w) = Pass \<and> w' = net_pop (net_pop w))"
  "get_friend_user_profile a w = (Inr u, w') \<longleftrightarrow> net_now w = Pass \<and> u = find_profile a (w_db w) \<and> w' = net_pop w"
  "is_either_blocked a b w = (Inr f, w') \<longleftrightarrow> net_now w = Pass \<and> f = either_blocked a b (w_db w) \<and> w' = net_pop w"
  "find_pending_friend_request a b w = (Inr r, w') \<longleftrightarrow>
     net_now w = Pass \<and> r = find_pending a b (w_db w) \<and> w' = net_pop w"
  "get_friend_request rid w = (Inr r, w') \<longleftrightarrow> net_now w = Pass \<and> r = find_request rid (w_db w) \<and> w' = net_pop w"
  "get_friend_request_for_update rid w = (Inr r, w') \<longleftrightarrow>
     net_now w = Pass \<and> r = find_request rid (w_db w) \<and> w' = net_pop w"
  by (simp_all add: lock_friend_users_def get_friend_user_profile_def is_either_blocked_def
      find_pending_friend_request_def get_friend_request_def get_friend_request_for_update_def io_simps)

lemma save_friend_request_ok [io_simps]:
  "save_friend_request q w = (Inr r, w') \<longleftrightarrow>
     net_now w = Pass \<and> net_now (net_pop w) = Pass \<and>
     \<not> exists_row (\<lambda>r. fr_from r = fr_from q \<and> fr_to r = fr_to q) (delete_where (terminal_of q) (friend_requests (w_db w))) \<and>
     r = q\<lparr>fr_id := ai_friend_requests (w_auto w)\<rparr> \<and>
     w' = (net_pop (net_pop w))\<lparr>
       w_auto := (w_auto w)\<lparr>ai_friend_requests := ai_friend_requests (w_auto w) + 1\<rparr>,
       w_db := (w_db w)\<lparr>friend_requests := delete_where (terminal_of q) (friend_requests (w_db w)) @
         [stored_request (ai_friend_requests (w_auto w)) q]\<rparr>\<rparr>"
  by (auto simp: save_friend_request_def io_simps net_pop_def net_now_def)

lemma set_friend_request_status_ok [io_simps]:
  "set_friend_request_status rid status w = (Inr x, w') \<longleftrightarrow> net_now w = Pass \<and>
     count_where (\<lambda>r. fr_id r = rid \<and> with_status status (sql_now w) r \<noteq> r) (friend_requests (w_db w)) \<noteq> 0 \<and>
     w' = (net_pop w)\<lparr>w_db := (w_db w)\<lparr>friend_requests :=
       update_where (\<lambda>r. fr_id r = rid) (with_status status (sql_now w)) (friend_requests (w_db w))\<rparr>\<rparr>"
  by (auto simp: set_friend_request_status_def io_simps)

lemma friend_writes_ok [io_simps]:
  "update_pair_status what old new a b w = (Inr x, w') \<longleftrightarrow> net_now w = Pass \<and>
     w' = (net_pop w)\<lparr>w_db := (w_db w)\<lparr>friend_requests := update_where (\<lambda>r. fr_status r = old \<and> request_pair a b r)
        (with_status new (sql_now w)) (friend_requests (w_db w))\<rparr>\<rparr>"
  "delete_friendship_pair a b w = (Inr x, w') \<longleftrightarrow> net_now w = Pass \<and>
     w' = (net_pop w)\<lparr>w_db := (w_db w)\<lparr>friendships := delete_where (friend_row a b) (friendships (w_db w))\<rparr>\<rparr>"
  "remove_blacklist_entry a b w = (Inr x, w') \<longleftrightarrow> net_now w = Pass \<and>
     w' = (net_pop w)\<lparr>w_db := (w_db w)\<lparr>blacklists := delete_where (blocks a b) (blacklists (w_db w))\<rparr>\<rparr>"
  by (simp_all add: update_pair_status_def delete_friendship_pair_def remove_blacklist_entry_def io_simps)

lemma ensure_friendship_pair_ok [io_simps]:
  "ensure_friendship_pair a b w = (Inr x, w') \<longleftrightarrow> net_now w = Pass \<and>
     w' = (net_pop w)\<lparr>w_auto := (w_auto w)\<lparr>ai_friendships := ai_friendships (w_auto w) + 2\<rparr>,
       w_db := (w_db w)\<lparr>friendships :=
         insert_ignore (new_friendship (ai_friendships (w_auto w) + 1) b a (sql_now w))
           (insert_ignore (new_friendship (ai_friendships (w_auto w)) a b (sql_now w)) (friendships (w_db w)))\<rparr>\<rparr>"
  by (auto simp: ensure_friendship_pair_def io_simps)

lemma add_blacklist_entry_ok [io_simps]:
  "add_blacklist_entry b w = (Inr k, w') \<longleftrightarrow> net_now w = Pass \<and> k = ai_blacklist (w_auto w) \<and>
     \<not> exists_row (blocks (bl_user b) (bl_blocked b)) (blacklists (w_db w)) \<and>
     w' = (net_pop w)\<lparr>w_auto := (w_auto w)\<lparr>ai_blacklist := k + 1\<rparr>,
       w_db := (w_db w)\<lparr>blacklists := blacklists (w_db w) @
         [b\<lparr>bl_id := k, bl_created_at := sql_datetime (bl_created_at b)\<rparr>]\<rparr>\<rparr>"
  by (auto simp: add_blacklist_entry_def io_simps)

lemmas friend_repo_defs = lock_friend_users_def get_friend_user_profile_def is_either_blocked_def
  find_pending_friend_request_def save_friend_request_def get_friend_request_def
  get_friend_request_for_update_def set_friend_request_status_def update_pair_status_def
  invalidate_accepted_friend_requests_def reject_pending_friend_requests_def ensure_friendship_pair_def
  delete_friendship_pair_def add_blacklist_entry_def remove_blacklist_entry_def

subsection \<open>Frames\<close>

lemma framed_auto_friend:
  "framed auto_le (lock_friend_users a b)" "framed auto_le (get_friend_user_profile a)"
  "framed auto_le (is_either_blocked a b)" "framed auto_le (find_pending_friend_request a b)"
  "framed auto_le (get_friend_request i)" "framed auto_le (get_friend_request_for_update i)"
  "framed auto_le (set_friend_request_status i s)" "framed auto_le (invalidate_accepted_friend_requests a b)"
  "framed auto_le (reject_pending_friend_requests a b)" "framed auto_le (delete_friendship_pair a b)"
  "framed auto_le (remove_blacklist_entry a b)"
  unfolding friend_repo_defs by (intro auto_intros framed_auto_lock_users)+

lemma framed_auto_friend_inserts:
  "framed auto_le (save_friend_request q)" "framed auto_le (ensure_friendship_pair a b)"
  "framed auto_le (add_blacklist_entry e)"
  unfolding friend_repo_defs by (intro auto_intros, simp add: auto_le_def)+

lemma robust_friend:
  "net_robust (lock_friend_users a b)" "net_robust (get_friend_user_profile a)"
  "net_robust (is_either_blocked a b)" "net_robust (find_pending_friend_request a b)"
  "net_robust (get_friend_request i)" "net_robust (get_friend_request_for_update i)"
  "net_robust (set_friend_request_status i s)" "net_robust (invalidate_accepted_friend_requests a b)"
  "net_robust (reject_pending_friend_requests a b)" "net_robust (delete_friendship_pair a b)"
  "net_robust (remove_blacklist_entry a b)" "net_robust (save_friend_request q)"
  "net_robust (ensure_friendship_pair a b)" "net_robust (add_blacklist_entry e)"
  unfolding friend_repo_defs by (intro robust_intros robust_lock_users; simp)+

lemmas robust_friends = robust_intros robust_enqueue robust_group_reads robust_friend

lemma find_request_SomeD: "find_request rid d = Some r \<Longrightarrow> r \<in> set (friend_requests d) \<and> fr_id r = rid"
  by (auto simp: find_request_def dest!: find_Some_iff2)

lemma find_pending_None:
  "find_pending a b d = None \<longleftrightarrow>
     (\<forall>r\<in>set (friend_requests d). \<not> (fr_status r = FriendRequestPending \<and> request_pair a b r))"
proof -
  have "find_pending a b d = None \<longleftrightarrow>
      sort_key (\<lambda>r. (- fr_created_at r, - fr_id r))
        (filter (\<lambda>r. fr_status r = FriendRequestPending \<and> request_pair a b r) (friend_requests d)) = []"
    by (simp add: find_pending_def split: list.split)
  also have "\<dots> \<longleftrightarrow> filter (\<lambda>r. fr_status r = FriendRequestPending \<and> request_pair a b r) (friend_requests d) = []"
    by (rule sort_key_Nil_iff)
  finally show ?thesis by (simp add: filter_empty_conv)
qed

end
