(* ===== verification/FriendService.thy ===== *)
theory FriendService
  imports FriendRepo Refinement
begin

text \<open>
  \<open>service/friend.go\<close>: friend requests, friendships and the blacklist. Every write is one
  transaction that locks both user rows in ascending order; the reconcile events are written in
  the same transaction, the cache write-through and the notifications after it are best effort.
\<close>

definition defaultFriendPageSize :: int where "defaultFriendPageSize = 20"
definition maxFriendPageSize :: int where "maxFriendPageSize = 100"

definition FriendEventApply :: string where "FriendEventApply = ''friendApply''"
definition FriendEventAccepted :: string where "FriendEventAccepted = ''friendAccepted''"

text \<open>The ports: \<open>FriendCacheWriter\<close>, \<open>FriendEventNotifier\<close> and \<open>PresenceReader\<close>, each possibly nil.\<close>

record friend_cache_writer =
  fc_set_friend :: "int \<Rightarrow> int \<Rightarrow> unit io"
  fc_delete_friend :: "int \<Rightarrow> int \<Rightarrow> unit io"
  fc_set_blacklist :: "int \<Rightarrow> int \<Rightarrow> unit io"
  fc_delete_blacklist :: "int \<Rightarrow> int \<Rightarrow> unit io"

record friend_service =
  sv_cache :: "friend_cache_writer option"
  sv_notifier :: "(int \<Rightarrow> string \<Rightarrow> payload \<Rightarrow> unit io) option"
  sv_presence :: "(int list \<Rightarrow> (int \<rightharpoonup> bool) io) option"

subsection \<open>Helpers\<close>

definition friend_service_error :: "go_error \<Rightarrow> go_error" where
  "friend_service_error err = (case as_app err of
      Some a \<Rightarrow> a
    | None \<Rightarrow> wrap_code CodeInternalFailure (Some (WrapErr ''friend service'' err)))"

definition normalize_friend_message :: "string \<Rightarrow> go_error + string" where
  "normalize_friend_message raw =
     (if list_ex is_control (runes raw)
      then Inl (with_message CodeInvalidParam ''friend request message must not contain control characters'')
      else let message = trim_space raw in
        if rune_count message > 200
        then Inl (with_message CodeInvalidParam ''friend request message must not exceed 200 characters'')
        else Inr message)"

definition normalize_friend_page :: "int \<Rightarrow> int \<Rightarrow> go_error + (int \<times> int)" where
  "normalize_friend_page limit offset =
     (if offset < 0 then Inl (with_message CodeInvalidParam ''offset must not be negative'')
      else let limit' = (if limit \<le> 0 then defaultFriendPageSize else limit) in
        if limit' > maxFriendPageSize
        then Inl (with_message CodeInvalidParam ''limit must not exceed 100'')
        else Inr (limit', offset))"

definition write_cache :: "friend_service \<Rightarrow> (friend_cache_writer \<Rightarrow> unit io) \<Rightarrow> unit io" where
  "write_cache s write = (case sv_cache s of None \<Rightarrow> ret () | Some c \<Rightarrow> best_effort (write c))"

definition friend_notify :: "friend_service \<Rightarrow> int \<Rightarrow> string \<Rightarrow> payload \<Rightarrow> unit io" where
  "friend_notify s uid event_type p =
     (case sv_notifier s of None \<Rightarrow> ret () | Some f \<Rightarrow> best_effort (f uid event_type p))"

definition enqueue_friend_pair_reconcile :: "int \<Rightarrow> int \<Rightarrow> unit io" where
  "enqueue_friend_pair_reconcile user_id friend_id =
     andThen (enqueue_cache_reconcile Friends user_id) (\<lambda>_. enqueue_cache_reconcile Friends friend_id)"

subsection \<open>Sending a request\<close>

definition send_request_body :: "int \<Rightarrow> int \<Rightarrow> friend_request \<Rightarrow> friend_request io" where
  "send_request_body from_id to_id request =
     andThen (lock_friend_users from_id to_id) (\<lambda>locked.
     andThen (require (locked = 2) (new_err CodeUserNotFound)) (\<lambda>_.
     andThen (is_either_blocked from_id to_id) (\<lambda>blocked.
     andThen (require (\<not> blocked) (new_err CodeFriendBlocked)) (\<lambda>_.
     andThen (is_friend_pair from_id to_id) (\<lambda>friends.
     andThen (require (\<not> friends) (new_err CodeAlreadyFriends)) (\<lambda>_.
     andThen (find_pending_friend_request from_id to_id) (\<lambda>pending.
     andThen (require (pending = None) (new_err CodeDuplicateRequest)) (\<lambda>_.
     andThen (save_friend_request request) (\<lambda>saved.
     andThen (get_friend_user_profile from_id) (\<lambda>found. case found of
       None \<Rightarrow> throw (new_err CodeUserNotFound)
     | Some profile \<Rightarrow>
         ret (saved\<lparr>fr_username := u_username profile, fr_avatar_url := u_avatar_url profile\<rparr>)))))))))))"

definition friend_send_request :: "friend_service \<Rightarrow> int \<Rightarrow> int \<Rightarrow> string \<Rightarrow> friend_request io" where
  "friend_send_request s from_id to_id raw_message =
     (if from_id \<le> 0 \<or> to_id \<le> 0 then throw (new_err CodeInvalidParam)
      else if from_id = to_id then throw (new_err CodeSelfRequest)
      else (case normalize_friend_message raw_message of
        Inl e \<Rightarrow> throw e
      | Inr message \<Rightarrow>
          andThen now (\<lambda>t.
          andThen (on_error (\<lambda>e. if err_is ErrConflict e then new_err CodeDuplicateRequest else friend_service_error e)
              (within_tx ''friend transaction'' (send_request_body from_id to_id
                 \<lparr>fr_id = 0, fr_from = from_id, fr_to = to_id, fr_username = [], fr_avatar_url = [],
                  fr_message = message, fr_status = FriendRequestPending, fr_created_at = t, fr_updated_at = t\<rparr>)))
            (\<lambda>request.
          andThen (friend_notify s to_id FriendEventApply
              (FriendApplyPayload (fr_id request) (fr_from request) (fr_username request)
                 (fr_avatar_url request) (fr_message request) (fr_created_at request))) (\<lambda>_.
          ret request)))))"

subsection \<open>Accepting and rejecting\<close>

text \<open>The callback's result: \<open>result.FriendID\<close> and, when newly accepted, the accepter's profile.\<close>

definition accept_request_body :: "int \<Rightarrow> int \<Rightarrow> friend_request \<Rightarrow> (int \<times> user option) io" where
  "accept_request_body user_id request_id preview =
     andThen (lock_friend_users (fr_from preview) (fr_to preview)) (\<lambda>locked.
     andThen (require (locked = 2) (new_err CodeRequestNotFound)) (\<lambda>_.
     andThen (get_friend_request_for_update request_id) (\<lambda>found. case found of
       None \<Rightarrow> throw (new_err CodeRequestNotFound)
     | Some request \<Rightarrow>
     andThen (require (fr_to request = user_id) (new_err CodeNotRequestTarget)) (\<lambda>_.
     if fr_status request = FriendRequestAccepted then
       andThen (ensure_friendship_pair (fr_from request) (fr_to request)) (\<lambda>_.
       andThen (enqueue_friend_pair_reconcile (fr_from request) (fr_to request)) (\<lambda>_.
       ret (fr_from request, None)))
     else if fr_status request = FriendRequestRejected then throw (new_err CodeRequestNotFound)
     else if fr_status request = FriendRequestPending then
       andThen (is_either_blocked (fr_from request) (fr_to request)) (\<lambda>blocked.
       andThen (require (\<not> blocked) (new_err CodeFriendBlocked)) (\<lambda>_.
       andThen (set_friend_request_status (fr_id request) FriendRequestAccepted) (\<lambda>_.
       andThen (ensure_friendship_pair (fr_from request) (fr_to request)) (\<lambda>_.
       andThen (get_friend_user_profile (fr_to request)) (\<lambda>profile. case profile of
         None \<Rightarrow> throw (new_err CodeUserNotFound)
       | Some p \<Rightarrow>
           andThen (enqueue_friend_pair_reconcile (fr_from request) (fr_to request)) (\<lambda>_.
           ret (fr_from request, Some p)))))))
     else throw (new_err CodeRequestNotFound)))))"

record accept_friend_result =
  ar_user :: int
  ar_friend :: int

definition friend_accept_request :: "friend_service \<Rightarrow> int \<Rightarrow> int \<Rightarrow> accept_friend_result io" where
  "friend_accept_request s user_id request_id =
     (if user_id \<le> 0 \<or> request_id \<le> 0 then throw (new_err CodeInvalidParam)
      else andThen (on_error friend_service_error (get_friend_request request_id)) (\<lambda>found. case found of
        None \<Rightarrow> throw (new_err CodeRequestNotFound)
      | Some preview \<Rightarrow>
      andThen (require (fr_to preview = user_id) (new_err CodeNotRequestTarget)) (\<lambda>_.
      andThen (on_error friend_service_error
          (within_tx ''friend transaction'' (accept_request_body user_id request_id preview))) (\<lambda>(friend_id, accepted).
      andThen (write_cache s (\<lambda>c. fc_set_friend c user_id friend_id)) (\<lambda>_.
      andThen (case accepted of None \<Rightarrow> ret ()
         | Some p \<Rightarrow> friend_notify s friend_id FriendEventAccepted
             (FriendAcceptedPayload request_id friend_id user_id (u_username p) (u_avatar_url p))) (\<lambda>_.
      ret \<lparr>ar_user = user_id, ar_friend = friend_id\<rparr>))))))"

definition reject_request_body :: "int \<Rightarrow> int \<Rightarrow> friend_request \<Rightarrow> unit io" where
  "reject_request_body user_id request_id preview =
     andThen (lock_friend_users (fr_from preview) (fr_to preview)) (\<lambda>locked.
     andThen (require (locked = 2) (new_err CodeRequestNotFound)) (\<lambda>_.
     andThen (get_friend_request_for_update request_id) (\<lambda>found. case found of
       None \<Rightarrow> throw (new_err CodeRequestNotFound)
     | Some request \<Rightarrow>
     andThen (require (fr_to request = user_id) (new_err CodeNotRequestTarget)) (\<lambda>_.
     if fr_status request = FriendRequestRejected then ret ()
     else if fr_status request = FriendRequestAccepted then throw (new_err CodeRequestNotFound)
     else if fr_status request = FriendRequestPending
     then set_friend_request_status (fr_id request) FriendRequestRejected
     else throw (new_err CodeRequestNotFound)))))"

definition friend_reject_request :: "friend_service \<Rightarrow> int \<Rightarrow> int \<Rightarrow> unit io" where
  "friend_reject_request s user_id request_id =
     (if user_id \<le> 0 \<or> request_id \<le> 0 then throw (new_err CodeInvalidParam)
      else andThen (on_error friend_service_error (get_friend_request request_id)) (\<lambda>found. case found of
        None \<Rightarrow> throw (new_err CodeRequestNotFound)
      | Some preview \<Rightarrow>
      andThen (require (fr_to preview = user_id) (new_err CodeNotRequestTarget)) (\<lambda>_.
      on_error friend_service_error
        (within_tx ''friend transaction'' (reject_request_body user_id request_id preview)))))"

subsection \<open>Deleting, blocking, unblocking\<close>

definition delete_friend_body :: "int \<Rightarrow> int \<Rightarrow> unit io" where
  "delete_friend_body user_id friend_id =
     andThen (lock_friend_users user_id friend_id) (\<lambda>locked.
     andThen (require (locked = 2) (new_err CodeUserNotFound)) (\<lambda>_.
     andThen (delete_friendship_pair user_id friend_id) (\<lambda>_.
     andThen (invalidate_accepted_friend_requests user_id friend_id) (\<lambda>_.
     enqueue_friend_pair_reconcile user_id friend_id))))"

definition friend_delete :: "friend_service \<Rightarrow> int \<Rightarrow> int \<Rightarrow> unit io" where
  "friend_delete s user_id friend_id =
     (if user_id \<le> 0 \<or> friend_id \<le> 0 then throw (new_err CodeInvalidParam)
      else if user_id = friend_id then throw (new_err CodeSelfRequest)
      else andThen (on_error friend_service_error
          (within_tx ''friend transaction'' (delete_friend_body user_id friend_id))) (\<lambda>_.
        write_cache s (\<lambda>c. fc_delete_friend c user_id friend_id)))"

definition block_body :: "int \<Rightarrow> int \<Rightarrow> blacklist_entry \<Rightarrow> unit io" where
  "block_body user_id blocked_id entry =
     andThen (lock_friend_users user_id blocked_id) (\<lambda>locked.
     andThen (require (locked = 2) (new_err CodeUserNotFound)) (\<lambda>_.
     andThen (add_blacklist_entry entry) (\<lambda>_.
     andThen (reject_pending_friend_requests user_id blocked_id) (\<lambda>_.
     enqueue_cache_reconcile Blacklist user_id))))"

definition friend_block :: "friend_service \<Rightarrow> int \<Rightarrow> int \<Rightarrow> unit io" where
  "friend_block s user_id blocked_id =
     (if user_id \<le> 0 \<or> blocked_id \<le> 0 then throw (new_err CodeInvalidParam)
      else if user_id = blocked_id then throw (new_err CodeSelfRequest)
      else andThen now (\<lambda>t.
        andThen (on_error (\<lambda>e. if err_is ErrConflict e then new_err CodeAlreadyBlocked else friend_service_error e)
          (within_tx ''friend transaction'' (block_body user_id blocked_id
             \<lparr>bl_id = 0, bl_user = user_id, bl_blocked = blocked_id, bl_created_at = t\<rparr>))) (\<lambda>_.
        write_cache s (\<lambda>c. fc_set_blacklist c user_id blocked_id))))"

definition unblock_body :: "int \<Rightarrow> int \<Rightarrow> unit io" where
  "unblock_body user_id blocked_id =
     andThen (lock_friend_users user_id blocked_id) (\<lambda>locked.
     andThen (require (locked = 2) (new_err CodeUserNotFound)) (\<lambda>_.
     andThen (remove_blacklist_entry user_id blocked_id) (\<lambda>_.
     enqueue_cache_reconcile Blacklist user_id)))"

definition friend_unblock :: "friend_service \<Rightarrow> int \<Rightarrow> int \<Rightarrow> unit io" where
  "friend_unblock s user_id blocked_id =
     (if user_id \<le> 0 \<or> blocked_id \<le> 0 then throw (new_err CodeInvalidParam)
      else if user_id = blocked_id then throw (new_err CodeSelfRequest)
      else andThen (on_error friend_service_error
          (within_tx ''friend transaction'' (unblock_body user_id blocked_id))) (\<lambda>_.
        write_cache s (\<lambda>c. fc_delete_blacklist c user_id blocked_id)))"

subsection \<open>Lists\<close>

definition friend_list_requests :: "friend_service \<Rightarrow> int \<Rightarrow> int \<Rightarrow> int \<Rightarrow> friend_request page io" where
  "friend_list_requests s uid limit offset =
     (if uid \<le> 0 then throw (new_err CodeInvalidParam)
      else (case normalize_friend_page limit offset of
        Inl e \<Rightarrow> throw e
      | Inr (l, off) \<Rightarrow>
          andThen (on_error friend_service_error (list_incoming_friend_requests uid l off)) (\<lambda>items.
          andThen (on_error friend_service_error (count_incoming_friend_requests uid)) (\<lambda>total.
          ret \<lparr>pg_items = items, pg_total = total, pg_limit = l, pg_offset = off\<rparr>))))"

definition with_presence :: "(int \<rightharpoonup> bool) \<Rightarrow> friendship list \<Rightarrow> friendship list" where
  "with_presence states items = map (\<lambda>f. f\<lparr>fs_online := (states (fs_friend f) = Some True)\<rparr>) items"

definition friend_list_friends :: "friend_service \<Rightarrow> int \<Rightarrow> int \<Rightarrow> int \<Rightarrow> friendship page io" where
  "friend_list_friends s uid limit offset =
     (if uid \<le> 0 then throw (new_err CodeInvalidParam)
      else (case normalize_friend_page limit offset of
        Inl e \<Rightarrow> throw e
      | Inr (l, off) \<Rightarrow>
          andThen (on_error friend_service_error (list_friendships_page uid l off)) (\<lambda>items.
          andThen (on_error friend_service_error (count_friendships uid)) (\<lambda>total.
          andThen (case sv_presence s of
              None \<Rightarrow> ret items
            | Some reader \<Rightarrow>
                if items = [] then ret items
                else andThen (attempt (reader (map fs_friend items))) (\<lambda>r. case r of
                    Inl _ \<Rightarrow> ret (with_presence Map.empty items)
                  | Inr states \<Rightarrow> ret (with_presence states items))) (\<lambda>shown.
          ret \<lparr>pg_items = shown, pg_total = total, pg_limit = l, pg_offset = off\<rparr>)))))"

subsection \<open>All commands\<close>

datatype friend_command =
    FSend int int string
  | FAccept int int
  | FReject int int
  | FDelete int int
  | FBlock int int
  | FUnblock int int

fun run_friend_command :: "friend_service \<Rightarrow> friend_command \<Rightarrow> unit io" where
  "run_friend_command s (FSend a b m) = isolate (friend_send_request s a b m)"
| "run_friend_command s (FAccept a i) = isolate (friend_accept_request s a i)"
| "run_friend_command s (FReject a i) = friend_reject_request s a i"
| "run_friend_command s (FDelete a b) = friend_delete s a b"
| "run_friend_command s (FBlock a b) = friend_block s a b"
| "run_friend_command s (FUnblock a b) = friend_unblock s a b"

end
