(* ===== verification/FriendSpec.thy ===== *)
theory FriendSpec
  imports FriendService
begin

text \<open>
  An abstract specification of the friend commands: requests by ID, a set of directed friendships
  and a set of directed blocks. The refinement says that without faults every command gives the
  specified error code and changes nothing, or produces the specified state.
\<close>

record arequest =
  aq_from :: int
  aq_to :: int
  aq_message :: string
  aq_status :: int

record fspec =
  sf_requests :: "int \<rightharpoonup> arequest"
  sf_friends :: "(int \<times> int) set"
  sf_blocks :: "(int \<times> int) set"

record fenv =
  fe_user :: "int \<Rightarrow> bool"
  fe_fresh :: int

definition between :: "int \<Rightarrow> int \<Rightarrow> arequest \<Rightarrow> bool" where
  "between a b r = ((aq_from r = a \<and> aq_to r = b) \<or> (aq_from r = b \<and> aq_to r = a))"

definition pending_between :: "int \<Rightarrow> int \<Rightarrow> fspec \<Rightarrow> bool" where
  "pending_between a b st \<longleftrightarrow> (\<exists>r\<in>ran (sf_requests st). aq_status r = FriendRequestPending \<and> between a b r)"

definition blocked_between :: "int \<Rightarrow> int \<Rightarrow> fspec \<Rightarrow> bool" where
  "blocked_between a b st = ((a, b) \<in> sf_blocks st \<or> (b, a) \<in> sf_blocks st)"

definition both_ways :: "int \<Rightarrow> int \<Rightarrow> (int \<times> int) set" where
  "both_ways a b = {(a, b), (b, a)}"

text \<open>The terminal request from a to b disappears.\<close>

definition forget_terminal :: "int \<Rightarrow> int \<Rightarrow> (int \<rightharpoonup> arequest) \<Rightarrow> (int \<rightharpoonup> arequest)" where
  "forget_terminal a b q i = (case q i of None \<Rightarrow> None
     | Some r \<Rightarrow> if aq_from r = a \<and> aq_to r = b \<and> aq_status r \<noteq> FriendRequestPending then None else Some r)"

text \<open>Every request between a and b in status \<open>old\<close> is rejected.\<close>

definition reject_all :: "int \<Rightarrow> int \<Rightarrow> int \<Rightarrow> (int \<rightharpoonup> arequest) \<Rightarrow> (int \<rightharpoonup> arequest)" where
  "reject_all old a b q i = map_option (\<lambda>r. if aq_status r = old \<and> between a b r
     then r\<lparr>aq_status := FriendRequestRejected\<rparr> else r) (q i)"

definition put_request :: "int \<Rightarrow> arequest \<Rightarrow> fspec \<Rightarrow> fspec" where
  "put_request i r st = st\<lparr>sf_requests := (sf_requests st)(i \<mapsto> r)\<rparr>"

fun spec_friend :: "fenv \<Rightarrow> friend_command \<Rightarrow> fspec \<Rightarrow> int + fspec" where
  "spec_friend E (FSend a b raw) st =
    (if a \<le> 0 \<or> b \<le> 0 then Inl CodeInvalidParam
     else if a = b then Inl CodeSelfRequest
     else case normalize_friend_message raw of
       Inl e \<Rightarrow> Inl (app_code e)
     | Inr message \<Rightarrow>
         if \<not> (fe_user E a \<and> fe_user E b) then Inl CodeUserNotFound
         else if blocked_between a b st then Inl CodeFriendBlocked
         else if (a, b) \<in> sf_friends st \<or> (b, a) \<in> sf_friends st then Inl CodeAlreadyFriends
         else if pending_between a b st then Inl CodeDuplicateRequest
         else Inr (put_request (fe_fresh E)
           \<lparr>aq_from = a, aq_to = b, aq_message = message, aq_status = FriendRequestPending\<rparr>
           (st\<lparr>sf_requests := forget_terminal a b (sf_requests st)\<rparr>)))"
| "spec_friend E (FAccept u i) st =
    (if u \<le> 0 \<or> i \<le> 0 then Inl CodeInvalidParam
     else case sf_requests st i of None \<Rightarrow> Inl CodeRequestNotFound | Some r \<Rightarrow>
       if aq_to r \<noteq> u then Inl CodeNotRequestTarget
       else if \<not> (fe_user E (aq_from r) \<and> fe_user E (aq_to r)) then Inl CodeRequestNotFound
       else if aq_status r = FriendRequestAccepted then Inr st
       else if aq_status r \<noteq> FriendRequestPending then Inl CodeRequestNotFound
       else if blocked_between (aq_from r) (aq_to r) st then Inl CodeFriendBlocked
       else Inr ((put_request i (r\<lparr>aq_status := FriendRequestAccepted\<rparr>) st)
              \<lparr>sf_friends := sf_friends st \<union> both_ways (aq_from r) (aq_to r)\<rparr>))"
| "spec_friend E (FReject u i) st =
    (if u \<le> 0 \<or> i \<le> 0 then Inl CodeInvalidParam
     else case sf_requests st i of None \<Rightarrow> Inl CodeRequestNotFound | Some r \<Rightarrow>
       if aq_to r \<noteq> u then Inl CodeNotRequestTarget
       else if \<not> (fe_user E (aq_from r) \<and> fe_user E (aq_to r)) then Inl CodeRequestNotFound
       else if aq_status r = FriendRequestRejected then Inr st
       else if aq_status r \<noteq> FriendRequestPending then Inl CodeRequestNotFound
       else Inr (put_request i (r\<lparr>aq_status := FriendRequestRejected\<rparr>) st))"
| "spec_friend E (FDelete a b) st =
    (if a \<le> 0 \<or> b \<le> 0 then Inl CodeInvalidParam
     else if a = b then Inl CodeSelfRequest
     else if \<not> (fe_user E a \<and> fe_user E b) then Inl CodeUserNotFound
     else Inr (st\<lparr>sf_requests := reject_all FriendRequestAccepted a b (sf_requests st),
                  sf_friends := sf_friends st - both_ways a b\<rparr>))"
| "spec_friend E (FBlock a b) st =
    (if a \<le> 0 \<or> b \<le> 0 then Inl CodeInvalidParam
     else if a = b then Inl CodeSelfRequest
     else if \<not> (fe_user E a \<and> fe_user E b) then Inl CodeUserNotFound
     else if (a, b) \<in> sf_blocks st then Inl CodeAlreadyBlocked
     else Inr (st\<lparr>sf_requests := reject_all FriendRequestPending a b (sf_requests st),
                  sf_blocks := insert (a, b) (sf_blocks st)\<rparr>))"
| "spec_friend E (FUnblock a b) st =
    (if a \<le> 0 \<or> b \<le> 0 then Inl CodeInvalidParam
     else if a = b then Inl CodeSelfRequest
     else if \<not> (fe_user E a \<and> fe_user E b) then Inl CodeUserNotFound
     else Inr (st\<lparr>sf_blocks := sf_blocks st - {(a, b)}\<rparr>))"

subsection \<open>The abstraction and the invariant\<close>

definition areq :: "friend_request \<Rightarrow> arequest" where
  "areq r = \<lparr>aq_from = fr_from r, aq_to = fr_to r, aq_message = fr_message r, aq_status = fr_status r\<rparr>"

definition fview :: "db \<Rightarrow> fspec" where
  "fview d = \<lparr>sf_requests = (\<lambda>i. map_option areq (find_request i d)),
     sf_friends = (\<lambda>f. (fs_user f, fs_friend f)) ` set (friendships d),
     sf_blocks = (\<lambda>b. (bl_user b, bl_blocked b)) ` set (blacklists d)\<rparr>"

definition fenv_of :: "world \<Rightarrow> fenv" where
  "fenv_of w = \<lparr>fe_user = (\<lambda>u. user_exists u (w_db w)), fe_fresh = ai_friend_requests (w_auto w)\<rparr>"

text \<open>
  On the abstract state: friendship is symmetric and irreflexive; a request is in one of the three
  states; a pending request excludes friendship and a block in either direction; an accepted
  request comes with the friendship; a pair has at most one pending request, in whichever direction.
\<close>

definition request_ok :: "fspec \<Rightarrow> arequest \<Rightarrow> bool" where
  "request_ok st r \<longleftrightarrow> 0 < aq_from r \<and> 0 < aq_to r \<and> aq_from r \<noteq> aq_to r \<and>
     aq_status r \<in> {FriendRequestPending, FriendRequestAccepted, FriendRequestRejected} \<and>
     (aq_status r = FriendRequestPending \<longrightarrow>
        (aq_from r, aq_to r) \<notin> sf_friends st \<and> \<not> blocked_between (aq_from r) (aq_to r) st) \<and>
     (aq_status r = FriendRequestAccepted \<longrightarrow> (aq_from r, aq_to r) \<in> sf_friends st)"

definition pending_unique :: "(int \<rightharpoonup> arequest) \<Rightarrow> bool" where
  "pending_unique q \<longleftrightarrow> (\<forall>i j r s. q i = Some r \<and> q j = Some s \<and> aq_status r = FriendRequestPending \<and>
     aq_status s = FriendRequestPending \<and> between (aq_from r) (aq_to r) s \<longrightarrow> i = j)"

definition fspec_ok :: "fspec \<Rightarrow> bool" where
  "fspec_ok st \<longleftrightarrow> sym (sf_friends st) \<and> irrefl (sf_friends st) \<and> pending_unique (sf_requests st) \<and>
     (\<forall>r\<in>ran (sf_requests st). request_ok st r)"

definition request_key :: "friend_request \<Rightarrow> int \<times> int" where
  "request_key r = (fr_from r, fr_to r)"

definition friend_key :: "friendship \<Rightarrow> int \<times> int" where
  "friend_key f = (fs_user f, fs_friend f)"

definition block_key :: "blacklist_entry \<Rightarrow> int \<times> int" where
  "block_key b = (bl_user b, bl_blocked b)"

text \<open>On the tables: the unique keys, and request IDs below the counter.\<close>

definition friend_tables_ok :: "int \<Rightarrow> db \<Rightarrow> bool" where
  "friend_tables_ok n d \<longleftrightarrow>
     distinct (map fr_id (friend_requests d)) \<and> distinct (map request_key (friend_requests d)) \<and>
     distinct (map friend_key (friendships d)) \<and> distinct (map block_key (blacklists d)) \<and>
     (\<forall>r\<in>set (friend_requests d). fr_id r < n)"

definition friends_inv :: "world \<Rightarrow> bool" where
  "friends_inv w \<longleftrightarrow> friend_tables_ok (ai_friend_requests (w_auto w)) (w_db w) \<and> fspec_ok (fview (w_db w))"

lemma fview_sel [simp]:
  "sf_requests (fview d) i = map_option areq (find_request i d)"
  "sf_friends (fview d) = (\<lambda>f. (fs_user f, fs_friend f)) ` set (friendships d)"
  "sf_blocks (fview d) = (\<lambda>b. (bl_user b, bl_blocked b)) ` set (blacklists d)"
  by (simp_all add: fview_def)

lemma areq_sel [simp]:
  "aq_from (areq r) = fr_from r" "aq_to (areq r) = fr_to r" "aq_message (areq r) = fr_message r"
  "aq_status (areq r) = fr_status r"
  by (simp_all add: areq_def)

lemma fenv_of_sel [simp]:
  "fe_user (fenv_of w) u = user_exists u (w_db w)" "fe_fresh (fenv_of w) = ai_friend_requests (w_auto w)"
  by (simp_all add: fenv_of_def)

lemma fview_cong:
  "friend_requests d' = friend_requests d \<Longrightarrow> friendships d' = friendships d \<Longrightarrow> blacklists d' = blacklists d
   \<Longrightarrow> fview d' = fview d"
  by (simp add: fview_def find_request_def)

lemma fview_events [simp]: "fview (d\<lparr>cache_events := es\<rparr>) = fview d"
  by (rule fview_cong) simp_all

lemma ran_requests:
  assumes "distinct (map fr_id (friend_requests d))"
  shows "ran (sf_requests (fview d)) = areq ` set (friend_requests d)"
  using find_unique_in [OF assms]
  by (auto simp: ran_def find_request_def)

lemma friends_in_fview:
  "friends_in a b d \<longleftrightarrow> (a, b) \<in> sf_friends (fview d) \<or> (b, a) \<in> sf_friends (fview d)"
  by (auto simp: friends_in_def friend_row_def exists_row_iff image_iff)

lemma either_blocked_fview: "either_blocked a b d \<longleftrightarrow> blocked_between a b (fview d)"
  by (auto simp: either_blocked_def blocks_def blocked_between_def exists_row_iff image_iff)

lemma find_pending_fview:
  assumes "distinct (map fr_id (friend_requests d))"
  shows "find_pending a b d = None \<longleftrightarrow> \<not> pending_between a b (fview d)"
  unfolding find_pending_None pending_between_def ran_requests [OF assms]
  by (auto simp: request_pair_def between_def)

subsection \<open>Each callback against the specification\<close>

lemma calm_friend_reads:
  assumes "calm w"
  shows "is_friend_pair a b w = (Inr (friends_in a b (w_db w)), w)"
    "lock_friend_users a b w = (Inr (locked_count a b (w_db w)), w)"
    "get_friend_user_profile a w = (Inr (find_profile a (w_db w)), w)"
    "is_either_blocked a b w = (Inr (either_blocked a b (w_db w)), w)"
    "find_pending_friend_request a b w = (Inr (find_pending a b (w_db w)), w)"
    "get_friend_request i w = (Inr (find_request i (w_db w)), w)"
    "get_friend_request_for_update i w = (Inr (find_request i (w_db w)), w)"
  using assms by (simp_all add: io_simps)

lemma calm_friend_writes:
  assumes "calm w"
  shows "count_where (\<lambda>r. fr_id r = i \<and> with_status st (sql_now w) r \<noteq> r) (friend_requests (w_db w)) \<noteq> 0 \<Longrightarrow>
     set_friend_request_status i st w = (Inr (), w\<lparr>w_db := (w_db w)\<lparr>friend_requests :=
       update_where (\<lambda>r. fr_id r = i) (with_status st (sql_now w)) (friend_requests (w_db w))\<rparr>\<rparr>)"
    "invalidate_accepted_friend_requests a b w = (Inr (), w\<lparr>w_db := (w_db w)\<lparr>friend_requests :=
       update_where (\<lambda>r. fr_status r = FriendRequestAccepted \<and> request_pair a b r)
        (with_status FriendRequestRejected (sql_now w)) (friend_requests (w_db w))\<rparr>\<rparr>)"
    "reject_pending_friend_requests a b w = (Inr (), w\<lparr>w_db := (w_db w)\<lparr>friend_requests :=
       update_where (\<lambda>r. fr_status r = FriendRequestPending \<and> request_pair a b r)
        (with_status FriendRequestRejected (sql_now w)) (friend_requests (w_db w))\<rparr>\<rparr>)"
    "delete_friendship_pair a b w = (Inr (), w\<lparr>w_db := (w_db w)\<lparr>friendships :=
       delete_where (friend_row a b) (friendships (w_db w))\<rparr>\<rparr>)"
    "remove_blacklist_entry a b w = (Inr (), w\<lparr>w_db := (w_db w)\<lparr>blacklists :=
       delete_where (blocks a b) (blacklists (w_db w))\<rparr>\<rparr>)"
    "ensure_friendship_pair a b w = (Inr (), w\<lparr>w_auto := (w_auto w)\<lparr>ai_friendships := ai_friendships (w_auto w) + 2\<rparr>,
       w_db := (w_db w)\<lparr>friendships :=
         insert_ignore (new_friendship (ai_friendships (w_auto w) + 1) b a (sql_now w))
           (insert_ignore (new_friendship (ai_friendships (w_auto w)) a b (sql_now w)) (friendships (w_db w)))\<rparr>\<rparr>)"
    "\<not> exists_row (blocks (bl_user e) (bl_blocked e)) (blacklists (w_db w)) \<Longrightarrow>
     add_blacklist_entry e w = (Inr (ai_blacklist (w_auto w)), w\<lparr>w_auto := (w_auto w)\<lparr>ai_blacklist := ai_blacklist (w_auto w) + 1\<rparr>,
       w_db := (w_db w)\<lparr>blacklists := blacklists (w_db w) @
         [e\<lparr>bl_id := ai_blacklist (w_auto w), bl_created_at := sql_datetime (bl_created_at e)\<rparr>]\<rparr>\<rparr>)"
    "exists_row (blocks (bl_user e) (bl_blocked e)) (blacklists (w_db w)) \<Longrightarrow>
     add_blacklist_entry e w = (Inl (WrapErr ''add blacklist entry'' (WrapErr [] (Sentinel ErrConflict))),
       w\<lparr>w_auto := (w_auto w)\<lparr>ai_blacklist := ai_blacklist (w_auto w) + 1\<rparr>\<rparr>)"
    "\<not> exists_row (\<lambda>r. fr_from r = fr_from q \<and> fr_to r = fr_to q) (delete_where (terminal_of q) (friend_requests (w_db w))) \<Longrightarrow>
     save_friend_request q w = (Inr (q\<lparr>fr_id := ai_friend_requests (w_auto w)\<rparr>), w\<lparr>
       w_auto := (w_auto w)\<lparr>ai_friend_requests := ai_friend_requests (w_auto w) + 1\<rparr>,
       w_db := (w_db w)\<lparr>friend_requests := delete_where (terminal_of q) (friend_requests (w_db w)) @
         [stored_request (ai_friend_requests (w_auto w)) q]\<rparr>\<rparr>)"
  using assms
  by (simp_all add: io_simps invalidate_accepted_friend_requests_def reject_pending_friend_requests_def
      add_blacklist_entry_def on_error_def calm_insert_row Let_def)

lemmas calm_friend = andThen_def calm_require calm_friend_reads calm_friend_writes calm_enqueue when_ok_def
  enqueue_friend_pair_reconcile_def throw_def ret_def

lemma find_request_db_cong [simp]:
  "find_request i (d\<lparr>cache_events := es\<rparr>) = find_request i d"
  "find_request i (d\<lparr>friendships := fs\<rparr>) = find_request i d"
  "find_request i (d\<lparr>blacklists := bs\<rparr>) = find_request i d"
  "find_profile i (d\<lparr>friend_requests := rs\<rparr>) = find_profile i d"
  "find_profile i (d\<lparr>friendships := fs\<rparr>) = find_profile i d"
  by (simp_all add: find_request_def find_profile_def)

lemma find_profile_exists: "user_exists u d \<longleftrightarrow> find_profile u d \<noteq> None"
  by (simp add: find_profile_def user_exists_def exists_row_def list_ex_find)

lemma friend_pairs_insert_ignore:
  "(\<lambda>f. (fs_user f, fs_friend f)) ` set (insert_ignore r fs) =
     insert (fs_user r, fs_friend r) ((\<lambda>f. (fs_user f, fs_friend f)) ` set fs)"
  by (auto simp: insert_ignore_def exists_row_iff directed_def image_iff) metis

lemma fview_update_requests:
  assumes "\<And>r. fr_id (f r) = fr_id r"
  shows "sf_requests (fview (d\<lparr>friend_requests := update_where p f (friend_requests d)\<rparr>)) i =
    map_option (\<lambda>r. areq (if p r then f r else r)) (find_request i d)"
proof -
  have "find_request i (d\<lparr>friend_requests := update_where p f (friend_requests d)\<rparr>) =
      map_option (\<lambda>r. if p r then f r else r) (find_request i d)"
    unfolding find_request_def using find_update_where [where q = "\<lambda>r. fr_id r = i" and f = f and p = p] assms
    by simp
  then show ?thesis by (simp add: option.map_comp comp_def)
qed

lemma fspec_eqI:
  "(\<And>i. sf_requests s i = sf_requests t i) \<Longrightarrow> sf_friends s = sf_friends t \<Longrightarrow> sf_blocks s = sf_blocks t \<Longrightarrow>
   s = (t :: fspec)"
  by (rule fspec.equality) auto

lemma fview_reject:
  "fview (d\<lparr>friend_requests := update_where (\<lambda>r. fr_status r = old \<and> request_pair a b r)
     (with_status FriendRequestRejected t) (friend_requests d)\<rparr>) =
   (fview d)\<lparr>sf_requests := reject_all old a b (sf_requests (fview d))\<rparr>"
proof (rule fspec_eqI)
  fix i
  show "sf_requests (fview (d\<lparr>friend_requests := update_where (\<lambda>r. fr_status r = old \<and> request_pair a b r)
     (with_status FriendRequestRejected t) (friend_requests d)\<rparr>)) i =
    sf_requests ((fview d)\<lparr>sf_requests := reject_all old a b (sf_requests (fview d))\<rparr>) i"
    by (subst fview_update_requests)
      (auto simp: with_status_def reject_all_def areq_def between_def request_pair_def option.map_comp comp_def
        intro!: option.map_cong)
qed (simp_all add: fview_def)

lemma fview_set_status:
  assumes "find_request i d = Some r"
  shows "fview (d\<lparr>friend_requests := update_where (\<lambda>r. fr_id r = i) (with_status s t) (friend_requests d)\<rparr>) =
    put_request i ((areq r)\<lparr>aq_status := s\<rparr>) (fview d)"
proof (rule fspec_eqI)
  fix j
  show "sf_requests (fview (d\<lparr>friend_requests := update_where (\<lambda>r. fr_id r = i) (with_status s t) (friend_requests d)\<rparr>)) j =
    sf_requests (put_request i ((areq r)\<lparr>aq_status := s\<rparr>) (fview d)) j"
  proof (cases "find_request j d")
    case None
    then show ?thesis using assms
      by (subst fview_update_requests) (auto simp: with_status_def put_request_def)
  next
    case (Some r')
    then show ?thesis using assms find_request_SomeD [OF Some]
      by (subst fview_update_requests) (auto simp: with_status_def areq_def put_request_def)
  qed
qed (simp_all add: fview_def put_request_def)

lemma fview_save:
  assumes "distinct (map fr_id (friend_requests d))" "\<forall>r\<in>set (friend_requests d). fr_id r < k"
  shows "fview (d\<lparr>friend_requests := delete_where (terminal_of q) (friend_requests d) @ [stored_request k q]\<rparr>) =
    put_request k (areq q) ((fview d)\<lparr>sf_requests := forget_terminal (fr_from q) (fr_to q) (sf_requests (fview d))\<rparr>)"
    (is "fview ?d = ?s")
proof (rule fspec_eqI)
  fix i
  have del: "find (\<lambda>r. fr_id r = i) (delete_where (terminal_of q) (friend_requests d)) =
     (case find_request i d of None \<Rightarrow> None | Some r \<Rightarrow> if terminal_of q r then None else Some r)"
    using find_delete_unique [OF assms(1)] by (simp add: find_request_def)
  have at: "find_request i ?d = (case find (\<lambda>r. fr_id r = i) (delete_where (terminal_of q) (friend_requests d)) of
      None \<Rightarrow> if k = i then Some (stored_request k q) else None | Some r \<Rightarrow> Some r)"
    by (simp add: find_request_def find_append stored_request_def split: option.split)
  have sq: "areq (stored_request k q) = areq q" by (simp add: areq_def stored_request_def)
  show "sf_requests (fview ?d) i = sf_requests ?s i"
  proof (cases "i = k")
    case True
    have "find_request k d = None" using assms(2) by (auto simp: find_request_def find_None_set)
    then show ?thesis using True at del sq by (simp add: put_request_def)
  next
    case False
    then show ?thesis using at del
      by (auto simp: put_request_def forget_terminal_def terminal_of_def split: option.split)
  qed
qed (simp_all add: fview_def put_request_def)

lemma send_refines:
  assumes "calm w" "friends_inv w" "0 < a" "0 < b" "a \<noteq> b" "normalize_friend_message raw = Inr m"
  shows "body_refines fview (send_request_body a b
     \<lparr>fr_id = 0, fr_from = a, fr_to = b, fr_username = [], fr_avatar_url = [],
      fr_message = m, fr_status = FriendRequestPending, fr_created_at = t, fr_updated_at = t\<rparr> w)
     (spec_friend (fenv_of w) (FSend a b raw) (fview (w_db w)))" (is "body_refines fview (send_request_body a b ?q w) ?sp")
proof (cases "user_exists a (w_db w) \<and> user_exists b (w_db w) \<and> \<not> blocked_between a b (fview (w_db w)) \<and>
    \<not> friends_in a b (w_db w) \<and> \<not> pending_between a b (fview (w_db w))")
  case True
  have T: "distinct (map fr_id (friend_requests (w_db w)))" "\<forall>r\<in>set (friend_requests (w_db w)). fr_id r < ai_friend_requests (w_auto w)"
    using assms(2) by (simp_all add: friends_inv_def friend_tables_ok_def)
  have pend: "find_pending a b (w_db w) = None" using True find_pending_fview [OF T(1)] by blast
  have fresh: "\<not> exists_row (\<lambda>r. fr_from r = fr_from ?q \<and> fr_to r = fr_to ?q) (delete_where (terminal_of ?q) (friend_requests (w_db w)))"
    using pend by (auto simp: exists_row_iff find_pending_None terminal_of_def request_pair_def)
  obtain p where p: "find_profile a (w_db w) = Some p" using True by (auto simp: find_profile_exists)
  have eff: "fview (w_db (snd (save_friend_request ?q w))) = put_request (ai_friend_requests (w_auto w)) (areq ?q)
      ((fview (w_db w))\<lparr>sf_requests := forget_terminal (fr_from ?q) (fr_to ?q) (sf_requests (fview (w_db w)))\<rparr>)"
    using calm_friend_writes(9) [OF assms(1) fresh] fview_save [OF T, of ?q] by simp
  have sp: "?sp = Inr (put_request (ai_friend_requests (w_auto w)) (areq ?q)
      ((fview (w_db w))\<lparr>sf_requests := forget_terminal (fr_from ?q) (fr_to ?q) (sf_requests (fview (w_db w)))\<rparr>))"
    using True assms friends_in_fview [of a b "w_db w"] by (simp add: areq_def)
  show ?thesis unfolding sp using True assms pend p fresh eff
    by (simp add: body_refines_def send_request_body_def calm_friend locked_count_2 either_blocked_fview)
next
  case False
  have T: "distinct (map fr_id (friend_requests (w_db w)))"
    using assms(2) by (simp_all add: friends_inv_def friend_tables_ok_def)
  show ?thesis using False assms find_pending_fview [OF T, of a b] friends_in_fview [of a b "w_db w"]
    by (auto simp: body_refines_def send_request_body_def calm_friend locked_count_2 either_blocked_fview simp del: fview_sel)
qed


lemma friends_inv_status:
  assumes "friends_inv w" "find_request i (w_db w) = Some r"
  shows "request_ok (fview (w_db w)) (areq r)"
proof -
  have "areq r \<in> ran (sf_requests (fview (w_db w)))"
    using assms(2) by (auto simp: ran_def intro!: exI [of _ i])
  then show ?thesis using assms(1) by (simp add: friends_inv_def fspec_ok_def)
qed

lemma set_status_counts:
  assumes "find_request i d = Some r" "fr_status r \<noteq> s"
  shows "count_where (\<lambda>r. fr_id r = i \<and> with_status s t r \<noteq> r) (friend_requests d) \<noteq> 0"
proof -
  have "with_status s t r \<noteq> r" using assms(2) by (metis friend_request.select_convs(7) friend_request.update_convs(7) friend_request.surjective with_status_def friend_request.update_convs(9) )
  then show ?thesis using find_request_SomeD [OF assms(1)] by (auto simp: count_where_zero)
qed

lemma ensure_pair_fview:
  "fview (d\<lparr>friendships := insert_ignore (new_friendship k b a t) (insert_ignore (new_friendship j a b t) fs)\<rparr>) =
     (fview d)\<lparr>sf_friends := (\<lambda>f. (fs_user f, fs_friend f)) ` set fs \<union> both_ways a b\<rparr>"
  by (auto simp: fview_def find_request_def friend_pairs_insert_ignore both_ways_def new_friendship_def)

lemma accept_refines:
  assumes "calm w" "friends_inv w" "0 < u" "0 < i" "find_request i (w_db w) = Some r" "fr_to r = u"
  shows "body_refines fview (accept_request_body u i r w) (spec_friend (fenv_of w) (FAccept u i) (fview (w_db w)))"
proof -
  have ok: "request_ok (fview (w_db w)) (areq r)" by (rule friends_inv_status [OF assms(2,5)])
  then have pos: "0 < fr_from r" by (simp add: request_ok_def)
  have sym: "sym (sf_friends (fview (w_db w)))" using assms(2) by (simp add: friends_inv_def fspec_ok_def)
  have rid: "fr_id r = i" using find_request_SomeD [OF assms(5)] by simp
  show ?thesis
  proof (cases "user_exists (fr_from r) (w_db w) \<and> user_exists (fr_to r) (w_db w)")
    case False
    then show ?thesis using assms by (auto simp: body_refines_def accept_request_body_def calm_friend locked_count_2)
  next
    case True
    note users = True
    have ne: "fr_from r \<noteq> fr_to r" using ok by (simp add: request_ok_def)
    consider (acc) "fr_status r = FriendRequestAccepted" | (pen) "fr_status r = FriendRequestPending"
      | (rej) "fr_status r = FriendRequestRejected" using ok by (auto simp: request_ok_def)
    then show ?thesis
    proof cases
      case acc
      have "both_ways (fr_from r) (fr_to r) \<subseteq> sf_friends (fview (w_db w))"
        using ok acc sym by (auto simp: request_ok_def both_ways_def request_status simp del: fview_sel dest: symD)
      then have same: "(fview (w_db w))\<lparr>sf_friends := sf_friends (fview (w_db w)) \<union> both_ways (fr_from r) (fr_to r)\<rparr> = fview (w_db w)"
        by (simp add: Un_absorb2 del: fview_sel)
      show ?thesis using assms pos users ne acc same
        by (simp add: body_refines_def accept_request_body_def calm_friend locked_count_2 ensure_pair_fview)
    next
      case pen
      show ?thesis
      proof (cases "blocked_between (fr_from r) (fr_to r) (fview (w_db w))")
        case True
        then show ?thesis using assms users ne pen
          by (simp add: body_refines_def accept_request_body_def calm_friend locked_count_2 either_blocked_fview request_status)
      next
        case False
        have cnt: "count_where (\<lambda>r. fr_id r = i \<and> with_status FriendRequestAccepted (sql_now w) r \<noteq> r)
            (friend_requests (w_db w)) \<noteq> 0"
          by (rule set_status_counts [OF assms(5)]) (simp add: pen request_status)
        obtain p where p: "find_profile (fr_to r) (w_db w) = Some p" using users by (auto simp: find_profile_exists)
        show ?thesis using assms pos users ne pen False cnt p rid
          by (simp add: body_refines_def accept_request_body_def calm_friend locked_count_2 either_blocked_fview
              ensure_pair_fview fview_set_status request_status)
      qed
    next
      case rej
      then show ?thesis using assms users ne
        by (simp add: body_refines_def accept_request_body_def calm_friend locked_count_2 request_status)
    qed
  qed
qed

lemma reject_refines:
  assumes "calm w" "friends_inv w" "0 < u" "0 < i" "find_request i (w_db w) = Some r" "fr_to r = u"
  shows "body_refines fview (reject_request_body u i r w) (spec_friend (fenv_of w) (FReject u i) (fview (w_db w)))"
proof -
  have ok: "request_ok (fview (w_db w)) (areq r)" by (rule friends_inv_status [OF assms(2,5)])
  have rid: "fr_id r = i" using find_request_SomeD [OF assms(5)] by simp
  show ?thesis
  proof (cases "user_exists (fr_from r) (w_db w) \<and> user_exists (fr_to r) (w_db w)")
    case False
    then show ?thesis using assms by (auto simp: body_refines_def reject_request_body_def calm_friend locked_count_2)
  next
    case True
    note users = True
    have ne: "fr_from r \<noteq> fr_to r" using ok by (simp add: request_ok_def)
    show ?thesis
    proof (cases "fr_status r = FriendRequestPending")
      case True
      have cnt: "count_where (\<lambda>r. fr_id r = i \<and> with_status FriendRequestRejected (sql_now w) r \<noteq> r)
          (friend_requests (w_db w)) \<noteq> 0"
        by (rule set_status_counts [OF assms(5)]) (simp add: True request_status)
      show ?thesis using assms users ne True cnt rid
        by (simp add: body_refines_def reject_request_body_def calm_friend locked_count_2 fview_set_status request_status)
    next
      case False
      then show ?thesis using assms users ne ok
        by (auto simp: body_refines_def reject_request_body_def calm_friend locked_count_2 request_status request_ok_def)
    qed
  qed
qed

lemma delete_refines:
  assumes "calm w" "0 < a" "0 < b" "a \<noteq> b"
  shows "body_refines fview (delete_friend_body a b w) (spec_friend (fenv_of w) (FDelete a b) (fview (w_db w)))"
proof -
  have eff: "fview (d\<lparr>friendships := delete_where (friend_row a b) fs\<rparr>) =
      (fview d)\<lparr>sf_friends := (\<lambda>f. (fs_user f, fs_friend f)) ` set fs - both_ways a b\<rparr>" for d :: db and fs
    by (auto simp: fview_def find_request_def both_ways_def friend_row_def image_iff)
  have eff2: "fview (w_db w\<lparr>friendships := delete_where (friend_row a b) (friendships (w_db w)),
        friend_requests := update_where (\<lambda>r. fr_status r = FriendRequestAccepted \<and> request_pair a b r)
        (with_status FriendRequestRejected (sql_now w)) (friend_requests (w_db w))\<rparr>) =
     (fview (w_db w))\<lparr>sf_requests := reject_all FriendRequestAccepted a b (sf_requests (fview (w_db w))),
        sf_friends := sf_friends (fview (w_db w)) - both_ways a b\<rparr>"
    using fview_reject [where d = "w_db w\<lparr>friendships := delete_where (friend_row a b) (friendships (w_db w))\<rparr>"
        and old = FriendRequestAccepted and a = a and b = b and t = "sql_now w"] eff by simp
  show ?thesis using assms eff2
    by (auto simp: body_refines_def delete_friend_body_def calm_friend locked_count_2)
qed

lemma conflict_error: "err_is ErrConflict (WrapErr x (WrapErr y (Sentinel ErrConflict)))"
  by simp

lemma block_refines:
  assumes "calm w" "0 < a" "0 < b" "a \<noteq> b"
  shows "body_refines_via fview (\<lambda>e. if err_is ErrConflict e then new_err CodeAlreadyBlocked else friend_service_error e)
     (block_body a b \<lparr>bl_id = 0, bl_user = a, bl_blocked = b, bl_created_at = t\<rparr> w)
     (spec_friend (fenv_of w) (FBlock a b) (fview (w_db w)))"
proof -
  have key: "exists_row (blocks a b) (blacklists d) \<longleftrightarrow> (a, b) \<in> sf_blocks (fview d)" for d :: db
    by (auto simp: exists_row_iff blocks_def image_iff)
  have eff: "fview (d\<lparr>blacklists := bs @ [\<lparr>bl_id = k, bl_user = a, bl_blocked = b, bl_created_at = x\<rparr>]\<rparr>) =
      (fview d)\<lparr>sf_blocks := insert (a, b) ((\<lambda>r. (bl_user r, bl_blocked r)) ` set bs)\<rparr>" for d :: db and bs k x
    by (auto simp: fview_def find_request_def)
  have eff2: "fview (w_db w\<lparr>blacklists := blacklists (w_db w) @ [\<lparr>bl_id = k, bl_user = a, bl_blocked = b, bl_created_at = x\<rparr>],
        friend_requests := update_where (\<lambda>r. fr_status r = FriendRequestPending \<and> request_pair a b r)
        (with_status FriendRequestRejected (sql_now w)) (friend_requests (w_db w))\<rparr>) =
     (fview (w_db w))\<lparr>sf_requests := reject_all FriendRequestPending a b (sf_requests (fview (w_db w))),
        sf_blocks := insert (a, b) (sf_blocks (fview (w_db w)))\<rparr>" for k x
    using fview_reject [where d = "w_db w\<lparr>blacklists := blacklists (w_db w) @
        [\<lparr>bl_id = k, bl_user = a, bl_blocked = b, bl_created_at = x\<rparr>]\<rparr>"
        and old = FriendRequestPending and a = a and b = b and t = "sql_now w"] eff by simp
  show ?thesis
  proof (cases "user_exists a (w_db w) \<and> user_exists b (w_db w)")
    case False
    then show ?thesis using assms
      by (auto simp: body_refines_via_def block_body_def calm_friend locked_count_2 friend_service_error_def)
  next
    case True
    note users = True
    show ?thesis
    proof (cases "exists_row (blocks a b) (blacklists (w_db w))")
      case True
      then show ?thesis using assms users key [of "w_db w"]
        by (simp add: body_refines_via_def block_body_def calm_friend locked_count_2 del: fview_sel)
    next
      case False
      then show ?thesis using assms users key [of "w_db w"] eff2
        by (simp add: body_refines_via_def block_body_def calm_friend locked_count_2 del: fview_sel)
    qed
  qed
qed

lemma unblock_refines:
  assumes "calm w" "0 < a" "0 < b" "a \<noteq> b"
  shows "body_refines fview (unblock_body a b w) (spec_friend (fenv_of w) (FUnblock a b) (fview (w_db w)))"
proof -
  have eff: "fview (d\<lparr>blacklists := delete_where (blocks a b) bs\<rparr>) =
      (fview d)\<lparr>sf_blocks := (\<lambda>r. (bl_user r, bl_blocked r)) ` set bs - {(a, b)}\<rparr>" for d :: db and bs
    by (auto simp: fview_def find_request_def blocks_def image_iff)
  show ?thesis using assms
    by (auto simp: body_refines_def unblock_body_def calm_friend locked_count_2 eff)
qed

end
