(* ===== verification/FriendInv.thy ===== *)
theory FriendInv
  imports FriendSpec
begin

text \<open>
  The friend commands against their specification, the invariant of the specification's states,
  and with both the invariant of the tables: it holds after every command, whatever calls fail,
  because a transaction under faults has either no effect or the one it has without them.
\<close>

subsection \<open>The commands against the specification\<close>

definition friend_ports_ok :: "friend_service \<Rightarrow> bool" where
  "friend_ports_ok s \<longleftrightarrow>
     (case sv_cache s of None \<Rightarrow> True | Some c \<Rightarrow> (\<forall>a b. framed same_db (fc_set_friend c a b) \<and>
        framed same_db (fc_delete_friend c a b) \<and> framed same_db (fc_set_blacklist c a b) \<and>
        framed same_db (fc_delete_blacklist c a b))) \<and>
     (case sv_notifier s of None \<Rightarrow> True | Some f \<Rightarrow> (\<forall>u t p. framed same_db (f u t p)))"

lemma framed_friend_ports:
  assumes "friend_ports_ok s"
  shows "framed same_db (write_cache s (\<lambda>c. fc_set_friend c a b))"
    "framed same_db (write_cache s (\<lambda>c. fc_delete_friend c a b))"
    "framed same_db (write_cache s (\<lambda>c. fc_set_blacklist c a b))"
    "framed same_db (write_cache s (\<lambda>c. fc_delete_blacklist c a b))"
    "framed same_db (friend_notify s u t p)"
  using assms
  by (auto simp: friend_ports_ok_def write_cache_def friend_notify_def
      intro!: db_frame.framed_intros split: option.splits)

lemma succeeds_friend_ports: "succeeds (write_cache s f)" "succeeds (friend_notify s u t p)"
  by (auto simp: write_cache_def friend_notify_def intro!: succeeds_intros split: option.split)

lemma friend_service_error_code:
  "as_app e = Some e \<Longrightarrow> app_code (friend_service_error e) = app_code e"
  by (simp add: friend_service_error_def)

lemma friend_error_codes:
  "as_app e = Some e \<Longrightarrow> \<not> err_is ErrConflict e \<Longrightarrow>
     app_code (if err_is ErrConflict e then x else friend_service_error e) = app_code e"
  by (simp add: friend_service_error_code)

lemmas friend_rest = db_frame.framed_intros framed_friend_ports succeeds_intros succeeds_andThen succeeds_prod
  succeeds_option succeeds_friend_ports

lemma message_error_code: "normalize_friend_message raw = Inl e \<Longrightarrow> app_code e = CodeInvalidParam"
  by (auto simp: normalize_friend_message_def Let_def split: if_splits)

text \<open>\<open>time.Now()\<close> moves only the clock.\<close>

definition tick :: "world \<Rightarrow> world" where
  "tick w = snd (now w)"

lemma now_tick: "now w = (Inr (w_clock (tick w)), tick w)"
  by (simp add: tick_def now_def Let_def)

lemma tick_fields [simp]:
  "w_db (tick w) = w_db w" "w_auto (tick w) = w_auto w" "w_cache (tick w) = w_cache w" "w_net (tick w) = w_net w"
  "calm (tick w) = calm w" "fenv_of (tick w) = fenv_of w" "friends_inv (tick w) = friends_inv w"
  by (simp_all add: tick_def now_def Let_def calm_def fenv_of_def friends_inv_def)

lemma send_command_refines:
  assumes "calm w" "friends_inv w" "friend_ports_ok s"
  shows "command_refines fview (friend_send_request s a b raw w) (fview (w_db w))
    (spec_friend (fenv_of w) (FSend a b raw) (fview (w_db w)))"
proof (cases "0 < a \<and> 0 < b \<and> a \<noteq> b")
  case True
  show ?thesis
  proof (cases "normalize_friend_message raw")
    case (Inl e)
    then show ?thesis using True by (simp add: friend_send_request_def command_refines_throw)
  next
    case (Inr m)
    have "command_refines fview (andThen (on_error (\<lambda>e. if err_is ErrConflict e then new_err CodeDuplicateRequest else friend_service_error e)
          (within_tx ''friend transaction'' (send_request_body a b
             \<lparr>fr_id = 0, fr_from = a, fr_to = b, fr_username = [], fr_avatar_url = [],
              fr_message = m, fr_status = FriendRequestPending, fr_created_at = t, fr_updated_at = t\<rparr>)))
        (\<lambda>request. andThen (friend_notify s b FriendEventApply
              (FriendApplyPayload (fr_id request) (fr_from request) (fr_username request)
                 (fr_avatar_url request) (fr_message request) (fr_created_at request))) (\<lambda>_.
          ret request)) (tick w)) (fview (w_db (tick w)))
        (spec_friend (fenv_of (tick w)) (FSend a b raw) (fview (w_db (tick w))))" for t
      using assms True Inr send_refines [of "tick w" a b raw m t]
      by (intro command_refinesI friend_rest friend_error_codes) simp_all
    then show ?thesis using True Inr
      by (simp add: friend_send_request_def andThen_def [where m = now] now_tick del: spec_friend.simps)
  qed
qed (auto simp: friend_send_request_def command_refines_throw)

lemma preview_step:
  assumes "calm w"
  shows "andThen (on_error friend_service_error (get_friend_request i)) f w = f (find_request i (w_db w)) w"
  using assms by (simp add: andThen_def on_error_def calm_friend_reads)

lemma require_true: "andThen (require True e) f = f ()" "andThen (require False e) f = throw e"
  by (rule ext, simp add: andThen_def require_def ret_def throw_def)+

lemma accept_command_refines:
  assumes "calm w" "friends_inv w" "friend_ports_ok s"
  shows "command_refines fview (friend_accept_request s u i w) (fview (w_db w))
    (spec_friend (fenv_of w) (FAccept u i) (fview (w_db w)))"
proof (cases "0 < u \<and> 0 < i")
  case True
  show ?thesis
  proof (cases "find_request i (w_db w)")
    case None
    then show ?thesis using True assms by (simp add: friend_accept_request_def preview_step command_refines_throw)
  next
    case (Some r)
    show ?thesis
    proof (cases "fr_to r = u")
      case False
      then show ?thesis using True assms Some
        by (simp add: friend_accept_request_def preview_step command_refines_throw require_true)
    next
      case to: True
      have "command_refines fview (andThen (on_error friend_service_error
          (within_tx ''friend transaction'' (accept_request_body u i r))) (\<lambda>(friend_id, accepted).
          andThen (write_cache s (\<lambda>c. fc_set_friend c u friend_id)) (\<lambda>_.
          andThen (case accepted of None \<Rightarrow> ret ()
             | Some p \<Rightarrow> friend_notify s friend_id FriendEventAccepted
                 (FriendAcceptedPayload i friend_id u (u_username p) (u_avatar_url p))) (\<lambda>_.
          ret \<lparr>ar_user = u, ar_friend = friend_id\<rparr>))) w) (fview (w_db w))
          (spec_friend (fenv_of w) (FAccept u i) (fview (w_db w)))"
        using assms accept_refines [OF assms(1,2) _ _ Some to] True
        by (intro command_refinesI friend_rest friend_service_error_code) simp_all
      then show ?thesis using True assms Some to
        by (simp add: friend_accept_request_def preview_step require_true del: spec_friend.simps)
    qed
  qed
qed (auto simp: friend_accept_request_def command_refines_throw)

lemma reject_command_refines:
  assumes "calm w" "friends_inv w"
  shows "command_refines fview (friend_reject_request s u i w) (fview (w_db w))
    (spec_friend (fenv_of w) (FReject u i) (fview (w_db w)))"
proof (cases "0 < u \<and> 0 < i")
  case True
  show ?thesis
  proof (cases "find_request i (w_db w)")
    case None
    then show ?thesis using True assms by (simp add: friend_reject_request_def preview_step command_refines_throw)
  next
    case (Some r)
    show ?thesis
    proof (cases "fr_to r = u")
      case False
      then show ?thesis using True assms Some
        by (simp add: friend_reject_request_def preview_step command_refines_throw require_true)
    next
      case to: True
      have "command_refines fview (andThen (on_error friend_service_error
          (within_tx ''friend transaction'' (reject_request_body u i r))) ret w) (fview (w_db w))
          (spec_friend (fenv_of w) (FReject u i) (fview (w_db w)))"
        using assms reject_refines [OF assms(1,2) _ _ Some to] True
        by (intro command_refinesI friend_rest friend_service_error_code) simp_all
      then show ?thesis using True assms Some to
        by (simp add: friend_reject_request_def preview_step require_true andThen_ret del: spec_friend.simps)
    qed
  qed
qed (auto simp: friend_reject_request_def command_refines_throw)

lemma delete_command_refines:
  assumes "calm w" "friend_ports_ok s"
  shows "command_refines fview (friend_delete s a b w) (fview (w_db w))
    (spec_friend (fenv_of w) (FDelete a b) (fview (w_db w)))"
  unfolding friend_delete_def using assms delete_refines [OF assms(1), of a b]
  by (auto intro!: command_refinesI command_refines_throw friend_rest friend_service_error_code simp del: spec_friend.simps(4))
    (auto intro!: command_refines_throw)

lemma block_command_refines:
  assumes "calm w" "friend_ports_ok s"
  shows "command_refines fview (friend_block s a b w) (fview (w_db w))
    (spec_friend (fenv_of w) (FBlock a b) (fview (w_db w)))"
proof (cases "0 < a \<and> 0 < b \<and> a \<noteq> b")
  case True
  have "command_refines fview (andThen (on_error (\<lambda>e. if err_is ErrConflict e then new_err CodeAlreadyBlocked else friend_service_error e)
          (within_tx ''friend transaction'' (block_body a b
             \<lparr>bl_id = 0, bl_user = a, bl_blocked = b, bl_created_at = t\<rparr>)))
        (\<lambda>_. write_cache s (\<lambda>c. fc_set_blacklist c a b)) (tick w)) (fview (w_db (tick w)))
        (spec_friend (fenv_of (tick w)) (FBlock a b) (fview (w_db (tick w))))" for t
    using assms True block_refines [of "tick w" a b t]
    by (intro command_refines_viaI friend_rest) simp_all
  then show ?thesis using True
    by (simp add: friend_block_def andThen_def [where m = now] now_tick del: spec_friend.simps)
qed (auto simp: friend_block_def command_refines_throw)

lemma unblock_command_refines:
  assumes "calm w" "friend_ports_ok s"
  shows "command_refines fview (friend_unblock s a b w) (fview (w_db w))
    (spec_friend (fenv_of w) (FUnblock a b) (fview (w_db w)))"
  unfolding friend_unblock_def using assms unblock_refines [OF assms(1), of a b]
  by (auto intro!: command_refinesI command_refines_throw friend_rest friend_service_error_code simp del: spec_friend.simps(6))
    (auto intro!: command_refines_throw)

lemma friend_commands_refine:
  assumes "calm w" "friends_inv w" "friend_ports_ok s"
  shows "command_refines fview (run_friend_command s c w) (fview (w_db w)) (spec_friend (fenv_of w) c (fview (w_db w)))"
  using assms
  by (cases c) (simp_all add: command_refines_isolate send_command_refines accept_command_refines reject_command_refines
      delete_command_refines block_command_refines unblock_command_refines del: spec_friend.simps)

subsection \<open>The specification keeps the abstract invariant\<close>

lemma ran_put: "ran (q(i \<mapsto> r)) \<subseteq> insert r (ran q)"
  by (auto simp: ran_def)

lemma ran_forget: "ran (forget_terminal a b q) \<subseteq> ran q"
  by (auto simp: ran_def forget_terminal_def split: option.splits if_splits)

lemma ran_reject: "ran (reject_all old a b q) = (\<lambda>r. if aq_status r = old \<and> between a b r
     then r\<lparr>aq_status := FriendRequestRejected\<rparr> else r) ` ran q"
  by (auto simp: ran_def reject_all_def image_iff)

lemma pending_unique_put:
  assumes "pending_unique q" "\<And>j s. q j = Some s \<Longrightarrow> j \<noteq> i \<Longrightarrow> aq_status r = FriendRequestPending \<Longrightarrow>
      aq_status s = FriendRequestPending \<Longrightarrow> \<not> between (aq_from r) (aq_to r) s"
  shows "pending_unique (q(i \<mapsto> r))"
  unfolding pending_unique_def
proof (intro allI impI, elim conjE)
  fix j k s t
  assume h: "(q(i \<mapsto> r)) j = Some s" "(q(i \<mapsto> r)) k = Some t" "aq_status s = FriendRequestPending"
    "aq_status t = FriendRequestPending" "between (aq_from s) (aq_to s) t"
  have sw: "between (aq_from t) (aq_to t) s" using h(5) by (auto simp: between_def)
  consider "j = i" "k = i" | "j = i" "k \<noteq> i" | "j \<noteq> i" "k = i" | "j \<noteq> i" "k \<noteq> i" by blast
  then show "j = k"
  proof cases
    case 2 then show ?thesis using h assms(2) [of k t] by simp
  next
    case 3 then show ?thesis using h sw assms(2) [of j s] by simp
  next
    case 4 then show ?thesis using h assms(1) unfolding pending_unique_def by (metis fun_upd_other)
  qed simp
qed

text \<open>Changes that add no pending request.\<close>

lemma pending_unique_sub:
  assumes "pending_unique q"
    and "\<And>i r. q' i = Some r \<Longrightarrow> aq_status r = FriendRequestPending \<Longrightarrow> q i = Some r"
  shows "pending_unique q'"
  using assms unfolding pending_unique_def by blast

lemma pending_unique_forget: "pending_unique q \<Longrightarrow> pending_unique (forget_terminal a b q)"
  by (erule pending_unique_sub) (auto simp: forget_terminal_def split: option.splits if_splits)

lemma pending_unique_reject: "pending_unique q \<Longrightarrow> pending_unique (reject_all old a b q)"
  by (erule pending_unique_sub) (auto simp: reject_all_def request_status split: if_splits)

lemma spec_send_ok:
  assumes "fspec_ok st" "spec_friend E (FSend a b raw) st = Inr st'"
  shows "fspec_ok st'"
proof -
  obtain m where m: "0 < a" "0 < b" "a \<noteq> b" "\<not> blocked_between a b st" "(a, b) \<notin> sf_friends st" "\<not> pending_between a b st"
    and st': "st' = put_request (fe_fresh E)
       \<lparr>aq_from = a, aq_to = b, aq_message = m, aq_status = FriendRequestPending\<rparr>
       (st\<lparr>sf_requests := forget_terminal a b (sf_requests st)\<rparr>)" (is "_ = put_request _ ?new _")
    using assms(2) by (auto split: sum.splits if_splits)
  have u: "pending_unique (sf_requests st')"
    unfolding st' put_request_def
  proof (simp, rule pending_unique_put)
    show "pending_unique (forget_terminal a b (sf_requests st))"
      using assms(1) by (simp add: fspec_ok_def pending_unique_forget)
  next
    fix j s
    assume "forget_terminal a b (sf_requests st) j = Some s" "aq_status s = FriendRequestPending"
    then have "s \<in> ran (sf_requests st)" using ran_forget [of a b "sf_requests st"] by (auto intro: ranI)
    then show "\<not> between (aq_from ?new) (aq_to ?new) s"
      using m(6) \<open>aq_status s = FriendRequestPending\<close> by (auto simp: pending_between_def)
  qed
  have "request_ok st' r" if "r \<in> ran (sf_requests st')" for r
  proof (cases "r = ?new")
    case True
    then show ?thesis using m by (simp add: request_ok_def st' put_request_def blocked_between_def request_status)
  next
    case False
    then have "r \<in> ran (sf_requests st)"
      using that ran_put ran_forget unfolding st' put_request_def by fastforce
    then have "request_ok st r" using assms(1) by (simp add: fspec_ok_def)
    then show ?thesis by (simp add: request_ok_def st' put_request_def blocked_between_def)
  qed
  then show ?thesis using u assms(1) by (simp add: fspec_ok_def st' put_request_def)
qed

lemma spec_accept_ok:
  assumes "fspec_ok st" "spec_friend E (FAccept u i) st = Inr st'"
  shows "fspec_ok st'"
proof (cases "st' = st")
  case True
  then show ?thesis using assms(1) by simp
next
  case False
  then obtain r where r: "sf_requests st i = Some r" "aq_status r = FriendRequestPending"
      "\<not> blocked_between (aq_from r) (aq_to r) st"
    and st': "st' = (put_request i (r\<lparr>aq_status := FriendRequestAccepted\<rparr>) st)
              \<lparr>sf_friends := sf_friends st \<union> both_ways (aq_from r) (aq_to r)\<rparr>"
    using assms(2) by (auto split: option.splits if_splits)
  have okr: "request_ok st r" using assms(1) r(1) by (auto simp: fspec_ok_def intro: ranI)
  have u: "pending_unique (sf_requests st')"
    using assms(1) by (auto simp: st' put_request_def fspec_ok_def request_status intro!: pending_unique_put)
  have "request_ok st' s" if s: "sf_requests st' j = Some s" for j s
  proof (cases "j = i")
    case True
    then show ?thesis using s okr by (auto simp: st' put_request_def request_ok_def both_ways_def request_status)
  next
    case False
    then have s1: "sf_requests st j = Some s" using s by (simp add: st' put_request_def)
    then have oks: "request_ok st s" using assms(1) by (auto simp: fspec_ok_def intro: ranI)
    have "\<not> between (aq_from r) (aq_to r) s" if "aq_status s = FriendRequestPending"
      using assms(1) r(1,2) s1 that False unfolding fspec_ok_def pending_unique_def by metis
    then have "(aq_from s, aq_to s) \<notin> both_ways (aq_from r) (aq_to r)" if "aq_status s = FriendRequestPending"
      using that by (auto simp: between_def both_ways_def)
    then show ?thesis using oks by (auto simp: st' put_request_def request_ok_def blocked_between_def)
  qed
  moreover have "sym (sf_friends st')" "irrefl (sf_friends st')"
    using assms(1) okr by (auto simp: st' put_request_def fspec_ok_def both_ways_def request_ok_def sym_def irrefl_def)
  ultimately show ?thesis using u by (auto simp: fspec_ok_def ran_def)
qed

lemma spec_reject_ok:
  assumes "fspec_ok st" "spec_friend E (FReject u i) st = Inr st'"
  shows "fspec_ok st'"
proof (cases "st' = st")
  case True
  then show ?thesis using assms(1) by simp
next
  case False
  then obtain r where r: "sf_requests st i = Some r"
    and st': "st' = put_request i (r\<lparr>aq_status := FriendRequestRejected\<rparr>) st"
    using assms(2) by (auto split: option.splits if_splits)
  have okr: "request_ok st r" using assms(1) r(1) by (auto simp: fspec_ok_def intro: ranI)
  have u: "pending_unique (sf_requests st')"
    using assms(1) by (auto simp: st' put_request_def fspec_ok_def request_status intro!: pending_unique_put)
  have "request_ok st' s" if "s \<in> ran (sf_requests st')" for s
    using that ran_put [of "sf_requests st" i "r\<lparr>aq_status := FriendRequestRejected\<rparr>"] okr assms(1)
    by (auto simp: st' put_request_def fspec_ok_def request_ok_def request_status blocked_between_def)
  then show ?thesis using u assms(1) by (simp add: fspec_ok_def st' put_request_def)
qed

lemma spec_delete_ok:
  assumes "fspec_ok st" "spec_friend E (FDelete a b) st = Inr st'"
  shows "fspec_ok st'"
proof -
  have st': "st' = st\<lparr>sf_requests := reject_all FriendRequestAccepted a b (sf_requests st),
                  sf_friends := sf_friends st - both_ways a b\<rparr>"
    using assms(2) by (simp split: if_splits)
  have "request_ok st' s" if s: "s \<in> ran (sf_requests st')" for s
  proof -
    from s obtain r where r: "r \<in> ran (sf_requests st)" "s = (if aq_status r = FriendRequestAccepted \<and> between a b r
        then r\<lparr>aq_status := FriendRequestRejected\<rparr> else r)" by (auto simp: st' ran_reject)
    have "request_ok st r" using assms(1) r(1) by (simp add: fspec_ok_def)
    then show ?thesis using r(2)
      by (auto simp: st' request_ok_def request_status blocked_between_def both_ways_def between_def)
  qed
  moreover have "sym (sf_friends st')" using assms(1) by (auto simp: st' fspec_ok_def sym_def both_ways_def)
  moreover have "irrefl (sf_friends st')" using assms(1) by (auto simp: st' fspec_ok_def irrefl_def)
  ultimately show ?thesis using assms(1) by (simp add: fspec_ok_def st' pending_unique_reject)
qed

lemma spec_block_ok:
  assumes "fspec_ok st" "spec_friend E (FBlock a b) st = Inr st'"
  shows "fspec_ok st'"
proof -
  have st': "st' = st\<lparr>sf_requests := reject_all FriendRequestPending a b (sf_requests st),
                  sf_blocks := insert (a, b) (sf_blocks st)\<rparr>"
    using assms(2) by (simp split: if_splits)
  have "request_ok st' s" if s: "s \<in> ran (sf_requests st')" for s
  proof -
    from s obtain r where r: "r \<in> ran (sf_requests st)" "s = (if aq_status r = FriendRequestPending \<and> between a b r
        then r\<lparr>aq_status := FriendRequestRejected\<rparr> else r)" by (auto simp: st' ran_reject)
    have "request_ok st r" using assms(1) r(1) by (simp add: fspec_ok_def)
    then show ?thesis using r(2)
      by (auto simp: st' request_ok_def request_status blocked_between_def between_def)
  qed
  then show ?thesis using assms(1) by (simp add: fspec_ok_def st' pending_unique_reject)
qed

lemma spec_unblock_ok:
  assumes "fspec_ok st" "spec_friend E (FUnblock a b) st = Inr st'"
  shows "fspec_ok st'"
proof -
  have "st' = st\<lparr>sf_blocks := sf_blocks st - {(a, b)}\<rparr>" using assms(2) by (simp split: if_splits)
  then show ?thesis using assms(1) by (auto simp: fspec_ok_def request_ok_def blocked_between_def)
qed

lemma spec_friend_keeps_ok:
  assumes "fspec_ok st" "spec_friend E c st = Inr st'"
  shows "fspec_ok st'"
proof (cases c)
  case (FSend a b m)
  show ?thesis by (rule spec_send_ok [OF assms(1)]) (use assms(2) in \<open>simp only: FSend\<close>)
next
  case (FAccept u i)
  show ?thesis by (rule spec_accept_ok [OF assms(1)]) (use assms(2) in \<open>simp only: FAccept\<close>)
next
  case (FReject u i)
  show ?thesis by (rule spec_reject_ok [OF assms(1)]) (use assms(2) in \<open>simp only: FReject\<close>)
next
  case (FDelete a b)
  show ?thesis by (rule spec_delete_ok [OF assms(1)]) (use assms(2) in \<open>simp only: FDelete\<close>)
next
  case (FBlock a b)
  show ?thesis by (rule spec_block_ok [OF assms(1)]) (use assms(2) in \<open>simp only: FBlock\<close>)
next
  case (FUnblock a b)
  show ?thesis by (rule spec_unblock_ok [OF assms(1)]) (use assms(2) in \<open>simp only: FUnblock\<close>)
qed

subsection \<open>The keys of the tables\<close>

lemma tables_events [simp]: "friend_tables_ok n (d\<lparr>cache_events := es\<rparr>) = friend_tables_ok n d"
  by (simp add: friend_tables_ok_def)

lemma tables_update_status:
  "friend_tables_ok n d \<Longrightarrow> rs = friend_requests d \<Longrightarrow>
     friend_tables_ok n (d\<lparr>friend_requests := update_where p (with_status s t) rs\<rparr>)"
  by (auto simp: friend_tables_ok_def map_update_where request_key_def with_status_def set_update_where)

lemma tables_save:
  assumes "friend_tables_ok n d"
    "\<not> exists_row (\<lambda>r. fr_from r = fr_from q \<and> fr_to r = fr_to q) (delete_where (terminal_of q) (friend_requests d))"
  shows "friend_tables_ok (n + 1) (d\<lparr>friend_requests := delete_where (terminal_of q) (friend_requests d) @ [stored_request n q]\<rparr>)"
proof -
  have "fr_id (stored_request n q) = n" "request_key (stored_request n q) = (fr_from q, fr_to q)"
    by (simp_all add: stored_request_def request_key_def)
  moreover have "(fr_from q, fr_to q) \<notin> request_key ` set (delete_where (terminal_of q) (friend_requests d))"
    using assms(2) by (auto simp: exists_row_iff request_key_def)
  moreover have "n \<notin> fr_id ` set (delete_where (terminal_of q) (friend_requests d))"
    using assms(1) by (auto simp: friend_tables_ok_def)
  ultimately show ?thesis using assms(1)
    by (auto simp: friend_tables_ok_def distinct_delete_where simp del: set_delete_where dest: order_less_imp_le
        intro: less_le_trans) force
qed

lemma distinct_insert_ignore: "distinct (map friend_key fs) \<Longrightarrow> distinct (map friend_key (insert_ignore r fs))"
  by (auto simp: insert_ignore_def exists_row_iff directed_def friend_key_def)

lemma tables_friendships:
  "friend_tables_ok n d \<Longrightarrow> distinct (map friend_key fs) \<Longrightarrow> friend_tables_ok n (d\<lparr>friendships := fs\<rparr>)"
  by (simp add: friend_tables_ok_def)

lemma tables_blacklists:
  "friend_tables_ok n d \<Longrightarrow> distinct (map block_key bs) \<Longrightarrow> friend_tables_ok n (d\<lparr>blacklists := bs\<rparr>)"
  by (simp add: friend_tables_ok_def)

lemma distinct_block_append:
  "distinct (map block_key bs) \<Longrightarrow> \<not> exists_row (blocks (bl_user b) (bl_blocked b)) bs \<Longrightarrow>
   distinct (map block_key (bs @ [b\<lparr>bl_id := k, bl_created_at := t\<rparr>]))"
  by (auto simp: exists_row_iff blocks_def block_key_def)

lemma tables_keys:
  "friend_tables_ok n d \<Longrightarrow> distinct (map friend_key (friendships d)) \<and> distinct (map block_key (blacklists d))"
  by (simp add: friend_tables_ok_def)

definition tables_step :: "world \<Rightarrow> world \<Rightarrow> bool" where
  "tables_step w w' \<longleftrightarrow> (friend_tables_ok (ai_friend_requests (w_auto w)) (w_db w) \<longrightarrow>
     friend_tables_ok (ai_friend_requests (w_auto w')) (w_db w'))"

lemma send_tables: "send_request_body a b q w = (Inr x, w1) \<Longrightarrow> tables_step w w1"
  by (clarsimp simp: send_request_body_def io_simps tables_step_def locked_count_2 split: option.splits)
    (simp add: tables_save)

lemma ensure_tables:
  "friend_tables_ok n d \<Longrightarrow> fs = friendships d \<Longrightarrow>
     friend_tables_ok n (d\<lparr>friendships := insert_ignore r (insert_ignore s fs)\<rparr>)"
  by (intro tables_friendships distinct_insert_ignore) (simp_all add: tables_keys)

lemma accept_tables:
  assumes "accept_request_body u i p w = (Inr x, w1)" shows "tables_step w w1"
proof (cases "find_request i (w_db w)")
  case None
  then show ?thesis using assms by (clarsimp simp: accept_request_body_def io_simps locked_count_2)
next
  case (Some r)
  show ?thesis
  proof (cases "find_profile (fr_to r) (w_db w)")
    case None
    consider "fr_status r = 0" | "fr_status r = 1" | "fr_status r = 2" | "fr_status r \<notin> {0, 1, 2}" by blast
    then show ?thesis using assms Some None
      by cases (clarsimp simp: accept_request_body_def enqueue_friend_pair_reconcile_def io_simps locked_count_2
          tables_step_def tables_update_status ensure_tables request_status find_profile_def)+
  next
    case (Some q)
    consider "fr_status r = 0" | "fr_status r = 1" | "fr_status r = 2" | "fr_status r \<notin> {0, 1, 2}" by blast
    then show ?thesis using assms \<open>find_request i (w_db w) = Some r\<close> Some
      by cases (clarsimp simp: accept_request_body_def enqueue_friend_pair_reconcile_def io_simps locked_count_2
          tables_step_def tables_update_status ensure_tables request_status find_profile_def)+
  qed
qed

lemma reject_tables:
  assumes "reject_request_body u i p w = (Inr x, w1)" shows "tables_step w w1"
proof (cases "find_request i (w_db w)")
  case None
  then show ?thesis using assms by (clarsimp simp: reject_request_body_def io_simps locked_count_2)
next
  case (Some r)
  consider "fr_status r = 0" | "fr_status r = 1" | "fr_status r = 2" | "fr_status r \<notin> {0, 1, 2}" by blast
  then show ?thesis using assms Some
    by cases (clarsimp simp: reject_request_body_def io_simps locked_count_2 tables_step_def tables_update_status request_status)+
qed

lemma delete_tables: "delete_friend_body a b w = (Inr x, w1) \<Longrightarrow> tables_step w w1"
  by (clarsimp simp: delete_friend_body_def enqueue_friend_pair_reconcile_def invalidate_accepted_friend_requests_def
      io_simps tables_step_def locked_count_2 tables_update_status tables_friendships distinct_delete_where tables_keys)

lemma block_tables: "block_body a b e w = (Inr x, w1) \<Longrightarrow> tables_step w w1"
  by (clarsimp simp: block_body_def reject_pending_friend_requests_def io_simps tables_step_def locked_count_2)
    (simp add: tables_update_status tables_blacklists distinct_block_append tables_keys del: map_append)

lemma unblock_tables: "unblock_body a b w = (Inr x, w1) \<Longrightarrow> tables_step w w1"
  by (clarsimp simp: unblock_body_def io_simps tables_step_def locked_count_2 tables_blacklists
      distinct_delete_where tables_keys)

lemmas friend_bodies_tables = send_tables accept_tables reject_tables delete_tables block_tables unblock_tables

subsection \<open>Under faults\<close>

lemma robust_friend_bodies:
  "net_robust (send_request_body a b q)" "net_robust (accept_request_body a i r)"
  "net_robust (reject_request_body a i r)" "net_robust (delete_friend_body a b)"
  "net_robust (block_body a b e)" "net_robust (unblock_body a b)"
  unfolding send_request_body_def accept_request_body_def reject_request_body_def delete_friend_body_def
    block_body_def unblock_body_def enqueue_friend_pair_reconcile_def
  by (intro robust_friends)+

lemma framed_db_get_request: "framed same_db (on_error h (get_friend_request i))"
  unfolding get_friend_request_def by (intro db_frame.framed_intros)

lemma robust_get_request: "net_robust (on_error h (get_friend_request i))"
  unfolding get_friend_request_def by (intro robust_intros)

lemma framed_db_require: "framed same_db (require b e)"
  by (intro db_frame.framed_intros)

lemma atomic_option:
  "db_atomic m \<Longrightarrow> (\<And>x. db_atomic (f x)) \<Longrightarrow> db_atomic (case opt of None \<Rightarrow> m | Some x \<Rightarrow> f x)"
  by (simp split: option.split)

lemmas friend_atomic_intros = atomic_tx atomic_tx_only atomic_throw atomic_if atomic_sum atomic_option
  atomic_after [OF framed_db_now robust_now]
  atomic_after [OF framed_db_get_request robust_get_request] atomic_after [OF framed_db_require robust_require]
  robust_friend_bodies framed_friend_ports db_frame.framed_intros

lemma atomic_friend_commands:
  assumes "friend_ports_ok s"
  shows "db_atomic (friend_send_request s a b m)" "db_atomic (friend_accept_request s a i)"
    "db_atomic (friend_reject_request s a i)" "db_atomic (friend_delete s a b)"
    "db_atomic (friend_block s a b)" "db_atomic (friend_unblock s a b)"
  unfolding friend_send_request_def friend_accept_request_def friend_reject_request_def friend_delete_def
    friend_block_def friend_unblock_def
  by (intro friend_atomic_intros assms)+

lemma atomic_run_friend: "friend_ports_ok s \<Longrightarrow> db_atomic (run_friend_command s c)"
  by (cases c) (simp_all add: atomic_isolate atomic_friend_commands)

subsection \<open>The invariant of the tables\<close>

definition friend_keys_ok :: "world \<Rightarrow> bool" where
  "friend_keys_ok w \<longleftrightarrow> friend_tables_ok (ai_friend_requests (w_auto w)) (w_db w)"

interpretation friend_keys: world_invariant friend_keys_ok
  by unfold_locales (fastforce simp: friend_keys_ok_def friend_tables_ok_def auto_le_def)

lemma keys_from_tables:
  "(\<And>w x w1. m w = (Inr x, w1) \<Longrightarrow> tables_step w w1) \<Longrightarrow> keeps_ok friend_keys_ok m"
  unfolding keeps_ok_def friend_keys_ok_def tables_step_def by blast

lemma keys_bodies:
  "keeps_ok friend_keys_ok (send_request_body a b q)" "keeps_ok friend_keys_ok (accept_request_body a i p)"
  "keeps_ok friend_keys_ok (reject_request_body a i p)" "keeps_ok friend_keys_ok (delete_friend_body a b)"
  "keeps_ok friend_keys_ok (block_body a b e)" "keeps_ok friend_keys_ok (unblock_body a b)"
  by (rule keys_from_tables, erule friend_bodies_tables)+

lemma framed_auto_friend_bodies:
  "framed auto_le (send_request_body a b q)" "framed auto_le (accept_request_body a i p)"
  "framed auto_le (reject_request_body a i p)" "framed auto_le (delete_friend_body a b)"
  "framed auto_le (block_body a b e)" "framed auto_le (unblock_body a b)"
  unfolding send_request_body_def accept_request_body_def reject_request_body_def delete_friend_body_def
    block_body_def unblock_body_def enqueue_friend_pair_reconcile_def
  by (intro auto_intros framed_auto_friend framed_auto_friend_inserts framed_auto_enqueue framed_auto_group_reads)+

lemmas friend_keeps_intros = friend_keys.keeps_command friend_keys.keeps_if friend_keys.keeps_throw
  friend_keys.keeps_sum friend_keys.keeps_option friend_keys.keeps_on_error friend_keys.keeps_tx
  friend_keys.keeps_after [OF framed_db_now] friend_keys.keeps_after [OF framed_db_get_request]
  friend_keys.keeps_after [OF framed_db_require] framed_auto_friend_bodies keys_bodies
  framed_friend_ports db_frame.framed_intros

lemma keys_commands:
  assumes "friend_ports_ok s"
  shows "keeps friend_keys_ok (friend_send_request s a b m)" "keeps friend_keys_ok (friend_accept_request s a i)"
    "keeps friend_keys_ok (friend_reject_request s a i)" "keeps friend_keys_ok (friend_delete s a b)"
    "keeps friend_keys_ok (friend_block s a b)" "keeps friend_keys_ok (friend_unblock s a b)"
  unfolding friend_send_request_def friend_accept_request_def friend_reject_request_def friend_delete_def
    friend_block_def friend_unblock_def
  by (intro friend_keeps_intros assms)+

lemma keys_run: "friend_ports_ok s \<Longrightarrow> keeps friend_keys_ok (run_friend_command s c)"
  by (cases c) (simp_all add: keys_commands isolate_def friend_keys.keeps_andThen
      friend_keys.keeps_framed db_frame.framed_ret)

text \<open>The database after a command under faults is a state the specification allows.\<close>

lemma friend_command_states:
  assumes "friends_inv w" "friend_ports_ok s"
  shows "fview (w_db (snd (run_friend_command s c w))) = fview (w_db w) \<or>
    spec_friend (fenv_of w) c (fview (w_db w)) = Inr (fview (w_db (snd (run_friend_command s c w))))"
proof -
  have q: "friends_inv (quiet w)" "fenv_of (quiet w) = fenv_of w"
    using assms(1) by (simp_all add: friends_inv_def fenv_of_def)
  have "command_refines fview (run_friend_command s c (quiet w)) (fview (w_db w)) (spec_friend (fenv_of w) c (fview (w_db w)))"
    using friend_commands_refine [OF _ q(1) assms(2), of c] q(2) by simp
  then have "fview (w_db (snd (run_friend_command s c (quiet w)))) = fview (w_db w) \<or>
    spec_friend (fenv_of w) c (fview (w_db w)) = Inr (fview (w_db (snd (run_friend_command s c (quiet w)))))"
    by (auto simp: command_refines_def split: sum.splits)
  then show ?thesis using atomic_run_friend [OF assms(2), of c] unfolding db_atomic_def by metis
qed

lemma friends_inv_run:
  assumes "friends_inv w" "friend_ports_ok s"
  shows "friends_inv (snd (run_friend_command s c w))"
proof -
  have "friend_keys_ok w" using assms(1) by (simp add: friends_inv_def friend_keys_ok_def)
  then have "friend_keys_ok (snd (run_friend_command s c w))"
    using keys_run [OF assms(2)] unfolding keeps_def by blast
  moreover have "fspec_ok (fview (w_db (snd (run_friend_command s c w))))"
    using friend_command_states [OF assms, of c] assms(1) spec_friend_keeps_ok unfolding friends_inv_def by metis
  ultimately show ?thesis by (simp add: friends_inv_def friend_keys_ok_def)
qed

end
