(* ===== verification/FriendProps.thy ===== *)
theory FriendProps
  imports FriendInv GroupInv
begin

text \<open>
  The properties of the friend commands: refinement, invariant, atomicity, and consent.
\<close>

definition no_friend_ports :: friend_service where
  "no_friend_ports = \<lparr>sv_cache = None, sv_notifier = None, sv_presence = None\<rparr>"

lemma friend_ports_none [simp]: "friend_ports_ok no_friend_ports"
  by (simp add: friend_ports_ok_def no_friend_ports_def)

text \<open>The demo world with a pending request from user 3 to user 1.\<close>

definition demo_request :: friend_request where
  "demo_request = \<lparr>fr_id = 1, fr_from = 3, fr_to = 1, fr_username = [], fr_avatar_url = [], fr_message = ''hi'',
     fr_status = FriendRequestPending, fr_created_at = 0, fr_updated_at = 0\<rparr>"

definition demo_friends :: world where
  "demo_friends = demo_world\<lparr>w_db := (w_db demo_world)\<lparr>friend_requests := [demo_request]\<rparr>,
     w_auto := (w_auto demo_world)\<lparr>ai_friend_requests := 2\<rparr>\<rparr>"

lemma demo_friends_calm: "calm demo_friends"
  by (simp add: demo_friends_def demo_world_def)

lemma demo_find_request: "find_request i (w_db demo_friends) = (if i = 1 then Some demo_request else None)"
  by (simp add: demo_friends_def demo_world_def find_request_def demo_request_def)

lemma demo_sets:
  "sf_friends (fview (w_db demo_friends)) = {(1, 2), (2, 1)}" "sf_blocks (fview (w_db demo_friends)) = {}"
  by (simp_all add: demo_friends_def demo_world_def demo_friendship_def empty_db_def)

lemma demo_ran: "ran (sf_requests (fview (w_db demo_friends))) = {areq demo_request}"
  by (auto simp: ran_def demo_find_request)

lemma friends_inv_demo: "friends_inv demo_friends"
proof -
  have "request_ok (fview (w_db demo_friends)) (areq demo_request)"
    by (simp add: request_ok_def demo_sets blocked_between_def del: fview_sel)
      (simp add: areq_def demo_request_def request_status)
  moreover have "pending_unique (sf_requests (fview (w_db demo_friends)))"
    by (auto simp: pending_unique_def demo_find_request split: if_splits)
  moreover have "sym (sf_friends (fview (w_db demo_friends)))" "irrefl (sf_friends (fview (w_db demo_friends)))"
    unfolding demo_sets by (auto simp: sym_def irrefl_def)
  moreover have "friend_tables_ok 2 (w_db demo_friends)"
    by (simp add: friend_tables_ok_def demo_friends_def demo_world_def demo_request_def demo_friendship_def
        friend_key_def empty_db_def)
  moreover have "ai_friend_requests (w_auto demo_friends) = 2"
    by (simp add: demo_friends_def)
  ultimately show ?thesis by (simp add: friends_inv_def fspec_ok_def demo_ran del: fview_sel)
qed

lemma demo_accept_spec:
  "spec_friend (fenv_of demo_friends) (FAccept 1 1) (fview (w_db demo_friends)) =
     Inr ((put_request 1 ((areq demo_request)\<lparr>aq_status := FriendRequestAccepted\<rparr>) (fview (w_db demo_friends)))
        \<lparr>sf_friends := sf_friends (fview (w_db demo_friends)) \<union> both_ways 3 1\<rparr>)"
proof -
  have u: "user_exists 1 (w_db demo_friends)" "user_exists 3 (w_db demo_friends)"
    by (simp_all add: demo_friends_def demo_world_def user_exists_def exists_row_def demo_user_def)
  have r: "fr_to demo_request = 1" "fr_from demo_request = 3" "fr_status demo_request = 0"
    by (simp_all add: demo_request_def request_status)
  show ?thesis
    using u r by (simp add: demo_find_request blocked_between_def demo_sets request_status del: fview_sel(2,3))
qed

text \<open>
  C7. Without faults, every friend command refines its specification on requests, directed
  friendships and blocks: the same error code on every refused branch (and nothing changed), and
  otherwise the specified state. Accepting an accepted request and rejecting a rejected one change
  nothing; deleting a friend also rejects the accepted requests of the pair.
\<close>

theorem friend_commands_refine_spec:
  assumes "calm w" "friends_inv w" "friend_ports_ok s"
  shows "command_refines fview (run_friend_command s c w) (fview (w_db w)) (spec_friend (fenv_of w) c (fview (w_db w)))"
  using friend_commands_refine assms by blast

theorem friend_commands_refine_spec_witness:
  "command_refines fview (run_friend_command no_friend_ports (FAccept 1 1) demo_friends) (fview (w_db demo_friends))
     (Inr ((put_request 1 ((areq demo_request)\<lparr>aq_status := FriendRequestAccepted\<rparr>) (fview (w_db demo_friends)))
        \<lparr>sf_friends := sf_friends (fview (w_db demo_friends)) \<union> both_ways 3 1\<rparr>))"
  using friend_commands_refine_spec [OF demo_friends_calm friends_inv_demo friend_ports_none, of "FAccept 1 1"]
  by (simp only: demo_accept_spec)

text \<open>
  C8. Every friend command keeps the friend invariant, whichever of its remote calls fail or lose
  their acknowledgement: unique keys, symmetric and irreflexive friendship, at most one pending
  request per pair and none between friends or across a block, and a friendship behind every
  accepted request.
\<close>

theorem friend_commands_keep_invariant:
  assumes "friends_inv w" "friend_ports_ok s"
  shows "friends_inv (snd (run_friend_command s c w))"
  using friends_inv_run assms by blast

lemma friends_inv_env: "friends_inv (w\<lparr>w_net := n\<rparr>) = friends_inv w"
  by (simp add: friends_inv_def)

theorem friend_commands_keep_invariant_witness:
  "friends_inv (snd (run_friend_command no_friend_ports (FAccept 1 1)
     (demo_friends\<lparr>w_net := [Pass, Pass, Pass, Pass, Pass, Pass, LostAck]\<rparr>)))"
  by (rule friend_commands_keep_invariant) (simp_all add: friends_inv_env friends_inv_demo)

text \<open>In the specification only an acceptance adds friendships.\<close>

lemma spec_friends_grow:
  assumes "spec_friend E c st = Inr st'" "\<And>u i. c \<noteq> FAccept u i"
  shows "sf_friends st' \<subseteq> sf_friends st"
  using assms by (cases c) (auto simp: put_request_def split: sum.splits option.splits if_splits)

lemma spec_accept_adds:
  assumes "spec_friend E (FAccept u i) st = Inr st'" "st' \<noteq> st"
  obtains r where "sf_requests st i = Some r" "aq_to r = u" "aq_status r = FriendRequestPending"
    "\<not> blocked_between (aq_from r) (aq_to r) st" "sf_friends st' = sf_friends st \<union> both_ways (aq_from r) (aq_to r)"
  using assms by (auto split: option.splits if_splits)

text \<open>
  C9. Consent: whatever calls fail, the only command after which two users are friends who were not
  before is the acceptance, by the addressee, of a pending request between them, and then neither
  of the two blocks the other.
\<close>

theorem friendship_needs_consent:
  assumes "friends_inv w" "friend_ports_ok s"
    "(a, b) \<notin> sf_friends (fview (w_db w))" "(a, b) \<in> sf_friends (fview (w_db (snd (run_friend_command s c w))))"
  shows "\<exists>u i r. c = FAccept u i \<and> find_request i (w_db w) = Some r \<and> fr_status r = FriendRequestPending \<and>
    fr_to r = u \<and> {fr_from r, fr_to r} = {a, b} \<and> \<not> either_blocked a b (w_db w)"
proof -
  let ?st = "fview (w_db w)" and ?st' = "fview (w_db (snd (run_friend_command s c w)))"
  have "?st' \<noteq> ?st" using assms(3,4) by metis
  then have sp: "spec_friend (fenv_of w) c ?st = Inr ?st'"
    using friend_command_states [OF assms(1,2)] by blast
  have "\<exists>u i. c = FAccept u i" using spec_friends_grow [OF sp] assms(3,4) by blast
  then obtain u i where c: "c = FAccept u i" by blast
  obtain r where r: "sf_requests ?st i = Some r" "aq_to r = u" "aq_status r = FriendRequestPending"
      "\<not> blocked_between (aq_from r) (aq_to r) ?st" "sf_friends ?st' = sf_friends ?st \<union> both_ways (aq_from r) (aq_to r)"
    using spec_accept_adds [OF sp [unfolded c]] \<open>?st' \<noteq> ?st\<close> unfolding c by metis
  obtain q where q: "find_request i (w_db w) = Some q" "r = areq q" using r(1) by auto
  have "(a, b) \<in> both_ways (aq_from r) (aq_to r)" using assms(3,4) r(5) by (simp del: fview_sel)
  then show ?thesis using c q r(2-4)
    by (auto simp: both_ways_def either_blocked_fview blocked_between_def simp del: fview_sel)
qed

theorem friendship_needs_consent_witness:
  "\<exists>u i r. FAccept 1 1 = FAccept u i \<and> find_request i (w_db demo_friends) = Some r \<and>
    fr_status r = FriendRequestPending \<and> fr_to r = u \<and> {fr_from r, fr_to r} = {3, 1} \<and>
    \<not> either_blocked 3 1 (w_db demo_friends)"
proof (rule friendship_needs_consent [OF friends_inv_demo friend_ports_none])
  show "(3, 1) \<notin> sf_friends (fview (w_db demo_friends))" by (simp add: demo_sets del: fview_sel)
  have "sf_friends (fview (w_db (snd (run_friend_command no_friend_ports (FAccept 1 1) demo_friends)))) =
      sf_friends (fview (w_db demo_friends)) \<union> both_ways 3 1"
    using friend_commands_refine [OF demo_friends_calm friends_inv_demo friend_ports_none, of "FAccept 1 1"]
    unfolding demo_accept_spec by (simp add: command_refines_def del: fview_sel run_friend_command.simps)
  then show "(3, 1) \<in> sf_friends (fview (w_db (snd (run_friend_command no_friend_ports (FAccept 1 1) demo_friends))))"
    by (simp add: both_ways_def del: fview_sel run_friend_command.simps)
qed

text \<open>
  Atomicity under faults: whatever remote calls of a friend command fail or lose their
  acknowledgement, the database afterwards is the one before, or the one the command produces
  when no call fails.
\<close>

theorem friend_commands_atomic:
  assumes "friend_ports_ok s"
  shows "w_db (snd (run_friend_command s c w)) = w_db w \<or>
    w_db (snd (run_friend_command s c w)) = w_db (snd (run_friend_command s c (quiet w)))"
  using atomic_run_friend [OF assms, of c] by (simp add: db_atomic_def)

theorem friend_commands_atomic_witness:
  "w_db (snd (run_friend_command no_friend_ports (FBlock 1 2) (demo_friends\<lparr>w_net := [Pass, Pass, Fail]\<rparr>))) =
     w_db (demo_friends\<lparr>w_net := [Pass, Pass, Fail]\<rparr>) \<or>
   w_db (snd (run_friend_command no_friend_ports (FBlock 1 2) (demo_friends\<lparr>w_net := [Pass, Pass, Fail]\<rparr>))) =
     w_db (snd (run_friend_command no_friend_ports (FBlock 1 2) (quiet (demo_friends\<lparr>w_net := [Pass, Pass, Fail]\<rparr>))))"
  by (rule friend_commands_atomic [OF friend_ports_none])

end
