(* ===== verification/CacheEvents.thy ===== *)
theory CacheEvents
  imports GroupRepo "HOL-Library.Product_Lexorder"
begin

text \<open>
  \<open>repository/cache_mysql.go\<close>: the locked snapshot a projection is rebuilt from, the paging over
  cache owners, and the durable queue of reconcile events with its claims.
  In a row the empty lock token of the table is \<open>None\<close>.
\<close>

definition cacheTruthPageLimit :: int where "cacheTruthPageLimit = 5000"

definition normalize_cache_page_limit :: "int \<Rightarrow> int" where
  "normalize_cache_page_limit limit =
     (if limit \<le> 0 then 500 else if limit > cacheTruthPageLimit then cacheTruthPageLimit else limit)"

subsection \<open>Snapshots\<close>

text \<open>
  \<open>WithinCacheSnapshot\<close>: lock the owner row (for a group, its tombstone when the row is gone; an ID
  with neither is allowed), run the callback, commit. A failed lock drops the rollback's outcome.
\<close>

definition owner_locked :: "cache_resource \<Rightarrow> int \<Rightarrow> db \<Rightarrow> bool" where
  "owner_locked resource rid d = (case resource of
      GroupMembers \<Rightarrow> find_group rid d \<noteq> None
    | _ \<Rightarrow> user_exists rid d)"

definition lock_cache_owner :: "cache_resource \<Rightarrow> int \<Rightarrow> bool io" where
  "lock_cache_owner resource rid = on_error (WrapErr ''lock cache owner'')
     (andThen (query (owner_locked resource rid)) (\<lambda>found.
      if resource = GroupMembers \<and> \<not> found then query (tombstoned rid) else ret found))"

definition snapshot_body :: "cache_resource \<Rightarrow> int \<Rightarrow> 'a io \<Rightarrow> 'a io" where
  "snapshot_body resource rid fn = andThen (lock_cache_owner resource rid) (\<lambda>_. fn)"

text \<open>The rollback's outcome is reported unless it is the lock that failed (the call after BEGIN).\<close>

definition locks_owner :: "cache_resource \<Rightarrow> int \<Rightarrow> world \<Rightarrow> bool" where
  "locks_owner resource rid w = (case lock_cache_owner resource rid (net_pop w) of (Inl _, _) \<Rightarrow> False | (Inr _, _) \<Rightarrow> True)"

definition within_cache_snapshot :: "cache_resource \<Rightarrow> int \<Rightarrow> 'a io \<Rightarrow> 'a io" where
  "within_cache_snapshot resource rid fn w =
     (if \<not> resource_valid resource \<or> rid \<le> 0
      then throw (PlainErr ''cache snapshot transaction: invalid resource'') w
      else tx_block (locks_owner resource rid w) ''cache snapshot transaction'' (snapshot_body resource rid fn) w)"

text \<open>What holds of the transaction whether or not it reports a failed rollback holds of the snapshot.\<close>

lemma framed_snapshot:
  assumes "framed R (throw (PlainErr ''cache snapshot transaction: invalid resource'') :: 'a io)"
    "\<And>rep what. framed R (tx_block rep what (snapshot_body resource rid (fn :: 'a io)))"
  shows "framed R (within_cache_snapshot resource rid fn)"
  using assms unfolding framed_def within_cache_snapshot_def by simp

subsection \<open>Owners and their truth\<close>

definition user_ids_after :: "int \<Rightarrow> db \<Rightarrow> int list" where
  "user_ids_after after_id d = sort (filter (\<lambda>i. after_id < i) (map u_id (users d)))"

definition list_user_ids :: "int \<Rightarrow> int \<Rightarrow> int list io" where
  "list_user_ids after_id limit = on_error (WrapErr ''list cache owners'')
     (query (\<lambda>d. take (nat (normalize_cache_page_limit limit)) (user_ids_after after_id d)))"

text \<open>UNION removes duplicates.\<close>

definition group_ids_after :: "int \<Rightarrow> db \<Rightarrow> int list" where
  "group_ids_after after_id d =
     sort (remdups (filter (\<lambda>i. after_id < i) (map g_id (groups d) @ map gt_group (group_tombstones d))))"

definition list_group_ids :: "int \<Rightarrow> int \<Rightarrow> int list io" where
  "list_group_ids after_id limit = on_error (WrapErr ''list live and dissolved group cache owners'')
     (query (\<lambda>d. take (nat (normalize_cache_page_limit limit)) (group_ids_after after_id d)))"

definition friend_ids_of :: "int \<Rightarrow> db \<Rightarrow> int list" where
  "friend_ids_of uid d = sort (map fs_friend (filter (\<lambda>f. fs_user f = uid) (friendships d)))"

definition list_friend_ids_for_cache :: "int \<Rightarrow> int list io" where
  "list_friend_ids_for_cache uid = on_error (WrapErr ''list authoritative friends'') (query (friend_ids_of uid))"

definition blocked_ids_of :: "int \<Rightarrow> db \<Rightarrow> int list" where
  "blocked_ids_of uid d = sort (map bl_blocked (filter (\<lambda>b. bl_user b = uid) (blacklists d)))"

definition list_blocked_ids_for_cache :: "int \<Rightarrow> int list io" where
  "list_blocked_ids_for_cache uid =
     on_error (WrapErr ''list authoritative blacklist'') (query (blocked_ids_of uid))"

definition group_exists_for_cache :: "int \<Rightarrow> bool io" where
  "group_exists_for_cache gid =
     on_error (WrapErr ''check authoritative group existence'') (query (\<lambda>d. find_group gid d \<noteq> None))"

definition cache_members_of :: "int \<Rightarrow> db \<Rightarrow> group_member list" where
  "cache_members_of gid d = sort_key gm_user (members_of gid d)"

definition list_group_members_for_cache :: "int \<Rightarrow> group_member list io" where
  "list_group_members_for_cache gid =
     on_error (WrapErr ''list authoritative members'') (query (cache_members_of gid))"

subsection \<open>Claiming events\<close>

text \<open>\<open>DATETIME(6)\<close> rounds to microseconds.\<close>

definition sql_datetime6 :: "int \<Rightarrow> int" where
  "sql_datetime6 t = ((t + 500) div 1000) * 1000"

definition new_cache_claim_token :: "string \<Rightarrow> (string \<times> nat) io" where
  "new_cache_claim_token worker_id =
     andThen (on_error (WrapErr ''create cache claim token'') random_token) (\<lambda>r.
     ret (if 30 < length worker_id then take 30 worker_id else worker_id, r))"

definition claimable :: "int \<Rightarrow> int \<Rightarrow> cache_event \<Rightarrow> bool" where
  "claimable stale_before t e =
     ((ce_status e = 0 \<and> ce_available_at e \<le> t) \<or>
      (ce_status e = 1 \<and> (case ce_locked_at e of None \<Rightarrow> False | Some l \<Rightarrow> l < stale_before)))"

definition select_claimable :: "int \<Rightarrow> int \<Rightarrow> int \<Rightarrow> cache_event list \<Rightarrow> cache_event list" where
  "select_claimable stale_before t limit es =
     take (nat limit) (sort_key ce_id (filter (claimable stale_before t) es))"

text \<open>The rows updated by the claim.\<close>

definition claimed_row :: "(string \<times> nat) \<Rightarrow> int \<Rightarrow> cache_event \<Rightarrow> cache_event" where
  "claimed_row token t e = e\<lparr>ce_status := 1, ce_attempts := ce_attempts e + 1, ce_locked_at := Some t,
     ce_lock_token := Some token\<rparr>"

definition mark_claimed :: "(string \<times> nat) \<Rightarrow> int list \<Rightarrow> int \<Rightarrow> db \<Rightarrow> db" where
  "mark_claimed token ids t d =
     d\<lparr>cache_events := update_where (\<lambda>e. ce_id e \<in> set ids) (claimed_row token t) (cache_events d)\<rparr>"

text \<open>What the caller gets: ID, resource and the incremented attempts, with the token.\<close>

definition claim_body :: "(string \<times> nat) \<Rightarrow> int \<Rightarrow> int \<Rightarrow> cache_event list io" where
  "claim_body token stale_before limit =
     andThen (on_error (WrapErr ''select cache events to claim'')
         (remote (\<lambda>w. (Inr (select_claimable stale_before (sql_now6 w) limit (cache_events (w_db w))), w)))) (\<lambda>rows.
     let events = map (\<lambda>e. e\<lparr>ce_attempts := ce_attempts e + 1, ce_lock_token := Some token\<rparr>) rows in
     if events = [] then ret []
     else andThen (on_error (WrapErr ''mark cache events claimed'')
         (exec (\<lambda>w d. mark_claimed token (map ce_id events) (sql_now6 w) d))) (\<lambda>_. ret events))"

definition claim_cache_reconcile_events :: "string \<Rightarrow> int \<Rightarrow> int \<Rightarrow> cache_event list io" where
  "claim_cache_reconcile_events raw_worker limit lease =
     (let worker_id = trim_space raw_worker;
          lease' = (if lease \<le> 0 then 30 * second else lease);
          limit' = normalize_cache_page_limit limit in
      if worker_id = [] then throw (PlainErr ''claim cache reconcile events: worker ID is empty'')
      else andThen (new_cache_claim_token worker_id) (\<lambda>token.
           deferred_tx ''cache event claim'' (andThen now (\<lambda>t. claim_body token (t - lease') limit'))))"

subsection \<open>Finishing events\<close>

definition holds_claim :: "int \<Rightarrow> (string \<times> nat) option \<Rightarrow> cache_event \<Rightarrow> bool" where
  "holds_claim event_id token e = (ce_id e = event_id \<and> ce_status e = 1 \<and> ce_lock_token e = token)"

definition done_row :: "cache_event \<Rightarrow> cache_event" where
  "done_row e = e\<lparr>ce_status := 2, ce_locked_at := None, ce_lock_token := None, ce_last_error := []\<rparr>"

definition mark_cache_reconcile_success :: "int \<Rightarrow> (string \<times> nat) option \<Rightarrow> unit io" where
  "mark_cache_reconcile_success event_id token =
     andThen (on_error (WrapErr ''mark cache event successful'')
       (exec_count (\<lambda>w d. (count_where (holds_claim event_id token) (cache_events d),
          d\<lparr>cache_events := update_where (holds_claim event_id token) done_row (cache_events d)\<rparr>))))
     (require_one_affected ''mark cache event successful'')"

text \<open>\<open>truncateUTF8\<close>: step back while the byte at the cut continues a sequence.\<close>

fun back_to_boundary :: "string \<Rightarrow> nat \<Rightarrow> nat" where
  "back_to_boundary s 0 = 0"
| "back_to_boundary s (Suc n) = (if cont 128 191 (s ! Suc n) then back_to_boundary s n else Suc n)"

definition truncate_utf8 :: "string \<Rightarrow> nat \<Rightarrow> string" where
  "truncate_utf8 s max_bytes = (if length s \<le> max_bytes then s else take (back_to_boundary s max_bytes) s)"

definition failed_row :: "int \<Rightarrow> string \<Rightarrow> cache_event \<Rightarrow> cache_event" where
  "failed_row available message e = e\<lparr>ce_status := 0, ce_available_at := available, ce_locked_at := None,
     ce_lock_token := None, ce_last_error := message\<rparr>"

text \<open>The cause is given by its text, \<open>cause.Error()\<close>.\<close>

definition mark_cache_reconcile_failure :: "int \<Rightarrow> (string \<times> nat) option \<Rightarrow> string option \<Rightarrow> int \<Rightarrow> unit io" where
  "mark_cache_reconcile_failure event_id token cause retry_after =
     (let retry = (if retry_after < 0 then 0 else retry_after);
          message = (case cause of None \<Rightarrow> ''unknown reconciliation failure'' | Some m \<Rightarrow> truncate_utf8 m 500) in
      andThen now (\<lambda>t.
      andThen (on_error (WrapErr ''mark cache event failed'')
        (exec_count (\<lambda>w d. (count_where (holds_claim event_id token) (cache_events d),
           d\<lparr>cache_events := update_where (holds_claim event_id token)
              (failed_row (sql_datetime6 (t + retry)) message) (cache_events d)\<rparr>))))
      (require_one_affected ''mark cache event failed'')))"

subsection \<open>Inversion rules\<close>

lemma remote_read_ok [io_simps]:
  "remote (\<lambda>w. (Inr (g w), w)) w = (Inr x, w') \<longleftrightarrow> net_now w = Pass \<and> x = g (net_pop w) \<and> w' = net_pop w"
  by (auto simp: remote_def split: net_outcome.splits)

lemma cache_reads_ok [io_simps]:
  "list_user_ids a l w = (Inr ids, w') \<longleftrightarrow> net_now w = Pass \<and> w' = net_pop w \<and>
     ids = take (nat (normalize_cache_page_limit l)) (user_ids_after a (w_db w))"
  "list_group_ids a l w = (Inr ids, w') \<longleftrightarrow> net_now w = Pass \<and> w' = net_pop w \<and>
     ids = take (nat (normalize_cache_page_limit l)) (group_ids_after a (w_db w))"
  "list_friend_ids_for_cache u w = (Inr ids, w') \<longleftrightarrow> net_now w = Pass \<and> w' = net_pop w \<and> ids = friend_ids_of u (w_db w)"
  "list_blocked_ids_for_cache u w = (Inr ids, w') \<longleftrightarrow> net_now w = Pass \<and> w' = net_pop w \<and> ids = blocked_ids_of u (w_db w)"
  "group_exists_for_cache u w = (Inr b, w') \<longleftrightarrow> net_now w = Pass \<and> w' = net_pop w \<and> b = (find_group u (w_db w) \<noteq> None)"
  "list_group_members_for_cache u w = (Inr ms, w') \<longleftrightarrow> net_now w = Pass \<and> w' = net_pop w \<and> ms = cache_members_of u (w_db w)"
  by (auto simp: list_user_ids_def list_group_ids_def list_friend_ids_for_cache_def list_blocked_ids_for_cache_def
      group_exists_for_cache_def list_group_members_for_cache_def io_simps)

lemma mark_success_ok [io_simps]:
  "mark_cache_reconcile_success i token w = (Inr x, w') \<longleftrightarrow> net_now w = Pass \<and>
     count_where (holds_claim i token) (cache_events (w_db w)) = 1 \<and>
     w' = (net_pop w)\<lparr>w_db := (w_db w)\<lparr>cache_events :=
       update_where (holds_claim i token) done_row (cache_events (w_db w))\<rparr>\<rparr>"
  by (auto simp: mark_cache_reconcile_success_def io_simps)

subsection \<open>Truncation\<close>

lemma back_to_boundary_le: "back_to_boundary s n \<le> n"
  by (induction n) (auto intro: le_SucI)

lemma back_to_boundary_stop: "back_to_boundary s n \<noteq> 0 \<Longrightarrow> \<not> cont 128 191 (s ! back_to_boundary s n)"
  by (induction n) auto

end
