(* ===== verification/RedisCache.thy ===== *)
theory RedisCache
  imports CacheEvents
begin

text \<open>
  \<open>repository/cache_redis.go\<close>: the relationship projection in Redis. Lua scripts and \<open>MULTI\<close>
  pipelines are atomic, so each is one remote call on the projection; a SCAN is one remote read
  that returns every matching key. Keys carry their IDs, hash values are kept decoded.
\<close>

definition redis :: "(rel_cache \<Rightarrow> 'a \<times> rel_cache) \<Rightarrow> 'a io" where
  "redis f = remote (\<lambda>w. let (x, c) = f (w_cache w) in (Inr x, w\<lparr>w_cache := c\<rparr>))"

definition redis_read :: "(rel_cache \<Rightarrow> 'a) \<Rightarrow> 'a io" where
  "redis_read f = redis (\<lambda>c. (f c, c))"

definition redis_write :: "(rel_cache \<Rightarrow> rel_cache) \<Rightarrow> unit io" where
  "redis_write f = redis (\<lambda>c. ((), f c))"

subsection \<open>Relations kept as sets of pairs\<close>

definition pairs_of :: "int \<Rightarrow> (int \<times> int) list \<Rightarrow> int list" where
  "pairs_of owner ps = map snd (filter (\<lambda>p. fst p = owner) ps)"

definition drop_owner :: "int \<Rightarrow> (int \<times> int) list \<Rightarrow> (int \<times> int) list" where
  "drop_owner owner ps = filter (\<lambda>p. fst p \<noteq> owner) ps"

text \<open>DEL of the keys \<open>prefix:owner:x\<close>, or SREM of the member, for each \<open>x\<close>.\<close>

definition drop_pairs :: "int \<Rightarrow> int list \<Rightarrow> (int \<times> int) list \<Rightarrow> (int \<times> int) list" where
  "drop_pairs owner xs ps = filter (\<lambda>p. \<not> (fst p = owner \<and> snd p \<in> set xs)) ps"

text \<open>SREM of \<open>y\<close> from the set of each \<open>x\<close>.\<close>

definition drop_reverse :: "int list \<Rightarrow> int \<Rightarrow> (int \<times> int) list \<Rightarrow> (int \<times> int) list" where
  "drop_reverse xs y ps = filter (\<lambda>p. \<not> (snd p = y \<and> fst p \<in> set xs)) ps"

definition add_pairs :: "int \<Rightarrow> int list \<Rightarrow> (int \<times> int) list \<Rightarrow> (int \<times> int) list" where
  "add_pairs owner xs ps = fold sadd (map (\<lambda>x. (owner, x)) xs) ps"

definition add_reverse :: "int list \<Rightarrow> int \<Rightarrow> (int \<times> int) list \<Rightarrow> (int \<times> int) list" where
  "add_reverse xs y ps = fold sadd (map (\<lambda>x. (x, y)) xs) ps"

subsection \<open>Loaded markers and locks\<close>

definition friends_loaded :: "int \<Rightarrow> bool io" where
  "friends_loaded uid = on_error (WrapErr ''read relationship cache marker'')
     (redis_read (\<lambda>c. uid \<in> set (rc_friend_loaded c)))"

definition blacklist_loaded :: "int \<Rightarrow> bool io" where
  "blacklist_loaded uid = on_error (WrapErr ''read relationship cache marker'')
     (redis_read (\<lambda>c. uid \<in> set (rc_blacklist_loaded c)))"

text \<open>\<open>groupMembersLoadedLua\<close>: the stored cardinality, the SCARD and the HLEN agree.\<close>

definition group_projection_loaded :: "int \<Rightarrow> rel_cache \<Rightarrow> bool" where
  "group_projection_loaded gid c = (case rc_group_loaded c gid of
      None \<Rightarrow> False
    | Some expected \<Rightarrow>
        int (length (pairs_of gid (rc_group_members c))) = expected \<and>
        int (length (filter (\<lambda>e. fst (fst e) = gid) (rc_group_info c))) = expected)"

definition group_members_loaded :: "int \<Rightarrow> bool io" where
  "group_members_loaded gid = on_error (WrapErr ''validate group member projection'')
     (redis_read (group_projection_loaded gid))"

fun drop_markers :: "cache_resource \<Rightarrow> int \<Rightarrow> rel_cache \<Rightarrow> rel_cache" where
  "drop_markers Friends rid c = c\<lparr>rc_friend_loaded := removeAll rid (rc_friend_loaded c),
     rc_friend_index_loaded := removeAll rid (rc_friend_index_loaded c)\<rparr>"
| "drop_markers Blacklist rid c = c\<lparr>rc_blacklist_loaded := removeAll rid (rc_blacklist_loaded c)\<rparr>"
| "drop_markers GroupMembers rid c = c\<lparr>rc_group_loaded := (rc_group_loaded c)(rid := None),
     rc_reverse_loaded := removeAll rid (rc_reverse_loaded c)\<rparr>"
| "drop_markers (OtherResource s) rid c = c"

definition invalidate_projection_markers :: "cache_resource \<Rightarrow> int \<Rightarrow> unit io" where
  "invalidate_projection_markers resource rid =
     (if \<not> resource_valid resource then throw (PlainErr ''invalidate projection markers: invalid resource'')
      else on_error (WrapErr ''invalidate projection markers'') (redis_write (drop_markers resource rid)))"

text \<open>A lock value and its expiry; an expired key is absent.\<close>

definition lock_free :: "int \<Rightarrow> (cache_resource \<times> int) \<Rightarrow> rel_cache \<Rightarrow> bool" where
  "lock_free t k c = (case rc_locks c k of None \<Rightarrow> True | Some (_, expiry) \<Rightarrow> expiry \<le> t)"

definition random_cache_token :: "nat io" where
  "random_cache_token = on_error (WrapErr ''create cache lock token'') random_token"

definition try_cache_warm_lock :: "cache_resource \<Rightarrow> int \<Rightarrow> int \<Rightarrow> (nat \<times> bool) io" where
  "try_cache_warm_lock resource rid ttl =
     (if \<not> resource_valid resource then throw (PlainErr ''cache warm lock: invalid resource'')
      else let ttl' = (if ttl \<le> 0 then 5 * second else ttl) in
        andThen random_cache_token (\<lambda>token.
        on_error (WrapErr ''acquire cache warm lock'')
          (remote (\<lambda>w. if lock_free (w_clock w) (resource, rid) (w_cache w)
             then (Inr (token, True), w\<lparr>w_cache := (w_cache w)\<lparr>rc_locks :=
                     (rc_locks (w_cache w))((resource, rid) \<mapsto> (token, w_clock w + ttl'))\<rparr>\<rparr>)
             else (Inr (token, False), w)))))"

text \<open>\<open>releaseCacheWarmLockScript\<close>: delete the lock only if it still holds the token.\<close>

definition release_lock :: "(cache_resource \<times> int) \<Rightarrow> nat \<Rightarrow> int \<Rightarrow> rel_cache \<Rightarrow> rel_cache" where
  "release_lock k token t c = (case rc_locks c k of
      None \<Rightarrow> c
    | Some (held, expiry) \<Rightarrow>
        if held = token \<and> t < expiry then c\<lparr>rc_locks := (rc_locks c)(k := None)\<rparr> else c)"

definition release_cache_warm_lock :: "cache_resource \<Rightarrow> int \<Rightarrow> nat \<Rightarrow> unit io" where
  "release_cache_warm_lock resource rid token = on_error (WrapErr ''release cache warm lock'')
     (remote (\<lambda>w. (Inr (), w\<lparr>w_cache := release_lock (resource, rid) token (w_clock w) (w_cache w)\<rparr>)))"

subsection \<open>Scans\<close>

text \<open>\<open>scanNumericSuffixes\<close> on \<open>friend:owner:*\<close>: a key with a non-positive ID is an error.\<close>

definition numeric_ids :: "int list \<Rightarrow> go_error + int list" where
  "numeric_ids ids = (if list_ex (\<lambda>i. i \<le> 0) ids then Inl (PlainErr ''invalid numeric cache key'')
     else Inr (sorted_unique_positive ids))"

definition lift_result :: "go_error + 'a \<Rightarrow> 'a io" where
  "lift_result r = (case r of Inl e \<Rightarrow> throw e | Inr x \<Rightarrow> ret x)"

definition scan_friend_suffixes :: "int \<Rightarrow> int list io" where
  "scan_friend_suffixes owner = andThen (redis_read (\<lambda>c. pairs_of owner (rc_friend c))) (\<lambda>ids.
     lift_result (numeric_ids ids))"

text \<open>
  \<open>readReverseGroupMembers\<close>: every \<open>user_groups:*\<close> key is visited; one with a non-positive ID is an
  error, the ones that contain the group are returned.
\<close>

definition read_reverse_group_members :: "int \<Rightarrow> int list io" where
  "read_reverse_group_members gid =
     andThen (on_error (WrapErr ''scan group reverse membership keys'') (redis_read rc_user_groups)) (\<lambda>ps.
     if list_ex (\<lambda>p. fst p \<le> 0) ps then throw (PlainErr ''invalid reverse group membership key'')
     else ret (sorted_unique_positive (map fst (filter (\<lambda>p. snd p = gid) ps))))"

subsection \<open>Replacing a projection\<close>

text \<open>\<open>replaceFriendOwnerLua\<close>.\<close>

definition replace_friend_lua :: "int \<Rightarrow> int list \<Rightarrow> int list \<Rightarrow> rel_cache \<Rightarrow> rel_cache" where
  "replace_friend_lua owner legacy desired c =
     (let old = pairs_of owner (rc_friend_index c);
          cleared = drop_pairs owner legacy (drop_pairs owner old (rc_friend c))
      in c\<lparr>rc_friend := add_pairs owner desired cleared,
           rc_friend_index := add_pairs owner desired (drop_owner owner (rc_friend_index c)),
           rc_friend_loaded := sadd owner (rc_friend_loaded c),
           rc_friend_index_loaded := sadd owner (rc_friend_index_loaded c)\<rparr>)"

definition replace_friend_owner :: "int \<Rightarrow> int list \<Rightarrow> unit io" where
  "replace_friend_owner owner friend_ids =
     andThen (on_error (WrapErr ''read friend owner index marker'')
         (on_error (WrapErr ''read relationship cache marker'')
            (redis_read (\<lambda>c. owner \<in> set (rc_friend_index_loaded c))))) (\<lambda>index_loaded.
     andThen (if index_loaded then ret []
         else on_error (WrapErr ''bootstrap friend owner index'') (scan_friend_suffixes owner)) (\<lambda>legacy.
     on_error (WrapErr ''replace friend cache owner'')
       (redis_write (replace_friend_lua owner legacy (sorted_unique_positive friend_ids)))))"

definition replace_blacklist_tx :: "int \<Rightarrow> int list \<Rightarrow> rel_cache \<Rightarrow> rel_cache" where
  "replace_blacklist_tx owner ids c =
     c\<lparr>rc_blacklist := add_pairs owner ids (drop_owner owner (rc_blacklist c)),
       rc_blacklist_loaded := sadd owner (rc_blacklist_loaded c)\<rparr>"

definition replace_blacklist_owner :: "int \<Rightarrow> int list \<Rightarrow> unit io" where
  "replace_blacklist_owner owner blocked_ids = on_error (WrapErr ''replace blacklist cache owner'')
     (redis_write (replace_blacklist_tx owner (sorted_unique_positive blocked_ids)))"

text \<open>\<open>UnixMilli\<close> of the deadline; 0 for none.\<close>

definition new_cached_group_member_info :: "int \<Rightarrow> int option \<Rightarrow> member_info" where
  "new_cached_group_member_info role muted_until =
     \<lparr>mi_role = role, mi_muted_until = (case muted_until of None \<Rightarrow> 0 | Some t \<Rightarrow> t div 1000000)\<rparr>"

definition model_muted_until :: "member_info \<Rightarrow> int option" where
  "model_muted_until i = (if mi_muted_until i \<le> 0 then None else Some (mi_muted_until i * 1000000))"

text \<open>Members with positive IDs, the first row of each user.\<close>

fun first_members :: "int list \<Rightarrow> group_member list \<Rightarrow> (int \<times> member_info) list" where
  "first_members seen [] = []"
| "first_members seen (m # ms) =
     (if gm_user m \<le> 0 \<or> gm_user m \<in> set seen then first_members seen ms
      else (gm_user m, new_cached_group_member_info (gm_role m) (gm_muted_until m))
             # first_members (gm_user m # seen) ms)"

text \<open>\<open>replaceGroupMembersOwnerLua\<close>.\<close>

definition replace_group_lua :: "int \<Rightarrow> int list \<Rightarrow> (int \<times> member_info) list \<Rightarrow> rel_cache \<Rightarrow> rel_cache" where
  "replace_group_lua gid legacy desired c =
     (let old_members = pairs_of gid (rc_group_members c);
          old_reverse = pairs_of gid (rc_reverse_index c);
          ids = map fst desired;
          cleared = drop_reverse legacy gid (drop_reverse old_reverse gid (drop_reverse old_members gid (rc_user_groups c)))
      in c\<lparr>rc_group_members := add_pairs gid ids (drop_owner gid (rc_group_members c)),
           rc_group_info := filter (\<lambda>e. fst (fst e) \<noteq> gid) (rc_group_info c) @ map (\<lambda>(u, i). ((gid, u), i)) desired,
           rc_user_groups := add_reverse ids gid cleared,
           rc_reverse_index := add_pairs gid ids (drop_owner gid (rc_reverse_index c)),
           rc_group_loaded := (rc_group_loaded c)(gid \<mapsto> int (length desired)),
           rc_reverse_loaded := sadd gid (rc_reverse_loaded c)\<rparr>)"

definition replace_group_members_owner :: "int \<Rightarrow> group_member list \<Rightarrow> unit io" where
  "replace_group_members_owner gid members =
     andThen (on_error (WrapErr ''read group reverse owner index marker'')
         (on_error (WrapErr ''read relationship cache marker'')
            (redis_read (\<lambda>c. gid \<in> set (rc_reverse_loaded c))))) (\<lambda>index_loaded.
     andThen (if index_loaded then ret []
         else on_error (WrapErr ''bootstrap group reverse owner index'') (read_reverse_group_members gid)) (\<lambda>legacy.
     on_error (WrapErr ''replace group member cache owner'')
       (redis_write (replace_group_lua gid legacy (first_members [] members)))))"

definition delete_disbanded_group_runtime :: "int \<Rightarrow> unit io" where
  "delete_disbanded_group_runtime gid =
     (if gid \<le> 0 then throw (PlainErr ''delete disbanded group runtime: group ID must be positive'')
      else on_error (WrapErr ''delete disbanded group runtime cache'')
        (redis_write (\<lambda>c. c\<lparr>rc_outbox := (rc_outbox c)(gid := []), rc_group_seq := (rc_group_seq c)(gid := None)\<rparr>)))"

subsection \<open>Reading snapshots\<close>

record relationship_snapshot =
  rs_loaded :: bool
  rs_ids :: "int list"

record group_snapshot =
  ss_loaded :: bool
  ss_members :: "(int \<times> int \<times> int option) list"
  ss_missing_set :: "int list"
  ss_missing_info :: "int list"
  ss_missing_reverse :: "int list"
  ss_unexpected_reverse :: "int list"

definition read_friend_snapshot :: "int \<Rightarrow> relationship_snapshot io" where
  "read_friend_snapshot uid =
     andThen (friends_loaded uid) (\<lambda>loaded.
     andThen (on_error (WrapErr ''read friend cache snapshot'') (scan_friend_suffixes uid)) (\<lambda>ids.
     ret \<lparr>rs_loaded = loaded, rs_ids = ids\<rparr>))"

definition read_blacklist_snapshot :: "int \<Rightarrow> relationship_snapshot io" where
  "read_blacklist_snapshot uid =
     andThen (blacklist_loaded uid) (\<lambda>loaded.
     andThen (on_error (WrapErr ''read blacklist cache snapshot'')
         (andThen (redis_read (\<lambda>c. pairs_of uid (rc_blacklist c))) (\<lambda>ids. lift_result (numeric_ids ids)))) (\<lambda>ids.
     ret \<lparr>rs_loaded = loaded, rs_ids = ids\<rparr>))"

text \<open>The entries of a group's hash.\<close>

definition infos_of :: "int \<Rightarrow> rel_cache \<Rightarrow> (int \<times> member_info) list" where
  "infos_of gid c = map (\<lambda>e. (snd (fst e), snd e)) (filter (\<lambda>e. fst (fst e) = gid) (rc_group_info c))"

text \<open>A member as (user, role, deadline): from the hash, or bare when only the set has the user.\<close>

definition snapshot_member :: "(int \<times> member_info) list \<Rightarrow> int \<Rightarrow> int \<times> int \<times> int option" where
  "snapshot_member infos u = (case map_of infos u of
      None \<Rightarrow> (u, 0, None)
    | Some i \<Rightarrow> (u, mi_role i, model_muted_until i))"

definition ids_minus :: "int list \<Rightarrow> int list \<Rightarrow> int list" where
  "ids_minus xs ys = sorted_unique_positive (filter (\<lambda>x. x \<notin> set ys) xs)"

definition read_group_member_snapshot :: "int \<Rightarrow> group_snapshot io" where
  "read_group_member_snapshot gid =
     andThen (group_members_loaded gid) (\<lambda>loaded.
     andThen (on_error (WrapErr ''read group cache snapshot'')
         (redis_read (\<lambda>c. (pairs_of gid (rc_group_members c), infos_of gid c)))) (\<lambda>(set_ids, infos).
     if list_ex (\<lambda>i. i \<le> 0) set_ids then throw (PlainErr ''invalid group member cache ID'')
     else if list_ex (\<lambda>i. i \<le> 0) (map fst infos) then throw (PlainErr ''invalid group member info cache ID'')
     else let info_ids = map fst infos; member_ids = sorted_unique_positive (set_ids @ info_ids) in
       andThen (read_reverse_group_members gid) (\<lambda>reverse_ids.
       ret \<lparr>ss_loaded = loaded, ss_members = map (snapshot_member infos) member_ids,
            ss_missing_set = ids_minus info_ids set_ids, ss_missing_info = ids_minus set_ids info_ids,
            ss_missing_reverse = ids_minus member_ids reverse_ids,
            ss_unexpected_reverse = ids_minus reverse_ids member_ids\<rparr>)))"

subsection \<open>Inversion rules\<close>

lemma redis_read_ok [io_simps]:
  "redis_read f w = (Inr x, w') \<longleftrightarrow> net_now w = Pass \<and> x = f (w_cache w) \<and> w' = net_pop w"
  by (auto simp: redis_read_def redis_def remote_def net_pop_def split: net_outcome.splits)

lemma redis_write_ok [io_simps]:
  "redis_write f w = (Inr x, w') \<longleftrightarrow> net_now w = Pass \<and> w' = (net_pop w)\<lparr>w_cache := f (w_cache w)\<rparr>"
  by (auto simp: redis_write_def redis_def remote_def net_pop_def split: net_outcome.splits)

text \<open>A write takes effect or not; only its acknowledgement can be lost.\<close>

lemma redis_write_cases:
  "w_cache (snd (redis_write f w)) = w_cache w \<or> w_cache (snd (redis_write f w)) = f (w_cache w)"
  by (auto simp: redis_write_def redis_def remote_def split: net_outcome.split)

lemma redis_read_cache [simp]: "w_cache (snd (redis_read f w)) = w_cache w"
  by (auto simp: redis_read_def redis_def remote_def split: net_outcome.split)

lemma set_pairs_of [simp]: "set (pairs_of owner ps) = {x. (owner, x) \<in> set ps}"
  by (force simp: pairs_of_def)

lemma set_drop_owner [simp]: "set (drop_owner owner ps) = {p \<in> set ps. fst p \<noteq> owner}"
  by (simp add: drop_owner_def)

lemma set_drop_pairs [simp]: "set (drop_pairs owner xs ps) = {p \<in> set ps. \<not> (fst p = owner \<and> snd p \<in> set xs)}"
  by (simp add: drop_pairs_def)

lemma set_drop_reverse [simp]: "set (drop_reverse xs y ps) = {p \<in> set ps. \<not> (snd p = y \<and> fst p \<in> set xs)}"
  by (simp add: drop_reverse_def)

lemma set_add_pairs [simp]: "set (add_pairs owner xs ps) = (\<lambda>x. (owner, x)) ` set xs \<union> set ps"
  by (simp add: add_pairs_def)

lemma set_add_reverse [simp]: "set (add_reverse xs y ps) = (\<lambda>x. (x, y)) ` set xs \<union> set ps"
  by (simp add: add_reverse_def)

lemma map_fst_first_members:
  "distinct (map fst (first_members seen ms)) \<and>
   set (map fst (first_members seen ms)) = {u \<in> gm_user ` set ms. 0 < u \<and> u \<notin> set seen}"
  by (induction seen ms rule: first_members.induct) auto

end
