(* ===== verification/CacheTruth.thy ===== *)
theory CacheTruth
  imports RedisCache
begin

text \<open>
  \<open>service/cache_truth.go\<close>: keeping the Redis projection equal to MySQL. Loading on demand,
  reconciling one owner under its lock, warming and strictly rebuilding all owners, auditing, and
  the worker that drains the queue of reconcile events.
\<close>

datatype cache_scope = ScopeFriends | ScopeBlacklists | ScopeGroups | ScopeAll | OtherScope string

fun scope_valid :: "cache_scope \<Rightarrow> bool" where
  "scope_valid (OtherScope s) = False"
| "scope_valid _ = True"

record cache_truth_options =
  co_lock_ttl :: int
  co_wait_timeout :: int
  co_poll_interval :: int
  co_page_size :: int

definition millisecond :: int where "millisecond = 1000000"

text \<open>\<open>NewCacheTruthService\<close> fills in the defaults.\<close>

definition new_cache_truth_service :: "cache_truth_options \<Rightarrow> cache_truth_options" where
  "new_cache_truth_service opt = \<lparr>
     co_lock_ttl = (if co_lock_ttl opt \<le> 0 then 5 * second else co_lock_ttl opt),
     co_wait_timeout = (if co_wait_timeout opt \<le> 0 then 2 * second else co_wait_timeout opt),
     co_poll_interval = (if co_poll_interval opt \<le> 0 then 20 * millisecond else co_poll_interval opt),
     co_page_size = (if co_page_size opt \<le> 0 then 500 else co_page_size opt)\<rparr>"

subsection \<open>Errors\<close>

fun resource_name :: "cache_resource \<Rightarrow> string" where
  "resource_name Friends = ''friends''"
| "resource_name Blacklist = ''blacklist''"
| "resource_name GroupMembers = ''group_members''"
| "resource_name (OtherResource s) = s"

definition mysql_error :: "string \<Rightarrow> cache_resource \<Rightarrow> int \<Rightarrow> go_error \<Rightarrow> go_error" where
  "mysql_error operation resource rid err = CacheTruthErr ''mysql'' operation (resource_name resource) rid err"

definition redis_error :: "string \<Rightarrow> cache_resource \<Rightarrow> int \<Rightarrow> go_error \<Rightarrow> go_error" where
  "redis_error operation resource rid err = CacheTruthErr ''redis'' operation (resource_name resource) rid err"

subsection \<open>The resource lock\<close>

text \<open>\<open><-ticker.C\<close>: the poll interval passes (and whatever the environment adds).\<close>

definition sleep :: "int \<Rightarrow> unit io" where
  "sleep d w = (Inr (), w\<lparr>w_clock := w_clock w + d + (case w_ticks w of [] \<Rightarrow> 0 | x # _ \<Rightarrow> int x), w_ticks := tl (w_ticks w)\<rparr>)"

text \<open>
  \<open>errors.Join(operationErr, releaseErr)\<close>: the operation runs, the lock is released whatever it
  returned, and both errors are reported.
\<close>

definition finish_locked :: "cache_resource \<Rightarrow> int \<Rightarrow> nat \<Rightarrow> unit io \<Rightarrow> unit io" where
  "finish_locked resource rid token operation =
     andThen (attempt operation) (\<lambda>r.
     andThen (attempt (on_error (redis_error ''release resource lock'' resource rid)
         (release_cache_warm_lock resource rid token))) (\<lambda>q.
     case join_errs [case r of Inl e \<Rightarrow> Some e | Inr _ \<Rightarrow> None, case q of Inl e \<Rightarrow> Some e | Inr _ \<Rightarrow> None] of
       None \<Rightarrow> ret ()
     | Some e \<Rightarrow> throw e))"

text \<open>
  The loop of \<open>withResourceLock\<close>. After a failed attempt it waits for the next tick; when the wait
  timeout has passed by then, the deadline is what it sees. \<open>fuel\<close> bounds the attempts:
  \<open>lock_fuel\<close> of them are never used up (\<open>lock_loop_fuel\<close>).
\<close>

definition out_of_fuel :: go_error where
  "out_of_fuel = PlainErr ''lock loop out of fuel''"

fun lock_loop ::
  "nat \<Rightarrow> cache_truth_options \<Rightarrow> int \<Rightarrow> cache_resource \<Rightarrow> int \<Rightarrow> string \<Rightarrow> unit io \<Rightarrow> unit io" where
  "lock_loop 0 opt deadline resource rid wait_operation operation = throw out_of_fuel"
| "lock_loop (Suc fuel) opt deadline resource rid wait_operation operation =
     andThen (on_error (redis_error ''acquire resource lock'' resource rid)
         (try_cache_warm_lock resource rid (co_lock_ttl opt))) (\<lambda>(token, acquired).
     if acquired then finish_locked resource rid token operation
     else andThen (sleep (co_poll_interval opt)) (\<lambda>_.
          \<lambda>w. if deadline \<le> w_clock w
               then throw (redis_error wait_operation resource rid (Sentinel ErrCacheWarmTimeout)) w
               else lock_loop fuel opt deadline resource rid wait_operation operation w))"

definition lock_fuel :: "cache_truth_options \<Rightarrow> nat" where
  "lock_fuel opt = nat (co_wait_timeout opt) + 1"

definition with_resource_lock :: "cache_truth_options \<Rightarrow> cache_resource \<Rightarrow> int \<Rightarrow> string \<Rightarrow> unit io \<Rightarrow> unit io" where
  "with_resource_lock opt resource rid wait_operation operation w =
     lock_loop (lock_fuel opt) opt (w_clock w + co_wait_timeout opt) resource rid wait_operation operation w"

subsection \<open>Reconciling one owner\<close>

definition reconcile_snapshot :: "cache_resource \<Rightarrow> int \<Rightarrow> unit io" where
  "reconcile_snapshot resource rid = (case resource of
      Friends \<Rightarrow>
        andThen (on_error (mysql_error ''read authoritative snapshot'' resource rid) (list_friend_ids_for_cache rid)) (\<lambda>ids.
        on_error (redis_error ''replace projection'' resource rid) (replace_friend_owner rid ids))
    | Blacklist \<Rightarrow>
        andThen (on_error (mysql_error ''read authoritative snapshot'' resource rid) (list_blocked_ids_for_cache rid)) (\<lambda>ids.
        on_error (redis_error ''replace projection'' resource rid) (replace_blacklist_owner rid ids))
    | GroupMembers \<Rightarrow>
        andThen (on_error (mysql_error ''read authoritative group existence'' resource rid) (group_exists_for_cache rid)) (\<lambda>group_exists.
        andThen (on_error (mysql_error ''read authoritative snapshot'' resource rid) (list_group_members_for_cache rid)) (\<lambda>members.
        andThen (on_error (redis_error ''replace projection'' resource rid) (replace_group_members_owner rid members)) (\<lambda>_.
        when_ok (\<not> group_exists)
          (on_error (redis_error ''delete disbanded group runtime'' resource rid) (delete_disbanded_group_runtime rid)))))
    | OtherResource _ \<Rightarrow> ret ())"

definition reconcile_current :: "cache_resource \<Rightarrow> int \<Rightarrow> unit io" where
  "reconcile_current resource rid =
     on_error (\<lambda>err. if is_cache_truth err then err else mysql_error ''serialize authoritative snapshot'' resource rid err)
       (within_cache_snapshot resource rid (reconcile_snapshot resource rid))"

definition reconcile_now :: "cache_truth_options \<Rightarrow> cache_resource \<Rightarrow> int \<Rightarrow> unit io" where
  "reconcile_now opt resource rid =
     (if \<not> resource_valid resource \<or> rid \<le> 0 then throw (PlainErr ''reconcile cache: invalid resource'')
      else with_resource_lock opt resource rid ''wait for cache reconciliation'' (reconcile_current resource rid))"

definition reconcile_group_members :: "cache_truth_options \<Rightarrow> int \<Rightarrow> unit io" where
  "reconcile_group_members opt gid =
     (if gid \<le> 0 then throw (PlainErr ''reconcile group members: group ID must be positive'')
      else reconcile_now opt GroupMembers gid)"

subsection \<open>The friend service's cache port\<close>

text \<open>Every owner once, in order; the failures are joined.\<close>

fun reconcile_each :: "cache_truth_options \<Rightarrow> cache_resource \<Rightarrow> int list \<Rightarrow> int list \<Rightarrow> go_error option list io" where
  "reconcile_each opt resource seen [] = ret []"
| "reconcile_each opt resource seen (i # is) =
     (if i \<le> 0 then andThen (reconcile_each opt resource seen is)
          (\<lambda>fs. ret (Some (PlainErr ''reconcile: invalid owner ID'') # fs))
      else if i \<in> set seen then reconcile_each opt resource seen is
      else andThen (attempt (reconcile_now opt resource i)) (\<lambda>r.
           andThen (reconcile_each opt resource (i # seen) is) (\<lambda>fs.
           ret ((case r of Inl e \<Rightarrow> Some e | Inr _ \<Rightarrow> None) # fs))))"

definition throw_joined :: "go_error option list \<Rightarrow> unit io" where
  "throw_joined fs = (case join_errs fs of None \<Rightarrow> ret () | Some e \<Rightarrow> throw e)"

definition reconcile_owners :: "cache_truth_options \<Rightarrow> cache_resource \<Rightarrow> int list \<Rightarrow> unit io" where
  "reconcile_owners opt resource owners = andThen (reconcile_each opt resource [] owners) throw_joined"

definition set_friend_cache :: "cache_truth_options \<Rightarrow> int \<Rightarrow> int \<Rightarrow> unit io" where
  "set_friend_cache opt a b = reconcile_owners opt Friends [a, b]"

definition delete_friend_cache :: "cache_truth_options \<Rightarrow> int \<Rightarrow> int \<Rightarrow> unit io" where
  "delete_friend_cache opt a b = reconcile_owners opt Friends [a, b]"

definition set_blacklist_member :: "cache_truth_options \<Rightarrow> int \<Rightarrow> int \<Rightarrow> unit io" where
  "set_blacklist_member opt owner b = reconcile_now opt Blacklist owner"

definition delete_blacklist_member :: "cache_truth_options \<Rightarrow> int \<Rightarrow> int \<Rightarrow> unit io" where
  "delete_blacklist_member opt owner b = reconcile_now opt Blacklist owner"

subsection \<open>Loading on demand\<close>

definition is_loaded :: "cache_resource \<Rightarrow> int \<Rightarrow> bool io" where
  "is_loaded resource rid = (case resource of
      Friends \<Rightarrow> on_error (redis_error ''read loaded marker'' resource rid) (friends_loaded rid)
    | Blacklist \<Rightarrow> on_error (redis_error ''read loaded marker'' resource rid) (blacklist_loaded rid)
    | GroupMembers \<Rightarrow> on_error (redis_error ''read loaded marker'' resource rid) (group_members_loaded rid)
    | OtherResource _ \<Rightarrow> throw (PlainErr ''unknown cache resource''))"

definition load_if_still_missing :: "cache_resource \<Rightarrow> int \<Rightarrow> unit io" where
  "load_if_still_missing resource rid = andThen (is_loaded resource rid) (\<lambda>loaded.
     if loaded then ret () else reconcile_current resource rid)"

definition ensure_loaded :: "cache_truth_options \<Rightarrow> cache_resource \<Rightarrow> int \<Rightarrow> unit io" where
  "ensure_loaded opt resource rid = andThen (is_loaded resource rid) (\<lambda>loaded.
     if loaded then ret ()
     else with_resource_lock opt resource rid ''wait for cache warm-up'' (load_if_still_missing resource rid))"

definition ensure_private_access :: "cache_truth_options \<Rightarrow> int \<Rightarrow> int \<Rightarrow> unit io" where
  "ensure_private_access opt sender receiver =
     (if sender \<le> 0 \<or> receiver \<le> 0 then throw (PlainErr ''ensure private access: user IDs must be positive'')
      else for_each (\<lambda>owner. andThen (ensure_loaded opt Friends owner) (\<lambda>_. ensure_loaded opt Blacklist owner))
             [sender, receiver])"

definition ensure_group_access :: "cache_truth_options \<Rightarrow> int \<Rightarrow> unit io" where
  "ensure_group_access opt gid =
     (if gid \<le> 0 then throw (PlainErr ''ensure group access: group ID must be positive'')
      else andThen (on_error (mysql_error ''check group tombstone'' GroupMembers gid) (is_group_tombstoned gid)) (\<lambda>dead.
        if dead then throw (Sentinel ErrGroupDissolved)
        else andThen (is_loaded GroupMembers gid) (\<lambda>loaded.
          if loaded then ret ()
          else andThen (on_error (mysql_error ''check cold group existence'' GroupMembers gid) (group_exists_for_cache gid)) (\<lambda>exists.
            if \<not> exists then throw (Sentinel ErrGroupDoesNotExist)
            else with_resource_lock opt GroupMembers gid ''wait for cache warm-up'' (load_if_still_missing GroupMembers gid)))))"

subsection \<open>All owners\<close>

text \<open>
  \<open>forEachUser\<close> and \<open>forEachGroup\<close> are the same loop over a listing; what the visits accumulate is
  passed along. The loop stops at an empty page and after a page shorter than \<open>pageSize\<close>.
  \<open>fuel\<close> bounds the pages.
\<close>

fun fold_each :: "('r \<Rightarrow> int \<Rightarrow> 'r io) \<Rightarrow> int list \<Rightarrow> 'r \<Rightarrow> 'r io" where
  "fold_each visit [] r = ret r"
| "fold_each visit (x # xs) r = andThen (visit r x) (fold_each visit xs)"

fun for_each_owner ::
  "nat \<Rightarrow> (int \<Rightarrow> int \<Rightarrow> int list io) \<Rightarrow> string \<Rightarrow> int \<Rightarrow> int \<Rightarrow> ('r \<Rightarrow> int \<Rightarrow> 'r io) \<Rightarrow> 'r \<Rightarrow> 'r io" where
  "for_each_owner 0 listing what page_size after_id visit r = throw (PlainErr ''owner loop out of fuel'')"
| "for_each_owner (Suc fuel) listing what page_size after_id visit r =
     andThen (on_error (WrapErr what) (listing after_id page_size)) (\<lambda>ids.
     if ids = [] then ret r
     else andThen (fold_each visit ids r) (\<lambda>r'.
          if int (length ids) < page_size then ret r'
          else for_each_owner fuel listing what page_size (last ids) visit r'))"

definition owner_fuel :: "db \<Rightarrow> nat" where
  "owner_fuel d = length (users d) + length (groups d) + length (group_tombstones d) + 1"

definition for_each_user :: "cache_truth_options \<Rightarrow> ('r \<Rightarrow> int \<Rightarrow> 'r io) \<Rightarrow> 'r \<Rightarrow> 'r io" where
  "for_each_user opt visit r w = for_each_owner (owner_fuel (w_db w)) list_user_ids
     ''list users for cache operation'' (co_page_size opt) 0 visit r w"

definition for_each_group :: "cache_truth_options \<Rightarrow> ('r \<Rightarrow> int \<Rightarrow> 'r io) \<Rightarrow> 'r \<Rightarrow> 'r io" where
  "for_each_group opt visit r w = for_each_owner (owner_fuel (w_db w)) list_group_ids
     ''list groups for cache operation'' (co_page_size opt) 0 visit r w"

definition reconcile_for_bulk :: "cache_truth_options \<Rightarrow> bool \<Rightarrow> cache_resource \<Rightarrow> int \<Rightarrow> unit io" where
  "reconcile_for_bulk opt strict resource rid =
     (if \<not> strict then reconcile_now opt resource rid
      else with_resource_lock opt resource rid ''wait for strict cache rebuild''
        (andThen (on_error (redis_error ''prepare strict rebuild'' resource rid)
            (invalidate_projection_markers resource rid)) (\<lambda>_. reconcile_current resource rid)))"

record rebuild_report =
  rr_users :: int
  rr_groups :: int
  rr_resources :: int

definition covers_friends :: "cache_scope \<Rightarrow> bool" where
  "covers_friends scope = (scope = ScopeFriends \<or> scope = ScopeAll)"

definition covers_blacklists :: "cache_scope \<Rightarrow> bool" where
  "covers_blacklists scope = (scope = ScopeBlacklists \<or> scope = ScopeAll)"

definition covers_groups :: "cache_scope \<Rightarrow> bool" where
  "covers_groups scope = (scope = ScopeGroups \<or> scope = ScopeAll)"

text \<open>A resource that the scope covers is reconciled and counted.\<close>

definition rebuild_resource ::
  "cache_truth_options \<Rightarrow> bool \<Rightarrow> bool \<Rightarrow> cache_resource \<Rightarrow> int \<Rightarrow> rebuild_report \<Rightarrow> rebuild_report io" where
  "rebuild_resource opt strict covered resource rid report =
     (if covered then andThen (reconcile_for_bulk opt strict resource rid) (\<lambda>_.
         ret (report\<lparr>rr_resources := rr_resources report + 1\<rparr>))
      else ret report)"

definition rebuild :: "cache_truth_options \<Rightarrow> cache_scope \<Rightarrow> bool \<Rightarrow> rebuild_report io" where
  "rebuild opt scope strict =
     (if \<not> scope_valid scope then throw (PlainErr ''invalid cache rebuild scope'')
      else andThen (if covers_friends scope \<or> covers_blacklists scope
          then for_each_user opt (\<lambda>report uid.
             andThen (rebuild_resource opt strict (covers_friends scope) Friends uid
                 (report\<lparr>rr_users := rr_users report + 1\<rparr>)) (\<lambda>report1.
             rebuild_resource opt strict (covers_blacklists scope) Blacklist uid report1))
             \<lparr>rr_users = 0, rr_groups = 0, rr_resources = 0\<rparr>
          else ret \<lparr>rr_users = 0, rr_groups = 0, rr_resources = 0\<rparr>) (\<lambda>report.
        if covers_groups scope
        then for_each_group opt (\<lambda>r gid. rebuild_resource opt strict True GroupMembers gid
               (r\<lparr>rr_groups := rr_groups r + 1\<rparr>)) report
        else ret report))"

definition warm_all :: "cache_truth_options \<Rightarrow> cache_scope \<Rightarrow> rebuild_report io" where
  "warm_all opt scope = rebuild opt scope False"

definition rebuild_all :: "cache_truth_options \<Rightarrow> cache_scope \<Rightarrow> rebuild_report io" where
  "rebuild_all opt scope = rebuild opt scope True"

subsection \<open>Auditing\<close>

record audit_issue =
  is_resource :: cache_resource
  is_owner :: int
  is_reasons :: "string list"
  is_mysql_ids :: "int list"
  is_redis_ids :: "int list"
  is_missing_set :: "int list"
  is_missing_info :: "int list"
  is_missing_reverse :: "int list"
  is_unexpected_reverse :: "int list"

definition canonical_ids :: "int list \<Rightarrow> int list" where
  "canonical_ids ids = sorted_unique_positive ids"

text \<open>\<open>sameIDs\<close>: equal lengths, then element by element.\<close>

definition same_ids :: "int list \<Rightarrow> int list \<Rightarrow> bool" where
  "same_ids left right = (length left = length right \<and> list_all (\<lambda>(a, b). a = b) (zip left right))"

definition group_member_ids :: "group_member list \<Rightarrow> int list" where
  "group_member_ids members = canonical_ids (map gm_user members)"

definition same_optional_time :: "int option \<Rightarrow> int option \<Rightarrow> bool" where
  "same_optional_time left right =
     (if left = None \<or> right = None then left = None \<and> right = None else the left = the right)"

lemma same_ids_iff [simp]: "same_ids left right \<longleftrightarrow> left = right"
  by (auto simp: same_ids_def list_eq_iff_nth_eq list_all_length)

lemma same_optional_time_iff [simp]: "same_optional_time left right \<longleftrightarrow> left = right"
  by (auto simp: same_optional_time_def)

definition audit_relationship :: "cache_resource \<Rightarrow> int \<Rightarrow> audit_issue option io" where
  "audit_relationship resource owner =
     on_error (WrapErr ''audit'')
      (andThen (if resource = Friends then list_friend_ids_for_cache owner else list_blocked_ids_for_cache owner) (\<lambda>truth.
       andThen (if resource = Friends then read_friend_snapshot owner else read_blacklist_snapshot owner) (\<lambda>snapshot.
       let mysql_ids = canonical_ids truth; redis_ids = canonical_ids (rs_ids snapshot);
           reasons = (if rs_loaded snapshot then [] else [''loaded marker missing'']) @
                     (if same_ids mysql_ids redis_ids then [] else [''member IDs differ''])
       in ret (if reasons = [] then None else Some \<lparr>is_resource = resource, is_owner = owner, is_reasons = reasons,
            is_mysql_ids = mysql_ids, is_redis_ids = redis_ids, is_missing_set = [], is_missing_info = [],
            is_missing_reverse = [], is_unexpected_reverse = []\<rparr>))))"

text \<open>\<open>sameGroupMemberDetails\<close>: maps by user, the last row of a user wins.\<close>

definition details_by_id :: "(int \<times> int \<times> int option) list \<Rightarrow> int \<rightharpoonup> int \<times> int option" where
  "details_by_id ms = map_of (rev ms)"

definition same_group_member_details :: "(int \<times> int \<times> int option) list \<Rightarrow> (int \<times> int \<times> int option) list \<Rightarrow> bool" where
  "same_group_member_details left right =
     (length (remdups (map fst left)) = length (remdups (map fst right)) \<and>
      list_all (\<lambda>u. case (details_by_id left u, details_by_id right u) of
          (Some (role, muted), Some (role', muted')) \<Rightarrow> role' = role \<and> same_optional_time muted' muted
        | _ \<Rightarrow> False) (map fst left))"

definition member_details :: "group_member \<Rightarrow> int \<times> int \<times> int option" where
  "member_details m = (gm_user m, gm_role m, gm_muted_until m)"

definition audit_group :: "int \<Rightarrow> audit_issue option io" where
  "audit_group gid =
     andThen (on_error (WrapErr ''audit group_members mysql'') (list_group_members_for_cache gid)) (\<lambda>mysql_members.
     andThen (on_error (WrapErr ''audit group_members redis'') (read_group_member_snapshot gid)) (\<lambda>snapshot.
     let mysql_ids = group_member_ids mysql_members;
         redis_ids = canonical_ids (map fst (ss_members snapshot));
         reasons = (if ss_loaded snapshot then [] else [''loaded marker missing'']) @
                   (if \<not> same_ids mysql_ids redis_ids then [''member IDs differ'']
                    else if \<not> same_group_member_details (map member_details mysql_members) (ss_members snapshot)
                    then [''role or mute metadata differs''] else []) @
                   (if ss_missing_set snapshot = [] then [] else [''group_members Set entry missing'']) @
                   (if ss_missing_info snapshot = [] then [] else [''group_member_info Hash entry missing'']) @
                   (if ss_missing_reverse snapshot = [] then [] else [''user_groups reverse membership missing'']) @
                   (if ss_unexpected_reverse snapshot = [] then [] else [''user_groups contains non-member''])
     in ret (if reasons = [] then None else Some \<lparr>is_resource = GroupMembers, is_owner = gid, is_reasons = reasons,
          is_mysql_ids = mysql_ids, is_redis_ids = redis_ids,
          is_missing_set = canonical_ids (ss_missing_set snapshot),
          is_missing_info = canonical_ids (ss_missing_info snapshot),
          is_missing_reverse = canonical_ids (ss_missing_reverse snapshot),
          is_unexpected_reverse = canonical_ids (ss_unexpected_reverse snapshot)\<rparr>)))"

record audit_report =
  ad_checked :: int
  ad_mismatches :: int
  ad_issues :: "audit_issue list"

definition add_issue :: "audit_report \<Rightarrow> audit_issue option \<Rightarrow> audit_report" where
  "add_issue report issue = (case issue of
      None \<Rightarrow> report\<lparr>ad_checked := ad_checked report + 1\<rparr>
    | Some i \<Rightarrow> report\<lparr>ad_checked := ad_checked report + 1, ad_mismatches := ad_mismatches report + 1,
                      ad_issues := ad_issues report @ [i]\<rparr>)"

definition audit_one :: "bool \<Rightarrow> audit_issue option io \<Rightarrow> audit_report \<Rightarrow> audit_report io" where
  "audit_one covered check report =
     (if covered then andThen check (\<lambda>issue. ret (add_issue report issue)) else ret report)"

definition audit :: "cache_truth_options \<Rightarrow> cache_scope \<Rightarrow> audit_report io" where
  "audit opt scope =
     (if \<not> scope_valid scope then throw (PlainErr ''invalid cache audit scope'')
      else andThen (if covers_friends scope \<or> covers_blacklists scope
          then for_each_user opt (\<lambda>report uid.
             andThen (audit_one (covers_friends scope) (audit_relationship Friends uid) report)
               (audit_one (covers_blacklists scope) (audit_relationship Blacklist uid)))
             \<lparr>ad_checked = 0, ad_mismatches = 0, ad_issues = []\<rparr>
          else ret \<lparr>ad_checked = 0, ad_mismatches = 0, ad_issues = []\<rparr>) (\<lambda>report.
        if covers_groups scope then for_each_group opt (\<lambda>r gid. audit_one True (audit_group gid) r) report
        else ret report))"

end
