(* ===== verification/Reconciler.thy ===== *)
theory Reconciler
  imports CacheTruth "HOL-Library.Signed_Division"
begin

text \<open>
  The worker of \<open>service/cache_truth.go\<close> that drains the queue: \<open>RunOnce\<close> claims a batch, reconciles
  each event's owner, and marks the event done or reschedules it with an exponential delay.
  Durations of the delay are \<open>time.Duration\<close>, signed 64-bit nanoseconds.
\<close>

record reconciler =
  rw_worker :: string
  rw_batch :: int
  rw_lease :: int
  rw_retry_base :: int64
  rw_max_backoff :: int64
  rw_idle_delay :: int

definition new_cache_reconciler :: "string \<Rightarrow> int \<Rightarrow> int \<Rightarrow> int64 \<Rightarrow> int64 \<Rightarrow> int \<Rightarrow> reconciler" where
  "new_cache_reconciler worker_id batch lease retry_base max_backoff idle = \<lparr>rw_worker = worker_id,
     rw_batch = (if batch \<le> 0 then 100 else batch),
     rw_lease = (if lease \<le> 0 then 30 * second else lease),
     rw_retry_base = (if sint retry_base \<le> 0 then word_of_int second else retry_base),
     rw_max_backoff = (if sint max_backoff \<le> 0 then word_of_int (300 * second) else max_backoff),
     rw_idle_delay = (if idle \<le> 0 then second else idle)\<rparr>"

text \<open>The loop of \<open>retryDelay\<close>: the first argument counts the iterations left.\<close>

definition capped :: "int64 \<Rightarrow> int64 \<Rightarrow> int64" where
  "capped max_backoff delay = (if sint delay > sint max_backoff then max_backoff else delay)"

fun retry_loop :: "nat \<Rightarrow> int64 \<Rightarrow> int64 \<Rightarrow> int64" where
  "retry_loop 0 max_backoff delay = capped max_backoff delay"
| "retry_loop (Suc n) max_backoff delay =
     (if \<not> sint delay < sint max_backoff then capped max_backoff delay
      else if sint delay > sint max_backoff sdiv 2 then max_backoff
      else retry_loop n max_backoff (delay * 2))"

definition retry_delay :: "reconciler \<Rightarrow> int \<Rightarrow> int64" where
  "retry_delay r attempts = retry_loop (nat ((if attempts < 1 then 1 else attempts) - 1)) (rw_max_backoff r) (rw_retry_base r)"

text \<open>One event; the result is the failure to report, if any. \<open>render\<close> is \<open>Error()\<close> of an error.\<close>

definition run_event ::
  "(go_error \<Rightarrow> string) \<Rightarrow> cache_truth_options \<Rightarrow> reconciler \<Rightarrow> cache_event \<Rightarrow> go_error option io" where
  "run_event render opt r e =
     andThen (attempt (reconcile_now opt (ce_resource e) (ce_resource_id e))) (\<lambda>outcome. case outcome of
       Inr _ \<Rightarrow>
         andThen (attempt (mark_cache_reconcile_success (ce_id e) (ce_lock_token e))) (\<lambda>m.
         ret (case m of Inl err \<Rightarrow> Some (WrapErr ''finish cache event'' err) | Inr _ \<Rightarrow> None))
     | Inl cause \<Rightarrow>
         andThen (attempt (mark_cache_reconcile_failure (ce_id e) (ce_lock_token e) (Some (render cause))
             (sint (retry_delay r (ce_attempts e))))) (\<lambda>m.
         ret (Some (case m of
             Inl err \<Rightarrow> JoinErr [cause, WrapErr ''reschedule cache event'' err]
           | Inr _ \<Rightarrow> WrapErr ''reconcile cache event'' cause))))"

fun run_events ::
  "(go_error \<Rightarrow> string) \<Rightarrow> cache_truth_options \<Rightarrow> reconciler \<Rightarrow> cache_event list \<Rightarrow> go_error option list io" where
  "run_events render opt r [] = ret []"
| "run_events render opt r (e # es) =
     andThen (run_event render opt r e) (\<lambda>f. andThen (run_events render opt r es) (\<lambda>fs. ret (f # fs)))"

text \<open>The number of events and the joined failures.\<close>

definition run_once ::
  "(go_error \<Rightarrow> string) \<Rightarrow> cache_truth_options \<Rightarrow> reconciler \<Rightarrow> (int \<times> go_error option) io" where
  "run_once render opt r =
     andThen (on_error (WrapErr ''claim cache reconciliation events'')
         (claim_cache_reconcile_events (rw_worker r) (rw_batch r) (rw_lease r))) (\<lambda>events.
     andThen (run_events render opt r events) (\<lambda>fs.
     ret (int (length events), join_errs fs)))"

text \<open>
  \<open>Run\<close>: rounds until the context is cancelled, with a pause after an idle one. The first argument
  is the number of whole rounds before the cancellation; \<open>observe\<close> is \<open>onError\<close>.
\<close>

definition observe_failure :: "(go_error \<Rightarrow> unit io) option \<Rightarrow> go_error option \<Rightarrow> unit io" where
  "observe_failure observe failure = (case (observe, failure) of
      (Some f, Some e) \<Rightarrow> f e
    | _ \<Rightarrow> ret ())"

definition run_round ::
  "(go_error \<Rightarrow> string) \<Rightarrow> cache_truth_options \<Rightarrow> (go_error \<Rightarrow> unit io) option \<Rightarrow> reconciler \<Rightarrow> int io" where
  "run_round render opt observe r =
     andThen (attempt (run_once render opt r)) (\<lambda>q.
     let processed = (case q of Inl _ \<Rightarrow> 0 | Inr (n, _) \<Rightarrow> n);
         failure = (case q of Inl e \<Rightarrow> Some e | Inr (_, f) \<Rightarrow> f)
     in andThen (observe_failure observe failure) (\<lambda>_. ret processed))"

fun reconciler_run ::
  "nat \<Rightarrow> (go_error \<Rightarrow> string) \<Rightarrow> cache_truth_options \<Rightarrow> (go_error \<Rightarrow> unit io) option \<Rightarrow> reconciler \<Rightarrow> unit io" where
  "reconciler_run 0 render opt observe r = andThen (run_round render opt observe r) (\<lambda>_. throw (Sentinel ContextCanceled))"
| "reconciler_run (Suc n) render opt observe r = andThen (run_round render opt observe r) (\<lambda>processed.
     andThen (if processed > 0 then ret () else sleep (rw_idle_delay r)) (\<lambda>_.
     reconciler_run n render opt observe r))"

subsection \<open>The delay\<close>

lemma capped_min: "sint (capped m d) = min (sint m) (sint d)"
  by (simp add: capped_def)

lemma sdiv_2: "0 < (k :: int) \<Longrightarrow> k sdiv 2 = k div 2"
  by (simp add: signed_divide_int_def)

text \<open>While the loop runs, doubling stays below the maximum, hence below 2^63.\<close>

lemma double_below:
  fixes m d :: int64
  assumes "0 < sint m" "0 < sint d" "\<not> sint d > sint m sdiv 2"
  shows "sint (d * 2 :: int64) = sint d * 2" "sint d * 2 \<le> sint m"
proof -
  have le: "sint d * 2 \<le> sint m" using assms by (simp add: sdiv_2)
  then have "sint d * sint (2 :: int64) < 2 ^ 63" using sint64_range(2) [of m] by simp
  then show "sint (d * 2) = sint d * 2" using sint64_mult [of d 2] assms(2) by simp
  show "sint d * 2 \<le> sint m" by (rule le)
qed

lemma retry_loop_value:
  assumes "0 < sint m" "0 < sint d"
  shows "sint (retry_loop n m d) = min (sint m) (sint d * 2 ^ n)"
  using assms
proof (induction n arbitrary: d)
  case 0
  then show ?case by (simp add: capped_min)
next
  case (Suc n)
  have pow: "sint d * 2 ^ Suc n \<ge> sint d" "sint d * 2 ^ Suc n \<ge> sint d * 2"
    using Suc.prems(2) mult_left_mono [of 1 "2 ^ Suc n" "sint d"] mult_left_mono [of 2 "2 ^ Suc n" "sint d"]
    by (simp_all only: mult_1_right one_le_power) (simp_all add: order_less_imp_le)
  show ?case
  proof (cases "sint d < sint m")
    case False
    then show ?thesis using pow(1) by (simp add: capped_min min_def)
  next
    case True
    show ?thesis
    proof (cases "sint d > sint m sdiv 2")
      case True
      then have "sint m \<le> sint d * 2" using Suc.prems(1) by (simp add: sdiv_2)
      then have "sint m \<le> sint d * 2 ^ Suc n" using pow(2) by (rule order_trans)
      then have "min (sint m) (sint d * 2 ^ Suc n) = sint m" by (rule min_absorb1)
      then show ?thesis using True \<open>sint d < sint m\<close> by simp
    next
      case False
      note dbl = double_below [OF Suc.prems False]
      have "sint (retry_loop n m (d * 2)) = min (sint m) (sint (d * 2) * 2 ^ n)"
        using Suc.IH [of "d * 2"] Suc.prems dbl by simp
      then show ?thesis using True False dbl(1) by (simp add: mult.assoc)
    qed
  qed
qed

text \<open>
  C17. The retry delay of the reconciler is exactly the exponential backoff capped at the maximum,
  computed without overflow of the 64-bit duration for every number of attempts.
\<close>

theorem retry_delay_exact:
  assumes "0 < sint (rw_retry_base r)" "0 < sint (rw_max_backoff r)"
  shows "sint (retry_delay r attempts) =
    min (sint (rw_max_backoff r)) (sint (rw_retry_base r) * 2 ^ nat (max attempts 1 - 1))"
proof -
  have "nat ((if attempts < 1 then 1 else attempts) - 1) = nat (max attempts 1 - 1)" by simp
  then show ?thesis unfolding retry_delay_def using retry_loop_value [OF assms(2,1)] by simp
qed

definition demo_reconciler :: reconciler where
  "demo_reconciler = new_cache_reconciler ''w1'' 0 0 0 0 0"

lemma demo_reconciler_fields:
  "sint (rw_retry_base demo_reconciler) = 1000000000" "sint (rw_max_backoff demo_reconciler) = 300000000000"
  by (simp_all add: demo_reconciler_def new_cache_reconciler_def second_def)

theorem retry_delay_exact_witness:
  "sint (retry_delay demo_reconciler 100) = 300000000000 \<and> sint (retry_delay demo_reconciler 4) = 8000000000"
  using retry_delay_exact [of demo_reconciler 100] retry_delay_exact [of demo_reconciler 4]
  by (simp add: demo_reconciler_fields)

end
