(* ===== verification/CacheInv.thy ===== *)
theory CacheInv
  imports Reconciler
begin

subsection \<open>Well-formed projections\<close>

text \<open>The representation: sets and hashes have no duplicate entries.\<close>

definition rep_ok :: "rel_cache \<Rightarrow> bool" where
  "rep_ok c \<longleftrightarrow> distinct (rc_friend c) \<and> distinct (rc_friend_index c) \<and> distinct (rc_blacklist c) \<and>
     distinct (rc_group_members c) \<and> distinct (rc_user_groups c) \<and> distinct (rc_reverse_index c) \<and>
     distinct (map fst (rc_group_info c))"

text \<open>What the owner indexes promise: with the index marker set, the index covers the keys.\<close>

definition index_covers :: "cache_resource \<Rightarrow> int \<Rightarrow> rel_cache \<Rightarrow> bool" where
  "index_covers resource rid c = (case resource of
      Friends \<Rightarrow> rid \<in> set (rc_friend_index_loaded c) \<longrightarrow>
        set (pairs_of rid (rc_friend c)) \<subseteq> set (pairs_of rid (rc_friend_index c))
    | GroupMembers \<Rightarrow> rid \<in> set (rc_reverse_loaded c) \<longrightarrow>
        {u. (u, rid) \<in> set (rc_user_groups c)} \<subseteq>
          set (pairs_of rid (rc_reverse_index c)) \<union> set (pairs_of rid (rc_group_members c))
    | _ \<Rightarrow> True)"

definition cache_ok :: "rel_cache \<Rightarrow> bool" where
  "cache_ok c \<longleftrightarrow> rep_ok c \<and> (\<forall>resource rid. index_covers resource rid c)"

lemma distinct_drop_owner [simp]: "distinct ps \<Longrightarrow> distinct (drop_owner owner ps)"
  by (simp add: drop_owner_def)

lemma distinct_drop_pairs [simp]: "distinct ps \<Longrightarrow> distinct (drop_pairs owner xs ps)"
  by (simp add: drop_pairs_def)

lemma distinct_drop_reverse [simp]: "distinct ps \<Longrightarrow> distinct (drop_reverse xs y ps)"
  by (simp add: drop_reverse_def)

lemma distinct_add_pairs [simp]: "distinct ps \<Longrightarrow> distinct (add_pairs owner xs ps)"
  by (simp add: add_pairs_def)

lemma distinct_add_reverse [simp]: "distinct ps \<Longrightarrow> distinct (add_reverse xs y ps)"
  by (simp add: add_reverse_def)

lemma distinct_infos:
  assumes "distinct (map fst es)" "distinct (map fst ds)"
  shows "distinct (map fst (filter (\<lambda>e. fst (fst e) \<noteq> gid) es @ map (\<lambda>(u, i). ((gid, u), i)) ds))"
proof -
  have 1: "distinct (map fst (filter (\<lambda>e. fst (fst e) \<noteq> gid) es))" using assms(1) by (rule distinct_map_filter)
  have 2: "map fst (map (\<lambda>(u, i). ((gid, u), i)) ds) = map (Pair gid) (map fst ds)" by auto
  have 3: "distinct (map (Pair gid) (map fst ds))"
    using assms(2) by (simp only: distinct_map [of "Pair gid"]) (simp add: inj_on_def)
  have 4: "fst ` {x \<in> set es. fst (fst x) \<noteq> gid} \<inter> set (map (Pair gid) (map fst ds)) = {}" by auto
  show ?thesis using 1 3 4 unfolding map_append distinct_append 2 by simp
qed

lemma rep_ok_friend: "rep_ok c \<Longrightarrow> rep_ok (replace_friend_lua owner legacy desired c)"
  by (simp add: rep_ok_def replace_friend_lua_def Let_def)

lemma rep_ok_blacklist: "rep_ok c \<Longrightarrow> rep_ok (replace_blacklist_tx owner desired c)"
  by (simp add: rep_ok_def replace_blacklist_tx_def)

lemma rep_ok_group:
  "rep_ok c \<Longrightarrow> distinct (map fst desired) \<Longrightarrow> rep_ok (replace_group_lua gid legacy desired c)"
  using distinct_infos [of "rc_group_info c" desired gid]
  by (simp add: rep_ok_def replace_group_lua_def Let_def del: map_append)

lemma cover_friend: "index_covers r rid c \<Longrightarrow> index_covers Friends owner c \<Longrightarrow> set (pairs_of owner (rc_friend c)) \<subseteq> set legacy \<or> owner \<in> set (rc_friend_index_loaded c) \<Longrightarrow>
   index_covers r rid (replace_friend_lua owner legacy desired c)"
  by (cases r) (auto simp: index_covers_def replace_friend_lua_def Let_def)

lemma cover_blacklist: "index_covers r rid c \<Longrightarrow> index_covers r rid (replace_blacklist_tx owner desired c)"
  by (cases r) (auto simp: index_covers_def replace_blacklist_tx_def)

lemma cover_group:
  assumes "index_covers r rid c" "index_covers GroupMembers gid c"
    "{u. (u, gid) \<in> set (rc_user_groups c)} \<subseteq> set legacy \<or> gid \<in> set (rc_reverse_loaded c)"
  shows "index_covers r rid (replace_group_lua gid legacy desired c)"
proof (cases r)
  case GroupMembers
  show ?thesis
  proof (cases "rid = gid")
    case True
    then show ?thesis using assms(2,3) GroupMembers
      by (auto simp: index_covers_def replace_group_lua_def Let_def)
  next
    case False
    then show ?thesis using assms(1) GroupMembers
      by (auto simp: index_covers_def replace_group_lua_def Let_def)
  qed
qed (use assms(1) in \<open>auto simp: index_covers_def replace_group_lua_def Let_def\<close>)

subsection \<open>The projection of one owner\<close>

text \<open>The truth as the projection should show it.\<close>

definition true_friends :: "int \<Rightarrow> db \<Rightarrow> int set" where
  "true_friends uid d = {i. 0 < i \<and> (\<exists>f\<in>set (friendships d). fs_user f = uid \<and> fs_friend f = i)}"

definition true_blocks :: "int \<Rightarrow> db \<Rightarrow> int set" where
  "true_blocks uid d = {i. 0 < i \<and> (\<exists>b\<in>set (blacklists d). bl_user b = uid \<and> bl_blocked b = i)}"

text \<open>Role and deadline (in milliseconds) of the first row of a member, rows in order of the user ID.\<close>

definition true_members :: "int \<Rightarrow> db \<Rightarrow> int \<rightharpoonup> member_info" where
  "true_members gid d u = (if 0 < u then map_option
     (\<lambda>m. new_cached_group_member_info (gm_role m) (gm_muted_until m)) (find_member gid u d) else None)"

definition projected :: "cache_resource \<Rightarrow> int \<Rightarrow> db \<Rightarrow> rel_cache \<Rightarrow> bool" where
  "projected resource rid d c = (case resource of
      Friends \<Rightarrow> set (pairs_of rid (rc_friend c)) = true_friends rid d
    | Blacklist \<Rightarrow> set (pairs_of rid (rc_blacklist c)) = true_blocks rid d
    | GroupMembers \<Rightarrow> set (pairs_of rid (rc_group_members c)) = dom (true_members rid d) \<and>
        map_of (infos_of rid c) = true_members rid d \<and>
        {u. (u, rid) \<in> set (rc_user_groups c)} = dom (true_members rid d)
    | OtherResource _ \<Rightarrow> True)"

definition loaded :: "cache_resource \<Rightarrow> int \<Rightarrow> rel_cache \<Rightarrow> bool" where
  "loaded resource rid c = (case resource of
      Friends \<Rightarrow> rid \<in> set (rc_friend_loaded c)
    | Blacklist \<Rightarrow> rid \<in> set (rc_blacklist_loaded c)
    | GroupMembers \<Rightarrow> group_projection_loaded rid c
    | OtherResource _ \<Rightarrow> True)"

lemma friend_ids_set: "{i \<in> set (friend_ids_of uid d). 0 < i} = true_friends uid d"
  by (auto simp: friend_ids_of_def true_friends_def)

lemma blocked_ids_set: "{i \<in> set (blocked_ids_of uid d). 0 < i} = true_blocks uid d"
  by (auto simp: blocked_ids_of_def true_blocks_def)

lemma friend_projected:
  assumes "index_covers Friends owner c"
    "set (pairs_of owner (rc_friend c)) \<subseteq> set legacy \<or> owner \<in> set (rc_friend_index_loaded c)"
    "set desired = true_friends owner d"
  shows "projected Friends owner d (replace_friend_lua owner legacy desired c)"
    "loaded Friends owner (replace_friend_lua owner legacy desired c)"
  using assms by (auto simp: projected_def loaded_def index_covers_def replace_friend_lua_def Let_def)

lemma blacklist_projected:
  assumes "set desired = true_blocks owner d"
  shows "projected Blacklist owner d (replace_blacklist_tx owner desired c)"
    "loaded Blacklist owner (replace_blacklist_tx owner desired c)"
  using assms by (auto simp: projected_def loaded_def replace_blacklist_tx_def)

lemma infos_of_replace:
  "infos_of gid (replace_group_lua gid legacy desired c) = desired"
proof -
  have "filter (\<lambda>e. fst (fst e) = gid) (filter (\<lambda>e. fst (fst e) \<noteq> gid) es) = []" for es :: "((int \<times> int) \<times> member_info) list"
    by (simp add: filter_empty_conv)
  moreover have "map (\<lambda>e. (snd (fst e), snd e)) (filter (\<lambda>e. fst (fst e) = gid) (map (\<lambda>(u, i). ((gid, u), i)) ds)) = ds" for ds :: "(int \<times> member_info) list"
    by (induction ds) auto
  ultimately show ?thesis by (simp add: infos_of_def replace_group_lua_def Let_def)
qed

lemma length_info: "length (filter (\<lambda>e. fst (fst e) = gid) (rc_group_info c)) = length (infos_of gid c)"
  by (simp add: infos_of_def)

lemma distinct_pairs_of: "distinct ps \<Longrightarrow> distinct (pairs_of owner ps)"
  unfolding pairs_of_def distinct_map by (auto simp: inj_on_def prod_eq_iff)

lemma group_loaded_replace:
  assumes "rep_ok c" "distinct (map fst desired)"
  shows "group_projection_loaded gid (replace_group_lua gid legacy desired c)"
proof -
  let ?c = "replace_group_lua gid legacy desired c"
  have "distinct (pairs_of gid (rc_group_members ?c))"
    using rep_ok_group [OF assms, of gid legacy] by (simp add: rep_ok_def distinct_pairs_of)
  moreover have "set (pairs_of gid (rc_group_members ?c)) = set (map fst desired)"
    by (auto simp: replace_group_lua_def Let_def)
  ultimately have "length (pairs_of gid (rc_group_members ?c)) = length (map fst desired)"
    using assms(2) by (metis distinct_card)
  moreover have "rc_group_loaded ?c gid = Some (int (length desired))"
    by (simp add: replace_group_lua_def Let_def)
  ultimately show ?thesis by (simp add: group_projection_loaded_def length_info infos_of_replace)
qed

lemma group_projected:
  assumes "rep_ok c" "index_covers GroupMembers gid c"
    "{u. (u, gid) \<in> set (rc_user_groups c)} \<subseteq> set legacy \<or> gid \<in> set (rc_reverse_loaded c)"
    "distinct (map fst desired)" "map_of desired = true_members gid d"
  shows "projected GroupMembers gid d (replace_group_lua gid legacy desired c)"
    "loaded GroupMembers gid (replace_group_lua gid legacy desired c)"
proof -
  have dom: "set (map fst desired) = dom (true_members gid d)" using assms(5) by (metis dom_map_of_conv_image_fst set_map)
  have "{u. (u, gid) \<in> set (rc_user_groups (replace_group_lua gid legacy desired c))} = set (map fst desired)"
    using assms(2,3) by (auto simp: index_covers_def replace_group_lua_def Let_def)
  moreover have "set (pairs_of gid (rc_group_members (replace_group_lua gid legacy desired c))) = set (map fst desired)"
    by (auto simp: replace_group_lua_def Let_def)
  ultimately show "projected GroupMembers gid d (replace_group_lua gid legacy desired c)"
    using dom assms(5) by (simp add: projected_def infos_of_replace del: set_pairs_of)
  show "loaded GroupMembers gid (replace_group_lua gid legacy desired c)"
    using group_loaded_replace [OF assms(1,4)] by (simp add: loaded_def)
qed

lemma map_of_first_members:
  "map_of (first_members seen ms) u = (if 0 < u \<and> u \<notin> set seen
     then map_option (\<lambda>m. new_cached_group_member_info (gm_role m) (gm_muted_until m)) (find (\<lambda>m. gm_user m = u) ms)
     else None)"
  by (induction seen ms rule: first_members.induct) auto

end
