(* ===== verification/CacheSteps.thy ===== *)
theory CacheSteps
  imports CacheInv
begin

subsection \<open>What an operation may do to the projections\<close>

text \<open>The rows the projections show.\<close>

definition same_relations :: "db \<Rightarrow> db \<Rightarrow> bool" where
  "same_relations d d' \<longleftrightarrow> friendships d' = friendships d \<and> blacklists d' = blacklists d \<and>
     group_members d' = group_members d"

text \<open>
  A step of a cache operation: the relations are left alone, a good cache stays good, a projection
  that shows the truth keeps showing it, and one that becomes loaded shows it.
\<close>

definition projections_step :: "world \<Rightarrow> world \<Rightarrow> bool" where
  "projections_step w w' \<longleftrightarrow> same_relations (w_db w) (w_db w') \<and>
     (cache_ok (w_cache w) \<longrightarrow> cache_ok (w_cache w') \<and>
       (\<forall>resource rid. (projected resource rid (w_db w) (w_cache w) \<longrightarrow> projected resource rid (w_db w) (w_cache w')) \<and>
         (loaded resource rid (w_cache w') \<longrightarrow>
            loaded resource rid (w_cache w) \<or> projected resource rid (w_db w) (w_cache w'))))"

lemma same_relations_refl [simp]: "same_relations d d"
  by (simp add: same_relations_def)

lemma same_relations_trans: "same_relations a b \<Longrightarrow> same_relations b c \<Longrightarrow> same_relations a c"
  by (simp add: same_relations_def)

lemma true_same:
  assumes "same_relations d d'"
  shows "true_friends i d' = true_friends i d" "true_blocks i d' = true_blocks i d"
    "true_members i d' = true_members i d"
  using assms by (auto simp: same_relations_def true_friends_def true_blocks_def true_members_def find_member_def)

lemma projected_same: "same_relations d d' \<Longrightarrow> projected r i d' c = projected r i d c"
  by (simp add: projected_def true_same split: cache_resource.split)

lemma projections_step_same_cache:
  "same_relations (w_db w) (w_db w') \<Longrightarrow> w_cache w' = w_cache w \<Longrightarrow> projections_step w w'"
  by (simp add: projections_step_def)

interpretation proj_frame: world_frame projections_step
proof
  fix u v w
  show "projections_step w w" "projections_step w (net_pop w)" by (simp_all add: projections_step_def)
  assume "projections_step u v" "projections_step v w"
  then show "projections_step u w"
    unfolding projections_step_def using same_relations_trans projected_same by metis
qed

lemma proj_query: "framed projections_step (query f)"
  unfolding query_def by (intro proj_frame.framed_remote) (simp add: framed_def projections_step_def)

lemma proj_read: "framed projections_step (redis_read f)"
  unfolding redis_read_def redis_def by (intro proj_frame.framed_remote) (simp add: framed_def projections_step_def)

lemma proj_exec:
  "(\<And>w d. same_relations d (f w d)) \<Longrightarrow> framed projections_step (exec f)"
  unfolding exec_def
  by (intro proj_frame.framed_on_error proj_frame.framed_remote) (simp add: framed_def projections_step_def)

lemma proj_exec_count:
  "(\<And>w d. same_relations d (snd (f w d))) \<Longrightarrow> framed projections_step (exec_count f)"
  unfolding exec_count_def
  by (intro proj_frame.framed_on_error proj_frame.framed_remote)
    (auto simp: framed_def projections_step_def split: prod.split, metis snd_conv)

lemma proj_tx:
  assumes "framed projections_step m"
  shows "framed projections_step (tx_block rep what m)"
  unfolding framed_def
proof
  fix w
  have "projections_step (net_pop w) (snd (m (net_pop w)))" using assms by (simp add: framed_def)
  then have 1: "projections_step w (snd (m (net_pop w)))"
    using proj_frame.frame_net_pop proj_frame.frame_trans by blast
  moreover have "projections_step w (v\<lparr>w_db := w_db w\<rparr>)" if "projections_step w v" for v
    using that by (simp add: projections_step_def)
  moreover have "projections_step w (net_pop v)" if "projections_step w v" for v
    using that by (simp add: projections_step_def)
  ultimately show "projections_step w (snd (tx_block rep what m w))"
    by (auto simp: tx_block_def proj_frame.frame_net_pop split: net_outcome.splits prod.splits sum.splits)
qed

text \<open>A write that the projections do not see.\<close>

lemma proj_write:
  assumes "\<And>c. rep_ok c \<Longrightarrow> rep_ok (f c)" "\<And>c r i. index_covers r i c \<Longrightarrow> index_covers r i (f c)"
    "\<And>c r i d. projected r i d (f c) = projected r i d c" "\<And>c r i. loaded r i (f c) \<Longrightarrow> loaded r i c"
  shows "framed projections_step (redis_write f)"
  unfolding redis_write_def redis_def
  by (intro proj_frame.framed_remote)
    (use assms in \<open>auto simp: framed_def projections_step_def cache_ok_def\<close>)

subsection \<open>The operations on one owner\<close>

lemma proj_markers: "framed projections_step (on_error h (redis_write (drop_markers resource rid)))"
proof (intro proj_frame.framed_on_error proj_write)
  fix c r i d
  show "rep_ok c \<Longrightarrow> rep_ok (drop_markers resource rid c)" by (cases resource) (auto simp: rep_ok_def)
  show "index_covers r i c \<Longrightarrow> index_covers r i (drop_markers resource rid c)"
    by (cases resource; cases r) (auto simp: index_covers_def)
  show "projected r i d (drop_markers resource rid c) = projected r i d c"
    by (cases resource; cases r) (auto simp: projected_def infos_of_def)
  show "loaded r i (drop_markers resource rid c) \<Longrightarrow> loaded r i c"
    by (cases resource; cases r) (auto simp: loaded_def group_projection_loaded_def split: if_splits option.splits)
qed

lemma proj_runtime: "framed projections_step (delete_disbanded_group_runtime gid)"
proof -
  have "framed projections_step (on_error h (redis_write
      (\<lambda>c. c\<lparr>rc_outbox := (rc_outbox c)(gid := []), rc_group_seq := (rc_group_seq c)(gid := None)\<rparr>)))" for h
    by (intro proj_frame.framed_on_error proj_write)
      (auto simp: rep_ok_def index_covers_def projected_def infos_of_def loaded_def group_projection_loaded_def
        split: cache_resource.splits option.splits)
  then show ?thesis by (simp add: delete_disbanded_group_runtime_def proj_frame.framed_throw)
qed

text \<open>Locks are not part of a projection.\<close>

lemma locks_unseen [simp]:
  "rep_ok (c\<lparr>rc_locks := l\<rparr>) = rep_ok c" "index_covers r i (c\<lparr>rc_locks := l\<rparr>) = index_covers r i c"
  "projected r i d (c\<lparr>rc_locks := l\<rparr>) = projected r i d c" "loaded r i (c\<lparr>rc_locks := l\<rparr>) = loaded r i c"
  by (simp_all add: rep_ok_def index_covers_def projected_def infos_of_def loaded_def group_projection_loaded_def
      split: cache_resource.split option.split)

lemma cache_ok_locks [simp]: "cache_ok (c\<lparr>rc_locks := l\<rparr>) = cache_ok c"
  by (simp add: cache_ok_def)

lemma proj_token: "framed projections_step random_cache_token"
  unfolding random_cache_token_def random_token_def
  by (intro proj_frame.framed_on_error proj_frame.framed_remote) (simp add: framed_def projections_step_def)

lemma proj_try_lock: "framed projections_step (try_cache_warm_lock resource rid ttl)"
  unfolding try_cache_warm_lock_def Let_def
  by (intro proj_frame.framed_if proj_frame.framed_throw proj_frame.framed_andThen proj_token
      proj_frame.framed_on_error proj_frame.framed_remote)
    (simp_all add: framed_def projections_step_def)

lemma proj_release: "framed projections_step (release_cache_warm_lock resource rid token)"
  unfolding release_cache_warm_lock_def
  by (intro proj_frame.framed_on_error proj_frame.framed_remote)
    (auto simp: framed_def projections_step_def release_lock_def split: option.split)

context world_frame
begin

lemma step_andThen:
  assumes "R w (snd (m w))" "\<And>x w1. m w = (Inr x, w1) \<Longrightarrow> R w1 (snd (f x w1))"
  shows "R w (snd (andThen m f w))"
proof -
  obtain r w1 where m: "m w = (r, w1)" by fastforce
  show ?thesis
  proof (cases r)
    case (Inl e)
    then show ?thesis using m assms(1) by (simp add: andThen_def)
  next
    case (Inr x)
    then have "R w1 (snd (f x w1))" using m assms(2) by blast
    then show ?thesis using m Inr assms(1) frame_trans by (simp add: andThen_def)
  qed
qed

lemma step_framed: "framed R m \<Longrightarrow> R w (snd (m w))"
  by (simp add: framed_def)

lemma step_on_error: "R w (snd (m w)) \<Longrightarrow> R w (snd (on_error h m w))"
  by (simp add: on_error_snd)

end

subsection \<open>Replacing an owner's projection\<close>

lemma replace_friend_fields [simp]:
  "rc_blacklist (replace_friend_lua owner legacy ids c) = rc_blacklist c"
  "rc_blacklist_loaded (replace_friend_lua owner legacy ids c) = rc_blacklist_loaded c"
  "rc_group_members (replace_friend_lua owner legacy ids c) = rc_group_members c"
  "rc_group_info (replace_friend_lua owner legacy ids c) = rc_group_info c"
  "rc_group_loaded (replace_friend_lua owner legacy ids c) = rc_group_loaded c"
  "rc_user_groups (replace_friend_lua owner legacy ids c) = rc_user_groups c"
  by (simp_all add: replace_friend_lua_def Let_def)

lemma replace_blacklist_fields [simp]:
  "rc_friend (replace_blacklist_tx owner ids c) = rc_friend c"
  "rc_friend_loaded (replace_blacklist_tx owner ids c) = rc_friend_loaded c"
  "rc_group_members (replace_blacklist_tx owner ids c) = rc_group_members c"
  "rc_group_info (replace_blacklist_tx owner ids c) = rc_group_info c"
  "rc_group_loaded (replace_blacklist_tx owner ids c) = rc_group_loaded c"
  "rc_user_groups (replace_blacklist_tx owner ids c) = rc_user_groups c"
  by (simp_all add: replace_blacklist_tx_def)

lemma friend_other:
  assumes "i \<noteq> owner"
  shows "(i, x) \<in> set (rc_friend (replace_friend_lua owner legacy ids c)) \<longleftrightarrow> (i, x) \<in> set (rc_friend c)"
    "i \<in> set (rc_friend_loaded (replace_friend_lua owner legacy ids c)) \<longleftrightarrow> i \<in> set (rc_friend_loaded c)"
  using assms by (auto simp: replace_friend_lua_def Let_def)

lemma others_friend:
  assumes "(r, i) \<noteq> (Friends, owner)"
  shows "projected r i d (replace_friend_lua owner legacy ids c) = projected r i d c \<and> loaded r i (replace_friend_lua owner legacy ids c) = loaded r i c"
proof (cases r)
  case Friends
  then have "i \<noteq> owner" using assms by simp
  then show ?thesis unfolding Friends projected_def loaded_def cache_resource.case set_pairs_of
    by (simp only: friend_other simp_thms)
qed (simp_all add: projected_def loaded_def infos_of_def group_projection_loaded_def split: option.split)

lemma blacklist_other:
  assumes "i \<noteq> owner"
  shows "(i, x) \<in> set (rc_blacklist (replace_blacklist_tx owner ids c)) \<longleftrightarrow> (i, x) \<in> set (rc_blacklist c)"
    "i \<in> set (rc_blacklist_loaded (replace_blacklist_tx owner ids c)) \<longleftrightarrow> i \<in> set (rc_blacklist_loaded c)"
  using assms by (auto simp: replace_blacklist_tx_def)

lemma others_blacklist:
  assumes "(r, i) \<noteq> (Blacklist, owner)"
  shows "projected r i d (replace_blacklist_tx owner ids c) = projected r i d c \<and> loaded r i (replace_blacklist_tx owner ids c) = loaded r i c"
proof (cases r)
  case Blacklist
  then have "i \<noteq> owner" using assms by simp
  then show ?thesis unfolding Blacklist projected_def loaded_def cache_resource.case set_pairs_of
    by (simp only: blacklist_other simp_thms)
qed (simp_all add: projected_def loaded_def infos_of_def group_projection_loaded_def split: option.split)

lemma infos_of_other:
  assumes "i \<noteq> gid"
  shows "infos_of i (replace_group_lua gid legacy desired c) = infos_of i c"
proof -
  have "filter (\<lambda>e. fst (fst e) = i) (filter (\<lambda>e. fst (fst e) \<noteq> gid) es) = filter (\<lambda>e. fst (fst e) = i) es"
    for es :: "((int \<times> int) \<times> member_info) list" using assms by (induction es) auto
  moreover have "filter (\<lambda>e. fst (fst e) = i) (map (\<lambda>(u, y). ((gid, u), y)) ds) = []"
    for ds :: "(int \<times> member_info) list" using assms by (induction ds) auto
  ultimately show ?thesis by (simp add: infos_of_def replace_group_lua_def Let_def)
qed

lemma members_length_other:
  assumes "rep_ok c" "distinct (map fst desired)" "i \<noteq> gid"
  shows "length (pairs_of i (rc_group_members (replace_group_lua gid legacy desired c))) =
    length (pairs_of i (rc_group_members c))"
proof -
  let ?ps = "rc_group_members (replace_group_lua gid legacy desired c)"
  have "distinct (pairs_of i ?ps)" "distinct (pairs_of i (rc_group_members c))"
    using rep_ok_group [OF assms(1,2), of gid legacy] assms(1) by (simp_all add: rep_ok_def distinct_pairs_of)
  moreover have "set (pairs_of i ?ps) = set (pairs_of i (rc_group_members c))"
    using assms(3) by (auto simp: replace_group_lua_def Let_def)
  ultimately show ?thesis by (metis distinct_card)
qed

lemma others_group:
  assumes "(r, i) \<noteq> (GroupMembers, gid)"
  shows "projected r i d (replace_group_lua gid legacy desired c) = projected r i d c"
    "rep_ok c \<Longrightarrow> distinct (map fst desired) \<Longrightarrow>
       loaded r i (replace_group_lua gid legacy desired c) = loaded r i c"
proof -
  show "projected r i d (replace_group_lua gid legacy desired c) = projected r i d c"
  proof (cases r)
    case GroupMembers
    then have i: "i \<noteq> gid" using assms by simp
    then have "{x. (i, x) \<in> set (rc_group_members (replace_group_lua gid legacy desired c))} =
        {x. (i, x) \<in> set (rc_group_members c)}"
      "{u. (u, i) \<in> set (rc_user_groups (replace_group_lua gid legacy desired c))} =
        {u. (u, i) \<in> set (rc_user_groups c)}"
      by (auto simp: replace_group_lua_def Let_def)
    then show ?thesis using GroupMembers i by (simp add: projected_def infos_of_other)
  qed (auto simp: projected_def replace_group_lua_def Let_def)
  assume c: "rep_ok c" "distinct (map fst desired)"
  show "loaded r i (replace_group_lua gid legacy desired c) = loaded r i c"
  proof (cases r)
    case GroupMembers
    then have "i \<noteq> gid" using assms by simp
    moreover from this have "rc_group_loaded (replace_group_lua gid legacy desired c) i = rc_group_loaded c i"
      by (simp add: replace_group_lua_def Let_def)
    ultimately show ?thesis using GroupMembers members_length_other [OF c]
      by (simp add: loaded_def group_projection_loaded_def length_info infos_of_other split: option.split)
  qed (auto simp: loaded_def replace_group_lua_def Let_def)
qed

text \<open>Rewriting one owner with the truth is such a step, whether or not its acknowledgement arrives.\<close>

lemma step_write:
  assumes "cache_ok (w_cache w) \<Longrightarrow> cache_ok (f (w_cache w))"
    "cache_ok (w_cache w) \<Longrightarrow> projected resource rid (w_db w) (f (w_cache w))"
    "\<And>r i. cache_ok (w_cache w) \<Longrightarrow> (r, i) \<noteq> (resource, rid) \<Longrightarrow>
       projected r i (w_db w) (f (w_cache w)) = projected r i (w_db w) (w_cache w)"
    "\<And>r i. cache_ok (w_cache w) \<Longrightarrow> (r, i) \<noteq> (resource, rid) \<Longrightarrow> loaded r i (f (w_cache w)) = loaded r i (w_cache w)"
  shows "projections_step w (snd (redis_write f w))"
proof -
  have "w_db (snd (redis_write f w)) = w_db w"
    by (auto simp: redis_write_def redis_def remote_def split: net_outcome.split)
  then show ?thesis using redis_write_cases [of f w]
  proof (elim disjE)
    assume db: "w_db (snd (redis_write f w)) = w_db w" and c: "w_cache (snd (redis_write f w)) = f (w_cache w)"
    have "(projected r i (w_db w) (w_cache w) \<longrightarrow> projected r i (w_db w) (f (w_cache w))) \<and>
        (loaded r i (f (w_cache w)) \<longrightarrow> loaded r i (w_cache w) \<or> projected r i (w_db w) (f (w_cache w)))"
      if "cache_ok (w_cache w)" for r i
      using assms(2-4) that by (cases "(r, i) = (resource, rid)") auto
    then show ?thesis using assms(1) unfolding projections_step_def db c by simp
  qed (simp add: projections_step_def)
qed

lemma cache_ok_covers: "cache_ok c \<Longrightarrow> index_covers r i c" "cache_ok c \<Longrightarrow> rep_ok c"
  by (simp_all add: cache_ok_def)

lemma positive_ids: "set (sorted_unique_positive ids) = {i \<in> set ids. 0 < i}"
  by simp

lemma step_friend_write:
  assumes "{i \<in> set ids. 0 < i} = true_friends owner (w_db w)"
    "set (pairs_of owner (rc_friend (w_cache w))) \<subseteq> set legacy \<or> owner \<in> set (rc_friend_index_loaded (w_cache w))"
  shows "projections_step w (snd (redis_write (replace_friend_lua owner legacy (sorted_unique_positive ids)) w))"
proof (rule step_write [where resource = Friends and rid = owner])
  assume ok: "cache_ok (w_cache w)"
  show "cache_ok (replace_friend_lua owner legacy (sorted_unique_positive ids) (w_cache w))"
    using ok assms(2) by (auto simp: cache_ok_def rep_ok_friend cover_friend simp del: set_pairs_of)
  show "projected Friends owner (w_db w) (replace_friend_lua owner legacy (sorted_unique_positive ids) (w_cache w))"
    using friend_projected(1) [OF cache_ok_covers(1) [OF ok] assms(2)] assms(1) by simp
qed (auto simp: others_friend)

lemma step_blacklist_write:
  assumes "{i \<in> set ids. 0 < i} = true_blocks owner (w_db w)"
  shows "projections_step w (snd (redis_write (replace_blacklist_tx owner (sorted_unique_positive ids)) w))"
proof (rule step_write [where resource = Blacklist and rid = owner])
  assume ok: "cache_ok (w_cache w)"
  show "cache_ok (replace_blacklist_tx owner (sorted_unique_positive ids) (w_cache w))"
    using ok by (simp add: cache_ok_def rep_ok_blacklist cover_blacklist)
  show "projected Blacklist owner (w_db w) (replace_blacklist_tx owner (sorted_unique_positive ids) (w_cache w))"
    using blacklist_projected(1) assms by simp
qed (auto simp: others_blacklist)

lemma step_group_write:
  assumes "distinct (map fst desired)" "map_of desired = true_members gid (w_db w)"
    "{u. (u, gid) \<in> set (rc_user_groups (w_cache w))} \<subseteq> set legacy \<or> gid \<in> set (rc_reverse_loaded (w_cache w))"
  shows "projections_step w (snd (redis_write (replace_group_lua gid legacy desired) w))"
proof (rule step_write [where resource = GroupMembers and rid = gid])
  assume ok: "cache_ok (w_cache w)"
  show "cache_ok (replace_group_lua gid legacy desired (w_cache w))"
    using ok assms(1,3) by (auto simp: cache_ok_def rep_ok_group cover_group)
  show "projected GroupMembers gid (w_db w) (replace_group_lua gid legacy desired (w_cache w))"
    using group_projected(1) [OF cache_ok_covers(2) [OF ok] cache_ok_covers(1) [OF ok] assms(3,1,2)] .
qed (erule others_group(1), erule others_group(2) [OF _ cache_ok_covers(2) assms(1)], assumption)

text \<open>The members handed to the projection are the true ones.\<close>

lemma desired_members:
  "distinct (map fst (first_members [] (cache_members_of gid d)))"
  "map_of (first_members [] (cache_members_of gid d)) = true_members gid d"
proof -
  show "distinct (map fst (first_members [] (cache_members_of gid d)))" using map_fst_first_members by blast
  have "find (\<lambda>m. gm_user m = u) (cache_members_of gid d) = find_member gid u d" for u
  proof -
    have hd: "find p xs = (case filter p xs of [] \<Rightarrow> None | y # _ \<Rightarrow> Some y)" for p and xs :: "group_member list"
      by (induction xs) auto
    have row: "member_row gid u = (\<lambda>m. gm_group m = gid \<and> gm_user m = u)" by (rule ext) (simp add: member_row_def)
    have "filter (\<lambda>m. gm_user m = u) (cache_members_of gid d) = filter (member_row gid u) (group_members d)"
      by (simp add: cache_members_of_def sort_key_stable members_of_def row)
    then show ?thesis by (simp add: hd find_member_def)
  qed
  then show "map_of (first_members [] (cache_members_of gid d)) = true_members gid d"
    by (auto simp: map_of_first_members true_members_def)
qed

lemma step_replace_friend:
  assumes "{i \<in> set ids. 0 < i} = true_friends owner (w_db w)"
  shows "projections_step w (snd (replace_friend_owner owner ids w))"
  unfolding replace_friend_owner_def
proof (intro proj_frame.step_andThen)
  show "projections_step w (snd (on_error h (on_error h' (redis_read f)) w))" for h h' and f :: "rel_cache \<Rightarrow> bool"
    by (intro proj_frame.step_framed proj_frame.framed_on_error proj_read)
next
  fix b w1
  show "projections_step w1 (snd ((if b then ret [] else on_error (WrapErr ''bootstrap friend owner index'')
      (scan_friend_suffixes owner)) w1))"
    by (intro proj_frame.step_framed proj_frame.framed_if proj_frame.framed_ret proj_frame.framed_on_error)
      (auto simp: scan_friend_suffixes_def lift_result_def
        intro!: proj_frame.framed_andThen proj_read proj_frame.framed_sum proj_frame.framed_throw proj_frame.framed_ret)
next
  fix b w1 legacy w2
  assume "on_error (WrapErr ''read friend owner index marker'') (on_error (WrapErr ''read relationship cache marker'')
      (redis_read (\<lambda>c. owner \<in> set (rc_friend_index_loaded c)))) w = (Inr b, w1)"
    and "(if b then ret [] else on_error (WrapErr ''bootstrap friend owner index'') (scan_friend_suffixes owner)) w1
      = (Inr legacy, w2)"
  then have "w_db w2 = w_db w" "w_cache w2 = w_cache w"
    "set (pairs_of owner (rc_friend (w_cache w))) \<subseteq> set legacy \<or> owner \<in> set (rc_friend_index_loaded (w_cache w))"
    by (auto simp: io_simps scan_friend_suffixes_def lift_result_def numeric_ids_def list_ex_iff split: if_splits sum.splits)
  then show "projections_step w2 (snd (on_error h (redis_write (replace_friend_lua owner legacy
      (sorted_unique_positive ids))) w2))" for h
    using assms by (intro proj_frame.step_on_error step_friend_write) simp_all
qed

lemma step_replace_blacklist:
  "{i \<in> set ids. 0 < i} = true_blocks owner (w_db w) \<Longrightarrow>
    projections_step w (snd (replace_blacklist_owner owner ids w))"
  unfolding replace_blacklist_owner_def by (intro proj_frame.step_on_error step_blacklist_write)

lemma step_replace_group:
  assumes "members = cache_members_of gid (w_db w)"
  shows "projections_step w (snd (replace_group_members_owner gid members w))"
  unfolding replace_group_members_owner_def
proof (intro proj_frame.step_andThen)
  show "projections_step w (snd (on_error h (on_error h' (redis_read f)) w))" for h h' and f :: "rel_cache \<Rightarrow> bool"
    by (intro proj_frame.step_framed proj_frame.framed_on_error proj_read)
next
  fix b w1
  show "projections_step w1 (snd ((if b then ret [] else on_error (WrapErr ''bootstrap group reverse owner index'')
      (read_reverse_group_members gid)) w1))"
    by (intro proj_frame.step_framed proj_frame.framed_if proj_frame.framed_ret proj_frame.framed_on_error)
      (auto simp: read_reverse_group_members_def
        intro!: proj_frame.framed_andThen proj_frame.framed_on_error proj_read proj_frame.framed_throw proj_frame.framed_ret)
next
  fix b w1 legacy w2
  assume "on_error (WrapErr ''read group reverse owner index marker'') (on_error (WrapErr ''read relationship cache marker'')
      (redis_read (\<lambda>c. gid \<in> set (rc_reverse_loaded c)))) w = (Inr b, w1)"
    and "(if b then ret [] else on_error (WrapErr ''bootstrap group reverse owner index'') (read_reverse_group_members gid)) w1
      = (Inr legacy, w2)"
  then have "w_db w2 = w_db w" "w_cache w2 = w_cache w"
    "{u. (u, gid) \<in> set (rc_user_groups (w_cache w))} \<subseteq> set legacy \<or> gid \<in> set (rc_reverse_loaded (w_cache w))"
    by (auto simp: io_simps read_reverse_group_members_def list_ex_iff image_iff split: if_splits)
  then show "projections_step w2 (snd (on_error h (redis_write (replace_group_lua gid legacy
      (first_members [] members))) w2))" for h
    using assms desired_members [of gid "w_db w"] by (intro proj_frame.step_on_error step_group_write) simp_all
qed

end
