(* ===== verification/CacheReconcile.thy ===== *)
theory CacheReconcile
  imports CacheSteps
begin

lemma step_reconcile_snapshot: "projections_step w (snd (reconcile_snapshot resource rid w))"
proof (cases resource)
  case Friends
  have "projections_step w (snd (andThen (on_error h (list_friend_ids_for_cache rid))
      (\<lambda>ids. on_error h' (replace_friend_owner rid ids)) w))" for h h'
  proof (rule proj_frame.step_andThen)
    show "projections_step w (snd (on_error h (list_friend_ids_for_cache rid) w))"
      unfolding list_friend_ids_for_cache_def
      by (intro proj_frame.step_framed proj_frame.framed_on_error proj_query)
  next
    fix ids w1
    assume "on_error h (list_friend_ids_for_cache rid) w = (Inr ids, w1)"
    then have "ids = friend_ids_of rid (w_db w1)" by (simp add: io_simps)
    then show "projections_step w1 (snd (on_error h' (replace_friend_owner rid ids) w1))"
      by (intro proj_frame.step_on_error step_replace_friend) (simp only: friend_ids_set)
  qed
  then show ?thesis using Friends by (simp add: reconcile_snapshot_def)
next
  case Blacklist
  have "projections_step w (snd (andThen (on_error h (list_blocked_ids_for_cache rid))
      (\<lambda>ids. on_error h' (replace_blacklist_owner rid ids)) w))" for h h'
  proof (rule proj_frame.step_andThen)
    show "projections_step w (snd (on_error h (list_blocked_ids_for_cache rid) w))"
      unfolding list_blocked_ids_for_cache_def
      by (intro proj_frame.step_framed proj_frame.framed_on_error proj_query)
  next
    fix ids w1
    assume "on_error h (list_blocked_ids_for_cache rid) w = (Inr ids, w1)"
    then have "ids = blocked_ids_of rid (w_db w1)" by (simp add: io_simps)
    then show "projections_step w1 (snd (on_error h' (replace_blacklist_owner rid ids) w1))"
      by (intro proj_frame.step_on_error step_replace_blacklist) (simp only: blocked_ids_set)
  qed
  then show ?thesis using Blacklist by (simp add: reconcile_snapshot_def)
next
  case GroupMembers
  have rest: "projections_step w1 (snd (andThen (on_error h (list_group_members_for_cache rid)) (\<lambda>members.
      andThen (on_error h' (replace_group_members_owner rid members)) (\<lambda>_.
      when_ok b (on_error h'' (delete_disbanded_group_runtime rid)))) w1))" for h h' h'' b w1
  proof (rule proj_frame.step_andThen)
    show "projections_step w1 (snd (on_error h (list_group_members_for_cache rid) w1))"
      unfolding list_group_members_for_cache_def
      by (intro proj_frame.step_framed proj_frame.framed_on_error proj_query)
  next
    fix members w2
    assume "on_error h (list_group_members_for_cache rid) w1 = (Inr members, w2)"
    then have "members = cache_members_of rid (w_db w2)" by (simp add: io_simps)
    then show "projections_step w2 (snd (andThen (on_error h' (replace_group_members_owner rid members)) (\<lambda>_.
        when_ok b (on_error h'' (delete_disbanded_group_runtime rid))) w2))"
      by (intro proj_frame.step_andThen proj_frame.step_on_error step_replace_group proj_frame.step_framed
          proj_frame.framed_when_ok proj_frame.framed_on_error proj_runtime)
  qed
  have "projections_step w (snd (on_error h (group_exists_for_cache rid) w))" for h
    unfolding group_exists_for_cache_def by (intro proj_frame.step_framed proj_frame.framed_on_error proj_query)
  then show ?thesis using GroupMembers unfolding reconcile_snapshot_def
    by (simp add: proj_frame.step_andThen rest)
next
  case (OtherResource s)
  then show ?thesis by (simp add: reconcile_snapshot_def ret_def proj_frame.frame_refl)
qed

lemma proj_lock_owner: "framed projections_step (lock_cache_owner resource rid)"
  unfolding lock_cache_owner_def
  by (intro proj_frame.framed_on_error proj_frame.framed_andThen proj_query proj_frame.framed_if proj_frame.framed_ret)

lemma proj_reconcile_current: "framed projections_step (reconcile_current resource rid)"
  unfolding reconcile_current_def
  by (intro proj_frame.framed_on_error framed_snapshot proj_frame.framed_throw proj_tx;
      unfold snapshot_body_def;
      intro proj_frame.framed_andThen proj_lock_owner; simp add: framed_def step_reconcile_snapshot)

lemma proj_sleep: "framed projections_step (sleep d)"
  by (simp add: framed_def sleep_def projections_step_def)

lemma proj_finish_locked:
  "framed projections_step operation \<Longrightarrow> framed projections_step (finish_locked resource rid token operation)"
  unfolding finish_locked_def
  by (intro proj_frame.framed_andThen proj_frame.framed_attempt proj_frame.framed_on_error proj_release
      proj_frame.framed_option proj_frame.framed_ret proj_frame.framed_throw)

lemma proj_lock_loop:
  assumes "framed projections_step operation"
  shows "framed projections_step (lock_loop fuel opt deadline resource rid what operation)"
proof (induction fuel)
  case 0
  then show ?case by (simp add: proj_frame.framed_throw)
next
  case (Suc fuel)
  have "framed projections_step (\<lambda>w. if deadline \<le> w_clock w
      then throw (redis_error what resource rid (Sentinel ErrCacheWarmTimeout)) w
      else lock_loop fuel opt deadline resource rid what operation w)"
    using Suc by (simp add: framed_def throw_def proj_frame.frame_refl)
  then show ?case
    unfolding lock_loop.simps
    by (intro proj_frame.framed_andThen proj_frame.framed_on_error proj_try_lock proj_frame.framed_prod
        proj_frame.framed_if proj_finish_locked assms proj_sleep)
qed

lemma proj_with_lock:
  "framed projections_step operation \<Longrightarrow> framed projections_step (with_resource_lock opt resource rid what operation)"
  using proj_lock_loop by (simp add: framed_def with_resource_lock_def)

lemma proj_reconcile_now: "framed projections_step (reconcile_now opt resource rid)"
  unfolding reconcile_now_def
  by (intro proj_frame.framed_if proj_frame.framed_throw proj_with_lock proj_reconcile_current)

lemma proj_bulk: "framed projections_step (reconcile_for_bulk opt strict resource rid)"
  unfolding reconcile_for_bulk_def invalidate_projection_markers_def
  by (intro proj_frame.framed_if proj_reconcile_now proj_with_lock proj_frame.framed_andThen
      proj_reconcile_current proj_frame.framed_on_error proj_frame.framed_throw proj_markers)

lemma proj_is_loaded: "framed projections_step (is_loaded resource rid)"
  unfolding is_loaded_def friends_loaded_def blacklist_loaded_def group_members_loaded_def
  by (cases resource) (auto intro!: proj_frame.framed_on_error proj_read proj_frame.framed_throw)

lemma proj_ensure_loaded: "framed projections_step (ensure_loaded opt resource rid)"
  unfolding ensure_loaded_def load_if_still_missing_def
  by (intro proj_frame.framed_andThen proj_is_loaded proj_frame.framed_if proj_frame.framed_ret
      proj_with_lock proj_reconcile_current)

lemma proj_group_reads:
  "framed projections_step (is_group_tombstoned gid)" "framed projections_step (group_exists_for_cache gid)"
  unfolding is_group_tombstoned_def group_exists_for_cache_def
  by (intro proj_frame.framed_on_error proj_query)+

lemma proj_access:
  "framed projections_step (ensure_private_access opt a b)" "framed projections_step (ensure_group_access opt gid)"
  unfolding ensure_private_access_def ensure_group_access_def load_if_still_missing_def
  by (intro proj_frame.framed_intros proj_ensure_loaded proj_is_loaded proj_group_reads proj_with_lock
      proj_reconcile_current)+

lemma proj_reconcile_each: "framed projections_step (reconcile_each opt resource seen owners)"
  by (induction seen owners rule: reconcile_each.induct)
    (simp_all add: proj_frame.framed_intros proj_reconcile_now)

lemma proj_friend_cache_port:
  "framed projections_step (set_friend_cache opt a b)" "framed projections_step (delete_friend_cache opt a b)"
  "framed projections_step (set_blacklist_member opt a b)" "framed projections_step (delete_blacklist_member opt a b)"
  unfolding set_friend_cache_def delete_friend_cache_def set_blacklist_member_def delete_blacklist_member_def
    reconcile_owners_def throw_joined_def
  by (intro proj_frame.framed_intros proj_reconcile_each proj_reconcile_now)+

lemma proj_fold_each: "(\<And>r i. framed projections_step (visit r i)) \<Longrightarrow> framed projections_step (fold_each visit ids r)"
  by (induction ids arbitrary: r) (simp_all add: proj_frame.framed_ret proj_frame.framed_andThen)

lemma proj_for_each_owner:
  assumes "\<And>a l. framed projections_step (listing a l)" "\<And>r i. framed projections_step (visit r i)"
  shows "framed projections_step (for_each_owner fuel listing what page after_id visit r)"
proof (induction fuel arbitrary: after_id r)
  case (Suc fuel)
  show ?case unfolding for_each_owner.simps
    by (intro proj_frame.framed_intros assms proj_fold_each Suc)
qed (simp add: proj_frame.framed_throw)

lemma proj_for_each:
  assumes "\<And>r i. framed projections_step (visit r i)"
  shows "framed projections_step (for_each_user opt visit r)" "framed projections_step (for_each_group opt visit r)"
proof -
  have l: "framed projections_step (list_user_ids a l)" "framed projections_step (list_group_ids a l)" for a l
    unfolding list_user_ids_def list_group_ids_def by (intro proj_frame.framed_on_error proj_query)+
  show "framed projections_step (for_each_user opt visit r)"
    unfolding framed_def for_each_user_def
    by (intro allI proj_frame.step_framed proj_for_each_owner l assms)
  show "framed projections_step (for_each_group opt visit r)"
    unfolding framed_def for_each_group_def
    by (intro allI proj_frame.step_framed proj_for_each_owner l assms)
qed

lemma proj_rebuild: "framed projections_step (rebuild opt scope strict)"
  unfolding rebuild_def rebuild_resource_def
  by (intro proj_frame.framed_intros proj_for_each proj_bulk)

lemma proj_events_write:
  "framed projections_step (exec (\<lambda>w d. mark_claimed token ids (g w) d))"
  "framed projections_step (exec_count (\<lambda>w d. (n d, d\<lparr>cache_events := es w d\<rparr>)))"
  by (intro proj_exec proj_exec_count; simp add: same_relations_def mark_claimed_def)+

lemma proj_require_one: "framed projections_step (require_one_affected what n)"
  unfolding require_one_affected_def by (intro proj_frame.framed_intros)

lemma proj_now: "framed projections_step now"
  by (simp add: framed_def now_def projections_step_def Let_def)

lemma proj_marks:
  "framed projections_step (mark_cache_reconcile_success i token)"
  "framed projections_step (mark_cache_reconcile_failure i token cause retry)"
  unfolding mark_cache_reconcile_success_def mark_cache_reconcile_failure_def Let_def
  by (intro proj_frame.framed_intros proj_events_write proj_require_one proj_now)+

lemma proj_select:
  "framed projections_step (remote (\<lambda>w. (Inr (g w), w)))"
  by (intro proj_frame.framed_remote) (simp add: framed_def projections_step_def)

lemma proj_random: "framed projections_step random_token"
  unfolding random_token_def by (intro proj_frame.framed_remote) (simp add: framed_def projections_step_def)

lemma proj_claim: "framed projections_step (claim_cache_reconcile_events worker limit lease)"
  unfolding claim_cache_reconcile_events_def claim_body_def new_cache_claim_token_def Let_def
  by (intro proj_frame.framed_intros proj_tx proj_now proj_select proj_events_write proj_random)

lemma proj_run_event: "framed projections_step (run_event render opt r e)"
  unfolding run_event_def by (intro proj_frame.framed_intros proj_reconcile_now proj_marks)

lemma proj_run_events: "framed projections_step (run_events render opt r es)"
  by (induction es) (simp_all add: proj_frame.framed_intros proj_run_event)

lemma proj_run_once: "framed projections_step (run_once render opt r)"
  unfolding run_once_def by (intro proj_frame.framed_intros proj_claim proj_run_events)

subsection \<open>What success means\<close>

text \<open>Equal up to the locks, the clock and the scripts.\<close>

definition same_but_locks :: "world \<Rightarrow> world \<Rightarrow> bool" where
  "same_but_locks w w' \<longleftrightarrow> w_db w' = w_db w \<and> (\<exists>l. w_cache w' = (w_cache w)\<lparr>rc_locks := l\<rparr>)"

lemma same_but_locks_refl: "same_but_locks w w"
  unfolding same_but_locks_def by (metis rel_cache.surjective rel_cache.update_convs(13))

interpretation locks_frame: world_frame same_but_locks
proof
  fix u v w
  show "same_but_locks w w" by (rule same_but_locks_refl)
  show "same_but_locks w (net_pop w)" using same_but_locks_refl [of w] by (simp add: same_but_locks_def)
  assume "same_but_locks u v" "same_but_locks v w"
  then show "same_but_locks u w" by (auto simp: same_but_locks_def)
qed

lemma locks_try: "framed same_but_locks (try_cache_warm_lock resource rid ttl)"
proof -
  have 1: "framed same_but_locks random_cache_token"
    unfolding random_cache_token_def random_token_def
    by (intro locks_frame.framed_on_error locks_frame.framed_remote)
      (use same_but_locks_refl in \<open>simp add: framed_def same_but_locks_def\<close>)
  have 2: "framed same_but_locks (remote (\<lambda>w. if P w then (Inr (t, True), w\<lparr>w_cache := (w_cache w)\<lparr>rc_locks := g w\<rparr>\<rparr>)
      else (Inr (t, False), w)))" for P g and t :: nat
    by (intro locks_frame.framed_remote) (auto simp: framed_def same_but_locks_refl, auto simp: same_but_locks_def)
  show ?thesis unfolding try_cache_warm_lock_def Let_def
    by (intro locks_frame.framed_if locks_frame.framed_throw locks_frame.framed_andThen 1
        locks_frame.framed_on_error 2)
qed

lemma locks_release: "framed same_but_locks (release_cache_warm_lock resource rid token)"
  unfolding release_cache_warm_lock_def
  by (intro locks_frame.framed_on_error locks_frame.framed_remote)
    (use same_but_locks_refl in \<open>auto simp: framed_def same_but_locks_def release_lock_def split: option.split\<close>)

lemma locks_sleep: "same_but_locks w (snd (sleep d w))"
  using same_but_locks_refl [of w] by (simp add: sleep_def same_but_locks_def)

lemma finish_locked_ok:
  assumes "finish_locked resource rid token operation w = (Inr (), w')"
  shows "\<exists>w2. operation w = (Inr (), w2) \<and> same_but_locks w2 w'"
proof -
  obtain r w2 where op: "operation w = (r, w2)" by fastforce
  obtain q w3 where rel: "on_error (redis_error ''release resource lock'' resource rid)
      (release_cache_warm_lock resource rid token) w2 = (q, w3)" by fastforce
  have "same_but_locks w2 w3"
    using locks_frame.framed_on_error [OF locks_release] rel by (metis framed_def snd_conv)
  moreover have "r = Inr ()" "w' = w3"
    using assms op rel
    by (auto simp: finish_locked_def andThen_def attempt_def join_errs_def ret_def throw_def
        split: sum.splits option.splits list.splits)
  ultimately show ?thesis using op by blast
qed

lemma lock_loop_ok:
  "lock_loop fuel opt deadline resource rid what operation w = (Inr (), w') \<Longrightarrow>
    \<exists>w1 w2. same_but_locks w w1 \<and> operation w1 = (Inr (), w2) \<and> same_but_locks w2 w'"
proof (induction fuel arbitrary: w)
  case 0
  then show ?case by (simp add: throw_def)
next
  case (Suc fuel)
  obtain token acquired w1 where
    lck: "on_error (redis_error ''acquire resource lock'' resource rid) (try_cache_warm_lock resource rid (co_lock_ttl opt)) w
      = (Inr (token, acquired), w1)"
    and rest: "(if acquired then finish_locked resource rid token operation
       else andThen (sleep (co_poll_interval opt)) (\<lambda>_ w. if deadline \<le> w_clock w
          then throw (redis_error what resource rid (Sentinel ErrCacheWarmTimeout)) w
          else lock_loop fuel opt deadline resource rid what operation w)) w1 = (Inr (), w')"
    using Suc.prems by (auto simp: io_simps)
  have 1: "same_but_locks w w1"
    using locks_frame.framed_on_error [OF locks_try] lck by (metis framed_def snd_conv)
  show ?case
  proof (cases acquired)
    case True
    then show ?thesis using finish_locked_ok rest 1 by auto
  next
    case False
    obtain w2 where s: "sleep (co_poll_interval opt) w1 = (Inr (), w2)" by (simp add: sleep_def)
    then have "same_but_locks w1 w2" using locks_sleep by (metis snd_conv)
    moreover have "lock_loop fuel opt deadline resource rid what operation w2 = (Inr (), w')"
      using rest False s by (auto simp: andThen_def throw_def split: if_splits)
    ultimately show ?thesis using Suc.IH 1 locks_frame.frame_trans by blast
  qed
qed

text \<open>All that the replacement of one owner needs of the cache.\<close>

definition owner_ok :: "cache_resource \<Rightarrow> int \<Rightarrow> rel_cache \<Rightarrow> bool" where
  "owner_ok resource rid c \<longleftrightarrow> rep_ok c \<and> index_covers resource rid c"

lemma cache_ok_owner: "cache_ok c \<Longrightarrow> owner_ok r i c"
  by (simp add: cache_ok_def owner_ok_def)

lemma replace_friend_ok:
  assumes "replace_friend_owner owner ids w = (Inr (), w')" "{i \<in> set ids. 0 < i} = true_friends owner (w_db w)"
    "owner_ok Friends owner (w_cache w)"
  shows "projected Friends owner (w_db w) (w_cache w') \<and> loaded Friends owner (w_cache w')"
proof -
  have "\<exists>legacy. w_cache w' = replace_friend_lua owner legacy (sorted_unique_positive ids) (w_cache w) \<and>
      (set (pairs_of owner (rc_friend (w_cache w))) \<subseteq> set legacy \<or> owner \<in> set (rc_friend_index_loaded (w_cache w)))"
    using assms(1)
    by (auto simp: replace_friend_owner_def io_simps scan_friend_suffixes_def lift_result_def numeric_ids_def list_ex_iff
        split: if_splits sum.splits)
      (intro exI conjI, rule refl, force)
  then obtain legacy where l: "w_cache w' = replace_friend_lua owner legacy (sorted_unique_positive ids) (w_cache w)"
    "set (pairs_of owner (rc_friend (w_cache w))) \<subseteq> set legacy \<or> owner \<in> set (rc_friend_index_loaded (w_cache w))"
    by blast
  have "set (sorted_unique_positive ids) = true_friends owner (w_db w)" using assms(2) by simp
  then show ?thesis unfolding l(1) using friend_projected [OF _ l(2)] assms(3) unfolding owner_ok_def by blast
qed

lemma replace_blacklist_ok:
  assumes "replace_blacklist_owner owner ids w = (Inr (), w')" "{i \<in> set ids. 0 < i} = true_blocks owner (w_db w)"
  shows "projected Blacklist owner (w_db w) (w_cache w') \<and> loaded Blacklist owner (w_cache w')"
  using assms blacklist_projected by (auto simp: replace_blacklist_owner_def io_simps)

lemma replace_group_ok:
  assumes "replace_group_members_owner gid (cache_members_of gid (w_db w)) w = (Inr (), w')" "owner_ok GroupMembers gid (w_cache w)"
  shows "projected GroupMembers gid (w_db w) (w_cache w') \<and> loaded GroupMembers gid (w_cache w')"
proof -
  have "\<exists>legacy. w_cache w' =
      replace_group_lua gid legacy (first_members [] (cache_members_of gid (w_db w))) (w_cache w) \<and>
    ({u. (u, gid) \<in> set (rc_user_groups (w_cache w))} \<subseteq> set legacy \<or> gid \<in> set (rc_reverse_loaded (w_cache w)))"
    using assms(1)
    by (auto simp: replace_group_members_owner_def io_simps read_reverse_group_members_def list_ex_iff image_iff
        split: if_splits)
      (intro exI conjI, rule refl, force)
  then obtain legacy where l: "w_cache w' =
      replace_group_lua gid legacy (first_members [] (cache_members_of gid (w_db w))) (w_cache w)"
    "{u. (u, gid) \<in> set (rc_user_groups (w_cache w))} \<subseteq> set legacy \<or> gid \<in> set (rc_reverse_loaded (w_cache w))"
    by blast
  show ?thesis unfolding l(1)
    using group_projected [OF _ _ l(2) desired_members] assms(2) unfolding owner_ok_def by blast
qed

lemma runtime_unseen [simp]:
  "projected r i d (c\<lparr>rc_outbox := x, rc_group_seq := y\<rparr>) = projected r i d c"
  "loaded r i (c\<lparr>rc_outbox := x, rc_group_seq := y\<rparr>) = loaded r i c"
  by (simp_all add: projected_def infos_of_def loaded_def group_projection_loaded_def
      split: cache_resource.split option.split)

lemma runtime_ok:
  "when_ok b (on_error h (delete_disbanded_group_runtime gid)) w = (Inr (), w') \<Longrightarrow>
    projected r i d (w_cache w') = projected r i d (w_cache w) \<and> loaded r i (w_cache w') = loaded r i (w_cache w)"
  by (auto simp: delete_disbanded_group_runtime_def io_simps split: if_splits)

lemma reconcile_snapshot_ok:
  assumes "reconcile_snapshot resource rid w = (Inr (), w')" "owner_ok resource rid (w_cache w)" "resource_valid resource"
  shows "projected resource rid (w_db w) (w_cache w') \<and> loaded resource rid (w_cache w')"
proof (cases resource)
  case Friends
  then have "replace_friend_owner rid (friend_ids_of rid (w_db w)) (net_pop w) = (Inr (), w')"
    using assms(1) by (auto simp: reconcile_snapshot_def io_simps)
  then show ?thesis using replace_friend_ok [of rid _ "net_pop w" w'] assms(2) friend_ids_set Friends by simp
next
  case Blacklist
  then have "replace_blacklist_owner rid (blocked_ids_of rid (w_db w)) (net_pop w) = (Inr (), w')"
    using assms(1) by (auto simp: reconcile_snapshot_def io_simps)
  then show ?thesis using replace_blacklist_ok [of rid _ "net_pop w" w'] blocked_ids_set Blacklist by simp
next
  case GroupMembers
  let ?w1 = "net_pop (net_pop w)"
  obtain b w2 where 1: "replace_group_members_owner rid (cache_members_of rid (w_db ?w1)) ?w1 = (Inr (), w2)"
    and 2: "when_ok b (on_error (redis_error ''delete disbanded group runtime'' resource rid)
      (delete_disbanded_group_runtime rid)) w2 = (Inr (), w')"
    using assms(1) unfolding GroupMembers reconcile_snapshot_def cache_resource.case andThen_ok on_error_ok cache_reads_ok
    by fastforce
  have "projected GroupMembers rid (w_db w) (w_cache w2) \<and> loaded GroupMembers rid (w_cache w2)"
    using replace_group_ok [OF 1] assms(2) GroupMembers by simp
  then show ?thesis using runtime_ok [OF 2] GroupMembers by simp
next
  case (OtherResource s)
  then show ?thesis using assms(3) by simp
qed

lemma reconcile_current_ok:
  assumes "reconcile_current resource rid w = (Inr (), w')" "owner_ok resource rid (w_cache w)" "resource_valid resource"
  shows "projected resource rid (w_db w) (w_cache w') \<and> loaded resource rid (w_cache w')"
proof -
  have "\<exists>w1 w2. reconcile_snapshot resource rid w1 = (Inr (), w2) \<and> w_db w1 = w_db w \<and> w_cache w1 = w_cache w \<and>
      w_cache w' = w_cache w2"
    using assms(1)
    by (auto simp: reconcile_current_def within_cache_snapshot_def snapshot_body_def lock_cache_owner_def io_simps
        split: if_splits) (metis net_pop_fields(1,3))+
  then obtain w1 w2 where "reconcile_snapshot resource rid w1 = (Inr (), w2)" "w_db w1 = w_db w"
    "w_cache w1 = w_cache w" "w_cache w' = w_cache w2" by blast
  then show ?thesis using reconcile_snapshot_ok [of resource rid w1 w2] assms(2,3) by simp
qed

lemma same_but_locks_seen:
  assumes "same_but_locks w w'"
  shows "projected r i d (w_cache w') = projected r i d (w_cache w)" "loaded r i (w_cache w') = loaded r i (w_cache w)"
    "cache_ok (w_cache w') = cache_ok (w_cache w)" "w_db w' = w_db w"
  using assms by (auto simp: same_but_locks_def)

lemma locked_ok:
  assumes "with_resource_lock opt resource rid what operation w = (Inr (), w')"
    and op: "\<And>w1 w2. operation w1 = (Inr (), w2) \<Longrightarrow> same_but_locks w w1 \<Longrightarrow>
      projected resource rid (w_db w1) (w_cache w2) \<and> loaded resource rid (w_cache w2)"
  shows "projected resource rid (w_db w) (w_cache w') \<and> loaded resource rid (w_cache w')"
proof -
  obtain w1 w2 where o: "same_but_locks w w1" "operation w1 = (Inr (), w2)" "same_but_locks w2 w'"
    using lock_loop_ok assms(1) unfolding with_resource_lock_def by blast
  then show ?thesis using op [OF o(2,1)] same_but_locks_seen by metis
qed

lemma reconcile_now_ok:
  assumes "reconcile_now opt resource rid w = (Inr (), w')" "cache_ok (w_cache w)"
  shows "projected resource rid (w_db w) (w_cache w') \<and> loaded resource rid (w_cache w')"
proof -
  have v: "resource_valid resource"
    and l: "with_resource_lock opt resource rid ''wait for cache reconciliation'' (reconcile_current resource rid) w = (Inr (), w')"
    using assms(1) by (auto simp: reconcile_now_def io_simps split: if_splits)
  show ?thesis
    proof (rule locked_ok [OF l])
    fix w1 w2 assume c: "reconcile_current resource rid w1 = (Inr (), w2)" "same_but_locks w w1"
    then have "owner_ok resource rid (w_cache w1)" using cache_ok_owner assms(2) same_but_locks_seen(3) by blast
    then show "projected resource rid (w_db w1) (w_cache w2) \<and> loaded resource rid (w_cache w2)"
      using reconcile_current_ok [OF c(1)] v by blast
  qed
qed

end
