(* ===== verification/Outbox.thy ===== *)
theory Outbox
  imports CacheReconcile GroupSpec FriendProps
begin

text \<open>
  The outbox: a transaction that changes what a projection shows of an owner leaves a reconcile
  event for that owner in the same commit.
\<close>

subsection \<open>Changes and events\<close>

text \<open>The owners whose projection the two databases disagree on.\<close>

definition changed :: "cache_resource \<Rightarrow> int \<Rightarrow> db \<Rightarrow> db \<Rightarrow> bool" where
  "changed resource rid d d' = (case resource of
      Friends \<Rightarrow> true_friends rid d' \<noteq> true_friends rid d
    | Blacklist \<Rightarrow> true_blocks rid d' \<noteq> true_blocks rid d
    | GroupMembers \<Rightarrow> true_members rid d' \<noteq> true_members rid d
    | OtherResource _ \<Rightarrow> False)"

definition only_changes :: "(cache_resource \<times> int) list \<Rightarrow> db \<Rightarrow> db \<Rightarrow> bool" where
  "only_changes owners d d' \<longleftrightarrow> (\<forall>r i. changed r i d d' \<longrightarrow> (r, i) \<in> set owners)"

definition about :: "cache_resource \<Rightarrow> int \<Rightarrow> cache_event \<Rightarrow> bool" where
  "about resource rid e \<longleftrightarrow> ce_resource e = resource \<and> ce_resource_id e = rid"

text \<open>The events a step appends: new rows, pending, with fresh IDs, one at least for each changed owner.\<close>

definition appended :: "world \<Rightarrow> world \<Rightarrow> cache_event list \<Rightarrow> bool" where
  "appended w w' new \<longleftrightarrow> cache_events (w_db w') = cache_events (w_db w) @ new \<and> distinct (map ce_id new) \<and>
     (\<forall>e\<in>set new. ce_status e = 0 \<and> ai_cache_events (w_auto w) \<le> ce_id e \<and> ce_id e < ai_cache_events (w_auto w')) \<and>
     (\<forall>r i. changed r i (w_db w) (w_db w') \<longrightarrow> (\<exists>e\<in>set new. about r i e))"

definition outbox_grow :: "world \<Rightarrow> world \<Rightarrow> bool" where
  "outbox_grow w w' \<longleftrightarrow> ai_cache_events (w_auto w) \<le> ai_cache_events (w_auto w') \<and> (\<exists>new. appended w w' new)"

definition outbox_step :: "world \<Rightarrow> world \<Rightarrow> bool" where
  "outbox_step w w' \<longleftrightarrow> w_cache w' = w_cache w \<and> outbox_grow w w'"

lemma changed_refl [simp]: "\<not> changed r i d d"
  by (simp add: changed_def split: cache_resource.split)

lemma changed_same: "same_relations d d' \<Longrightarrow> \<not> changed r i d d'"
  by (simp add: changed_def true_same split: cache_resource.split)

lemma changed_via: "changed r i a c \<Longrightarrow> changed r i a b \<or> changed r i b c"
  by (cases r) (simp_all add: changed_def)

lemma projected_unchanged: "\<not> changed r i d d' \<Longrightarrow> projected r i d' c = projected r i d c"
  by (cases r) (simp_all add: changed_def projected_def)

lemma grow_idle:
  "ai_cache_events (w_auto w) \<le> ai_cache_events (w_auto w') \<Longrightarrow>
    cache_events (w_db w') = cache_events (w_db w) \<Longrightarrow> same_relations (w_db w) (w_db w') \<Longrightarrow> outbox_grow w w'"
  by (simp add: outbox_grow_def appended_def changed_same)

interpretation grow_frame: world_frame outbox_grow
proof
  fix u v w
  show "outbox_grow w w" "outbox_grow w (net_pop w)" by (simp_all add: grow_idle)
  assume uv: "outbox_grow u v" and vw: "outbox_grow v w"
  from uv obtain m where m: "appended u v m" by (auto simp: outbox_grow_def)
  from vw obtain n where n: "appended v w n" by (auto simp: outbox_grow_def)
  have le: "ai_cache_events (w_auto u) \<le> ai_cache_events (w_auto v)" "ai_cache_events (w_auto v) \<le> ai_cache_events (w_auto w)"
    using uv vw by (simp_all add: outbox_grow_def)
  have "\<forall>e\<in>set (m @ n). ce_status e = 0 \<and> ai_cache_events (w_auto u) \<le> ce_id e \<and> ce_id e < ai_cache_events (w_auto w)"
    using m n le unfolding appended_def by force
  moreover have "\<forall>r i. changed r i (w_db u) (w_db w) \<longrightarrow> (\<exists>e\<in>set (m @ n). about r i e)"
    using m n changed_via unfolding appended_def by (metis UnI1 UnI2 set_append)
  moreover have "distinct (map ce_id (m @ n))" using m n unfolding appended_def by force
  ultimately have "appended u w (m @ n)" using m n by (simp add: appended_def)
  then show "outbox_grow u w" using le unfolding outbox_grow_def by auto
qed

interpretation outbox_frame: world_frame outbox_step
proof
  fix u v w
  show "outbox_step w w" "outbox_step w (net_pop w)"
    by (simp_all add: outbox_step_def grow_frame.frame_refl grow_frame.frame_net_pop)
  assume "outbox_step u v" "outbox_step v w"
  then show "outbox_step u w" unfolding outbox_step_def using grow_frame.frame_trans by metis
qed

lemma outbox_idle:
  "w_cache w' = w_cache w \<Longrightarrow> ai_cache_events (w_auto w) \<le> ai_cache_events (w_auto w') \<Longrightarrow>
    cache_events (w_db w') = cache_events (w_db w) \<Longrightarrow> same_relations (w_db w) (w_db w') \<Longrightarrow> outbox_step w w'"
  by (simp add: outbox_step_def grow_idle)

lemma outbox_events:
  assumes "w_cache w' = w_cache w" "cache_events (w_db w') = cache_events (w_db w) @ new" "distinct (map ce_id new)"
    "\<forall>e\<in>set new. ce_status e = 0 \<and> ai_cache_events (w_auto w) \<le> ce_id e \<and> ce_id e < ai_cache_events (w_auto w')"
    "ai_cache_events (w_auto w) \<le> ai_cache_events (w_auto w')"
    "only_changes (map (\<lambda>e. (ce_resource e, ce_resource_id e)) new) (w_db w) (w_db w')"
  shows "outbox_step w w'"
proof -
  have "appended w w' new" using assms unfolding appended_def only_changes_def about_def by fastforce
  then show ?thesis using assms(1,5) by (auto simp: outbox_step_def outbox_grow_def)
qed

text \<open>A transaction whose callback, when it returns, is such a step.\<close>

lemma outbox_tx:
  assumes "framed auto_le body" "framed same_cache body" "\<And>w x w1. body w = (Inr x, w1) \<Longrightarrow> outbox_step w w1"
  shows "framed outbox_step (tx_block rep what body)"
  unfolding framed_def
proof
  fix w
  obtain r w1 where b: "body (net_pop w) = (r, w1)" by fastforce
  have le: "auto_le w w1" "same_cache w w1"
    using assms(1,2) b by (metis framed_def snd_conv auto_frame.frame_trans auto_frame.frame_net_pop
        cache_frame.frame_trans cache_frame.frame_net_pop)+
  have undo: "outbox_step w ((net_pop w1)\<lparr>w_db := w_db w\<rparr>)"
    using le by (intro outbox_idle) (simp_all add: auto_le_def same_cache_def)
  have "outbox_step w (net_pop w1)" if "r = Inr x" for x
    using assms(3) b that outbox_frame.frame_net_pop outbox_frame.frame_trans by metis
  then show "outbox_step w (snd (tx_block rep what body w))"
    using b undo outbox_frame.frame_net_pop
    by (auto simp: tx_block_def split: net_outcome.splits prod.splits sum.splits)
qed

subsection \<open>What the tables' changes amount to\<close>

lemma only_same: "same_relations d d' \<Longrightarrow> only_changes owners d d'"
  by (simp add: only_changes_def changed_same)

lemma only_friendships:
  assumes "blacklists d' = blacklists d" "group_members d' = group_members d"
    "\<And>f. (f \<in> set (friendships d')) \<noteq> (f \<in> set (friendships d)) \<Longrightarrow> (Friends, fs_user f) \<in> set owners"
  shows "only_changes owners d d'"
proof -
  have "true_friends i d' = true_friends i d" if "(Friends, i) \<notin> set owners" for i
    using assms(3) that by (fastforce simp: true_friends_def)
  moreover have "true_blocks i d' = true_blocks i d" "true_members i d' = true_members i d" for i
    using assms(1,2) by (auto simp: true_blocks_def true_members_def find_member_def)
  ultimately show ?thesis by (auto simp: only_changes_def changed_def split: cache_resource.splits)
qed

lemma only_blacklists:
  assumes "friendships d' = friendships d" "group_members d' = group_members d"
    "\<And>b. (b \<in> set (blacklists d')) \<noteq> (b \<in> set (blacklists d)) \<Longrightarrow> (Blacklist, bl_user b) \<in> set owners"
  shows "only_changes owners d d'"
proof -
  have "true_blocks i d' = true_blocks i d" if "(Blacklist, i) \<notin> set owners" for i
    using assms(3) that by (fastforce simp: true_blocks_def)
  moreover have "true_friends i d' = true_friends i d" "true_members i d' = true_members i d" for i
    using assms(1,2) by (auto simp: true_friends_def true_members_def find_member_def)
  ultimately show ?thesis by (auto simp: only_changes_def changed_def split: cache_resource.splits)
qed

lemma only_members:
  assumes "friendships d' = friendships d" "blacklists d' = blacklists d"
    "filter (\<lambda>m. gm_group m \<noteq> gid) (group_members d') = filter (\<lambda>m. gm_group m \<noteq> gid) (group_members d)"
    "(GroupMembers, gid) \<in> set owners"
  shows "only_changes owners d d'"
proof -
  have fm: "find_member i u d' = find_member i u d" if "i \<noteq> gid" for i u
  proof -
    have "find (member_row i u) ms = find (member_row i u) (filter (\<lambda>m. gm_group m \<noteq> gid) ms)" for ms
      using that by (induction ms) (auto simp: member_row_def)
    then show ?thesis unfolding find_member_def using assms(3) by metis
  qed
  have "true_members i d' = true_members i d" if "i \<noteq> gid" for i
    by (rule ext) (simp add: true_members_def fm [OF that])
  then have "i = gid" if "true_members i d' \<noteq> true_members i d" for i using that by metis
  moreover have "true_friends i d' = true_friends i d" "true_blocks i d' = true_blocks i d" for i
    using assms(1,2) by (auto simp: true_friends_def true_blocks_def)
  ultimately show ?thesis using assms(4) by (auto simp: only_changes_def changed_def split: cache_resource.splits)
qed

subsection \<open>The callbacks\<close>

lemma cache_exec: "framed same_cache (exec f)" "framed same_cache (exec_count g)" "framed same_cache (insert_row a b c h)"
  unfolding exec_def exec_count_def insert_row_def
  by (intro cache_frame.framed_on_error cache_frame.framed_remote;
      simp add: framed_def same_cache_def Let_def split: prod.split)+

lemma cache_now: "framed same_cache now"
  by (simp add: framed_def now_def same_cache_def Let_def)

lemma cache_group_repo:
  "framed same_cache (lock_users what a b)" "framed same_cache (enqueue_cache_reconcile r i)"
  "framed same_cache (require_one_affected what n)"
  unfolding lock_users_def lock_user_def enqueue_cache_reconcile_def insert_event_def require_one_affected_def
  by (intro cache_frame.framed_intros cache_exec)+

lemmas group_repo_defs = is_friend_pair_def lock_group_creator_def lock_group_users_def get_group_for_update_def
  lock_user_def get_group_member_for_update_def is_group_tombstoned_def get_group_members_def
  count_group_members_def update_group_owner_def update_group_profile_def upsert_group_tombstone_def
  remove_group_member_def delete_group_members_def update_group_member_role_def
  update_group_member_mute_def delete_group_def create_group_def add_group_member_def

lemma cache_group_bodies:
  "framed same_cache (group_create_body a nm nt)" "framed same_cache (group_add_member_body gid a b)"
  "framed same_cache (group_remove_member_body gid a b)" "framed same_cache (group_update_role_body gid a b r)"
  "framed same_cache (group_mute_body gid a b t)" "framed same_cache (group_transfer_body gid a b)"
  "framed same_cache (group_leave_body gid a)" "framed same_cache (group_disband_body gid a)"
  "framed same_cache (group_update_body a gid nm nt)"
  unfolding group_create_body_def group_add_member_body_def group_remove_member_body_def
    group_update_role_body_def group_mute_body_def group_transfer_body_def group_leave_body_def
    group_disband_body_def group_update_body_def group_repo_defs
  by (intro cache_frame.framed_intros cache_exec cache_group_repo cache_now)+

lemma cache_friend_bodies:
  "framed same_cache (send_request_body a b q)" "framed same_cache (accept_request_body a i r)"
  "framed same_cache (reject_request_body a i r)" "framed same_cache (delete_friend_body a b)"
  "framed same_cache (block_body a b e)" "framed same_cache (unblock_body a b)"
  unfolding send_request_body_def accept_request_body_def reject_request_body_def delete_friend_body_def
    block_body_def unblock_body_def enqueue_friend_pair_reconcile_def friend_repo_defs is_friend_pair_def
  by (intro cache_frame.framed_intros cache_exec cache_group_repo cache_now)+

lemma new_event_sel [simp]:
  "ce_resource (new_event k r i t) = r" "ce_resource_id (new_event k r i t) = i"
  "ce_status (new_event k r i t) = 0" "ce_id (new_event k r i t) = k"
  by (simp_all add: new_event_def)

lemma outbox_one:
  assumes "w_cache w' = w_cache w" "cache_events (w_db w') = cache_events (w_db w) @ [new_event (ai_cache_events (w_auto w)) r i t]"
    "ai_cache_events (w_auto w') = ai_cache_events (w_auto w) + 1" "only_changes [(r, i)] (w_db w) (w_db w')"
  shows "outbox_step w w'"
  using assms by (intro outbox_events) auto

lemma outbox_two:
  assumes "w_cache w' = w_cache w" "cache_events (w_db w') = cache_events (w_db w) @
      [new_event (ai_cache_events (w_auto w)) r i t, new_event (ai_cache_events (w_auto w) + 1) q j u]"
    "ai_cache_events (w_auto w') = ai_cache_events (w_auto w) + 2" "only_changes [(r, i), (q, j)] (w_db w) (w_db w')"
  shows "outbox_step w w'"
  using assms by (intro outbox_events) auto

lemma delete_outbox: "delete_friend_body a b w = (Inr x, w1) \<Longrightarrow> outbox_step w w1"
  by (rule outbox_two [of _ _ Friends a _ Friends b])
    (auto simp: delete_friend_body_def enqueue_friend_pair_reconcile_def invalidate_accepted_friend_requests_def
      io_simps locked_count_2 friend_row_def intro!: only_friendships)

lemma block_outbox: "block_body a b \<lparr>bl_id = k, bl_user = a, bl_blocked = c, bl_created_at = t\<rparr> w = (Inr x, w1) \<Longrightarrow> outbox_step w w1"
  by (rule outbox_one [of _ _ Blacklist a])
    (auto simp: block_body_def reject_pending_friend_requests_def
      io_simps locked_count_2 intro!: only_blacklists)

lemma unblock_outbox: "unblock_body a b w = (Inr x, w1) \<Longrightarrow> outbox_step w w1"
  by (rule outbox_one [of _ _ Blacklist a])
    (auto simp: unblock_body_def io_simps locked_count_2 blocks_def intro!: only_blacklists)

lemma send_outbox: "send_request_body a b q w = (Inr x, w1) \<Longrightarrow> outbox_step w w1"
  by (rule outbox_idle)
    (auto simp: send_request_body_def io_simps same_relations_def locked_count_2 split: option.splits)

lemma ensure_only:
  "only_changes [(Friends, a), (Friends, b)] d (d\<lparr>friend_requests := q, friendships := insert_ignore (new_friendship k b a t)
     (insert_ignore (new_friendship j a b u) (friendships d)), cache_events := es\<rparr>)"
  "only_changes [(Friends, a), (Friends, b)] d (d\<lparr>friendships := insert_ignore (new_friendship k b a t)
     (insert_ignore (new_friendship j a b u) (friendships d)), cache_events := es\<rparr>)"
  by (rule only_friendships; auto simp: insert_ignore_def new_friendship_def split: if_splits)+

lemma accept_outbox:
  assumes "accept_request_body u i p w = (Inr x, w1)" shows "outbox_step w w1"
proof (cases "find_request i (w_db w)")
  case None
  then show ?thesis using assms by (clarsimp simp: accept_request_body_def io_simps locked_count_2)
next
  case (Some r)
  show ?thesis
  proof (cases "find_profile (fr_to r) (w_db w)")
    case None
    consider "fr_status r = 0" | "fr_status r = 1" | "fr_status r = 2" | "fr_status r \<notin> {0, 1, 2}" by blast
    then show ?thesis using assms Some None
      by cases (clarsimp simp: accept_request_body_def enqueue_friend_pair_reconcile_def io_simps locked_count_2
          request_status find_profile_def outbox_two [of _ _ Friends "fr_from r" _ Friends "fr_to r"] ensure_only)+
  next
    case (Some q)
    consider "fr_status r = 0" | "fr_status r = 1" | "fr_status r = 2" | "fr_status r \<notin> {0, 1, 2}" by blast
    then show ?thesis using assms \<open>find_request i (w_db w) = Some r\<close> Some
      by cases (clarsimp simp: accept_request_body_def enqueue_friend_pair_reconcile_def io_simps locked_count_2
          request_status find_profile_def outbox_two [of _ _ Friends "fr_from r" _ Friends "fr_to r"] ensure_only)+
  qed
qed

lemma reject_outbox:
  assumes "reject_request_body u i p w = (Inr x, w1)" shows "outbox_step w w1"
proof (cases "find_request i (w_db w)")
  case None
  then show ?thesis using assms by (clarsimp simp: reject_request_body_def io_simps locked_count_2)
next
  case (Some r)
  consider "fr_status r = 0" | "fr_status r = 1" | "fr_status r = 2" | "fr_status r \<notin> {0, 1, 2}" by blast
  then show ?thesis using assms Some
    by cases (clarsimp simp: reject_request_body_def io_simps locked_count_2 outbox_idle same_relations_def request_status)+
qed

lemma filter_delete_where: "(\<And>r. q r \<Longrightarrow> \<not> p r) \<Longrightarrow> filter q (delete_where p t) = filter q t"
  by (induction t) (auto simp: delete_where_def)

lemma filter_delete_group:
  "filter (\<lambda>m. gm_group m \<noteq> gid) (delete_where (\<lambda>m. gm_group m = gid) ms) = filter (\<lambda>m. gm_group m \<noteq> gid) ms"
  by (induction ms) (auto simp: delete_where_def)

lemma filter_update_member:
  "(\<And>m. gm_group (f m) = gm_group m) \<Longrightarrow> filter (\<lambda>m. gm_group m \<noteq> gid) (update_where (member_row gid u) f ms) =
    filter (\<lambda>m. gm_group m \<noteq> gid) ms"
  by (induction ms) (auto simp: update_where_def member_row_def)

lemma create_outbox: "group_create_body a nm nt w = (Inr x, w1) \<Longrightarrow> outbox_step w w1"
  by (rule outbox_one [of _ _ GroupMembers "ai_groups (w_auto w)"])
    (auto simp: group_create_body_def io_simps intro!: only_members)

lemma add_outbox:
  assumes "group_add_member_body gid a b w = (Inr x, w1)" shows "outbox_step w w1"
proof (rule outbox_one [of _ _ GroupMembers gid])
  show "only_changes [(GroupMembers, gid)] (w_db w) (w_db w1)"
    using assms by (intro only_members; cases "a = b")
      (auto simp: group_add_member_body_def io_simps locked_count_2 split: option.splits)
qed (use assms in \<open>cases "a = b"; force simp: group_add_member_body_def io_simps locked_count_2 split: option.splits\<close>)+

lemma remove_outbox:
  assumes "group_remove_member_body gid a b w = (Inr x, w1)" shows "outbox_step w w1"
proof (rule outbox_one [of _ _ GroupMembers gid])
  show "only_changes [(GroupMembers, gid)] (w_db w) (w_db w1)"
    using assms by (intro only_members)
      (auto simp: group_remove_member_body_def io_simps filter_delete_where member_row_def split: option.splits)
qed (use assms in \<open>force simp: group_remove_member_body_def io_simps split: option.splits\<close>)+

lemma leave_outbox:
  assumes "group_leave_body gid a w = (Inr x, w1)" shows "outbox_step w w1"
proof (rule outbox_one [of _ _ GroupMembers gid])
  show "only_changes [(GroupMembers, gid)] (w_db w) (w_db w1)"
    using assms by (intro only_members)
      (auto simp: group_leave_body_def io_simps filter_delete_where member_row_def split: option.splits)
qed (use assms in \<open>force simp: group_leave_body_def io_simps split: option.splits\<close>)+

lemma role_outbox:
  assumes "group_update_role_body gid a b r w = (Inr ch, w1)" shows "outbox_step w w1"
proof (cases ch)
  case False
  then show ?thesis using assms
    by (intro outbox_idle) (auto simp: group_update_role_body_def io_simps same_relations_def split: option.splits if_splits)
next
  case True
  show ?thesis
  proof (rule outbox_one [of _ _ GroupMembers gid])
    show "only_changes [(GroupMembers, gid)] (w_db w) (w_db w1)"
      using assms True by (intro only_members)
        (auto simp: group_update_role_body_def io_simps filter_update_member split: option.splits if_splits)
  qed (use assms True in \<open>force simp: group_update_role_body_def io_simps split: option.splits if_splits\<close>)+
qed

lemma mute_outbox:
  assumes "group_mute_body gid a b t w = (Inr ch, w1)" shows "outbox_step w w1"
proof (cases ch)
  case False
  then show ?thesis using assms
    by (intro outbox_idle) (auto simp: group_mute_body_def io_simps same_relations_def split: option.splits if_splits)
next
  case True
  have "\<exists>t'. cache_events (w_db w1) = cache_events (w_db w) @ [new_event (ai_cache_events (w_auto w)) GroupMembers gid t'] \<and>
      ai_cache_events (w_auto w1) = ai_cache_events (w_auto w) + 1 \<and> w_cache w1 = w_cache w"
    using assms True
    by (cases t; clarsimp simp: group_mute_body_def io_simps split: option.splits if_splits; blast)
  moreover have "only_changes [(GroupMembers, gid)] (w_db w) (w_db w1)"
    using assms True by (intro only_members)
      (auto simp: group_mute_body_def io_simps filter_update_member split: option.splits if_splits)
  ultimately show ?thesis using outbox_one by blast
qed

lemma transfer_outbox:
  assumes "group_transfer_body gid a b w = (Inr x, w1)" shows "outbox_step w w1"
proof (rule outbox_one [of _ _ GroupMembers gid])
  show "only_changes [(GroupMembers, gid)] (w_db w) (w_db w1)"
    using assms by (intro only_members; cases "gm_muted_until (the (find_member gid b (w_db w)))")
      (auto simp: group_transfer_body_def io_simps filter_update_member split: option.splits)
qed (use assms in \<open>cases "gm_muted_until (the (find_member gid b (w_db w)))";
      force simp: group_transfer_body_def io_simps split: option.splits\<close>)+

lemma disband_outbox:
  assumes "group_disband_body gid a w = (Inr x, w1)" shows "outbox_step w w1"
proof (cases "find_group gid (w_db w)")
  case None
  then show ?thesis using assms
    by (intro outbox_idle) (auto simp: group_disband_body_def io_simps same_relations_def)
next
  case (Some g)
  show ?thesis
  proof (rule outbox_one [of _ _ GroupMembers gid])
    show "only_changes [(GroupMembers, gid)] (w_db w) (w_db w1)"
      using assms Some by (intro only_members)
        (auto simp: group_disband_body_def io_simps filter_delete_group)
  qed (use assms Some in \<open>force simp: group_disband_body_def io_simps\<close>)+
qed

lemma update_outbox: "group_update_body a gid nm nt w = (Inr x, w1) \<Longrightarrow> outbox_step w w1"
  by (rule outbox_idle) (auto simp: group_update_body_def io_simps same_relations_def split: option.splits)

subsection \<open>The transactions\<close>

lemma friend_tx_outbox:
  "framed outbox_step (tx_block rep what (send_request_body a b q))"
  "framed outbox_step (tx_block rep what (accept_request_body a i r))"
  "framed outbox_step (tx_block rep what (reject_request_body a i r))"
  "framed outbox_step (tx_block rep what (delete_friend_body a b))"
  "framed outbox_step (tx_block rep what (block_body a b \<lparr>bl_id = k, bl_user = a, bl_blocked = c, bl_created_at = t\<rparr>))"
  "framed outbox_step (tx_block rep what (unblock_body a b))"
  by (rule outbox_tx, rule framed_auto_friend_bodies, rule cache_friend_bodies,
      erule send_outbox accept_outbox reject_outbox delete_outbox block_outbox unblock_outbox)+

lemma group_tx_outbox:
  "framed outbox_step (tx_block rep what (group_create_body a nm nt))"
  "framed outbox_step (tx_block rep what (group_add_member_body gid a b))"
  "framed outbox_step (tx_block rep what (group_remove_member_body gid a b))"
  "framed outbox_step (tx_block rep what (group_update_role_body gid a b r))"
  "framed outbox_step (tx_block rep what (group_mute_body gid a b t))"
  "framed outbox_step (tx_block rep what (group_transfer_body gid a b))"
  "framed outbox_step (tx_block rep what (group_leave_body gid a))"
  "framed outbox_step (tx_block rep what (group_disband_body gid a))"
  "framed outbox_step (tx_block rep what (group_update_body a gid nm nt))"
  by (rule outbox_tx, rule framed_auto_group_bodies framed_auto_mute_body, rule cache_group_bodies,
      erule create_outbox add_outbox remove_outbox role_outbox mute_outbox transfer_outbox leave_outbox
        disband_outbox update_outbox)+

lemma outbox_to_grow: "framed outbox_step m \<Longrightarrow> framed outbox_grow m"
  by (simp add: framed_def outbox_step_def)

lemma grow_same_db: "framed same_db m \<Longrightarrow> framed outbox_grow m"
  by (simp add: framed_def same_db_def grow_idle)

lemmas grow_intros = grow_frame.framed_intros friend_tx_outbox [THEN outbox_to_grow] group_tx_outbox [THEN outbox_to_grow]

lemma grow_friend_commands:
  assumes "friend_ports_ok s" shows "framed outbox_grow (run_friend_command s c)"
proof -
  have rd: "framed outbox_grow (get_friend_request i)" "framed outbox_grow now" for i
    using framed_db_now by (auto simp: get_friend_request_def intro!: grow_same_db db_frame.framed_intros)
  show ?thesis
    by (cases c; simp only: run_friend_command.simps isolate_def friend_send_request_def friend_accept_request_def
        friend_reject_request_def friend_delete_def friend_block_def friend_unblock_def)
      (intro grow_intros rd framed_friend_ports [OF assms, THEN grow_same_db])+
qed

lemma grow_group_commands:
  assumes "ports_ok s" shows "framed outbox_grow (group_command s c)"
  by (cases c; simp only: group_command.simps isolate_def group_create_def group_add_member_def
      group_remove_member_def group_update_role_def group_mute_member_def group_transfer_ownership_def
      group_leave_def group_disband_def group_update_def)
    (intro grow_intros framed_db_ports [OF assms, THEN grow_same_db] framed_db_mute_deadline [THEN grow_same_db])+

subsection \<open>Every change leaves an event\<close>

datatype user_command = FriendCommand friend_command | GroupCommand group_command

fun run_command :: "friend_service \<Rightarrow> group_service \<Rightarrow> user_command \<Rightarrow> unit io" where
  "run_command fs gs (FriendCommand c) = run_friend_command fs c"
| "run_command fs gs (GroupCommand c) = group_command gs c"

lemma grow_commands:
  "friend_ports_ok fs \<Longrightarrow> ports_ok gs \<Longrightarrow> framed outbox_grow (run_command fs gs c)"
  by (cases c) (simp_all add: grow_friend_commands grow_group_commands)

text \<open>
  C11. The transactional outbox: whatever remote calls of a friend or group command fail, the
  commit that changes what a user's friends, a user's blacklist or a group's members look like also
  appends a pending reconcile event for exactly that owner. No event is ever lost or rewritten by a
  command.
\<close>

theorem changes_leave_events:
  assumes "friend_ports_ok fs" "ports_ok gs"
  shows "\<exists>new. cache_events (w_db (snd (run_command fs gs c w))) = cache_events (w_db w) @ new \<and>
    (\<forall>r i. changed r i (w_db w) (w_db (snd (run_command fs gs c w))) \<longrightarrow>
      (\<exists>e\<in>set new. ce_resource e = r \<and> ce_resource_id e = i \<and> ce_status e = 0))"
proof -
  have "outbox_grow w (snd (run_command fs gs c w))" using grow_commands [OF assms] by (simp add: framed_def)
  then obtain new where "appended w (snd (run_command fs gs c w)) new" by (auto simp: outbox_grow_def)
  then show ?thesis unfolding appended_def about_def by (intro exI [of _ new]) blast
qed

theorem changes_leave_events_witness:
  "\<exists>new. cache_events (w_db (snd (run_command no_friend_ports no_ports (FriendCommand (FBlock 1 2)) demo_friends))) =
      cache_events (w_db demo_friends) @ new \<and>
    (\<forall>r i. changed r i (w_db demo_friends) (w_db (snd (run_command no_friend_ports no_ports (FriendCommand (FBlock 1 2)) demo_friends))) \<longrightarrow>
      (\<exists>e\<in>set new. ce_resource e = r \<and> ce_resource_id e = i \<and> ce_status e = 0))"
  by (rule changes_leave_events) simp_all

end
