(* ===== verification/CacheSystem.thy ===== *)
theory CacheSystem
  imports Outbox
begin

text \<open>
  The system: friend and group commands of any number of users, the cache service behind the access
  checks and behind the services' write-through, the workers that drain the queue, crashes between
  any two of their calls, a Redis that loses its data, and a network that fails at will.
\<close>

subsection \<open>No stale projection without a pending event\<close>

text \<open>
  The history variable \<open>R\<close> holds the IDs of the events whose owner a worker has reconciled
  successfully: those a worker may mark done.
\<close>

definition waiting :: "int set \<Rightarrow> cache_resource \<Rightarrow> int \<Rightarrow> db \<Rightarrow> bool" where
  "waiting R r i d \<longleftrightarrow> (\<exists>e\<in>set (cache_events d). about r i e \<and> ce_status e \<noteq> 2 \<and> ce_id e \<notin> R)"

definition queue_ok :: "int set \<Rightarrow> world \<Rightarrow> bool" where
  "queue_ok R w \<longleftrightarrow> distinct (map ce_id (cache_events (w_db w))) \<and>
     (\<forall>e\<in>set (cache_events (w_db w)). ce_id e < ai_cache_events (w_auto w)) \<and>
     (\<forall>x\<in>R. x < ai_cache_events (w_auto w))"

definition never_stale :: "int set \<Rightarrow> world \<Rightarrow> bool" where
  "never_stale R w \<longleftrightarrow> cache_ok (w_cache w) \<and> queue_ok R w \<and>
     (\<forall>r i. loaded r i (w_cache w) \<longrightarrow> projected r i (w_db w) (w_cache w) \<or> waiting R r i (w_db w))"

definition stale_step :: "int set \<Rightarrow> world \<Rightarrow> world \<Rightarrow> bool" where
  "stale_step R w w' \<longleftrightarrow> (never_stale R w \<longrightarrow> never_stale R w')"

interpretation stale: world_frame "stale_step R" for R
  by unfold_locales (auto simp: stale_step_def never_stale_def queue_ok_def)

lemma queue_grow:
  assumes "queue_ok R w" "outbox_grow w w'"
  shows "queue_ok R w'"
proof -
  obtain new where n: "appended w w' new" and le: "ai_cache_events (w_auto w) \<le> ai_cache_events (w_auto w')"
    using assms(2) by (auto simp: outbox_grow_def)
  have "\<forall>e\<in>set (cache_events (w_db w)). \<forall>f\<in>set new. ce_id e < ce_id f"
    using n assms(1) unfolding appended_def queue_ok_def by force
  then have "ce_id ` set (cache_events (w_db w)) \<inter> ce_id ` set new = {}" by force
  then show ?thesis using assms(1) n le unfolding queue_ok_def appended_def by force
qed

lemma waiting_grow:
  assumes "appended w w' new" "waiting R r i (w_db w)" shows "waiting R r i (w_db w')"
  using assms by (auto simp: appended_def waiting_def)

text \<open>A user command: the cache is untouched and what changes is announced.\<close>

lemma stale_outbox: "outbox_step w w' \<Longrightarrow> stale_step R w w'"
  unfolding stale_step_def
proof
  assume out: "outbox_step w w'" and inv: "never_stale R w"
  then obtain new where n: "appended w w' new" and c: "w_cache w' = w_cache w"
    by (auto simp: outbox_step_def outbox_grow_def)
  have "projected r i (w_db w') (w_cache w') \<or> waiting R r i (w_db w')" if "loaded r i (w_cache w')" for r i
  proof (cases "changed r i (w_db w) (w_db w')")
    case True
    then obtain e where e: "e \<in> set new" "about r i e" using n unfolding appended_def by blast
    then have "ce_status e = 0" "ce_id e \<notin> R" "e \<in> set (cache_events (w_db w'))"
      using n inv unfolding appended_def never_stale_def queue_ok_def by force+
    then have "waiting R r i (w_db w')" using e unfolding waiting_def by (intro bexI [of _ e]) simp_all
    then show ?thesis ..
  next
    case False
    have "projected r i (w_db w) (w_cache w) \<or> waiting R r i (w_db w)"
      using inv that c by (simp add: never_stale_def)
    then show ?thesis using projected_unchanged [OF False] waiting_grow [OF n] c by auto
  qed
  then show "never_stale R w'" using inv c queue_grow out unfolding never_stale_def outbox_step_def by metis
qed

text \<open>A cache operation: the database is untouched.\<close>

lemma stale_projections:
  assumes "projections_step w w'" "same_db w w'" shows "stale_step R w w'"
  unfolding stale_step_def
proof
  assume inv: "never_stale R w"
  have db: "w_db w' = w_db w" "w_auto w' = w_auto w" using assms(2) by (simp_all add: same_db_def)
  have p: "cache_ok (w_cache w')" "\<And>r i. projected r i (w_db w) (w_cache w) \<Longrightarrow> projected r i (w_db w) (w_cache w')"
    "\<And>r i. loaded r i (w_cache w') \<Longrightarrow> loaded r i (w_cache w) \<or> projected r i (w_db w) (w_cache w')"
    using assms(1) inv unfolding projections_step_def never_stale_def by blast+
  have "projected r i (w_db w) (w_cache w') \<or> waiting R r i (w_db w)" if "loaded r i (w_cache w')" for r i
    using p(2,3) [of r i] that inv unfolding never_stale_def by blast
  then show "never_stale R w'" using inv p(1) unfolding never_stale_def queue_ok_def db by blast
qed

lemma framed_stale_outbox: "framed outbox_step m \<Longrightarrow> framed (stale_step R) m"
  by (simp add: framed_def stale_outbox)

lemma framed_stale_cache: "framed projections_step m \<Longrightarrow> framed same_db m \<Longrightarrow> framed (stale_step R) m"
  by (simp add: framed_def stale_projections)

subsection \<open>The cache operations leave the database alone\<close>

lemma db_remote: "(\<And>w. same_db w (snd (op w))) \<Longrightarrow> framed same_db (remote op)"
  by (intro db_frame.framed_remote) (simp add: framed_def)

lemma db_redis: "framed same_db (redis_read f)" "framed same_db (redis_write g)"
  unfolding redis_read_def redis_write_def redis_def by (intro db_remote; simp add: same_db_def)+

lemma db_tx:
  assumes "framed same_db m" shows "framed same_db (tx_block rep what m)"
  unfolding framed_def
proof
  fix w
  have "same_db (net_pop w) (snd (m (net_pop w)))" using assms by (simp add: framed_def)
  then have "same_db w (snd (m (net_pop w)))" by (simp add: same_db_def)
  then show "same_db w (snd (tx_block rep what m w))"
    by (auto simp: tx_block_def same_db_def split: net_outcome.splits prod.splits sum.splits)
qed

lemma db_lift: "framed same_db (lift_result r)"
  unfolding lift_result_def by (intro db_frame.framed_intros)

lemma db_sleep: "framed same_db (sleep d)"
  by (simp add: framed_def sleep_def same_db_def)

lemma db_locks:
  "framed same_db (try_cache_warm_lock r i ttl)" "framed same_db (release_cache_warm_lock r i token)"
  unfolding try_cache_warm_lock_def release_cache_warm_lock_def random_cache_token_def random_token_def Let_def
  by (intro db_frame.framed_intros db_remote; simp add: same_db_def)+

lemma db_reconcile_current: "framed same_db (reconcile_current r i)"
proof -
  have "framed same_db (snapshot_body r i (reconcile_snapshot r i))"
    unfolding snapshot_body_def lock_cache_owner_def
      reconcile_snapshot_def list_friend_ids_for_cache_def list_blocked_ids_for_cache_def group_exists_for_cache_def
      list_group_members_for_cache_def replace_friend_owner_def replace_blacklist_owner_def
      replace_group_members_owner_def delete_disbanded_group_runtime_def scan_friend_suffixes_def
      read_reverse_group_members_def
    by (cases r) (auto intro!: db_frame.framed_intros db_redis db_lift)
  then show ?thesis unfolding reconcile_current_def
    by (intro db_frame.framed_on_error framed_snapshot db_frame.framed_throw db_tx)
qed

lemma db_lock_loop:
  assumes "framed same_db operation" shows "framed same_db (lock_loop fuel opt deadline r i what operation)"
proof (induction fuel)
  case (Suc fuel)
  have "framed same_db (\<lambda>w. if deadline \<le> w_clock w then throw e w
      else lock_loop fuel opt deadline r i what operation w)" for e
    using Suc by (simp add: framed_def throw_def db_frame.frame_refl)
  then show ?case unfolding lock_loop.simps finish_locked_def
    by (intro db_frame.framed_intros db_locks db_sleep assms)
qed (simp add: db_frame.framed_throw)

lemma db_with_lock: "framed same_db operation \<Longrightarrow> framed same_db (with_resource_lock opt r i what operation)"
  using db_lock_loop by (simp add: framed_def with_resource_lock_def)

lemma db_reconcile_now: "framed same_db (reconcile_now opt r i)"
  unfolding reconcile_now_def by (intro db_frame.framed_intros db_with_lock db_reconcile_current)

lemma db_is_loaded: "framed same_db (is_loaded r i)"
  unfolding is_loaded_def friends_loaded_def blacklist_loaded_def group_members_loaded_def
  by (cases r) (auto intro!: db_frame.framed_intros db_redis)

lemma db_access:
  "framed same_db (ensure_private_access opt a b)" "framed same_db (ensure_group_access opt gid)"
  unfolding ensure_private_access_def ensure_group_access_def ensure_loaded_def load_if_still_missing_def
    is_group_tombstoned_def group_exists_for_cache_def
  by (intro db_frame.framed_intros db_is_loaded db_with_lock db_reconcile_current)+

lemma db_reconcile_each: "framed same_db (reconcile_each opt r seen owners)"
  by (induction seen owners rule: reconcile_each.induct)
    (simp_all add: db_frame.framed_intros db_reconcile_now)

lemma db_friend_cache_port:
  "framed same_db (set_friend_cache opt a b)" "framed same_db (delete_friend_cache opt a b)"
  "framed same_db (set_blacklist_member opt a b)" "framed same_db (delete_blacklist_member opt a b)"
  unfolding set_friend_cache_def delete_friend_cache_def set_blacklist_member_def delete_blacklist_member_def
    reconcile_owners_def throw_joined_def
  by (intro db_frame.framed_intros db_reconcile_each db_reconcile_now)+

lemma db_bulk: "framed same_db (reconcile_for_bulk opt strict r i)"
  unfolding reconcile_for_bulk_def invalidate_projection_markers_def
  by (intro db_frame.framed_intros db_reconcile_now db_with_lock db_reconcile_current db_redis)

subsection \<open>The queue's operations\<close>

definition same_side :: "world \<Rightarrow> world \<Rightarrow> bool" where
  "same_side w w' \<longleftrightarrow> w_cache w' = w_cache w \<and> w_auto w' = w_auto w"

interpretation side_frame: world_frame same_side
  by unfold_locales (auto simp: same_side_def)

text \<open>Rewriting event rows in place; only events in \<open>R\<close> may become done.\<close>

lemma stale_update:
  assumes "same_side w w'" "same_relations (w_db w) (w_db w')"
    "cache_events (w_db w') = update_where p f (cache_events (w_db w))"
    "\<And>e. ce_id (f e) = ce_id e \<and> ce_resource (f e) = ce_resource e \<and> ce_resource_id (f e) = ce_resource_id e"
    "\<And>e. p e \<Longrightarrow> ce_status (f e) \<noteq> 2 \<or> ce_id e \<in> R"
  shows "stale_step R w w'"
  unfolding stale_step_def
proof
  assume inv: "never_stale R w"
  have "waiting R r i (w_db w')" if wt: "waiting R r i (w_db w)" for r i
  proof -
    obtain e where e: "e \<in> set (cache_events (w_db w))" "about r i e" "ce_status e \<noteq> 2" "ce_id e \<notin> R"
      using wt by (auto simp: waiting_def)
    let ?f = "if p e then f e else e"
    have "?f \<in> set (cache_events (w_db w'))" using e(1) assms(3) by (auto simp: set_update_where)
    moreover have "about r i ?f" "ce_status ?f \<noteq> 2" "ce_id ?f \<notin> R" using e assms(4,5) by (auto simp: about_def)
    ultimately show ?thesis unfolding waiting_def by blast
  qed
  moreover have "map ce_id (cache_events (w_db w')) = map ce_id (cache_events (w_db w))"
    using assms(3,4) map_update_where [of ce_id f p] by simp
  moreover have "queue_ok R w'"
  proof -
    have "set (map ce_id (cache_events (w_db w'))) = set (map ce_id (cache_events (w_db w)))"
      using calculation(2) by simp
    then have "ce_id ` set (cache_events (w_db w')) = ce_id ` set (cache_events (w_db w))" by simp
    then show ?thesis using inv calculation(2) assms(1) unfolding never_stale_def queue_ok_def same_side_def by (metis imageE imageI)
  qed
  ultimately show "never_stale R w'"
    using inv assms(1) projected_same [OF assms(2)] unfolding never_stale_def same_side_def by metis
qed

lemma stale_side: "same_side w w' \<Longrightarrow> w_db w' = w_db w \<Longrightarrow> stale_step R w w'"
  by (simp add: stale_step_def never_stale_def queue_ok_def same_side_def)

lemma stale_tx:
  assumes "framed (stale_step R) body" "framed same_side body"
  shows "framed (stale_step R) (tx_block rep what body)"
  unfolding framed_def
proof
  fix w
  obtain r w1 where b: "body (net_pop w) = (r, w1)" by fastforce
  have w1: "stale_step R w w1" "same_side w w1"
    using assms b by (metis framed_def snd_conv stale.frame_trans stale.frame_net_pop
        side_frame.frame_trans side_frame.frame_net_pop)+
  have "stale_step R w ((net_pop w1)\<lparr>w_db := w_db w\<rparr>)"
    using w1(2) by (intro stale_side) (simp_all add: same_side_def)
  moreover have "stale_step R w (net_pop w1)" using w1(1) stale.frame_trans stale.frame_net_pop by blast
  ultimately show "stale_step R w (snd (tx_block rep what body w))"
    using b stale.frame_net_pop by (auto simp: tx_block_def split: net_outcome.splits prod.splits sum.splits)
qed

lemma stale_claimed: "framed (stale_step R) (exec (\<lambda>w d. mark_claimed token ids (g w) d))"
  unfolding exec_def
proof (intro stale.framed_on_error stale.framed_remote)
  show "framed (stale_step R) (\<lambda>w. (Inr (), w\<lparr>w_db := mark_claimed token ids (g w) (w_db w)\<rparr>))"
    unfolding framed_def
  proof
    fix w
    show "stale_step R w (snd (Inr (), w\<lparr>w_db := mark_claimed token ids (g w) (w_db w)\<rparr>))"
      by (rule stale_update [where p = "\<lambda>e. ce_id e \<in> set ids" and f = "claimed_row token (g w)"])
        (simp_all add: same_side_def same_relations_def mark_claimed_def claimed_row_def)
  qed
qed

lemma side_exec: "framed same_side (exec f)" "framed same_side (exec_count h)"
  unfolding exec_def exec_count_def
  by (intro side_frame.framed_on_error side_frame.framed_remote; simp add: framed_def same_side_def split: prod.split)+

lemma side_now: "framed same_side now"
  by (simp add: framed_def now_def same_side_def Let_def)

lemma side_select: "framed same_side (remote (\<lambda>w. (Inr (g w), w)))"
  by (intro side_frame.framed_remote) (simp add: framed_def same_side_def)

lemma stale_now: "framed (stale_step R) now"
  by (simp add: framed_def now_def Let_def stale_side same_side_def)

lemma stale_select: "framed (stale_step R) (remote (\<lambda>w. (Inr (g w), w)))"
  by (intro stale.framed_remote) (simp add: framed_def stale_side same_side_def)

lemma stale_random: "framed (stale_step R) random_token"
  unfolding random_token_def by (intro stale.framed_remote) (simp add: framed_def stale_side same_side_def)

lemma stale_claim: "framed (stale_step R) (claim_cache_reconcile_events worker limit lease)"
  unfolding claim_cache_reconcile_events_def claim_body_def new_cache_claim_token_def Let_def
  by (intro stale.framed_intros stale_tx stale_now stale_select stale_claimed stale_random
      side_frame.framed_intros side_now side_select side_exec)

lemma stale_count:
  assumes "\<And>w e. ce_id (f w e) = ce_id e \<and> ce_resource (f w e) = ce_resource e \<and> ce_resource_id (f w e) = ce_resource_id e"
    "\<And>w e. p e \<Longrightarrow> ce_status (f w e) \<noteq> 2 \<or> ce_id e \<in> R"
  shows "framed (stale_step R) (exec_count (\<lambda>w d. (n d, d\<lparr>cache_events := update_where p (f w) (cache_events d)\<rparr>)))"
  unfolding exec_count_def
proof (intro stale.framed_on_error stale.framed_remote)
  show "framed (stale_step R) (\<lambda>w. let (k, d) = (n (w_db w), (w_db w)\<lparr>cache_events := update_where p (f w) (cache_events (w_db w))\<rparr>)
      in (Inr k, w\<lparr>w_db := d\<rparr>))"
    unfolding framed_def
  proof
    fix w
    show "stale_step R w (snd (let (k, d) = (n (w_db w), (w_db w)\<lparr>cache_events := update_where p (f w) (cache_events (w_db w))\<rparr>)
        in (Inr k, w\<lparr>w_db := d\<rparr>)))"
      by (rule stale_update [where p = p and f = "f w"])
        (use assms in \<open>auto simp: same_side_def same_relations_def\<close>)
  qed
qed

lemma stale_failure: "framed (stale_step R) (mark_cache_reconcile_failure i token cause retry)"
  unfolding mark_cache_reconcile_failure_def require_one_affected_def Let_def
  by (intro stale.framed_intros stale_now stale_count) (simp_all add: failed_row_def)

lemma stale_success: "i \<in> R \<Longrightarrow> framed (stale_step R) (mark_cache_reconcile_success i token)"
  unfolding mark_cache_reconcile_success_def require_one_affected_def
  by (intro stale.framed_intros stale_count) (auto simp: done_row_def holds_claim_def)

subsection \<open>A worker's round\<close>

lemma never_stale_weaken: "never_stale (insert i R) w \<Longrightarrow> never_stale R w"
  unfolding never_stale_def queue_ok_def waiting_def by blast

text \<open>A claimed event stands for a row of the table.\<close>

definition queued :: "cache_event \<Rightarrow> db \<Rightarrow> bool" where
  "queued e d \<longleftrightarrow> (\<exists>f\<in>set (cache_events d). ce_id f = ce_id e \<and> about (ce_resource e) (ce_resource_id e) f)"

definition same_rows :: "world \<Rightarrow> world \<Rightarrow> bool" where
  "same_rows w w' \<longleftrightarrow> (\<forall>e. queued e (w_db w) \<longrightarrow> queued e (w_db w'))"

interpretation rows_frame: world_frame same_rows
  by unfold_locales (auto simp: same_rows_def)

lemma rows_same_db: "framed same_db m \<Longrightarrow> framed same_rows m"
  by (simp add: framed_def same_db_def same_rows_def)

lemma queued_update:
  assumes "queued e d" "cache_events d' = update_where p f (cache_events d)"
    "\<And>e. ce_id (f e) = ce_id e \<and> ce_resource (f e) = ce_resource e \<and> ce_resource_id (f e) = ce_resource_id e"
  shows "queued e d'"
proof -
  obtain r where r: "r \<in> set (cache_events d)" "ce_id r = ce_id e" "about (ce_resource e) (ce_resource_id e) r"
    using assms(1) by (auto simp: queued_def)
  let ?r = "if p r then f r else r"
  have "?r \<in> set (cache_events d')" using r(1) assms(2) by (auto simp: set_update_where)
  moreover have "ce_id ?r = ce_id e" "about (ce_resource e) (ce_resource_id e) ?r" using r assms(3) by (auto simp: about_def)
  ultimately show ?thesis unfolding queued_def by blast
qed

lemma rows_count:
  assumes "\<And>w e. ce_id (f w e) = ce_id e \<and> ce_resource (f w e) = ce_resource e \<and> ce_resource_id (f w e) = ce_resource_id e"
  shows "framed same_rows (exec_count (\<lambda>w d. (n d, d\<lparr>cache_events := update_where p (f w) (cache_events d)\<rparr>)))"
  unfolding exec_count_def
proof (intro rows_frame.framed_on_error rows_frame.framed_remote)
  show "framed same_rows (\<lambda>w. let (k, d) = (n (w_db w), (w_db w)\<lparr>cache_events := update_where p (f w) (cache_events (w_db w))\<rparr>)
      in (Inr k, w\<lparr>w_db := d\<rparr>))"
    using queued_update [where p = p] assms by (simp add: framed_def same_rows_def)
qed

lemma rows_marks:
  "framed same_rows (mark_cache_reconcile_success i token)"
  "framed same_rows (mark_cache_reconcile_failure i token cause retry)"
  unfolding mark_cache_reconcile_success_def mark_cache_reconcile_failure_def require_one_affected_def Let_def
  by (intro rows_frame.framed_intros rows_count framed_db_now [THEN rows_same_db]; simp add: done_row_def failed_row_def)+

lemma rows_run_event: "framed same_rows (run_event render opt r e)"
  unfolding run_event_def
  by (intro rows_frame.framed_intros rows_marks db_reconcile_now [THEN rows_same_db])

lemma stale_reconcile_now: "framed (stale_step R) (reconcile_now opt r i)"
  by (intro framed_stale_cache proj_reconcile_now db_reconcile_now)

lemma stale_reconciled:
  assumes inv: "never_stale R w" and e: "queued e (w_db w)"
    and ok: "reconcile_now opt (ce_resource e) (ce_resource_id e) w = (Inr (), w')"
  shows "never_stale (insert (ce_id e) R) w'"
proof -
  have inv': "never_stale R w'" using stale_reconcile_now inv ok by (metis framed_def stale_step_def snd_conv)
  have db: "w_db w' = w_db w" "w_auto w' = w_auto w"
    using db_reconcile_now ok by (metis framed_def same_db_def snd_conv)+
  have p: "projected (ce_resource e) (ce_resource_id e) (w_db w) (w_cache w')"
    using reconcile_now_ok [OF ok] inv by (simp add: never_stale_def)
  obtain e0 where e0: "e0 \<in> set (cache_events (w_db w))" "ce_id e0 = ce_id e" "about (ce_resource e) (ce_resource_id e) e0"
    using e by (auto simp: queued_def)
  have "projected r i (w_db w') (w_cache w') \<or> waiting (insert (ce_id e) R) r i (w_db w')"
    if l: "loaded r i (w_cache w')" for r i
  proof (cases "about r i e0")
    case True
    then show ?thesis using p e0(3) db(1) by (simp add: about_def)
  next
    case False
    have "waiting (insert (ce_id e) R) r i (w_db w')" if wt: "waiting R r i (w_db w')"
    proof -
      obtain f where f: "f \<in> set (cache_events (w_db w'))" "about r i f" "ce_status f \<noteq> 2" "ce_id f \<notin> R"
        using wt by (auto simp: waiting_def)
      have "ce_id f \<noteq> ce_id e0"
        using inv' f e0(1) False db(1) unfolding never_stale_def queue_ok_def distinct_map inj_on_def by metis
      then show ?thesis using f e0(2) unfolding waiting_def by auto
    qed
    then show ?thesis using inv' l unfolding never_stale_def by blast
  qed
  moreover have "ce_id e < ai_cache_events (w_auto w')"
    using inv e0 db(2) unfolding never_stale_def queue_ok_def by metis
  ultimately show ?thesis using inv' unfolding never_stale_def queue_ok_def by blast
qed

lemma never_stale_run_event:
  assumes inv: "never_stale R w" and e: "queued e (w_db w)"
  shows "never_stale R (snd (run_event render opt r e w))"
proof -
  obtain q w1 where q: "reconcile_now opt (ce_resource e) (ce_resource_id e) w = (q, w1)" by fastforce
  show ?thesis
  proof (cases q)
    case (Inl cause)
    have "framed (stale_step R) (andThen (attempt (mark_cache_reconcile_failure (ce_id e) (ce_lock_token e) m t)) (\<lambda>m. ret (g m)))"
      for m t and g :: "go_error + unit \<Rightarrow> go_error option"
      by (intro stale.framed_intros stale_failure)
    moreover have "never_stale R w1" using stale_reconcile_now inv q by (metis framed_def stale_step_def snd_conv)
    ultimately show ?thesis using q Inl
      by (simp add: run_event_def andThen_def [of "attempt (reconcile_now _ _ _)"] attempt_def [of "reconcile_now _ _ _"] framed_def stale_step_def)
  next
    case (Inr u)
    have "framed (stale_step (insert (ce_id e) R)) (andThen (attempt (mark_cache_reconcile_success (ce_id e) (ce_lock_token e))) (\<lambda>m. ret (g m)))"
      for g :: "go_error + unit \<Rightarrow> go_error option"
      by (intro stale.framed_intros stale_success) simp
    moreover have "never_stale (insert (ce_id e) R) w1" using stale_reconciled [OF inv e] q Inr by simp
    ultimately have "never_stale (insert (ce_id e) R) (snd (run_event render opt r e w))" using q Inr
      by (simp add: run_event_def andThen_def [of "attempt (reconcile_now _ _ _)"] attempt_def [of "reconcile_now _ _ _"] framed_def stale_step_def)
    then show ?thesis by (rule never_stale_weaken)
  qed
qed

lemma never_stale_run_events:
  "never_stale R w \<Longrightarrow> (\<And>e. e \<in> set es \<Longrightarrow> queued e (w_db w)) \<Longrightarrow> never_stale R (snd (run_events render opt r es w))"
proof (induction es arbitrary: w)
  case (Cons e es)
  obtain q w1 where q: "run_event render opt r e w = (q, w1)" by fastforce
  have "never_stale R w1" using never_stale_run_event Cons.prems q by (metis list.set_intros(1) snd_conv)
  moreover have "queued f (w_db w1)" if "f \<in> set es" for f
    using rows_run_event q Cons.prems(2) that unfolding framed_def same_rows_def by (metis list.set_intros(2) snd_conv)
  ultimately have "never_stale R (snd (run_events render opt r es w1))" using Cons.IH by blast
  moreover have "framed (stale_step R) (ret x)" for x :: "go_error option list" by (rule stale.framed_ret)
  ultimately show ?case using q \<open>never_stale R w1\<close>
    by (auto simp: andThen_def ret_def split: sum.split prod.split)
qed (simp add: ret_def)

lemma claim_queued:
  assumes "claim_cache_reconcile_events worker limit lease w = (Inr es, w')" "e \<in> set es"
  shows "queued e (w_db w')"
proof -
  obtain token stale_before w1 w2 where b: "claim_body token stale_before (normalize_cache_page_limit limit) w1 = (Inr es, w2)"
    and db: "w_db w' = w_db w2"
    using assms(1) by (auto simp: claim_cache_reconcile_events_def Let_def io_simps split: if_splits)
  have sel: "set (select_claimable s t l rows) \<subseteq> set rows" for s t l rows
    by (auto simp: select_claimable_def dest!: in_set_takeD)
  obtain r where r: "r \<in> set (select_claimable stale_before (sql_now6 w1) (normalize_cache_page_limit limit) (cache_events (w_db w1)))"
    "e = r\<lparr>ce_attempts := ce_attempts r + 1, ce_lock_token := Some token\<rparr>"
    and d2: "\<exists>ids t. w_db w2 = mark_claimed token ids t (w_db w1)"
    using b assms(2) by (auto simp: claim_body_def Let_def io_simps split: if_splits)
  have "queued e (w_db w1)" using r sel unfolding queued_def about_def by fastforce
  then show ?thesis using d2 queued_update [of e "w_db w1"] unfolding db
    by (auto simp: mark_claimed_def claimed_row_def)
qed

lemma never_stale_run_once:
  assumes "never_stale R w" shows "never_stale R (snd (run_once render opt r w))"
proof -
  obtain q w1 where q: "claim_cache_reconcile_events (rw_worker r) (rw_batch r) (rw_lease r) w = (q, w1)" by fastforce
  have w1: "never_stale R w1" using stale_claim assms q by (metis framed_def stale_step_def snd_conv)
  show ?thesis
  proof (cases q)
    case (Inl e)
    then show ?thesis using q w1 by (simp add: run_once_def andThen_def on_error_def)
  next
    case (Inr es)
    have "never_stale R (snd (run_events render opt r es w1))"
      using never_stale_run_events [OF w1] claim_queued q Inr by blast
    then show ?thesis using q Inr by (auto simp: run_once_def andThen_def on_error_def ret_def split: sum.split prod.split)
  qed
qed

subsection \<open>User commands with the cache service behind them\<close>

text \<open>\<open>cmd/server\<close> hands the cache service to both services as their write-through port.\<close>

definition truth_cache_writer :: "cache_truth_options \<Rightarrow> friend_cache_writer" where
  "truth_cache_writer opt = \<lparr>fc_set_friend = set_friend_cache opt, fc_delete_friend = delete_friend_cache opt,
     fc_set_blacklist = set_blacklist_member opt, fc_delete_blacklist = delete_blacklist_member opt\<rparr>"

definition wired_friends :: "cache_truth_options \<Rightarrow> (int \<Rightarrow> string \<Rightarrow> payload \<Rightarrow> unit io) \<Rightarrow> friend_service" where
  "wired_friends opt push = \<lparr>sv_cache = Some (truth_cache_writer opt), sv_notifier = Some push, sv_presence = None\<rparr>"

definition wired_groups :: "cache_truth_options \<Rightarrow> (int \<Rightarrow> string \<Rightarrow> payload \<Rightarrow> unit io) \<Rightarrow> group_service" where
  "wired_groups opt push = \<lparr>gs_cache = Some (reconcile_group_members opt), gs_notifier = Some push\<rparr>"

text \<open>A notification reaches neither MySQL nor the projections.\<close>

definition push_safe :: "(int \<Rightarrow> string \<Rightarrow> payload \<Rightarrow> unit io) \<Rightarrow> bool" where
  "push_safe push \<longleftrightarrow> (\<forall>u t p. framed same_db (push u t p) \<and> framed same_cache (push u t p))"

lemma stale_push: "push_safe push \<Longrightarrow> framed (stale_step R) (push u t p)"
  unfolding push_safe_def framed_def same_db_def same_cache_def
  by (auto intro!: stale_side simp: same_side_def)

lemma stale_port:
  "framed (stale_step R) (set_friend_cache opt a b)" "framed (stale_step R) (delete_friend_cache opt a b)"
  "framed (stale_step R) (set_blacklist_member opt a b)" "framed (stale_step R) (delete_blacklist_member opt a b)"
  by (intro framed_stale_cache proj_friend_cache_port db_friend_cache_port)+

lemma stale_friend_ports:
  assumes "push_safe push"
  shows "framed (stale_step R) (write_cache (wired_friends opt push) (\<lambda>c. fc_set_friend c a b))"
    "framed (stale_step R) (write_cache (wired_friends opt push) (\<lambda>c. fc_delete_friend c a b))"
    "framed (stale_step R) (write_cache (wired_friends opt push) (\<lambda>c. fc_set_blacklist c a b))"
    "framed (stale_step R) (write_cache (wired_friends opt push) (\<lambda>c. fc_delete_blacklist c a b))"
    "framed (stale_step R) (friend_notify (wired_friends opt push) u t p)"
  by (simp_all add: write_cache_def friend_notify_def wired_friends_def truth_cache_writer_def
      stale.framed_best_effort stale_port stale_push [OF assms])

lemma stale_group_ports:
  assumes "push_safe push"
  shows "framed (stale_step R) (refresh_group_member_cache (wired_groups opt push) gid)"
    "framed (stale_step R) (notify_group_user (wired_groups opt push) u t p)"
    "framed (stale_step R) (notify_current_group_members (wired_groups opt push) gid t p fb)"
proof -
  show r: "framed (stale_step R) (refresh_group_member_cache (wired_groups opt push) gid)"
    by (simp add: refresh_group_member_cache_def wired_groups_def reconcile_group_members_def
        stale.framed_best_effort stale_reconcile_now stale.framed_throw)
  show n: "framed (stale_step R) (notify_group_user (wired_groups opt push) u t p)" for u
    by (simp add: notify_group_user_def wired_groups_def stale.framed_best_effort stale_push [OF assms])
  have g: "framed (stale_step R) (get_group_members gid)"
    unfolding get_group_members_def query_def
    by (intro stale.framed_on_error stale.framed_remote) (simp add: framed_def stale.frame_refl)
  show "framed (stale_step R) (notify_current_group_members (wired_groups opt push) gid t p fb)"
    unfolding notify_current_group_members_def Let_def
    by (simp add: wired_groups_def del: not_None_eq)
      (intro stale.framed_andThen stale.framed_attempt g stale.framed_for_each n [unfolded wired_groups_def])
qed

lemmas stale_command_intros = stale.framed_intros friend_tx_outbox [THEN framed_stale_outbox]
  group_tx_outbox [THEN framed_stale_outbox]

lemma stale_friend_command:
  assumes "push_safe push" shows "framed (stale_step R) (run_friend_command (wired_friends opt push) c)"
proof -
  have rd: "framed (stale_step R) (get_friend_request i)" for i
    unfolding get_friend_request_def query_def
    by (intro stale.framed_on_error stale.framed_remote) (simp add: framed_def stale.frame_refl)
  show ?thesis
    by (cases c; simp only: run_friend_command.simps isolate_def friend_send_request_def friend_accept_request_def
        friend_reject_request_def friend_delete_def friend_block_def friend_unblock_def)
      (intro stale_command_intros rd stale_now stale_friend_ports assms)+
qed

lemma stale_deadline: "framed (stale_step R) (normalize_group_mute_deadline t)"
  unfolding normalize_group_mute_deadline_def Let_def by (intro stale.framed_intros stale_now)

lemma stale_group_command:
  assumes "push_safe push" shows "framed (stale_step R) (group_command (wired_groups opt push) c)"
  by (cases c; simp only: group_command.simps isolate_def group_create_def group_add_member_def
      group_remove_member_def group_update_role_def group_mute_member_def group_transfer_ownership_def
      group_leave_def group_disband_def group_update_def)
    (intro stale_command_intros stale_deadline stale_group_ports assms)+

lemma stale_user_command:
  "push_safe push \<Longrightarrow> framed (stale_step R) (run_command (wired_friends opt push) (wired_groups opt push) c)"
  by (cases c) (simp_all add: stale_friend_command stale_group_command)

subsection \<open>All schedules\<close>

lemma never_stale_keep: "framed (stale_step R) m \<Longrightarrow> never_stale R w \<Longrightarrow> never_stale R (snd (m w))"
  by (simp add: framed_def stale_step_def)

inductive system_step :: "cache_truth_options \<Rightarrow> (int \<Rightarrow> string \<Rightarrow> payload \<Rightarrow> unit io) \<Rightarrow>
    world \<times> int set \<Rightarrow> world \<times> int set \<Rightarrow> bool" for opt push where
  user: "system_step opt push (w, R) (snd (run_command (wired_friends opt push) (wired_groups opt push) c w), R)"
| private_access: "system_step opt push (w, R) (snd (ensure_private_access opt a b w), R)"
| group_access: "system_step opt push (w, R) (snd (ensure_group_access opt gid w), R)"
| repair: "system_step opt push (w, R) (snd (reconcile_for_bulk opt strict resource rid w), R)"
| claim: "system_step opt push (w, R) (snd (claim_cache_reconcile_events worker limit lease w), R)"
| reconciled: "queued e (w_db w) \<Longrightarrow> reconcile_now opt (ce_resource e) (ce_resource_id e) w = (Inr (), w') \<Longrightarrow>
    system_step opt push (w, R) (w', insert (ce_id e) R)"
| not_reconciled: "system_step opt push (w, R) (snd (reconcile_now opt resource rid w), R)"
| finish: "i \<in> R \<Longrightarrow> system_step opt push (w, R) (snd (mark_cache_reconcile_success i token w), R)"
| reschedule: "system_step opt push (w, R) (snd (mark_cache_reconcile_failure i token cause retry w), R)"
| round: "system_step opt push (w, R) (snd (run_once render opt r w), R)"
| redis_loss: "system_step opt push (w, R) (w\<lparr>w_cache := empty_cache\<rparr>, R)"
| environment: "system_step opt push (w, R) (w\<lparr>w_net := net, w_ticks := ticks, w_clock := t\<rparr>, R)"

inductive_cases system_stepE: "system_step opt push (w, R) (w', R')"

lemma empty_cache_ok: "cache_ok empty_cache" "\<not> loaded Friends i empty_cache" "\<not> loaded Blacklist i empty_cache"
  "\<not> loaded GroupMembers i empty_cache"
  by (auto simp: cache_ok_def rep_ok_def index_covers_def empty_cache_def loaded_def group_projection_loaded_def
      split: cache_resource.split)

lemma never_stale_empty: "queue_ok R w \<Longrightarrow> never_stale R (w\<lparr>w_cache := empty_cache\<rparr>)"
proof -
  assume q: "queue_ok R w"
  have "projected r i (w_db w) empty_cache" if "loaded r i empty_cache" for r i
    using that empty_cache_ok by (cases r) (auto simp: projected_def)
  then show ?thesis using q empty_cache_ok(1) by (simp add: never_stale_def queue_ok_def)
qed

lemma system_step_never_stale:
  assumes "system_step opt push s s'" "push_safe push" "never_stale (snd s) (fst s)"
  shows "never_stale (snd s') (fst s')"
  using assms
proof (cases rule: system_step.cases)
  case (repair w R strict resource rid)
  then show ?thesis using assms(3)
    by (simp add: never_stale_keep [OF framed_stale_cache [OF proj_bulk db_bulk]])
next
  case (redis_loss w R)
  then have "queue_ok R w" using assms(3) by (simp add: never_stale_def)
  then show ?thesis using redis_loss never_stale_empty by simp
next
  case (environment w R net ticks t)
  then show ?thesis using assms(3) by (simp add: never_stale_def queue_ok_def)
qed (simp_all add: never_stale_keep stale_user_command framed_stale_cache proj_access db_access stale_claim
    stale_reconciled stale_reconcile_now stale_success stale_failure never_stale_run_once)

lemma system_steps_never_stale:
  assumes "(system_step opt push)\<^sup>*\<^sup>* s s'" "push_safe push" "never_stale (snd s) (fst s)"
  shows "never_stale (snd s') (fst s')"
  using assms by (induction rule: rtranclp_induct) (blast intro: system_step_never_stale)+

text \<open>
  C10. No schedule leaves a stale projection behind. Start with an empty Redis and any database
  whose queue has distinct, allocated IDs. Whatever friend and group commands, access checks,
  repairs, worker calls (claims, reconciliations, completions and reschedules of any workers,
  interleaved with everything else), Redis losses and network faults follow: a projection that
  claims to be loaded shows what MySQL holds, or an event that will make it do so is still pending.
\<close>

theorem no_stale_projection:
  assumes "push_safe push" "(system_step opt push)\<^sup>*\<^sup>* (w0, {}) (w, R)"
    "w_cache w0 = empty_cache" "queue_ok {} w0" "loaded resource rid (w_cache w)"
  shows "projected resource rid (w_db w) (w_cache w) \<or>
    (\<exists>e\<in>set (cache_events (w_db w)). ce_resource e = resource \<and> ce_resource_id e = rid \<and> ce_status e \<noteq> 2)"
proof -
  have "never_stale {} w0" using never_stale_empty [OF assms(4)] assms(3) by (metis world.surjective world.update_convs(3))
  then have "never_stale R w" using system_steps_never_stale [OF assms(2,1)] by simp
  then show ?thesis using assms(5) unfolding never_stale_def waiting_def about_def by blast
qed

definition demo_options :: cache_truth_options where
  "demo_options = \<lparr>co_lock_ttl = 5, co_wait_timeout = 3, co_poll_interval = 1, co_page_size = 10\<rparr>"

definition silent :: "int \<Rightarrow> string \<Rightarrow> payload \<Rightarrow> unit io" where
  "silent u t p = ret ()"

lemma silent_safe: "push_safe silent"
  by (simp add: push_safe_def silent_def [abs_def] db_frame.framed_ret cache_frame.framed_ret)

definition demo_loaded :: world where
  "demo_loaded = snd (ensure_private_access demo_options 1 2 demo_friends)"

lemma demo_loaded_friends: "loaded Friends 1 (w_cache demo_loaded)"
  by code_simp

theorem no_stale_projection_witness:
  "projected Friends 1 (w_db demo_loaded) (w_cache demo_loaded) \<or>
    (\<exists>e\<in>set (cache_events (w_db demo_loaded)). ce_resource e = Friends \<and> ce_resource_id e = 1 \<and> ce_status e \<noteq> 2)"
proof (rule no_stale_projection [OF silent_safe])
  show "(system_step demo_options silent)\<^sup>*\<^sup>* (demo_friends, {}) (demo_loaded, {})"
    unfolding demo_loaded_def by (rule r_into_rtranclp) (rule system_step.private_access)
  show "w_cache demo_friends = empty_cache" by (simp add: demo_friends_def demo_world_def)
  show "queue_ok {} demo_friends" by (simp add: queue_ok_def demo_friends_def demo_world_def empty_db_def)
qed (rule demo_loaded_friends)

end
