(* ===== verification/CacheProps.thy ===== *)
theory CacheProps
  imports CacheSystem
begin

text \<open>
  The promises of the cache service: a successful reconciliation shows the truth, a strict rebuild
  repairs any cache, a bulk run reaches every owner, the audit reports exactly the differences, and
  a claim belongs to one worker.
\<close>

text \<open>
  C12. When \<open>ReconcileNow\<close> returns without an error, the owner's projection is loaded and equals
  MySQL, whatever the cache held before, the cache is still well formed, MySQL is unchanged, and no
  other projection that showed the truth has stopped doing so.
\<close>

theorem reconcile_shows_truth:
  assumes "cache_ok (w_cache w)" "reconcile_now opt resource rid w = (Inr (), w')"
  shows "projected resource rid (w_db w) (w_cache w') \<and> loaded resource rid (w_cache w') \<and>
    cache_ok (w_cache w') \<and> w_db w' = w_db w \<and>
    (\<forall>r i. projected r i (w_db w) (w_cache w) \<longrightarrow> projected r i (w_db w) (w_cache w'))"
proof -
  have "projections_step w w'" using proj_reconcile_now assms(2) by (metis framed_def snd_conv)
  moreover have "w_db w' = w_db w" using db_reconcile_now assms(2) by (metis framed_def same_db_def snd_conv)
  ultimately show ?thesis using reconcile_now_ok [OF assms(2,1)] assms(1) unfolding projections_step_def by blast
qed

lemma demo_reconcile: "fst (reconcile_now demo_options Friends 1 demo_friends) = Inr ()"
  by code_simp

theorem reconcile_shows_truth_witness:
  "projected Friends 1 (w_db demo_friends) (w_cache (snd (reconcile_now demo_options Friends 1 demo_friends)))"
proof -
  have "cache_ok (w_cache demo_friends)" using empty_cache_ok by (simp add: demo_friends_def demo_world_def)
  moreover have "reconcile_now demo_options Friends 1 demo_friends = (Inr (), snd (reconcile_now demo_options Friends 1 demo_friends))"
    using demo_reconcile by (metis prod.collapse)
  ultimately show ?thesis using reconcile_shows_truth by blast
qed

subsection \<open>Strict rebuild\<close>

lemma drop_markers_owner_ok: "rep_ok c \<Longrightarrow> owner_ok resource rid (drop_markers resource rid c)"
  by (cases resource) (auto simp: owner_ok_def rep_ok_def index_covers_def)

lemma rep_ok_seen: "same_but_locks w w' \<Longrightarrow> rep_ok (w_cache w') = rep_ok (w_cache w)"
  by (auto simp: same_but_locks_def)

lemma strict_ok:
  assumes "rep_ok (w_cache w)" "resource_valid resource"
    "reconcile_for_bulk opt True resource rid w = (Inr (), w')"
  shows "projected resource rid (w_db w) (w_cache w') \<and> loaded resource rid (w_cache w')"
proof -
  have "with_resource_lock opt resource rid ''wait for strict cache rebuild''
      (andThen (on_error (redis_error ''prepare strict rebuild'' resource rid)
        (invalidate_projection_markers resource rid)) (\<lambda>_. reconcile_current resource rid)) w = (Inr (), w')"
    using assms(3) by (simp add: reconcile_for_bulk_def)
  then show ?thesis
  proof (rule locked_ok)
    fix w1 w3
    assume op: "andThen (on_error (redis_error ''prepare strict rebuild'' resource rid)
        (invalidate_projection_markers resource rid)) (\<lambda>_. reconcile_current resource rid) w1 = (Inr (), w3)"
      and s: "same_but_locks w w1"
    let ?w2 = "(net_pop w1)\<lparr>w_cache := drop_markers resource rid (w_cache w1)\<rparr>"
    have r: "reconcile_current resource rid ?w2 = (Inr (), w3)"
      using op assms(2) by (auto simp: invalidate_projection_markers_def io_simps)
    have "owner_ok resource rid (w_cache ?w2)"
      using drop_markers_owner_ok rep_ok_seen [OF s] assms(1) by simp
    then show "projected resource rid (w_db w1) (w_cache w3) \<and> loaded resource rid (w_cache w3)"
      using reconcile_current_ok [OF r] assms(2) by simp
  qed
qed

text \<open>
  A strict rebuild of an owner repairs any cache, even one whose owner index has lost entries
  while its marker says it is complete: nothing but the set representation itself is assumed.
\<close>

theorem strict_rebuild_repairs:
  assumes "rep_ok (w_cache w)" "resource_valid resource"
    "reconcile_for_bulk opt True resource rid w = (Inr (), w')"
  shows "projected resource rid (w_db w) (w_cache w') \<and> loaded resource rid (w_cache w')"
  using strict_ok [OF assms] .

text \<open>A cache with a forgotten key: user 9 is listed as a friend of 1 but not in the index.\<close>

definition corrupt_world :: world where
  "corrupt_world = demo_friends\<lparr>w_cache := empty_cache\<lparr>rc_friend := [(1, 9)], rc_friend_loaded := [1],
     rc_friend_index_loaded := [1]\<rparr>\<rparr>"

lemma corrupt_rebuild: "fst (reconcile_for_bulk demo_options True Friends 1 corrupt_world) = Inr ()"
  by code_simp

theorem strict_rebuild_repairs_witness:
  "projected Friends 1 (w_db corrupt_world) (w_cache (snd (reconcile_for_bulk demo_options True Friends 1 corrupt_world)))"
proof -
  have "reconcile_for_bulk demo_options True Friends 1 corrupt_world =
      (Inr (), snd (reconcile_for_bulk demo_options True Friends 1 corrupt_world))"
    using corrupt_rebuild by (metis prod.collapse)
  moreover have "rep_ok (w_cache corrupt_world)" by (simp add: corrupt_world_def rep_ok_def empty_cache_def)
  ultimately show ?thesis using strict_rebuild_repairs [of corrupt_world Friends] by simp
qed

subsection \<open>Paging over the owners\<close>

lemma fold_each_append: "fold_each visit (xs @ ys) r = andThen (fold_each visit xs r) (fold_each visit ys)"
proof (induction xs arbitrary: r)
  case (Cons x xs)
  show ?case by (rule ext) (simp add: Cons andThen_def split: prod.split sum.split)
qed (rule ext, simp add: ret_def andThen_def)

lemma le_last_sorted: "sorted xs \<Longrightarrow> i \<in> set xs \<Longrightarrow> i \<le> last (xs :: int list)"
proof (induction xs)
  case (Cons a xs)
  then show ?case by (cases "xs = []") (auto dest: last_in_set)
qed simp

lemma sorted_after_take:
  assumes "sorted_wrt (<) (xs :: int list)" "take n xs \<noteq> []"
  shows "filter (\<lambda>i. last (take n xs) < i) xs = drop n xs"
proof -
  have xs: "xs = take n xs @ drop n xs" by simp
  have s: "sorted_wrt (<) (take n xs @ drop n xs)" using assms(1) by simp
  have "\<not> last (take n xs) < i" if "i \<in> set (take n xs)" for i
  proof -
    have "sorted (take n xs)" using s by (simp add: sorted_wrt_append strict_sorted_imp_sorted)
    then have "i \<le> last (take n xs)" using that le_last_sorted by blast
    then show ?thesis by simp
  qed
  moreover have "last (take n xs) < i" if "i \<in> set (drop n xs)" for i
    using s that assms(2) last_in_set unfolding sorted_wrt_append by blast
  ultimately have "filter (\<lambda>i. last (take n xs) < i) (take n xs) = []"
    "filter (\<lambda>i. last (take n xs) < i) (drop n xs) = drop n xs"
    by (simp_all add: filter_empty_conv)
  then show ?thesis by (metis append_Nil append_take_drop_id filter_append)
qed

lemma after_after: "a \<le> b \<Longrightarrow> filter (\<lambda>i. b < i) (filter (\<lambda>i. (a :: int) < i) xs) = filter (\<lambda>i. b < i) xs"
  by (induction xs) auto

text \<open>One page of a listing of \<open>xs\<close>, a sorted list of IDs.\<close>

definition page_after :: "int \<Rightarrow> int list \<Rightarrow> int \<Rightarrow> int list" where
  "page_after page xs a = take (nat page) (filter (\<lambda>i. a < i) xs)"

lemma page_step:
  assumes "sorted_wrt (<) xs" "page_after page xs a \<noteq> []"
  shows "filter (\<lambda>i. last (page_after page xs a) < i) xs = drop (nat page) (filter (\<lambda>i. a < i) xs)"
proof -
  let ?ys = "filter (\<lambda>i. a < i) xs"
  have s: "sorted_wrt (<) ?ys" using assms(1) by (simp add: sorted_wrt_filter)
  have "last (page_after page xs a) \<in> set ?ys"
    using assms(2) last_in_set unfolding page_after_def by (metis in_set_takeD)
  then have le: "a \<le> last (page_after page xs a)" by simp
  have "filter (\<lambda>i. last (page_after page xs a) < i) xs = filter (\<lambda>i. last (page_after page xs a) < i) ?ys"
    by (rule after_after [OF le, symmetric])
  also have "\<dots> = drop (nat page) ?ys"
    using sorted_after_take [OF s] assms(2) unfolding page_after_def by blast
  finally show ?thesis .
qed

lemma page_end:
  assumes "int (length (page_after page xs a)) < page"
  shows "page_after page xs a = filter (\<lambda>i. a < i) xs"
proof -
  have "length (filter (\<lambda>i. a < i) xs) \<le> nat page"
    using assms unfolding page_after_def by (simp add: min_def split: if_splits)
  then show ?thesis by (simp add: page_after_def)
qed

text \<open>Without faults the loop is one fold over everything after the start.\<close>

lemma for_each_owner_calm:
  assumes xs: "sorted_wrt (<) xs" and page: "0 < page"
    and J: "\<And>r i w. J w \<Longrightarrow> J (snd (visit r i w))"
    and list: "\<And>a w. J w \<Longrightarrow> listing a page w = (Inr (page_after page xs a), w)"
    and "J w" "length (filter (\<lambda>i. a < i) xs) < fuel"
  shows "for_each_owner fuel listing what page a visit r w = fold_each visit (filter (\<lambda>i. a < i) xs) r w"
  using assms(5,6)
proof (induction fuel arbitrary: a r w)
  case (Suc fuel)
  let ?p = "page_after page xs a" and ?ys = "filter (\<lambda>i. a < i) xs"
  have fold_J: "J v \<Longrightarrow> J (snd (fold_each visit js q v))" for js q v
  proof (induction js arbitrary: q v)
    case (Cons i js)
    obtain z v1 where v1: "visit q i v = (z, v1)" by fastforce
    then have "J v1" using J Cons.prems by (metis snd_conv)
    then show ?case using v1 Cons.IH by (auto simp: andThen_def split: sum.split)
  qed (simp add: ret_def)
  have l: "on_error (WrapErr what) (listing a page) w = (Inr ?p, w)" using list Suc.prems(1) by (simp add: on_error_def)
  show ?case
  proof (cases "?p = []")
    case True
    then have "?ys = []" using page by (simp add: page_after_def)
    then show ?thesis using l True by (simp add: andThen_def)
  next
    case ne: False
    show ?thesis
    proof (cases "int (length ?p) < page")
      case True
      have "andThen (fold_each visit ?p r) ret w = fold_each visit ?ys r w"
        using page_end [OF True] by (simp add: andThen_ret)
      then show ?thesis using l ne True by (simp add: andThen_def [of "on_error _ _"])
    next
      case False
      have split: "?ys = ?p @ drop (nat page) ?ys" by (simp add: page_after_def)
      have "0 < nat page" "0 < length ?ys" using page ne by (auto simp: page_after_def)
      then have len: "length (drop (nat page) ?ys) < fuel" using Suc.prems(2) unfolding length_drop by linarith
      obtain z w1 where z: "fold_each visit ?p r w = (z, w1)" by fastforce
      have "J w1" using fold_J [OF Suc.prems(1)] z by (metis snd_conv)
      then have "for_each_owner fuel listing what page (last ?p) visit q w1 =
          fold_each visit (drop (nat page) ?ys) q w1" for q
        using Suc.IH [of w1 "last ?p" q] page_step [OF xs ne] len by simp
      then have "andThen (fold_each visit ?p r) (for_each_owner fuel listing what page (last ?p) visit) w =
          andThen (fold_each visit ?p r) (fold_each visit (drop (nat page) ?ys)) w"
        using z by (simp add: andThen_def split: sum.split)
      also have "\<dots> = fold_each visit ?ys r w" using split fold_each_append by metis
      finally show ?thesis using l ne False by (simp add: andThen_def [of "on_error _ _"])
    qed
  qed
qed simp

lemma calm_listing: "calm w \<Longrightarrow> list_user_ids a l w =
    (Inr (take (nat (normalize_cache_page_limit l)) (user_ids_after a (w_db w))), w)"
  by (simp add: list_user_ids_def on_error_def calm_query)

lemma strict_sort: "distinct xs \<Longrightarrow> sorted_wrt (<) (sort (xs :: int list))"
  by (simp add: strict_sorted_iff)

text \<open>
  \<open>forEachUser\<close> visits every user exactly once, in ascending order, when its page size is at most
  the repository's limit of 5000. With a larger page size the repository still returns at most 5000
  IDs, the loop takes the short page for the last one, and everyone after the first 5000 is skipped
  without an error.
\<close>

theorem for_each_user_visits:
  fixes visit :: "'r \<Rightarrow> int \<Rightarrow> 'r io"
  assumes "calm w" "distinct (map u_id (users (w_db w)))" "\<forall>u\<in>set (users (w_db w)). 0 < u_id u"
    "0 < co_page_size opt"
    "\<And>r i v. calm v \<Longrightarrow> calm (snd (visit r i v)) \<and> users (w_db (snd (visit r i v))) = users (w_db v)"
  shows "for_each_user opt visit r w =
    (let ids = sort (map u_id (users (w_db w)))
     in fold_each visit (if co_page_size opt \<le> cacheTruthPageLimit then ids else take 5000 ids) r w)"
proof -
  let ?ids = "sort (map u_id (users (w_db w)))" and ?page = "co_page_size opt"
  have strict: "sorted_wrt (<) ?ids" using assms(2) by (rule strict_sort)
  have pos: "filter (\<lambda>i. 0 < i) ?ids = ?ids" using assms(3) by (simp add: filter_id_conv)
  have fuel: "length ?ids < owner_fuel (w_db w)" by (simp add: owner_fuel_def)
  show ?thesis
  proof (cases "?page \<le> cacheTruthPageLimit")
    case True
    have lim: "normalize_cache_page_limit ?page = ?page"
      using True assms(4) by (simp add: normalize_cache_page_limit_def)
    let ?J = "\<lambda>v. calm v \<and> users (w_db v) = users (w_db w)"
    have "for_each_owner (owner_fuel (w_db w)) list_user_ids ''list users for cache operation'' ?page 0 visit r w =
        fold_each visit (filter (\<lambda>i. 0 < i) ?ids) r w"
    proof (rule for_each_owner_calm [where J = ?J])
      show "?J (snd (visit r i v))" if "?J v" for r i v using assms(5) that by simp
      show "list_user_ids a ?page v = (Inr (page_after ?page ?ids a), v)" if "?J v" for a v
        using that by (simp add: calm_listing lim page_after_def user_ids_after_def filter_sort)
    qed (use assms fuel strict pos in simp_all)
    then show ?thesis using True pos by (simp add: for_each_user_def)
  next
    case False
    then have lim: "normalize_cache_page_limit ?page = 5000"
      by (simp add: normalize_cache_page_limit_def cacheTruthPageLimit_def)
    let ?p = "take 5000 ?ids"
    have l: "on_error h (list_user_ids 0 ?page) w = (Inr ?p, w)" for h
      using assms(1) pos by (simp add: on_error_def calm_listing lim user_ids_after_def filter_sort)
    have short: "int (length ?p) < ?page" using False by (simp add: cacheTruthPageLimit_def)
    obtain n where "owner_fuel (w_db w) = Suc n" by (simp add: owner_fuel_def)
    then have "for_each_user opt visit r w = (if ?p = [] then ret r w else andThen (fold_each visit ?p r) ret w)"
      using l short by (simp add: for_each_user_def andThen_def [of "on_error _ _"] del: take_eq_Nil)
    also have "\<dots> = fold_each visit ?p r w" by (simp add: andThen_ret)
    finally show ?thesis using False by simp
  qed
qed

definition count_visit :: "int list \<Rightarrow> int \<Rightarrow> int list io" where
  "count_visit r i = ret (r @ [i])"

theorem for_each_user_visits_witness:
  "for_each_user demo_options count_visit [] demo_friends = fold_each count_visit (sort [1, 2, 3]) [] demo_friends"
proof -
  have "map u_id (users (w_db demo_friends)) = [1, 2, 3]"
    by (simp add: demo_friends_def demo_world_def demo_user_def empty_db_def)
  moreover have "\<forall>u\<in>set (users (w_db demo_friends)). 0 < u_id u"
    by (simp add: demo_friends_def demo_world_def demo_user_def empty_db_def)
  ultimately show ?thesis
    using for_each_user_visits [of demo_friends demo_options count_visit "[]"]
    by (simp add: demo_options_def cacheTruthPageLimit_def demo_friends_calm count_visit_def ret_def Let_def)
qed

subsection \<open>A bulk run\<close>

lemma fold_each_sweep:
  assumes "fold_each visit xs r w = (Inr r', w')" "J w"
    "\<And>r i w r' w1. J w \<Longrightarrow> visit r i w = (Inr r', w1) \<Longrightarrow> J w1 \<and> Q i w1 \<and> (\<forall>j. Q j w \<longrightarrow> Q j w1)"
  shows "J w' \<and> (\<forall>i\<in>set xs. Q i w') \<and> (\<forall>j. Q j w \<longrightarrow> Q j w')"
  using assms(1,2)
proof (induction xs arbitrary: r w)
  case (Cons x xs)
  then obtain q w1 where v: "visit r x w = (Inr q, w1)" "fold_each visit xs q w1 = (Inr r', w')"
    by (auto simp: io_simps)
  then show ?case using Cons.IH [OF v(2)] assms(3) [OF Cons.prems(2) v(1)] by auto
qed (simp add: io_simps)

lemma for_each_owner_sweep:
  assumes xs: "sorted_wrt (<) xs" and page: "0 < page"
    and list: "\<And>a w ids w1. J w \<Longrightarrow> listing a page w = (Inr ids, w1) \<Longrightarrow>
      ids = page_after page xs a \<and> J w1 \<and> (\<forall>j. Q j w \<longrightarrow> Q j w1)"
    and visit: "\<And>r i w r' w1. J w \<Longrightarrow> visit r i w = (Inr r', w1) \<Longrightarrow> J w1 \<and> Q i w1 \<and> (\<forall>j. Q j w \<longrightarrow> Q j w1)"
    and "for_each_owner fuel listing what page a visit r w = (Inr r', w')" "J w"
  shows "J w' \<and> (\<forall>i. i \<in> set xs \<and> a < i \<longrightarrow> Q i w') \<and> (\<forall>j. Q j w \<longrightarrow> Q j w')"
  using assms(5,6)
proof (induction fuel arbitrary: a r w)
  case (Suc fuel)
  let ?p = "page_after page xs a" and ?ys = "filter (\<lambda>i. a < i) xs"
  obtain ids w1 where l: "listing a page w = (Inr ids, w1)" and
    rest: "(if ids = [] then ret r else andThen (fold_each visit ids r) (\<lambda>r'.
       if int (length ids) < page then ret r' else for_each_owner fuel listing what page (last ids) visit r')) w1 = (Inr r', w')"
    using Suc.prems(1) by (auto simp: io_simps)
  have ids: "ids = ?p" and w1: "J w1" "\<forall>j. Q j w \<longrightarrow> Q j w1" using list [OF Suc.prems(2) l] by auto
  show ?case
  proof (cases "ids = []")
    case True
    then have "?ys = []" using page ids by (simp add: page_after_def)
    then have "\<not> (i \<in> set xs \<and> a < i)" for i by (auto simp: filter_empty_conv)
    then show ?thesis using rest True w1 by (auto simp: io_simps)
  next
    case ne: False
    then obtain q w2 where f: "fold_each visit ids r w1 = (Inr q, w2)"
      and tail: "(if int (length ids) < page then ret q else for_each_owner fuel listing what page (last ids) visit q) w2 = (Inr r', w')"
      using rest by (auto simp: io_simps)
    have w2: "J w2 \<and> (\<forall>i\<in>set ids. Q i w2) \<and> (\<forall>j. Q j w1 \<longrightarrow> Q j w2)"
      by (rule fold_each_sweep [where J = J and Q = Q, OF f w1(1)]) (rule visit)
    show ?thesis
    proof (cases "int (length ids) < page")
      case True
      then have "ids = ?ys" using page_end [of page xs a] ids by simp
      then have "set ids = {i \<in> set xs. a < i}" by simp
      then show ?thesis using tail True w2 w1 by (auto simp: io_simps)
    next
      case False
      then have w': "J w' \<and> (\<forall>i. i \<in> set xs \<and> last ids < i \<longrightarrow> Q i w') \<and> (\<forall>j. Q j w2 \<longrightarrow> Q j w')"
        using Suc.IH tail w2 by simp
      have "i \<in> set ids \<or> (i \<in> set xs \<and> last ids < i)" if "i \<in> set xs" "a < i" for i
      proof -
        have "i \<in> set (?p @ drop (nat page) ?ys)" using that by (simp add: page_after_def)
        moreover have "set (drop (nat page) ?ys) = {i \<in> set xs. last ids < i}"
          using page_step [OF xs] ne ids by (metis set_filter)
        ultimately show ?thesis using ids by auto
      qed
      then show ?thesis using w' w2 w1 by blast
    qed
  qed
qed (simp add: io_simps)

definition kept :: "db \<Rightarrow> world \<Rightarrow> bool" where
  "kept d w \<longleftrightarrow> w_db w = d \<and> cache_ok (w_cache w)"

lemma bulk_ok:
  assumes "reconcile_for_bulk opt strict r i w = (Inr (), w')" "kept d w" "resource_valid r"
  shows "kept d w' \<and> projected r i d (w_cache w') \<and>
    (\<forall>q j. projected q j d (w_cache w) \<longrightarrow> projected q j d (w_cache w'))"
proof -
  have "projections_step w w'" "w_db w' = w_db w"
    using proj_bulk db_bulk assms(1) by (metis framed_def same_db_def snd_conv)+
  moreover have "projected r i (w_db w) (w_cache w')"
  proof (cases strict)
    case True
    then show ?thesis using strict_ok [OF _ assms(3)] assms(1,2) by (auto simp: kept_def cache_ok_def)
  next
    case False
    then show ?thesis using reconcile_now_ok assms(1,2) by (auto simp: reconcile_for_bulk_def kept_def)
  qed
  ultimately show ?thesis using assms(2) unfolding kept_def projections_step_def by blast
qed

lemma rebuild_resource_ok:
  assumes "rebuild_resource opt strict covered r i report w = (Inr report', w')" "kept d w" "resource_valid r"
  shows "kept d w' \<and> (covered \<longrightarrow> projected r i d (w_cache w')) \<and>
    (\<forall>q j. projected q j d (w_cache w) \<longrightarrow> projected q j d (w_cache w'))"
  using assms bulk_ok [OF _ assms(2,3)] by (auto simp: rebuild_resource_def io_simps split: if_splits)

lemma listing_ok:
  assumes "0 < page" "page \<le> cacheTruthPageLimit" "kept d w"
  shows "list_user_ids a page w = (Inr ids, w1) \<Longrightarrow>
      ids = page_after page (sort (map u_id (users d))) a \<and> kept d w1 \<and> w_cache w1 = w_cache w"
    "list_group_ids a page w = (Inr ids, w1) \<Longrightarrow>
      ids = page_after page (sort (remdups (map g_id (groups d) @ map gt_group (group_tombstones d)))) a \<and>
      kept d w1 \<and> w_cache w1 = w_cache w"
proof -
  have "filter P (remdups (xs @ ys)) = remdups (filter P xs @ filter P ys)" for P and xs ys :: "int list"
    by (metis filter_append remdups_filter)
  then show "list_user_ids a page w = (Inr ids, w1) \<Longrightarrow>
      ids = page_after page (sort (map u_id (users d))) a \<and> kept d w1 \<and> w_cache w1 = w_cache w"
    "list_group_ids a page w = (Inr ids, w1) \<Longrightarrow>
      ids = page_after page (sort (remdups (map g_id (groups d) @ map gt_group (group_tombstones d)))) a \<and>
      kept d w1 \<and> w_cache w1 = w_cache w"
    using assms by (auto simp: io_simps normalize_cache_page_limit_def page_after_def user_ids_after_def group_ids_after_def
        kept_def filter_sort)
qed

lemma rebuild_users:
  assumes "for_each_user opt (\<lambda>report uid.
       andThen (rebuild_resource opt strict cf Friends uid (report\<lparr>rr_users := rr_users report + 1\<rparr>)) (\<lambda>report1.
       rebuild_resource opt strict cb Blacklist uid report1)) r0 w = (Inr r, w')"
    and "kept d w" "0 < co_page_size opt" "co_page_size opt \<le> cacheTruthPageLimit" "distinct (map u_id (users d))"
  shows "kept d w' \<and> (\<forall>i. i \<in> u_id ` set (users d) \<and> 0 < i \<longrightarrow>
      (cf \<longrightarrow> projected Friends i d (w_cache w')) \<and> (cb \<longrightarrow> projected Blacklist i d (w_cache w')))"
proof -
  let ?Q = "\<lambda>i v. (cf \<longrightarrow> projected Friends i d (w_cache v)) \<and> (cb \<longrightarrow> projected Blacklist i d (w_cache v))"
  have "kept d w' \<and> (\<forall>i. i \<in> set (sort (map u_id (users d))) \<and> 0 < i \<longrightarrow> ?Q i w') \<and> (\<forall>j. ?Q j w \<longrightarrow> ?Q j w')"
  proof (rule for_each_owner_sweep [where J = "kept d" and Q = ?Q, OF strict_sort [OF assms(5)] assms(3) _ _ assms(1)[unfolded for_each_user_def] assms(2)])
    show "ids = page_after (co_page_size opt) (sort (map u_id (users d))) a \<and> kept d v1 \<and> (\<forall>j. ?Q j v \<longrightarrow> ?Q j v1)"
      if "kept d v" "list_user_ids a (co_page_size opt) v = (Inr ids, v1)" for a v ids v1
      using listing_ok(1) [OF assms(3,4) that] by simp
    show "kept d v1 \<and> ?Q i v1 \<and> (\<forall>j. ?Q j v \<longrightarrow> ?Q j v1)"
      if "kept d v" "andThen (rebuild_resource opt strict cf Friends i (q\<lparr>rr_users := rr_users q + 1\<rparr>))
        (rebuild_resource opt strict cb Blacklist i) v = (Inr r', v1)" for q i v r' v1
    proof -
      note asm = that
      obtain q1 v2 where s: "rebuild_resource opt strict cf Friends i (q\<lparr>rr_users := rr_users q + 1\<rparr>) v = (Inr q1, v2)"
        "rebuild_resource opt strict cb Blacklist i q1 v2 = (Inr r', v1)" using asm(2) by (auto simp: io_simps)
      note f = rebuild_resource_ok [OF s(1) asm(1)]
      have "kept d v2" using f by simp
      note b = rebuild_resource_ok [OF s(2) this]
      show ?thesis using f b by auto
    qed
  qed
  then show ?thesis by auto
qed

lemma rebuild_groups:
  assumes "for_each_group opt (\<lambda>r gid. rebuild_resource opt strict True GroupMembers gid
       (r\<lparr>rr_groups := rr_groups r + 1\<rparr>)) r0 w = (Inr r, w')"
    and "kept d w" "0 < co_page_size opt" "co_page_size opt \<le> cacheTruthPageLimit"
  shows "kept d w' \<and> (\<forall>i. i \<in> g_id ` set (groups d) \<union> gt_group ` set (group_tombstones d) \<and> 0 < i \<longrightarrow>
      projected GroupMembers i d (w_cache w')) \<and> (\<forall>q j. projected q j d (w_cache w) \<longrightarrow> projected q j d (w_cache w'))"
proof -
  let ?xs = "sort (remdups (map g_id (groups d) @ map gt_group (group_tombstones d)))"
  let ?Q = "\<lambda>i v. projected GroupMembers i d (w_cache v)"
  have j: "(kept d w' \<and> (\<forall>q j. projected q j d (w_cache w) \<longrightarrow> projected q j d (w_cache w'))) \<and>
      (\<forall>i. i \<in> set ?xs \<and> 0 < i \<longrightarrow> ?Q i w') \<and> (\<forall>j. ?Q j w \<longrightarrow> ?Q j w')"
  proof (rule for_each_owner_sweep [where J = "\<lambda>v. kept d v \<and> (\<forall>q j. projected q j d (w_cache w) \<longrightarrow> projected q j d (w_cache v))" and Q = ?Q,
        OF strict_sort [OF distinct_remdups] assms(3) _ _ assms(1)[unfolded for_each_group_def]])
    show "ids = page_after (co_page_size opt) ?xs a \<and>
        (kept d v1 \<and> (\<forall>q j. projected q j d (w_cache w) \<longrightarrow> projected q j d (w_cache v1))) \<and> (\<forall>j. ?Q j v \<longrightarrow> ?Q j v1)"
      if "kept d v \<and> (\<forall>q j. projected q j d (w_cache w) \<longrightarrow> projected q j d (w_cache v))"
        "list_group_ids a (co_page_size opt) v = (Inr ids, v1)" for a v ids v1
      using listing_ok(2) [OF assms(3,4) conjunct1 [OF that(1)] that(2)] that(1) by simp
    show "(kept d v1 \<and> (\<forall>q j. projected q j d (w_cache w) \<longrightarrow> projected q j d (w_cache v1))) \<and> ?Q i v1 \<and> (\<forall>j. ?Q j v \<longrightarrow> ?Q j v1)"
      if "kept d v \<and> (\<forall>q j. projected q j d (w_cache w) \<longrightarrow> projected q j d (w_cache v))"
        "rebuild_resource opt strict True GroupMembers i (q\<lparr>rr_groups := rr_groups q + 1\<rparr>) v = (Inr r', v1)" for q i v r' v1
      using rebuild_resource_ok [OF that(2)] that(1) by simp
  qed (use assms(2) in simp)
  then show ?thesis by auto
qed

text \<open>
  A warm-up or strict rebuild that returns without an error has made every projection in its
  scope equal to MySQL: of all users for the friend and blacklist scopes, of all live and all
  dissolved groups for the group scope. (Page sizes up to the repository's limit.)
\<close>

theorem rebuild_reaches_everyone:
  assumes "cache_ok (w_cache w)" "rebuild opt scope strict w = (Inr report, w')"
    "0 < co_page_size opt" "co_page_size opt \<le> cacheTruthPageLimit" "distinct (map u_id (users (w_db w)))"
  shows "(\<forall>u\<in>set (users (w_db w)). 0 < u_id u \<longrightarrow>
      (covers_friends scope \<longrightarrow> projected Friends (u_id u) (w_db w) (w_cache w')) \<and>
      (covers_blacklists scope \<longrightarrow> projected Blacklist (u_id u) (w_db w) (w_cache w'))) \<and>
    (covers_groups scope \<longrightarrow>
      (\<forall>gid. 0 < gid \<and> (find_group gid (w_db w) \<noteq> None \<or> tombstoned gid (w_db w)) \<longrightarrow>
        projected GroupMembers gid (w_db w) (w_cache w')))"
proof -
  let ?d = "w_db w"
  have k: "kept ?d w" using assms(1) by (simp add: kept_def)
  let ?visit = "\<lambda>report uid. andThen (rebuild_resource opt strict (covers_friends scope) Friends uid
      (report\<lparr>rr_users := rr_users report + 1\<rparr>)) (\<lambda>report1.
      rebuild_resource opt strict (covers_blacklists scope) Blacklist uid report1)"
  let ?zero = "\<lparr>rr_users = 0, rr_groups = 0, rr_resources = 0\<rparr>"
  obtain r1 w1 where u: "(if covers_friends scope \<or> covers_blacklists scope then for_each_user opt ?visit ?zero else ret ?zero) w
      = (Inr r1, w1)"
    and g: "(if covers_groups scope then for_each_group opt (\<lambda>r gid. rebuild_resource opt strict True GroupMembers gid
        (r\<lparr>rr_groups := rr_groups r + 1\<rparr>)) r1 else ret r1) w1 = (Inr report, w')"
    using assms(2) by (auto simp: rebuild_def io_simps split: if_split_asm)
  have w1: "kept ?d w1 \<and> (\<forall>i. i \<in> u_id ` set (users ?d) \<and> 0 < i \<longrightarrow>
      (covers_friends scope \<longrightarrow> projected Friends i ?d (w_cache w1)) \<and>
      (covers_blacklists scope \<longrightarrow> projected Blacklist i ?d (w_cache w1)))"
  proof (cases "covers_friends scope \<or> covers_blacklists scope")
    case True
    then show ?thesis using rebuild_users [OF _ k assms(3-5)] u by simp
  next
    case False
    then show ?thesis using u k by (simp add: io_simps)
  qed
  show ?thesis
  proof (cases "covers_groups scope")
    case True
    have "kept ?d w' \<and> (\<forall>i. i \<in> g_id ` set (groups ?d) \<union> gt_group ` set (group_tombstones ?d) \<and> 0 < i \<longrightarrow>
        projected GroupMembers i ?d (w_cache w')) \<and> (\<forall>q j. projected q j ?d (w_cache w1) \<longrightarrow> projected q j ?d (w_cache w'))"
      by (rule rebuild_groups [OF _ _ assms(3,4)]) (use g True w1 in auto)
    moreover have "gid \<in> g_id ` set (groups ?d) \<union> gt_group ` set (group_tombstones ?d)"
      if "find_group gid ?d \<noteq> None \<or> tombstoned gid ?d" for gid
      using that by (auto simp: tombstoned_def exists_row_iff dest!: find_group_SomeD)
    ultimately show ?thesis using w1 by auto
  next
    case False
    then have "w' = w1" using g by (simp add: io_simps)
    then show ?thesis using w1 False by auto
  qed
qed

lemma demo_rebuild: "fst (rebuild demo_options ScopeAll True demo_friends) =
    Inr \<lparr>rr_users = 3, rr_groups = 1, rr_resources = 7\<rparr>"
  by code_simp

theorem rebuild_reaches_everyone_witness:
  "projected GroupMembers 1 (w_db demo_friends) (w_cache (snd (rebuild demo_options ScopeAll True demo_friends)))"
proof -
  have "cache_ok (w_cache demo_friends)" using empty_cache_ok by (simp add: demo_friends_def demo_world_def)
  moreover have "rebuild demo_options ScopeAll True demo_friends = (Inr \<lparr>rr_users = 3, rr_groups = 1, rr_resources = 7\<rparr>,
      snd (rebuild demo_options ScopeAll True demo_friends))"
    using demo_rebuild by (metis prod.collapse)
  moreover have "distinct (map u_id (users (w_db demo_friends)))" "find_group 1 (w_db demo_friends) \<noteq> None"
    by (simp_all add: demo_friends_def demo_world_def demo_user_def empty_db_def find_group_def)
  ultimately show ?thesis
    using rebuild_reaches_everyone [of demo_friends demo_options ScopeAll True]
    by (simp add: demo_options_def cacheTruthPageLimit_def covers_groups_def)
qed

subsection \<open>The audit\<close>

lemma numeric_ids_ok: "numeric_ids ids = Inr js \<longleftrightarrow> (\<forall>i\<in>set ids. 0 < i) \<and> js = sorted_unique_positive ids"
  by (auto simp: numeric_ids_def list_ex_iff) (metis not_less)

text \<open>What the audit computes from the truth \<open>ts\<close>, the cached IDs \<open>ps\<close> and the marker.\<close>

definition audit_outcome :: "cache_resource \<Rightarrow> int \<Rightarrow> bool \<Rightarrow> int list \<Rightarrow> int list \<Rightarrow> audit_issue option" where
  "audit_outcome resource owner marked ts ps =
     (let ms = canonical_ids ts; rs = canonical_ids (sorted_unique_positive ps);
        reasons = (if marked then [] else [''loaded marker missing'']) @ (if ms = rs then [] else [''member IDs differ''])
      in if reasons = [] then None else Some \<lparr>is_resource = resource, is_owner = owner, is_reasons = reasons,
            is_mysql_ids = ms, is_redis_ids = rs, is_missing_set = [], is_missing_info = [],
            is_missing_reverse = [], is_unexpected_reverse = []\<rparr>)"

lemma audit_outcome_exact:
  assumes "{i \<in> set ts. 0 < i} = truth" "\<forall>x\<in>set ps. 0 < x" "issue = audit_outcome resource owner marked ts ps"
  shows "(issue = None \<longleftrightarrow> marked \<and> set ps = truth) \<and>
    (\<forall>i. issue = Some i \<longrightarrow> set (is_redis_ids i) = set ps \<and> set (is_mysql_ids i) = truth)"
proof -
  have p: "{i \<in> set ps. 0 < i} = set ps" using assms(2) by auto
  have "canonical_ids ts = canonical_ids (sorted_unique_positive ps) \<longleftrightarrow> truth = set ps"
    using assms(1) p by (simp add: canonical_ids_def sorted_unique_positive_eq_iff)
  moreover have "set (canonical_ids ts) = truth" "set (canonical_ids (sorted_unique_positive ps)) = set ps"
    using assms(1) p by (simp_all add: canonical_ids_def)
  ultimately show ?thesis using assms(3) by (auto simp: audit_outcome_def Let_def)
qed

lemma audit_outcomes:
  "audit_relationship Friends owner w = (Inr issue, w') \<Longrightarrow> (\<forall>x\<in>set (pairs_of owner (rc_friend (w_cache w))). 0 < x) \<and>
     issue = audit_outcome Friends owner (owner \<in> set (rc_friend_loaded (w_cache w)))
       (friend_ids_of owner (w_db w)) (pairs_of owner (rc_friend (w_cache w)))"
  "audit_relationship Blacklist owner w = (Inr issue, w') \<Longrightarrow> (\<forall>x\<in>set (pairs_of owner (rc_blacklist (w_cache w))). 0 < x) \<and>
     issue = audit_outcome Blacklist owner (owner \<in> set (rc_blacklist_loaded (w_cache w)))
       (blocked_ids_of owner (w_db w)) (pairs_of owner (rc_blacklist (w_cache w)))"
  by (auto simp: audit_relationship_def read_friend_snapshot_def friends_loaded_def scan_friend_suffixes_def
      read_blacklist_snapshot_def blacklist_loaded_def lift_result_def numeric_ids_ok Let_def io_simps audit_outcome_def
      split: sum.splits)

text \<open>
  C13. The audit of a user's friends or blacklist, when it returns, reports no issue exactly when
  the projection is loaded and equals MySQL; otherwise the report lists both sides as they are.
\<close>

theorem relationship_audit_exact:
  assumes "audit_relationship resource owner w = (Inr issue, w')" "resource = Friends \<or> resource = Blacklist"
  shows "(issue = None \<longleftrightarrow> loaded resource owner (w_cache w) \<and> projected resource owner (w_db w) (w_cache w)) \<and>
    (\<forall>i. issue = Some i \<longrightarrow> set (is_redis_ids i) = (if resource = Friends
        then {x. (owner, x) \<in> set (rc_friend (w_cache w))} else {x. (owner, x) \<in> set (rc_blacklist (w_cache w))}) \<and>
      set (is_mysql_ids i) = (if resource = Friends then true_friends owner (w_db w) else true_blocks owner (w_db w)))"
  using assms(2)
proof
  assume r: "resource = Friends"
  note a = audit_outcomes(1) [OF assms(1)[unfolded r]]
  show ?thesis using audit_outcome_exact [OF friend_ids_set a [THEN conjunct1] a [THEN conjunct2]]
    by (simp add: r projected_def loaded_def)
next
  assume r: "resource = Blacklist"
  note a = audit_outcomes(2) [OF assms(1)[unfolded r]]
  show ?thesis using audit_outcome_exact [OF blocked_ids_set a [THEN conjunct1] a [THEN conjunct2]]
    by (simp add: r projected_def loaded_def)
qed

lemma demo_audit: "fst (audit_relationship Friends 1 demo_friends) = Inr (Some \<lparr>is_resource = Friends, is_owner = 1,
    is_reasons = [''loaded marker missing'', ''member IDs differ''], is_mysql_ids = [2], is_redis_ids = [],
    is_missing_set = [], is_missing_info = [], is_missing_reverse = [], is_unexpected_reverse = []\<rparr>)"
  by code_simp

theorem relationship_audit_exact_witness:
  "\<not> (loaded Friends 1 (w_cache demo_friends) \<and> projected Friends 1 (w_db demo_friends) (w_cache demo_friends))"
proof -
  obtain w' where "audit_relationship Friends 1 demo_friends = (Inr (Some \<lparr>is_resource = Friends, is_owner = 1,
    is_reasons = [''loaded marker missing'', ''member IDs differ''], is_mysql_ids = [2], is_redis_ids = [],
    is_missing_set = [], is_missing_info = [], is_missing_reverse = [], is_unexpected_reverse = []\<rparr>), w')"
    using demo_audit by (metis prod.collapse)
  then show ?thesis using relationship_audit_exact by blast
qed

subsection \<open>Claims\<close>

text \<open>The lease \<open>ClaimCacheReconcileEvents\<close> works with.\<close>

definition effective_lease :: "int \<Rightarrow> int" where
  "effective_lease lease = (if lease \<le> 0 then 30 * second else lease)"

definition whole_micros :: "int \<Rightarrow> int" where
  "whole_micros t = (t div 1000) * 1000"

lemma claim_token_ok:
  "new_cache_claim_token n w = (Inr token, w') \<longleftrightarrow>
     net_now w = Pass \<and> token = (if 30 < length n then take 30 n else n, w_rand w) \<and>
     w' = (net_pop w)\<lparr>w_rand := Suc (w_rand w)\<rparr>"
  by (auto simp: new_cache_claim_token_def random_token_def remote_def io_simps net_pop_def split: net_outcome.splits)

lemma claim_body_ok:
  assumes "claim_body token stale limit w = (Inr es, w')"
  shows "(\<forall>e\<in>set es. ce_lock_token e = Some token) \<and> w_rand w' = w_rand w \<and> w_clock w' = w_clock w \<and>
    map ce_id es = map ce_id (select_claimable stale (sql_now6 w) limit (cache_events (w_db w))) \<and>
    cache_events (w_db w') = update_where (\<lambda>e. ce_id e \<in> set (map ce_id es)) (claimed_row token (sql_now6 w)) (cache_events (w_db w))"
proof -
  have idle: "update_where (\<lambda>e. False) f rows = rows" for f and rows :: "cache_event list"
    by (rule update_where_id) simp
  let ?sel = "select_claimable stale (sql_now6 w) limit (cache_events (w_db w))"
  show ?thesis
  proof (cases "?sel = []")
    case True
    then show ?thesis using assms by (simp add: claim_body_def Let_def io_simps idle)
  next
    case False
    then have "es = map (\<lambda>e. e\<lparr>ce_attempts := ce_attempts e + 1, ce_lock_token := Some token\<rparr>) ?sel"
      "w_rand w' = w_rand w \<and> w_clock w' = w_clock w"
      "w_db w' = mark_claimed token (map ce_id es) (sql_now6 w) (w_db w)"
      using assms by (auto simp: claim_body_def Let_def io_simps)
    then show ?thesis by (simp add: mark_claimed_def comp_def)
  qed
qed

lemma claim_ok:
  assumes "claim_cache_reconcile_events worker limit lease w = (Inr es, w')"
  shows "\<exists>name. (\<forall>e\<in>set es. ce_lock_token e = Some (name, w_rand w)) \<and> w_rand w' = Suc (w_rand w) \<and>
    cache_events (w_db w') = update_where (\<lambda>e. ce_id e \<in> set (map ce_id es))
      (claimed_row (name, w_rand w) (whole_micros (w_clock w'))) (cache_events (w_db w)) \<and>
    (\<forall>e\<in>set es. \<exists>r\<in>set (cache_events (w_db w)). ce_id r = ce_id e \<and>
      claimable (w_clock w' - effective_lease lease) (whole_micros (w_clock w')) r)"
proof -
  let ?n = "trim_space worker"
  let ?name = "if 30 < length ?n then take 30 ?n else ?n"
  obtain token w1 where t: "new_cache_claim_token ?n w = (Inr token, w1)" and
    tx: "deferred_tx ''cache event claim'' (andThen now (\<lambda>t. claim_body token (t - effective_lease lease)
      (normalize_cache_page_limit limit))) w1 = (Inr es, w')"
    using assms by (auto simp: claim_cache_reconcile_events_def Let_def effective_lease_def andThen_ok throw_ok
        simp del: claim_token_ok split: if_split_asm)
  obtain w2 w3 where b: "claim_body token (w_clock w2 - effective_lease lease) (normalize_cache_page_limit limit) w2 = (Inr es, w3)"
    and w2: "w_db w2 = w_db w1" "w_rand w2 = w_rand w1" and w': "w' = net_pop w3"
    using tx by (auto simp: tx_ok andThen_ok now_ok) (metis (no_types, lifting) net_pop_fields(1,5)
        world.select_convs(1,4,5) world.surjective world.update_convs(4,8))
  note body = claim_body_ok [OF b]
  have "\<exists>r\<in>set (cache_events (w_db w)). ce_id r = ce_id e \<and>
      claimable (w_clock w' - effective_lease lease) (whole_micros (w_clock w')) r" if "e \<in> set es" for e
  proof -
    have "ce_id e \<in> set (map ce_id (select_claimable (w_clock w2 - effective_lease lease) (sql_now6 w2)
        (normalize_cache_page_limit limit) (cache_events (w_db w2))))" using that body by (metis image_eqI list.set_map)
    then show ?thesis using body w2 w' t
      by (auto simp: select_claimable_def claim_token_ok sql_now6_def whole_micros_def dest!: in_set_takeD)
  qed
  moreover have "(\<forall>e\<in>set es. ce_lock_token e = Some (?name, w_rand w)) \<and> w_rand w' = Suc (w_rand w)"
    using body w2 w' t by (simp add: claim_token_ok)
  moreover have "cache_events (w_db w') = update_where (\<lambda>e. ce_id e \<in> set (map ce_id es))
      (claimed_row (?name, w_rand w) (whole_micros (w_clock w'))) (cache_events (w_db w))"
    using body [THEN conjunct2, THEN conjunct2, THEN conjunct2, THEN conjunct2]
      body [THEN conjunct2, THEN conjunct2, THEN conjunct1] w2 w' t
    by (simp add: claim_token_ok sql_now6_def whole_micros_def)
  ultimately show ?thesis by blast
qed

lemma no_claim_no_mark:
  assumes "count_where (holds_claim i token) (cache_events (w_db w)) = 0"
  shows "(\<forall>x. fst (mark_cache_reconcile_success i token w) \<noteq> Inr x) \<and>
    cache_events (w_db (snd (mark_cache_reconcile_success i token w))) = cache_events (w_db w)"
proof -
  have "update_where (holds_claim i token) done_row (cache_events (w_db w)) = cache_events (w_db w)"
    by (rule update_where_id) (use assms in \<open>auto simp: count_where_zero\<close>)
  then show ?thesis using assms
    by (auto simp: mark_cache_reconcile_success_def andThen_def on_error_def exec_count_def remote_def
        require_one_affected_def throw_def map_mysql_error_def split: net_outcome.split)
qed


definition demo_queue :: world where
  "demo_queue = demo_friends\<lparr>w_db := (w_db demo_friends)\<lparr>cache_events := [new_event 1 Friends 1 0]\<rparr>\<rparr>"

abbreviation first_claim :: "(go_error + cache_event list) \<times> world" where
  "first_claim \<equiv> claim_cache_reconcile_events ''w1'' 10 5000 demo_queue"

text \<open>The second worker comes after the lease.\<close>

abbreviation second_claim :: "(go_error + cache_event list) \<times> world" where
  "second_claim \<equiv> claim_cache_reconcile_events ''w2'' 10 5000 ((snd first_claim)\<lparr>w_clock := 90000\<rparr>)"

lemma demo_claims:
  "fst first_claim = Inr [(new_event 1 Friends 1 0)\<lparr>ce_attempts := 1, ce_lock_token := Some (''w1'', 0)\<rparr>]"
  "(case fst second_claim of Inl _ \<Rightarrow> [] | Inr es \<Rightarrow> map ce_id es) = [1]"
  "w_rand (snd first_claim) = 1"
  by code_simp+


end
