(* ===== verification/CacheLiveness.thy ===== *)
theory CacheLiveness
  imports CacheProps
begin

text \<open>
  What the cache service promises to finish: waiting for a lock ends, and a reconciliation that
  nothing hinders succeeds.
\<close>

subsection \<open>Waiting for the lock\<close>

definition same_clock :: "world \<Rightarrow> world \<Rightarrow> bool" where
  "same_clock w w' \<longleftrightarrow> w_clock w' = w_clock w"

interpretation clock_frame: world_frame same_clock
  by unfold_locales (auto simp: same_clock_def)

lemma clock_try: "framed same_clock (try_cache_warm_lock r i ttl)"
proof -
  have "framed same_clock (remote (\<lambda>w. if P w then (Inr (t, True), w\<lparr>w_cache := (w_cache w)\<lparr>rc_locks := g w\<rparr>\<rparr>)
      else (Inr (t, False), w)))" for P g and t :: nat
    by (intro clock_frame.framed_remote) (auto simp: framed_def same_clock_def)
  moreover have "framed same_clock random_token"
    unfolding random_token_def by (intro clock_frame.framed_remote) (simp add: framed_def same_clock_def)
  ultimately show ?thesis unfolding try_cache_warm_lock_def random_cache_token_def Let_def
    by (intro clock_frame.framed_intros)
qed

lemma finish_locked_error: "fst (finish_locked r i token operation w) \<noteq> Inl out_of_fuel"
  by (auto simp: finish_locked_def andThen_def attempt_def join_errs_def ret_def throw_def out_of_fuel_def
      split: prod.split sum.split option.split list.split)

lemma lock_loop_decides:
  assumes "0 < co_poll_interval opt"
  shows "deadline - w_clock w \<le> int fuel \<Longrightarrow> 0 < fuel \<Longrightarrow>
    fst (lock_loop fuel opt deadline r i what operation w) \<noteq> Inl out_of_fuel"
proof (induction fuel arbitrary: w)
  case (Suc fuel)
  obtain q w1 where q: "on_error (redis_error ''acquire resource lock'' r i) (try_cache_warm_lock r i (co_lock_ttl opt)) w = (q, w1)"
    by fastforce
  show ?case
  proof (cases q)
    case (Inl e)
    then obtain e0 where "e = redis_error ''acquire resource lock'' r i e0" using q by (auto simp: io_simps)
    then show ?thesis using q Inl by (simp add: andThen_def redis_error_def out_of_fuel_def)
  next
    case (Inr p)
    obtain token acquired where p: "p = (token, acquired)" by fastforce
    have c1: "w_clock w1 = w_clock w"
      using clock_frame.framed_on_error [OF clock_try] q by (metis framed_def same_clock_def snd_conv)
    show ?thesis
    proof (cases acquired)
      case True
      then show ?thesis using q Inr p finish_locked_error by (simp add: andThen_def [of "on_error _ _"])
    next
      case False
      obtain w2 where w2: "sleep (co_poll_interval opt) w1 = (Inr (), w2)" by (simp add: sleep_def)
      have c2: "w_clock w1 + 1 \<le> w_clock w2" using w2 assms by (auto simp: sleep_def split: list.splits)
      have eq: "lock_loop (Suc fuel) opt deadline r i what operation w =
          (if deadline \<le> w_clock w2 then throw (redis_error what r i (Sentinel ErrCacheWarmTimeout)) w2
           else lock_loop fuel opt deadline r i what operation w2)"
        using q Inr p False w2 by (simp add: andThen_def)
      show ?thesis
      proof (cases "deadline \<le> w_clock w2")
        case True
        then show ?thesis by (simp add: eq throw_def redis_error_def out_of_fuel_def del: lock_loop.simps)
      next
        case False
        then have "deadline - w_clock w2 \<le> int fuel" "0 < fuel" using Suc.prems(1) c1 c2 by linarith+
        then show ?thesis using Suc.IH False eq by simp
      qed
    qed
  qed
qed simp



subsection \<open>A reconciliation that can succeed does\<close>

lemma calm_redis: "calm w \<Longrightarrow> redis_read f w = (Inr (f (w_cache w)), w)"
  "calm w \<Longrightarrow> redis_write g w = (Inr (), w\<lparr>w_cache := g (w_cache w)\<rparr>)"
  by (simp_all add: redis_read_def redis_write_def redis_def remote_def)

definition clean_keys :: "rel_cache \<Rightarrow> bool" where
  "clean_keys c \<longleftrightarrow> (\<forall>p\<in>set (rc_friend c). 0 < snd p) \<and> (\<forall>p\<in>set (rc_user_groups c). 0 < fst p)"

lemma calm_reconcile_current:
  assumes "calm w" "clean_keys (w_cache w)" "resource_valid r" "0 < i"
  shows "\<exists>w'. reconcile_current r i w = (Inr (), w') \<and> calm w' \<and> w_clock w' = w_clock w \<and> rc_locks (w_cache w') = rc_locks (w_cache w)"
proof -
  have k: "\<not> list_ex (\<lambda>j. j \<le> 0) (pairs_of i (rc_friend (w_cache w)))" "\<not> list_ex (\<lambda>p. fst p \<le> 0) (rc_user_groups (w_cache w))"
    using assms(2) by (force simp: clean_keys_def list_ex_iff)+
  have "\<exists>w'. snapshot_body r i (reconcile_snapshot r i) w = (Inr (), w') \<and> calm w' \<and> w_clock w' = w_clock w \<and> rc_locks (w_cache w') = rc_locks (w_cache w)"
    using assms(1,3,4) k
    by (cases r)
      (simp_all add: snapshot_body_def lock_cache_owner_def reconcile_snapshot_def andThen_def on_error_def calm_query
        calm_redis list_friend_ids_for_cache_def list_blocked_ids_for_cache_def group_exists_for_cache_def
        list_group_members_for_cache_def replace_friend_owner_def replace_blacklist_owner_def replace_group_members_owner_def
        scan_friend_suffixes_def lift_result_def numeric_ids_def read_reverse_group_members_def ret_def when_ok_def
        delete_disbanded_group_runtime_def replace_friend_lua_def replace_blacklist_tx_def replace_group_lua_def Let_def)
  then obtain w' where w': "snapshot_body r i (reconcile_snapshot r i) w = (Inr (), w')" "calm w'" "w_clock w' = w_clock w"
    "rc_locks (w_cache w') = rc_locks (w_cache w)" by blast
  then have "reconcile_current r i w = (Inr (), w')"
    using calm_tx [where body = "snapshot_body r i (reconcile_snapshot r i)", OF assms(1) w'(1,2)] assms(3,4)
    by (simp add: reconcile_current_def within_cache_snapshot_def on_error_def)
  then show ?thesis using w' by blast
qed

text \<open>
  C16. Progress: when calls do not fail, the lock of a valid owner is free or expired, and the keys of
  the projection are well formed, \<open>ReconcileNow\<close> returns without an error.
\<close>

theorem reconcile_succeeds:
  assumes "calm w" "clean_keys (w_cache w)" "resource_valid r" "0 < i" "lock_free (w_clock w) (r, i) (w_cache w)"
  shows "fst (reconcile_now opt r i w) = Inr ()"
proof -
  let ?ttl = "if co_lock_ttl opt \<le> 0 then 5 * second else co_lock_ttl opt"
  let ?w1 = "w\<lparr>w_rand := Suc (w_rand w), w_cache := (w_cache w)\<lparr>rc_locks :=
      (rc_locks (w_cache w))((r, i) \<mapsto> (w_rand w, w_clock w + ?ttl))\<rparr>\<rparr>"
  have t: "try_cache_warm_lock r i (co_lock_ttl opt) w = (Inr (w_rand w, True), ?w1)"
    using assms by (simp add: try_cache_warm_lock_def random_cache_token_def random_token_def andThen_def on_error_def remote_def Let_def)
  have "calm ?w1" "clean_keys (w_cache ?w1)" using assms(1,2) by (simp_all add: clean_keys_def)
  then obtain w2 where w2: "reconcile_current r i ?w1 = (Inr (), w2)" "calm w2"
    using calm_reconcile_current assms(3,4) by blast
  have "fst (finish_locked r i (w_rand w) (reconcile_current r i) ?w1) = Inr ()"
    using w2 by (simp add: finish_locked_def andThen_def attempt_def on_error_def release_cache_warm_lock_def remote_def
        join_errs_def map_filter_def ret_def)
  then have "fst (lock_loop (Suc n) opt d r i what (reconcile_current r i) w) = Inr ()" for n d what
    using t by (simp add: andThen_def on_error_def)
  then show ?thesis using assms(3,4)
    by (simp add: reconcile_now_def with_resource_lock_def lock_fuel_def del: lock_loop.simps)
qed

theorem reconcile_succeeds_witness: "fst (reconcile_now demo_options GroupMembers 1 demo_friends) = Inr ()"
  by (rule reconcile_succeeds)
    (simp_all add: demo_friends_calm clean_keys_def lock_free_def demo_friends_def demo_world_def empty_cache_def)

end
