(* ===== verification/GoText.thy ===== *)
theory GoText
  imports GoBase
begin

text \<open>
  More of Go's standard library: \<open>strconv.FormatInt\<close> and \<open>strconv.ParseInt\<close> in base 10,
  \<open>hex.EncodeToString\<close>, \<open>strings.Fields\<close>, \<open>strings.EqualFold\<close> against an ASCII word,
  \<open>strings.TrimRight\<close>, and the validity of UTF-8.
\<close>

subsection \<open>Decimal numbers\<close>

fun format_nat :: "nat \<Rightarrow> string" where
  "format_nat n = (if n < 10 then [char_of (48 + n)] else format_nat (n div 10) @ [char_of (48 + n mod 10)])"

declare format_nat.simps [simp del]

definition format_int :: "int \<Rightarrow> string" where
  "format_int i = (if i < 0 then CHR ''-'' # format_nat (nat (- i)) else format_nat (nat i))"

definition digit_value :: "char \<Rightarrow> nat option" where
  "digit_value c = (let b = of_char c :: nat in if 48 \<le> b \<and> b \<le> 57 then Some (b - 48) else None)"

fun parse_digits :: "nat \<Rightarrow> string \<Rightarrow> nat option" where
  "parse_digits acc [] = Some acc"
| "parse_digits acc (c # cs) =
    (case digit_value c of None \<Rightarrow> None | Some d \<Rightarrow> parse_digits (acc * 10 + d) cs)"

definition parse_nat :: "string \<Rightarrow> nat option" where
  "parse_nat s = (if s = [] then None else parse_digits 0 s)"

text \<open>\<open>ParseInt(s, 10, 64)\<close>: an optional sign, at least one digit, within 64 bits.\<close>

definition parse_int :: "string \<Rightarrow> int option" where
  "parse_int s =
     (let (negative, digits) = (case s of
          [] \<Rightarrow> (False, [])
        | c # cs \<Rightarrow> if c = CHR ''-'' then (True, cs) else if c = CHR ''+'' then (False, cs) else (False, s))
      in case parse_nat digits of
           None \<Rightarrow> None
         | Some n \<Rightarrow> (let v = (if negative then - int n else int n) in
             if - (2 ^ 63) \<le> v \<and> v < 2 ^ 63 then Some v else None))"

lemma digit_value_char: "d < 10 \<Longrightarrow> digit_value (char_of (48 + d)) = Some d"
  by (simp add: digit_value_def of_char_of)

lemma parse_digits_append:
  "parse_digits acc (s @ t) = (case parse_digits acc s of None \<Rightarrow> None | Some a \<Rightarrow> parse_digits a t)"
  by (induction s arbitrary: acc) (auto split: option.splits)

lemma parse_format_nat: "\<exists>k. \<forall>acc. parse_digits acc (format_nat n) = Some (acc * 10 ^ k + n)"
proof (induction n rule: format_nat.induct)
  case (1 n)
  show ?case
  proof (cases "n < 10")
    case True
    then show ?thesis
      by (intro exI [of _ 1]) (simp add: format_nat.simps digit_value_char)
  next
    case False
    then obtain k where k: "\<forall>acc. parse_digits acc (format_nat (n div 10)) = Some (acc * 10 ^ k + n div 10)"
      using 1 by blast
    have "parse_digits acc (format_nat n) = Some (acc * 10 ^ Suc k + n)" for acc
      using False k by (simp add: format_nat.simps [of n] parse_digits_append digit_value_char algebra_simps)
    then show ?thesis by blast
  qed
qed

lemma format_nat_nonempty [simp]: "format_nat n \<noteq> []"
  by (subst format_nat.simps) simp

lemma parse_nat_format_nat [simp]: "parse_nat (format_nat n) = Some n"
  using parse_format_nat [of n] by (auto simp: parse_nat_def)

lemma format_nat_hd: "\<exists>d<10::nat. hd (format_nat n) = char_of (48 + d)"
proof (induction n rule: format_nat.induct)
  case (1 n)
  then show ?case
    by (subst format_nat.simps) (auto simp: hd_append)
qed

lemma format_nat_no_sign: "format_nat n = c # cs \<Longrightarrow> c \<noteq> CHR ''-'' \<and> c \<noteq> CHR ''+''"
proof -
  assume c: "format_nat n = c # cs"
  obtain d :: nat where d: "d < 10" "c = char_of (48 + d)" using format_nat_hd [of n] c by auto
  have "digit_value CHR ''-'' = None" "digit_value CHR ''+'' = None" by (simp_all add: digit_value_def)
  then show ?thesis using digit_value_char [OF d(1)] d(2) by auto
qed

theorem parse_int_format_int:
  assumes "- (2 ^ 63) \<le> i" "i < 2 ^ 63"
  shows "parse_int (format_int i) = Some i"
proof (cases "i < 0")
  case True
  then show ?thesis using assms by (simp add: parse_int_def format_int_def)
next
  case False
  obtain c cs where c: "format_nat (nat i) = c # cs" by (cases "format_nat (nat i)") auto
  show ?thesis
    using False assms format_nat_no_sign [OF c] parse_nat_format_nat [of "nat i"]
    by (simp add: parse_int_def format_int_def c)
qed

lemma format_nat_inj: "format_nat m = format_nat n \<longleftrightarrow> m = n"
  by (metis option.inject parse_nat_format_nat)

lemma format_int_inj: "format_int i = format_int j \<longleftrightarrow> i = j"
proof
  assume eq: "format_int i = format_int j"
  obtain c cs where "format_nat (nat i) = c # cs" by (cases "format_nat (nat i)") auto
  moreover obtain d ds where "format_nat (nat j) = d # ds" by (cases "format_nat (nat j)") auto
  ultimately have "i < 0 \<longleftrightarrow> j < 0"
    using eq format_nat_no_sign [of "nat i" c cs] format_nat_no_sign [of "nat j" d ds]
    by (auto simp: format_int_def split: if_splits)
  then show "i = j" using eq by (auto simp: format_int_def format_nat_inj split: if_splits)
qed simp

subsection \<open>Hexadecimal random IDs\<close>

definition hex_digit :: "nat \<Rightarrow> char" where
  "hex_digit d = (if d < 10 then char_of (48 + d) else char_of (87 + d))"

definition hex_value :: "char \<Rightarrow> nat" where
  "hex_value c = (let b = of_char c :: nat in if b < 58 then b - 48 else b - 87)"

fun hex_digits :: "nat \<Rightarrow> nat \<Rightarrow> string" where
  "hex_digits 0 n = []"
| "hex_digits (Suc k) n = hex_digits k (n div 16) @ [hex_digit (n mod 16)]"

text \<open>\<open>hex.EncodeToString\<close> of 16 random bytes, the draw read as a 128-bit number.\<close>

definition hex_id :: "nat \<Rightarrow> string" where
  "hex_id n = hex_digits 32 n"

lemma hex_value_digit: "d < 16 \<Longrightarrow> hex_value (hex_digit d) = d"
  by (auto simp: hex_value_def hex_digit_def of_char_of)

lemma length_hex_digits [simp]: "length (hex_digits k n) = k"
  by (induction k arbitrary: n) auto

lemma hex_digits_inj: "m < 16 ^ k \<Longrightarrow> n < 16 ^ k \<Longrightarrow> hex_digits k m = hex_digits k n \<Longrightarrow> m = n"
proof (induction k arbitrary: m n)
  case (Suc k)
  have digits: "hex_digits k (m div 16) = hex_digits k (n div 16)" "hex_digit (m mod 16) = hex_digit (n mod 16)"
    using Suc.prems(3) by simp_all
  have "m div 16 < 16 ^ k" "n div 16 < 16 ^ k" using Suc.prems(1,2)
    by (metis div_less_iff_less_mult mult.commute power_Suc zero_less_numeral)+
  then have "m div 16 = n div 16" using Suc.IH digits(1) by blast
  moreover have "hex_value (hex_digit (m mod 16)) = m mod 16" "hex_value (hex_digit (n mod 16)) = n mod 16"
    by (rule hex_value_digit, simp)+
  then have "m mod 16 = n mod 16" using digits(2) by argo
  ultimately show ?case by (metis div_mult_mod_eq)
qed simp

lemma hex_id_inj: "m < 2 ^ 128 \<Longrightarrow> n < 2 ^ 128 \<Longrightarrow> hex_id m = hex_id n \<longleftrightarrow> m = n"
  using hex_digits_inj [of m 32 n] by (auto simp: hex_id_def)

lemma hex_id_nonempty [simp]: "hex_id n \<noteq> []"
  unfolding hex_id_def using length_hex_digits [of 32 n] by (metis length_0_conv zero_neq_numeral)

subsection \<open>Words of a text\<close>

text \<open>\<open>strings.Fields\<close>: the maximal runs of runes that are not white space.\<close>

fun collect_fields :: "string \<Rightarrow> (int \<times> string) list \<Rightarrow> string list" where
  "collect_fields cur [] = (if cur = [] then [] else [cur])"
| "collect_fields cur (seg # segs) =
    (if space_seg seg then (if cur = [] then collect_fields [] segs else cur # collect_fields [] segs)
     else collect_fields (cur @ snd seg) segs)"

definition go_fields :: "string \<Rightarrow> string list" where
  "go_fields s = collect_fields [] (segments s)"

text \<open>\<open>strings.EqualFold\<close> with a word of ASCII letters that have no non-ASCII case variants.\<close>

definition lower :: "char \<Rightarrow> char" where
  "lower c = (let b = of_char c :: nat in if 65 \<le> b \<and> b \<le> 90 then char_of (b + 32) else c)"

definition equal_fold :: "string \<Rightarrow> string \<Rightarrow> bool" where
  "equal_fold s t = (map lower s = map lower t)"

definition trim_right :: "char \<Rightarrow> string \<Rightarrow> string" where
  "trim_right c s = rev (dropWhile (\<lambda>x. x = c) (rev s))"

text \<open>Valid UTF-8: no rune is a decoding error (which has width 1).\<close>

definition valid_utf8 :: "string \<Rightarrow> bool" where
  "valid_utf8 s = list_all (\<lambda>(r, bs). \<not> (r = rune_error \<and> length bs = 1)) (segments s)"

end
