(* ===== verification/Token.thy ===== *)
theory Token
  imports GoText
begin

text \<open>
  \<open>auth/token.go\<close>: issuing and checking the pair of JWTs. Signing and the parser of
  \<open>golang-jwt\<close> (signature, method, issuer, expiry and issue time) are arguments of the model,
  bundled with the other libraries the account service calls; \<open>jwt_laws\<close> states what their
  documentation promises. Dates in a token have whole seconds.
\<close>

definition TokenTypeAccess :: string where "TokenTypeAccess = ''access''"
definition TokenTypeRefresh :: string where "TokenTypeRefresh = ''refresh''"

definition ErrInvalidToken :: go_error where "ErrInvalidToken = PlainErr ''invalid token''"

record claims =
  cl_user_id :: int
  cl_username :: string
  cl_token_type :: string
  cl_family_id :: string
  cl_issuer :: string
  cl_subject :: string
  cl_id :: string
  cl_issued_at :: int
  cl_expires_at :: int

record token_pair_data =
  tp_access :: string
  tp_refresh :: string
  tp_access_expires_in :: int
  tp_refresh_jti :: string
  tp_family :: string
  tp_refresh_expires :: int

record manager =
  tm_secret :: string
  tm_issuer :: string
  tm_access_ttl :: int
  tm_refresh_ttl :: int

text \<open>
  The third-party code: \<open>SignedString\<close> and \<open>ParseWithClaims\<close> with the options the program passes
  (secret, issuer and the instant of the check), \<open>bcrypt\<close> with an explicit salt, and the
  comparison of the \<open>utf8mb4_unicode_ci\<close> collation.
\<close>

record auth_env =
  ae_sign :: "string \<Rightarrow> claims \<Rightarrow> string option"
  ae_parse :: "string \<Rightarrow> string \<Rightarrow> int \<Rightarrow> string \<Rightarrow> claims option"
  ae_hash :: "nat \<Rightarrow> string \<Rightarrow> string option"
  ae_check :: "string \<Rightarrow> string \<Rightarrow> bool"
  ae_same_name :: "string \<Rightarrow> string \<Rightarrow> bool"

definition new_manager :: "string \<Rightarrow> string \<Rightarrow> int \<Rightarrow> int \<Rightarrow> go_error + manager" where
  "new_manager secret issuer access_ttl refresh_ttl =
     (if length secret < 32 then Inl (PlainErr ''JWT secret must contain at least 32 characters'')
      else if trim_space issuer = [] then Inl (PlainErr ''JWT issuer must not be empty'')
      else if access_ttl \<le> 0 \<or> refresh_ttl \<le> 0 then Inl (PlainErr ''JWT expiration durations must be positive'')
      else Inr \<lparr>tm_secret = secret, tm_issuer = issuer, tm_access_ttl = access_ttl, tm_refresh_ttl = refresh_ttl\<rparr>)"

definition random_id :: "string io" where
  "random_id = andThen random_token (\<lambda>n. ret (hex_id n))"

text \<open>\<open>jwt.NewNumericDate\<close> truncates to seconds.\<close>

definition numeric_date :: "int \<Rightarrow> int" where
  "numeric_date t = (t div second) * second"

definition registered_claims :: "string \<Rightarrow> int \<Rightarrow> string \<Rightarrow> int \<Rightarrow> int \<Rightarrow> string \<Rightarrow> string \<Rightarrow> string \<Rightarrow> claims" where
  "registered_claims issuer uid jti issued_at expires_at username token_type family =
     \<lparr>cl_user_id = uid, cl_username = username, cl_token_type = token_type, cl_family_id = family,
       cl_issuer = issuer, cl_subject = format_int uid, cl_id = jti,
       cl_issued_at = numeric_date issued_at, cl_expires_at = numeric_date expires_at\<rparr>"

definition sign_claims :: "auth_env \<Rightarrow> manager \<Rightarrow> claims \<Rightarrow> string io" where
  "sign_claims env m c =
     (case ae_sign env (tm_secret m) c of Some raw \<Rightarrow> ret raw | None \<Rightarrow> throw (PlainErr ''sign''))"

definition issue_pair :: "auth_env \<Rightarrow> manager \<Rightarrow> int \<Rightarrow> string \<Rightarrow> string \<Rightarrow> token_pair_data io" where
  "issue_pair env m uid username family =
     (if uid \<le> 0 \<or> trim_space username = [] then throw (PlainErr ''token identity is incomplete'')
      else
        andThen (if family = [] then on_error (WrapErr ''generate token family id'') random_id else ret family) (\<lambda>fam.
        andThen (on_error (WrapErr ''generate access jti'') random_id) (\<lambda>access_jti.
        andThen (on_error (WrapErr ''generate refresh jti'') random_id) (\<lambda>refresh_jti.
        andThen now (\<lambda>t.
        andThen (on_error (WrapErr ''sign access token'') (sign_claims env m
            (registered_claims (tm_issuer m) uid access_jti t (t + tm_access_ttl m) username TokenTypeAccess []))) (\<lambda>access.
        andThen (on_error (WrapErr ''sign refresh token'') (sign_claims env m
            (registered_claims (tm_issuer m) uid refresh_jti t (t + tm_refresh_ttl m) username TokenTypeRefresh fam))) (\<lambda>refresh.
        ret \<lparr>tp_access = access, tp_refresh = refresh, tp_access_expires_in = tm_access_ttl m div second,
             tp_refresh_jti = refresh_jti, tp_family = fam, tp_refresh_expires = t + tm_refresh_ttl m\<rparr>)))))))"

text \<open>The checks of \<open>parse\<close> after the library accepted the token.\<close>

definition claims_ok :: "string \<Rightarrow> claims \<Rightarrow> bool" where
  "claims_ok expected c \<longleftrightarrow>
     cl_token_type c = expected \<and> 0 < cl_user_id c \<and> trim_space (cl_username c) \<noteq> [] \<and> cl_id c \<noteq> [] \<and>
     cl_subject c = format_int (cl_user_id c) \<and>
     (expected = TokenTypeRefresh \<longrightarrow> cl_family_id c \<noteq> [])"

definition parse_token :: "auth_env \<Rightarrow> manager \<Rightarrow> string \<Rightarrow> string \<Rightarrow> claims io" where
  "parse_token env m raw expected =
     andThen now (\<lambda>t.
     case ae_parse env (tm_secret m) (tm_issuer m) t raw of
       None \<Rightarrow> throw ErrInvalidToken
     | Some c \<Rightarrow> if claims_ok expected c then ret c else throw ErrInvalidToken)"

definition parse_access :: "auth_env \<Rightarrow> manager \<Rightarrow> string \<Rightarrow> claims io" where
  "parse_access env m raw = parse_token env m raw TokenTypeAccess"

definition parse_refresh :: "auth_env \<Rightarrow> manager \<Rightarrow> string \<Rightarrow> claims io" where
  "parse_refresh env m raw = parse_token env m raw TokenTypeRefresh"

subsection \<open>What the JWT library promises\<close>

text \<open>
  Claims survive the JSON encoding when their texts are valid UTF-8 and their dates whole seconds. A
  token signed with the same secret is then accepted exactly for the same issuer, before its
  expiry and not before its issue time. The compact form consists of printable ASCII.
\<close>

definition encodable :: "claims \<Rightarrow> bool" where
  "encodable c \<longleftrightarrow> valid_utf8 (cl_username c) \<and> valid_utf8 (cl_token_type c) \<and> valid_utf8 (cl_family_id c) \<and>
     valid_utf8 (cl_issuer c) \<and> valid_utf8 (cl_subject c) \<and> valid_utf8 (cl_id c) \<and>
     second dvd cl_issued_at c \<and> second dvd cl_expires_at c"

definition printable :: "string \<Rightarrow> bool" where
  "printable s = list_all (\<lambda>c. 32 < byte c \<and> byte c < 127) s"

definition jwt_laws :: "auth_env \<Rightarrow> bool" where
  "jwt_laws env \<longleftrightarrow> (\<forall>secret issuer t c raw. ae_sign env secret c = Some raw \<longrightarrow>
     raw \<noteq> [] \<and> printable raw \<and>
     (encodable c \<longrightarrow> ae_parse env secret issuer t raw =
       (if cl_issuer c = issuer \<and> t < cl_expires_at c \<and> cl_issued_at c \<le> t then Some c else None)))"

lemma jwt_parse:
  assumes "jwt_laws env" "ae_sign env secret c = Some raw" "encodable c"
  shows "ae_parse env secret issuer t raw =
    (if cl_issuer c = issuer \<and> t < cl_expires_at c \<and> cl_issued_at c \<le> t then Some c else None)"
  using assms unfolding jwt_laws_def by blast

lemma jwt_printable: "jwt_laws env \<Longrightarrow> ae_sign env secret c = Some raw \<Longrightarrow> raw \<noteq> [] \<and> printable raw"
  unfolding jwt_laws_def by blast

subsection \<open>Facts\<close>

lemma valid_utf8_ascii: "list_all (\<lambda>c. byte c < 128) s \<Longrightarrow> valid_utf8 s"
proof (induction s)
  case (Cons c s)
  then have "segments (c # s) = (byte c, [c]) # segments s"
    by (subst segments.simps) (simp add: Let_def split: prod.split)
  then show ?case using Cons by (auto simp: valid_utf8_def rune_error_def)
qed (simp add: valid_utf8_def)

lemma ascii_append [simp]: "list_all p (s @ t) \<longleftrightarrow> list_all p s \<and> list_all p t"
  by simp

lemma byte_char: "n < 256 \<Longrightarrow> byte (char_of n) = int n" for n :: nat
  by (metis byte_def mod_less of_char_of of_nat_of_char)

lemma ascii_format_nat: "list_all (\<lambda>c. byte c < 128) (format_nat n)"
proof (induction n rule: format_nat.induct)
  case (1 n)
  then show ?case by (subst format_nat.simps) (auto simp: byte_char)
qed

lemma ascii_format_int: "list_all (\<lambda>c. byte c < 128) (format_int i)"
  using ascii_format_nat by (auto simp: format_int_def byte_def)

lemma ascii_hex_digits: "list_all (\<lambda>c. byte c < 128) (hex_digits k n)"
  by (induction k arbitrary: n) (auto simp: hex_digit_def byte_char)

lemma utf8_facts [simp]:
  "valid_utf8 (format_int i)" "valid_utf8 (hex_id n)" "valid_utf8 []"
  "valid_utf8 TokenTypeAccess" "valid_utf8 TokenTypeRefresh"
  using valid_utf8_ascii [OF ascii_format_int] valid_utf8_ascii [OF ascii_hex_digits]
  by (simp_all add: valid_utf8_ascii hex_id_def TokenTypeAccess_def TokenTypeRefresh_def byte_def)

lemma numeric_date_dvd [simp]: "second dvd numeric_date t"
  by (simp add: numeric_date_def)

lemma numeric_date_le: "numeric_date t \<le> t" "t < numeric_date t + second"
proof -
  have "(t div second) * second = t - t mod second" by (simp add: minus_mod_eq_div_mult)
  moreover have "0 \<le> t mod second" "t mod second < second" by (simp_all add: second_def)
  ultimately show "numeric_date t \<le> t" "t < numeric_date t + second" by (simp_all add: numeric_date_def)
qed

lemma token_types [simp]: "TokenTypeAccess \<noteq> TokenTypeRefresh" "TokenTypeRefresh \<noteq> TokenTypeAccess"
  by (simp_all add: TokenTypeAccess_def TokenTypeRefresh_def)

lemma random_token_ok [io_simps]:
  "random_token w = (Inr n, w') \<longleftrightarrow> net_now w = Pass \<and> n = w_rand w \<and> w' = (net_pop w)\<lparr>w_rand := Suc (w_rand w)\<rparr>"
  by (auto simp: random_token_def remote_def split: net_outcome.splits)

lemma random_id_ok [io_simps]:
  "random_id w = (Inr s, w') \<longleftrightarrow> net_now w = Pass \<and> s = hex_id (w_rand w) \<and> w' = (net_pop w)\<lparr>w_rand := Suc (w_rand w)\<rparr>"
  by (auto simp: random_id_def io_simps)

lemma sign_claims_ok [io_simps]:
  "sign_claims env m c w = (Inr raw, w') \<longleftrightarrow> ae_sign env (tm_secret m) c = Some raw \<and> w' = w"
  by (auto simp: sign_claims_def io_simps split: option.split)

lemma parse_token_ok [io_simps]:
  "parse_token env m raw expected w = (Inr c, w') \<longleftrightarrow>
     (\<exists>t. now w = (Inr t, w') \<and> ae_parse env (tm_secret m) (tm_issuer m) t raw = Some c \<and> claims_ok expected c)"
  by (auto simp: parse_token_def io_simps split: option.splits if_splits)

text \<open>The whole of what a successful \<open>issue_pair\<close> has done.\<close>

lemma issue_pair_ok:
  assumes "issue_pair env m uid username family w = (Inr p, w')"
  obtains t ajti where
    "0 < uid" "trim_space username \<noteq> []" "family \<noteq> [] \<Longrightarrow> tp_family p = family" "tp_family p \<noteq> []"
    "family = [] \<Longrightarrow> valid_utf8 (tp_family p)"
    "ae_sign env (tm_secret m) (registered_claims (tm_issuer m) uid (hex_id ajti) t (t + tm_access_ttl m) username TokenTypeAccess []) = Some (tp_access p)"
    "ae_sign env (tm_secret m) (registered_claims (tm_issuer m) uid (tp_refresh_jti p) t (t + tm_refresh_ttl m) username TokenTypeRefresh (tp_family p)) = Some (tp_refresh p)"
    "\<exists>n\<ge>w_rand w. tp_refresh_jti p = hex_id n \<and> w_rand w' = Suc n" "w_clock w' = t" "w_clock w \<le> t"
    "tp_refresh_expires p = t + tm_refresh_ttl m" "tp_access_expires_in p = tm_access_ttl m div second"
    "w_db w' = w_db w" "w_kv w' = w_kv w" "w_auto w' = w_auto w" "w_cache w' = w_cache w"
  using assms unfolding issue_pair_def
  by (cases "family = []"; cases "w_ticks w")
    (auto simp: io_simps split: if_splits)

end
