(* ===== verification/UserRepo.thy ===== *)
theory UserRepo
  imports Token
begin

text \<open>
  The account statements of \<open>repository/mysql_repository.go\<close>. Names are compared by the collation
  of the table (\<open>same\<close>, an argument). The driver reports the rows an UPDATE really changed, and
  \<open>updated_at\<close> moves only with such a change.
\<close>

definition get_user_by_id :: "int \<Rightarrow> user option io" where
  "get_user_by_id uid = on_error (WrapErr ''get user by id'') (query (\<lambda>d. find (\<lambda>u. u_id u = uid) (users d)))"

definition get_user_by_username :: "(string \<Rightarrow> string \<Rightarrow> bool) \<Rightarrow> string \<Rightarrow> user option io" where
  "get_user_by_username same name =
     on_error (WrapErr ''get user by username'') (query (\<lambda>d. find (\<lambda>u. same (u_username u) name) (users d)))"

definition name_taken :: "(string \<Rightarrow> string \<Rightarrow> bool) \<Rightarrow> string \<Rightarrow> user list \<Rightarrow> bool" where
  "name_taken same name us = list_ex (\<lambda>u. same (u_username u) name) us"

definition create_user :: "(string \<Rightarrow> string \<Rightarrow> bool) \<Rightarrow> user \<Rightarrow> int io" where
  "create_user same u = on_error (WrapErr ''create user'')
     (insert_row ai_users (\<lambda>a. a\<lparr>ai_users := ai_users a + 1\<rparr>) (\<lambda>d. name_taken same (u_username u) (users d))
        (\<lambda>k w d. d\<lparr>users := users d @ [u\<lparr>u_id := k, u_created_at := sql_now w, u_updated_at := sql_now w\<rparr>]\<rparr>))"

text \<open>\<open>UPDATE users SET ... WHERE id = ?\<close> and the number of rows it changed.\<close>

definition set_user :: "int \<Rightarrow> (user \<Rightarrow> user) \<Rightarrow> int \<Rightarrow> user list \<Rightarrow> int \<times> user list" where
  "set_user uid f t us =
     (count_where (\<lambda>u. u_id u = uid \<and> f u \<noteq> u) us,
      update_where (\<lambda>u. u_id u = uid \<and> f u \<noteq> u) (\<lambda>u. (f u)\<lparr>u_updated_at := t\<rparr>) us)"

definition update_users :: "(user list \<Rightarrow> bool) \<Rightarrow> int \<Rightarrow> (user \<Rightarrow> user) \<Rightarrow> int io" where
  "update_users duplicate uid f = on_error map_mysql_error
     (remote (\<lambda>w. if duplicate (users (w_db w)) then (Inl (DriverErr 1062), w)
        else let (n, us) = set_user uid f (sql_now w) (users (w_db w))
             in (Inr n, w\<lparr>w_db := (w_db w)\<lparr>users := us\<rparr>\<rparr>)))"

text \<open>The UNIQUE key on the name rejects the name of another user.\<close>

definition name_conflict :: "(string \<Rightarrow> string \<Rightarrow> bool) \<Rightarrow> int \<Rightarrow> string \<Rightarrow> user list \<Rightarrow> bool" where
  "name_conflict same uid name us \<longleftrightarrow>
     list_ex (\<lambda>u. u_id u = uid) us \<and> list_ex (\<lambda>u. u_id u \<noteq> uid \<and> same (u_username u) name) us"

definition update_user :: "(string \<Rightarrow> string \<Rightarrow> bool) \<Rightarrow> user \<Rightarrow> unit io" where
  "update_user same u = on_error (WrapErr ''update user'')
     (andThen (update_users (name_conflict same (u_id u) (u_username u)) (u_id u)
        (\<lambda>r. r\<lparr>u_username := u_username u, u_password_hash := u_password_hash u, u_nickname := u_nickname u,
           u_avatar_url := u_avatar_url u, u_sign := u_sign u, u_gender := u_gender u\<rparr>)) (\<lambda>_. ret ()))"

definition affected_or_not_found :: "int \<Rightarrow> unit io" where
  "affected_or_not_found n = require (n \<noteq> 0) (Sentinel ErrNotFound)"

definition update_username :: "(string \<Rightarrow> string \<Rightarrow> bool) \<Rightarrow> int \<Rightarrow> string \<Rightarrow> string \<Rightarrow> unit io" where
  "update_username same uid old_name new_name =
     andThen (on_error (WrapErr ''update username'')
        (update_users (name_conflict same uid new_name) uid
          (\<lambda>r. r\<lparr>u_username := new_name, u_nickname := (if same (u_nickname r) old_name then new_name else u_nickname r)\<rparr>)))
       affected_or_not_found"

definition update_password_hash :: "int \<Rightarrow> string \<Rightarrow> unit io" where
  "update_password_hash uid hash =
     andThen (on_error (WrapErr ''update password hash'')
        (update_users (\<lambda>_. False) uid (\<lambda>r. r\<lparr>u_password_hash := hash\<rparr>))) affected_or_not_found"

definition update_avatar_url :: "int \<Rightarrow> string \<Rightarrow> unit io" where
  "update_avatar_url uid url =
     andThen (on_error (WrapErr ''update avatar url'')
        (update_users (\<lambda>_. False) uid (\<lambda>r. r\<lparr>u_avatar_url := url\<rparr>))) affected_or_not_found"

subsection \<open>Facts\<close>

lemma get_user_ok [io_simps]:
  "get_user_by_id uid w = (Inr u, w') \<longleftrightarrow>
     net_now w = Pass \<and> u = find (\<lambda>u. u_id u = uid) (users (w_db w)) \<and> w' = net_pop w"
  "get_user_by_username same name w = (Inr u, w') \<longleftrightarrow>
     net_now w = Pass \<and> u = find (\<lambda>u. same (u_username u) name) (users (w_db w)) \<and> w' = net_pop w"
  by (simp_all add: get_user_by_id_def get_user_by_username_def io_simps)

lemma update_users_ok [io_simps]:
  "update_users dup uid f w = (Inr n, w') \<longleftrightarrow>
     net_now w = Pass \<and> \<not> dup (users (w_db w)) \<and> n = fst (set_user uid f (sql_now w) (users (w_db w))) \<and>
     w' = (net_pop w)\<lparr>w_db := (w_db w)\<lparr>users := snd (set_user uid f (sql_now w) (users (w_db w)))\<rparr>\<rparr>"
  by (auto simp: update_users_def on_error_def remote_def split: net_outcome.splits prod.splits)

lemma create_user_ok [io_simps]:
  "create_user same u w = (Inr k, w') \<longleftrightarrow>
     net_now w = Pass \<and> \<not> name_taken same (u_username u) (users (w_db w)) \<and> k = ai_users (w_auto w) \<and>
     w' = (net_pop w)\<lparr>w_auto := (w_auto w)\<lparr>ai_users := ai_users (w_auto w) + 1\<rparr>,
        w_db := (w_db w)\<lparr>users := users (w_db w) @
          [u\<lparr>u_id := k, u_created_at := sql_now w, u_updated_at := sql_now w\<rparr>]\<rparr>\<rparr>"
  by (auto simp: create_user_def io_simps)

lemma set_user_ids [simp]:
  assumes "\<And>u. u_id (f u) = u_id u"
  shows "map u_id (snd (set_user uid f t us)) = map u_id us"
  using assms by (simp add: set_user_def map_update_where)

lemma set_user_other:
  "u \<in> set us \<Longrightarrow> u_id u \<noteq> uid \<Longrightarrow> u \<in> set (snd (set_user uid f t us))"
  by (force simp: set_user_def set_update_where)

lemma find_set_user:
  assumes "\<And>u. u_id (f u) = u_id u"
  shows "find (\<lambda>u. u_id u = i) (snd (set_user uid f t us)) =
    map_option (\<lambda>u. if u_id u = uid \<and> f u \<noteq> u then (f u)\<lparr>u_updated_at := t\<rparr> else u) (find (\<lambda>u. u_id u = i) us)"
  unfolding set_user_def snd_conv by (rule find_update_where) (simp add: assms)

end
