(* ===== verification/Sessions.thy ===== *)
theory Sessions
  imports UserRepo
begin

text \<open>
  Refresh sessions in Redis, \<open>repository/redis_extensions.go\<close>: the hash \<open>refresh:{jti}\<close> and the
  index set \<open>refresh_user:{uid}\<close>. A pipeline between MULTI and EXEC is one atomic call. Rotation
  is optimistic: it watches the old hash, reads it, and its EXEC is refused if the hash has changed
  since, so the read and the EXEC are separate steps (\<open>rotate_begin\<close>, \<open>rotate_commit\<close>).
\<close>

text \<open>A call on the keys of the store, at the server's time.\<close>

definition kv :: "(int \<Rightarrow> kv_store \<Rightarrow> 'a \<times> kv_store) \<Rightarrow> 'a io" where
  "kv f = remote (\<lambda>w. let (x, k) = f (w_clock w) (w_kv w) in (Inr x, w\<lparr>w_kv := k\<rparr>))"

definition kv_read :: "(int \<Rightarrow> kv_store \<Rightarrow> 'a) \<Rightarrow> 'a io" where
  "kv_read f = kv (\<lambda>t k. (f t k, k))"

definition kv_write :: "(int \<Rightarrow> kv_store \<Rightarrow> kv_store) \<Rightarrow> unit io" where
  "kv_write f = kv (\<lambda>t k. ((), f t k))"

record refresh_session =
  rf_user :: int
  rf_jti :: string
  rf_family :: string
  rf_expires_at :: int

text \<open>EXPIRE takes whole seconds; a shorter lifetime is sent as one second.\<close>

definition expire_seconds :: "int \<Rightarrow> int" where
  "expire_seconds ttl = (if 0 < ttl \<and> ttl < second then 1 else ttl div second)"

definition session_of :: "refresh_session \<Rightarrow> session_hash" where
  "session_of s = \<lparr>sh_user_id = format_int (rf_user s), sh_family_id = rf_family s,
     sh_expires_at = format_int (rf_expires_at s div second)\<rparr>"

definition index_members :: "int \<Rightarrow> int \<Rightarrow> kv_store \<Rightarrow> string list" where
  "index_members t uid k = (case live t (kv_user_sessions k uid) of Some js \<Rightarrow> js | None \<Rightarrow> [])"

text \<open>HSET, EXPIRE, SADD, EXPIRE.\<close>

definition put_session :: "refresh_session \<Rightarrow> int \<Rightarrow> int \<Rightarrow> kv_store \<Rightarrow> kv_store" where
  "put_session s ttl t k =
     (let expiry = t + expire_seconds ttl * second
      in k\<lparr>kv_sessions := (kv_sessions k)(rf_jti s \<mapsto> (session_of s, expiry)),
           kv_user_sessions := (kv_user_sessions k)
             (rf_user s \<mapsto> (sadd (rf_jti s) (index_members t (rf_user s) k), expiry))\<rparr>)"

definition effective_ttl :: "int \<Rightarrow> int \<Rightarrow> string \<Rightarrow> int io" where
  "effective_ttl ttl expires_at message =
     andThen (if ttl \<le> 0 then andThen now (\<lambda>t. ret (expires_at - t)) else ret ttl) (\<lambda>ttl'.
     andThen (require (0 < ttl') (PlainErr message)) (\<lambda>_. ret ttl'))"

definition store_refresh_session :: "refresh_session \<Rightarrow> int \<Rightarrow> unit io" where
  "store_refresh_session s ttl =
     andThen (effective_ttl ttl (rf_expires_at s) ''refresh session is already expired'') (\<lambda>ttl'.
     on_error (WrapErr ''store refresh session'') (kv_write (put_session s ttl')))"

text \<open>DEL of the old hash, SREM from the index, then the new session.\<close>

definition forget_session :: "int \<Rightarrow> string \<Rightarrow> int \<Rightarrow> kv_store \<Rightarrow> kv_store" where
  "forget_session uid old t k =
     k\<lparr>kv_sessions := (kv_sessions k)(old := None),
       kv_user_sessions := (case live t (kv_user_sessions k uid) of
          None \<Rightarrow> kv_user_sessions k
        | Some js \<Rightarrow> (kv_user_sessions k)(uid :=
            (if removeAll old js = [] then None
             else Some (removeAll old js, snd (the (kv_user_sessions k uid))))))\<rparr>"

definition replace_session :: "int \<Rightarrow> string \<Rightarrow> refresh_session \<Rightarrow> int \<Rightarrow> int \<Rightarrow> kv_store \<Rightarrow> kv_store" where
  "replace_session old_user old next_s ttl t k = put_session next_s ttl t (forget_session old_user old t k)"

text \<open>The callback of WATCH up to its EXEC: the hash it saw and the user it names.\<close>

definition check_session :: "session_hash option \<Rightarrow> refresh_session \<Rightarrow> (session_hash \<times> int) io" where
  "check_session seen next_s =
     (case seen of
        None \<Rightarrow> throw (Sentinel ErrNotFound)
      | Some h \<Rightarrow> (case parse_int (sh_user_id h) of
          None \<Rightarrow> throw (WrapErr ''invalid refresh session user'' (PlainErr ''invalid syntax''))
        | Some old_user \<Rightarrow>
            if old_user \<noteq> rf_user next_s \<or> sh_family_id h = [] \<or> sh_family_id h \<noteq> rf_family next_s
            then throw (Sentinel ErrNotFound) else ret (h, old_user)))"

definition rotate_begin :: "string \<Rightarrow> refresh_session \<Rightarrow> (session_hash \<times> int) io" where
  "rotate_begin old next_s =
     andThen (on_error (WrapErr ''read old refresh session'') (kv_read (\<lambda>t k. live t (kv_sessions k old)))) (\<lambda>seen.
     check_session seen next_s)"

text \<open>\<open>TxFailedErr\<close> is reported as \<open>ErrNotFound\<close>: the token was used by someone else.\<close>

definition rotate_commit :: "session_hash \<Rightarrow> int \<Rightarrow> string \<Rightarrow> refresh_session \<Rightarrow> int \<Rightarrow> unit io" where
  "rotate_commit seen old_user old next_s ttl =
     andThen (kv (\<lambda>t k. if live t (kv_sessions k old) = Some seen
          then (True, replace_session old_user old next_s ttl t k) else (False, k))) (\<lambda>committed.
     require committed (Sentinel ErrNotFound))"

definition rotate_refresh_session :: "string \<Rightarrow> refresh_session \<Rightarrow> int \<Rightarrow> unit io" where
  "rotate_refresh_session old next_s ttl =
     andThen (effective_ttl ttl (rf_expires_at next_s) ''replacement refresh session is already expired'') (\<lambda>ttl'.
     andThen (rotate_begin old next_s) (\<lambda>(seen, old_user).
     rotate_commit seen old_user old next_s ttl'))"

text \<open>SMEMBERS of the index, then DEL of the index and of the hashes it named.\<close>

definition revoke_begin :: "int \<Rightarrow> string list io" where
  "revoke_begin uid = on_error (WrapErr ''read refresh session index'') (kv_read (\<lambda>t k. index_members t uid k))"

definition drop_sessions :: "int \<Rightarrow> string list \<Rightarrow> kv_store \<Rightarrow> kv_store" where
  "drop_sessions uid jtis k =
     k\<lparr>kv_sessions := (\<lambda>j. if j \<in> set jtis then None else kv_sessions k j),
       kv_user_sessions := (kv_user_sessions k)(uid := None)\<rparr>"

definition revoke_commit :: "int \<Rightarrow> string list \<Rightarrow> unit io" where
  "revoke_commit uid jtis = on_error (WrapErr ''revoke refresh sessions'') (kv_write (\<lambda>t. drop_sessions uid jtis))"

definition revoke_user_refresh_sessions :: "int \<Rightarrow> unit io" where
  "revoke_user_refresh_sessions uid = andThen (revoke_begin uid) (revoke_commit uid)"

subsection \<open>Facts\<close>

lemma kv_ok [io_simps]:
  "kv f w = (Inr x, w') \<longleftrightarrow> net_now w = Pass \<and> x = fst (f (w_clock w) (w_kv w)) \<and>
     w' = (net_pop w)\<lparr>w_kv := snd (f (w_clock w) (w_kv w))\<rparr>"
  by (auto simp: kv_def remote_def split: net_outcome.splits prod.splits)

lemma kv_same [simp]: "(net_pop w)\<lparr>w_kv := w_kv w\<rparr> = net_pop w"
  by (simp add: net_pop_def)

lemma kv_read_ok [io_simps]:
  "kv_read f w = (Inr x, w') \<longleftrightarrow> net_now w = Pass \<and> x = f (w_clock w) (w_kv w) \<and> w' = net_pop w"
  by (auto simp: kv_read_def kv_ok)

lemma kv_write_ok [io_simps]:
  "kv_write f w = (Inr x, w') \<longleftrightarrow> net_now w = Pass \<and> w' = (net_pop w)\<lparr>w_kv := f (w_clock w) (w_kv w)\<rparr>"
  by (auto simp: kv_write_def kv_ok)

lemma effective_ttl_ok [io_simps]:
  "effective_ttl ttl e msg w = (Inr x, w') \<longleftrightarrow>
     0 < x \<and> (if ttl \<le> 0 then \<exists>t. now w = (Inr t, w') \<and> x = e - t else x = ttl \<and> w' = w)"
  by (auto simp: effective_ttl_def io_simps)

lemma store_ok [io_simps]:
  "store_refresh_session s ttl w = (Inr x, w') \<longleftrightarrow>
     (\<exists>ttl' w1. effective_ttl ttl (rf_expires_at s) ''refresh session is already expired'' w = (Inr ttl', w1) \<and>
        net_now w1 = Pass \<and> w' = (net_pop w1)\<lparr>w_kv := put_session s ttl' (w_clock w1) (w_kv w1)\<rparr>)"
  by (auto simp: store_refresh_session_def andThen_ok on_error_ok kv_write_ok)

lemma check_session_ok [io_simps]:
  "check_session seen s w = (Inr r, w') \<longleftrightarrow> w' = w \<and>
     (\<exists>h. seen = Some h \<and> r = (h, rf_user s) \<and> parse_int (sh_user_id h) = Some (rf_user s) \<and>
        sh_family_id h \<noteq> [] \<and> sh_family_id h = rf_family s)"
  by (auto simp: check_session_def io_simps split: option.splits if_splits)

lemma rotate_begin_ok [io_simps]:
  "rotate_begin old s w = (Inr (h, u), w') \<longleftrightarrow> net_now w = Pass \<and> w' = net_pop w \<and>
     live (w_clock w) (kv_sessions (w_kv w) old) = Some h \<and> u = rf_user s \<and>
     parse_int (sh_user_id h) = Some (rf_user s) \<and> sh_family_id h \<noteq> [] \<and> sh_family_id h = rf_family s"
  by (auto simp: rotate_begin_def io_simps)

lemma rotate_commit_ok [io_simps]:
  "rotate_commit seen u old s ttl w = (Inr x, w') \<longleftrightarrow> net_now w = Pass \<and>
     live (w_clock w) (kv_sessions (w_kv w) old) = Some seen \<and>
     w' = (net_pop w)\<lparr>w_kv := replace_session u old s ttl (w_clock w) (w_kv w)\<rparr>"
  by (auto simp: rotate_commit_def io_simps split: if_splits)

lemma revoke_ok [io_simps]:
  "revoke_user_refresh_sessions uid w = (Inr x, w') \<longleftrightarrow> net_now w = Pass \<and> net_now (net_pop w) = Pass \<and>
     w' = (net_pop (net_pop w))\<lparr>w_kv := drop_sessions uid (index_members (w_clock w) uid (w_kv w)) (w_kv w)\<rparr>"
  by (auto simp: revoke_user_refresh_sessions_def revoke_begin_def revoke_commit_def io_simps)

lemma put_session_lookup [simp]:
  "kv_sessions (put_session s ttl t k) j =
     (if j = rf_jti s then Some (session_of s, t + expire_seconds ttl * second) else kv_sessions k j)"
  by (simp add: put_session_def Let_def)

lemma replace_session_lookup [simp]:
  "kv_sessions (replace_session u old s ttl t k) j =
     (if j = rf_jti s then Some (session_of s, t + expire_seconds ttl * second)
      else if j = old then None else kv_sessions k j)"
  by (simp add: replace_session_def forget_session_def)

lemma drop_sessions_lookup [simp]:
  "kv_sessions (drop_sessions uid js k) j = (if j \<in> set js then None else kv_sessions k j)"
  by (simp add: drop_sessions_def)

lemma expire_seconds_pos: "0 < ttl \<Longrightarrow> 0 < expire_seconds ttl"
  by (auto simp: expire_seconds_def pos_imp_zdiv_pos_iff second_def)

end
