(* ===== verification/AuthService.thy ===== *)
theory AuthService
  imports Sessions
begin

text \<open>
  \<open>service/auth.go\<close> and \<open>middleware/auth.go\<close>: registration, login, refresh, change of the name and
  of the password, and the check of the bearer header in front of the protected routes.
\<close>

record service_tokens =
  st_access :: string
  st_refresh :: string
  st_expires_in :: int
  st_avatar_url :: string

definition internal_failure :: "go_error \<Rightarrow> go_error" where
  "internal_failure e = wrap_code CodeInternalFailure (Some e)"

definition validate_username :: "string \<Rightarrow> go_error + string" where
  "validate_username raw =
     (let username = trim_space raw; n = rune_count username in
      if username \<noteq> raw \<or> n < 3 \<or> n > 50 then Inl (new_err CodeUsernameTooShort)
      else if list_ex (\<lambda>r. is_space r \<or> is_control r) (runes username)
      then Inl (with_message CodeInvalidParam ''username must not contain whitespace or control characters'')
      else Inr username)"

definition validate_password :: "string \<Rightarrow> go_error option" where
  "validate_password password =
     (if rune_count password < 6 then Some (new_err CodePasswordTooShort)
      else if length password > 72 then Some (with_message CodeInvalidParam ''password must not exceed 72 bytes'')
      else None)"

definition lift_sum :: "go_error + 'a \<Rightarrow> 'a io" where
  "lift_sum r = (case r of Inl e \<Rightarrow> throw e | Inr x \<Rightarrow> ret x)"

definition lift_error :: "go_error option \<Rightarrow> unit io" where
  "lift_error e = (case e of None \<Rightarrow> ret () | Some err \<Rightarrow> throw err)"

text \<open>\<open>bcrypt.GenerateFromPassword\<close>: a fresh salt, then the hash.\<close>

definition generate_hash :: "auth_env \<Rightarrow> string \<Rightarrow> string io" where
  "generate_hash env password =
     on_error internal_failure (andThen random_token (\<lambda>salt.
       case ae_hash env salt password of Some h \<Rightarrow> ret h | None \<Rightarrow> throw (PlainErr ''bcrypt'')))"

definition auth_register :: "auth_env \<Rightarrow> string \<Rightarrow> string \<Rightarrow> (int \<times> string) io" where
  "auth_register env username password =
     andThen (lift_sum (validate_username username)) (\<lambda>name.
     andThen (lift_error (validate_password password)) (\<lambda>_.
     andThen (generate_hash env password) (\<lambda>hash.
     andThen (on_error (\<lambda>e. if err_is ErrConflict e then new_err CodeUsernameTaken else internal_failure e)
        (create_user (ae_same_name env) \<lparr>u_id = 0, u_username = name, u_password_hash = hash, u_nickname = name,
           u_avatar_url = [], u_sign = [], u_gender = 0, u_created_at = 0, u_updated_at = 0\<rparr>)) (\<lambda>uid.
     ret (uid, name)))))"

definition new_pair :: "auth_env \<Rightarrow> manager \<Rightarrow> user \<Rightarrow> string \<Rightarrow> (service_tokens \<times> refresh_session \<times> int) io" where
  "new_pair env m u family =
     andThen (on_error internal_failure (issue_pair env m (u_id u) (u_username u) family)) (\<lambda>p.
     andThen now (\<lambda>t.
     ret (\<lparr>st_access = tp_access p, st_refresh = tp_refresh p, st_expires_in = tp_access_expires_in p,
            st_avatar_url = u_avatar_url u\<rparr>,
          \<lparr>rf_user = u_id u, rf_jti = tp_refresh_jti p, rf_family = tp_family p, rf_expires_at = tp_refresh_expires p\<rparr>,
          tp_refresh_expires p - t)))"

definition issue_and_store :: "auth_env \<Rightarrow> manager \<Rightarrow> user \<Rightarrow> string \<Rightarrow> service_tokens io" where
  "issue_and_store env m u family =
     andThen (new_pair env m u family) (\<lambda>(pair, session, ttl).
     andThen (on_error internal_failure (store_refresh_session session ttl)) (\<lambda>_. ret pair))"

text \<open>For an unknown name the comparison with the dummy hash only takes time; its result is dropped.\<close>

definition auth_login :: "auth_env \<Rightarrow> manager \<Rightarrow> string \<Rightarrow> string \<Rightarrow> service_tokens io" where
  "auth_login env m username password =
     andThen (on_error internal_failure (get_user_by_username (ae_same_name env) (trim_space username))) (\<lambda>found.
     case found of
       None \<Rightarrow> throw (new_err CodeWrongPassword)
     | Some u \<Rightarrow>
         if ae_check env (u_password_hash u) password then issue_and_store env m u []
         else throw (new_err CodeWrongPassword))"

definition auth_refresh :: "auth_env \<Rightarrow> manager \<Rightarrow> string \<Rightarrow> service_tokens io" where
  "auth_refresh env m raw =
     andThen (on_error (\<lambda>_. new_err CodeInvalidToken) (parse_refresh env m raw)) (\<lambda>c.
     andThen (on_error internal_failure (get_user_by_id (cl_user_id c))) (\<lambda>found.
     case found of
       None \<Rightarrow> throw (new_err CodeInvalidToken)
     | Some u \<Rightarrow>
         andThen (new_pair env m u (cl_family_id c)) (\<lambda>(pair, session, ttl).
         andThen (on_error (\<lambda>e. if err_is ErrNotFound e then new_err CodeInvalidToken else internal_failure e)
            (rotate_refresh_session (cl_id c) session ttl)) (\<lambda>_. ret pair))))"

definition auth_update_username :: "auth_env \<Rightarrow> manager \<Rightarrow> int \<Rightarrow> string \<Rightarrow> service_tokens io" where
  "auth_update_username env m uid raw =
     andThen (lift_sum (validate_username raw)) (\<lambda>name.
     andThen (on_error internal_failure (get_user_by_id uid)) (\<lambda>found.
     case found of
       None \<Rightarrow> throw (new_err CodeUserNotFound)
     | Some u \<Rightarrow>
         andThen (when_ok (name \<noteq> u_username u)
            (on_error (\<lambda>e. if err_is ErrConflict e then new_err CodeUsernameTaken
                else if err_is ErrNotFound e then new_err CodeUserNotFound else internal_failure e)
              (update_username (ae_same_name env) uid (u_username u) name))) (\<lambda>_.
         let u' = u\<lparr>u_username := name, u_nickname := (if u_nickname u = u_username u then name else u_nickname u)\<rparr> in
         andThen (on_error internal_failure (revoke_user_refresh_sessions uid)) (\<lambda>_.
         issue_and_store env m u' []))))"

definition auth_update_password :: "auth_env \<Rightarrow> int \<Rightarrow> string \<Rightarrow> string \<Rightarrow> unit io" where
  "auth_update_password env uid current new_password =
     andThen (lift_error (validate_password new_password)) (\<lambda>_.
     andThen (on_error internal_failure (get_user_by_id uid)) (\<lambda>found.
     case found of
       None \<Rightarrow> throw (new_err CodeUserNotFound)
     | Some u \<Rightarrow>
         andThen (require (ae_check env (u_password_hash u) current) (new_err CodeWrongPassword)) (\<lambda>_.
         andThen (generate_hash env new_password) (\<lambda>hash.
         andThen (on_error internal_failure (revoke_user_refresh_sessions uid)) (\<lambda>_.
         on_error (\<lambda>e. if err_is ErrNotFound e then new_err CodeUserNotFound else internal_failure e)
           (update_password_hash uid hash))))))"

subsection \<open>The bearer header\<close>

text \<open>\<open>RequireAuth\<close>: the identity put into the request context, or the code of the 401 answer.\<close>

definition require_auth :: "auth_env \<Rightarrow> manager \<Rightarrow> string \<Rightarrow> (int + (int \<times> string)) io" where
  "require_auth env m raw_header =
     (let header = trim_space raw_header; parts = go_fields header in
      if header = [] then ret (Inl CodeUnauthorized)
      else if length parts \<noteq> 2 \<or> \<not> equal_fold (hd parts) ''Bearer'' \<or> parts ! 1 = [] then ret (Inl CodeInvalidToken)
      else andThen (attempt (parse_access env m (parts ! 1))) (\<lambda>r.
        case r of Inl e \<Rightarrow> ret (Inl CodeInvalidToken)
          | Inr c \<Rightarrow> ret (Inr (cl_user_id c, cl_username c))))"

text \<open>\<open>CurrentUserID\<close> on the value stored under the key, if any.\<close>

definition current_user_id :: "int option \<Rightarrow> int \<times> bool" where
  "current_user_id v = (case v of None \<Rightarrow> (0, False) | Some uid \<Rightarrow> (uid, 0 < uid))"

subsection \<open>Facts\<close>

lemma lift_sum_ok [io_simps]: "lift_sum r w = (Inr x, w') \<longleftrightarrow> r = Inr x \<and> w' = w"
  by (auto simp: lift_sum_def io_simps split: sum.splits)

lemma lift_sum_err [io_simps]: "lift_sum r w = (Inl e, w') \<longleftrightarrow> r = Inl e \<and> w' = w"
  by (auto simp: lift_sum_def io_simps split: sum.splits)

lemma lift_error_ok [io_simps]: "lift_error r w = (Inr x, w') \<longleftrightarrow> r = None \<and> w' = w"
  by (auto simp: lift_error_def io_simps split: option.splits)

lemma lift_error_err [io_simps]: "lift_error r w = (Inl e, w') \<longleftrightarrow> r = Some e \<and> w' = w"
  by (auto simp: lift_error_def io_simps split: option.splits)

lemma generate_hash_ok [io_simps]:
  "generate_hash env p w = (Inr h, w') \<longleftrightarrow> net_now w = Pass \<and> ae_hash env (w_rand w) p = Some h \<and>
     w' = (net_pop w)\<lparr>w_rand := Suc (w_rand w)\<rparr>"
  by (auto simp: generate_hash_def io_simps split: option.splits)

lemma new_pair_ok:
  "new_pair env m u family w = (Inr (pair, session, ttl), w') \<longleftrightarrow>
     (\<exists>p w1 t. issue_pair env m (u_id u) (u_username u) family w = (Inr p, w1) \<and> now w1 = (Inr t, w') \<and>
        pair = \<lparr>st_access = tp_access p, st_refresh = tp_refresh p, st_expires_in = tp_access_expires_in p,
            st_avatar_url = u_avatar_url u\<rparr> \<and>
        session = \<lparr>rf_user = u_id u, rf_jti = tp_refresh_jti p, rf_family = tp_family p, rf_expires_at = tp_refresh_expires p\<rparr> \<and>
        ttl = tp_refresh_expires p - t)"
  unfolding new_pair_def by (auto simp: andThen_ok on_error_ok ret_ok)

lemma now_frame: "now w = (Inr t, w') \<Longrightarrow> w_kv w' = w_kv w \<and> w_db w' = w_db w \<and> w_auto w' = w_auto w \<and>
    w_rand w' = w_rand w \<and> w_cache w' = w_cache w \<and> w_clock w' = t \<and> w_clock w \<le> t \<and> w_net w' = w_net w"
  by (auto simp: io_simps split: list.split)

end
