(* ===== verification/AuthDemo.thy ===== *)
theory AuthDemo
  imports AuthService
begin

text \<open>
  A concrete instance of the libraries, on which the properties of the account service are
  evaluated: tokens that spell out every field, a reversible hash, names compared as they are.
  It satisfies the laws for all claims.
\<close>

definition hex_text :: "string \<Rightarrow> string" where
  "hex_text s = concat (map (\<lambda>c. hex_digits 2 (of_char c)) s) @ ''.''"

fun unhex :: "string \<Rightarrow> string" where
  "unhex (a # b # cs) = char_of (hex_value a * 16 + hex_value b) # unhex cs"
| "unhex _ = []"

definition int_text :: "int \<Rightarrow> string" where
  "int_text i = format_int i @ ''.''"

definition read_int :: "string \<Rightarrow> int" where
  "read_int s = (case s of [] \<Rightarrow> 0
     | c # cs \<Rightarrow> if c = CHR ''-'' then - int (the (parse_nat cs)) else int (the (parse_nat s)))"

fun cut :: "string \<Rightarrow> string \<times> string" where
  "cut [] = ([], [])"
| "cut (c # cs) = (if c = CHR ''.'' then ([], cs) else (case cut cs of (a, b) \<Rightarrow> (c # a, b)))"

fun pieces :: "nat \<Rightarrow> string \<Rightarrow> string list" where
  "pieces 0 s = []"
| "pieces (Suc n) s = (case cut s of (a, b) \<Rightarrow> a # pieces n b)"

definition demo_sign :: "string \<Rightarrow> claims \<Rightarrow> string option" where
  "demo_sign secret c = Some (int_text (cl_user_id c) @ hex_text (cl_username c) @ hex_text (cl_token_type c) @
     hex_text (cl_family_id c) @ hex_text (cl_issuer c) @ hex_text (cl_subject c) @ hex_text (cl_id c) @
     int_text (cl_issued_at c) @ int_text (cl_expires_at c))"

definition demo_decode :: "string \<Rightarrow> claims" where
  "demo_decode raw = (let p = pieces 9 raw in
     \<lparr>cl_user_id = read_int (p ! 0), cl_username = unhex (p ! 1), cl_token_type = unhex (p ! 2),
       cl_family_id = unhex (p ! 3), cl_issuer = unhex (p ! 4), cl_subject = unhex (p ! 5),
       cl_id = unhex (p ! 6), cl_issued_at = read_int (p ! 7), cl_expires_at = read_int (p ! 8)\<rparr>)"

definition demo_parse :: "string \<Rightarrow> string \<Rightarrow> int \<Rightarrow> string \<Rightarrow> claims option" where
  "demo_parse secret issuer t raw = (let c = demo_decode raw in
     if cl_issuer c = issuer \<and> t < cl_expires_at c \<and> cl_issued_at c \<le> t then Some c else None)"

definition demo_env :: auth_env where
  "demo_env = \<lparr>ae_sign = demo_sign, ae_parse = demo_parse, ae_hash = (\<lambda>salt p. Some (CHR ''h'' # p)),
     ae_check = (\<lambda>h p. h = CHR ''h'' # p), ae_same_name = (=)\<rparr>"

lemma dot_free_format_nat: "CHR ''.'' \<notin> set (format_nat n)"
proof (induction n rule: format_nat.induct)
  case (1 n)
  have "char_of (48 + d) \<noteq> CHR ''.''" if "d < 10" for d :: nat
  proof
    assume "char_of (48 + d) = CHR ''.''"
    then have "of_char (char_of (48 + d)) = (46 :: nat)" by simp
    then show False using that by (simp add: of_char_of)
  qed
  then show ?case using 1 by (subst format_nat.simps) (auto simp: eq_commute [of "CHR ''.''"])
qed

lemma dot_free_format_int: "CHR ''.'' \<notin> set (format_int i)"
  by (simp add: format_int_def dot_free_format_nat)

lemma hex_digit_not_dot: "d < 16 \<Longrightarrow> hex_digit d \<noteq> CHR ''.''"
proof
  assume d: "d < 16" "hex_digit d = CHR ''.''"
  have "48 \<le> (of_char (hex_digit d) :: nat)" using d(1) by (auto simp: hex_digit_def of_char_of)
  then show False unfolding d(2) by simp
qed

lemma dot_free_hex: "CHR ''.'' \<notin> set (concat (map (\<lambda>c. hex_digits 2 (of_char c)) s))"
  by (auto simp: numeral_2_eq_2 eq_commute [of "CHR ''.''"] hex_digit_not_dot)

lemma cut_dot: "CHR ''.'' \<notin> set a \<Longrightarrow> cut (a @ CHR ''.'' # b) = (a, b)"
  by (induction a) auto

lemma cut_hex: "cut (hex_text s @ b) = (concat (map (\<lambda>c. hex_digits 2 (of_char c)) s), b)"
  using cut_dot [OF dot_free_hex] by (simp add: hex_text_def)

lemma cut_int: "cut (int_text i @ b) = (format_int i, b)"
  using cut_dot [OF dot_free_format_int] by (simp add: int_text_def)

lemma unhex_hex: "unhex (concat (map (\<lambda>c. hex_digits 2 (of_char c)) s)) = s"
proof (induction s)
  case (Cons c s)
  have "of_char c div 16 < (16 :: nat)" using nat_of_char_less_256 [of c] by (auto simp: div_less_iff_less_mult simp del: nat_of_char_less_256)
  then show ?case
    using Cons by (simp add: numeral_2_eq_2 hex_value_digit char_of_char)
qed simp

lemma read_int_format [simp]: "read_int (format_int i) = i"
proof (cases "i < 0")
  case False
  obtain c cs where c: "format_nat (nat i) = c # cs" by (cases "format_nat (nat i)") auto
  show ?thesis
    using False format_nat_no_sign [OF c] parse_nat_format_nat [of "nat i"]
    by (simp add: read_int_def format_int_def c)
qed (simp add: read_int_def format_int_def)

lemma pieces_numeral: "pieces (numeral n) s = (case cut s of (a, b) \<Rightarrow> a # pieces (pred_numeral n) b)"
  by (simp add: numeral_eq_Suc)

lemma demo_decode_sign: "demo_sign secret c = Some raw \<Longrightarrow> demo_decode raw = c"
  using cut_int [of "cl_expires_at c" "[]"]
  by (auto simp: demo_sign_def demo_decode_def Let_def pieces_numeral cut_hex cut_int unhex_hex)

lemma printable_digit: "d < 10 \<Longrightarrow> 32 < byte (char_of (48 + d)) \<and> byte (char_of (48 + d)) < 127" for d :: nat
  by (simp add: byte_char)

lemma printable_format_nat: "printable (format_nat n)"
proof (induction n rule: format_nat.induct)
  case (1 n)
  then show ?case using printable_digit
    by (subst format_nat.simps) (auto simp: printable_def)
qed

lemma printable_pieces: "printable (int_text i)" "printable (hex_text s)"
proof -
  show "printable (int_text i)"
    using printable_format_nat [of "nat i"] printable_format_nat [of "nat (- i)"]
    by (auto simp: int_text_def format_int_def printable_def byte_def)
  have "32 < byte (hex_digit d) \<and> byte (hex_digit d) < 127" if "d < 16" for d
    using that by (auto simp: hex_digit_def byte_char)
  then have "printable (concat (map (\<lambda>c. hex_digits 2 (of_char c)) s))"
    by (induction s) (auto simp: printable_def numeral_2_eq_2)
  then show "printable (hex_text s)" by (simp add: hex_text_def printable_def byte_def)
qed

lemma demo_laws: "jwt_laws demo_env"
proof -
  have "raw \<noteq> [] \<and> printable raw" if "demo_sign secret c = Some raw" for secret c raw
  proof
    show "raw \<noteq> []" using that by (auto simp: demo_sign_def int_text_def)
    show "printable raw" using that printable_pieces by (auto simp: demo_sign_def printable_def)
  qed
  then show ?thesis
    using demo_decode_sign by (auto simp: jwt_laws_def demo_env_def demo_parse_def Let_def)
qed

definition demo_manager :: manager where
  "demo_manager = \<lparr>tm_secret = ''0123456789abcdef0123456789abcdef'', tm_issuer = ''my-im'',
     tm_access_ttl = 2 * second, tm_refresh_ttl = 10 * second\<rparr>"

end
