(* ===== verification/AuthProps.thy ===== *)
theory AuthProps
  imports AuthDemo
begin

text \<open>
  What the account service guarantees: tokens round-trip through the verifier and the two kinds
  are never confused, credentials are validated as stated, login tells an unknown name and a
  wrong password apart in nothing, a registered user can log in and passes \<open>RequireAuth\<close>, and
  a changed password ends the sessions of the user.
\<close>

subsection \<open>Tokens\<close>

lemma registered_fields [simp]:
  "cl_user_id (registered_claims iss uid jti a b name ty fam) = uid"
  "cl_username (registered_claims iss uid jti a b name ty fam) = name"
  "cl_token_type (registered_claims iss uid jti a b name ty fam) = ty"
  "cl_family_id (registered_claims iss uid jti a b name ty fam) = fam"
  "cl_issuer (registered_claims iss uid jti a b name ty fam) = iss"
  "cl_subject (registered_claims iss uid jti a b name ty fam) = format_int uid"
  "cl_id (registered_claims iss uid jti a b name ty fam) = jti"
  "cl_issued_at (registered_claims iss uid jti a b name ty fam) = numeric_date a"
  "cl_expires_at (registered_claims iss uid jti a b name ty fam) = numeric_date b"
  by (simp_all add: registered_claims_def)

lemma registered_encodable:
  "valid_utf8 iss \<Longrightarrow> valid_utf8 name \<Longrightarrow> valid_utf8 ty \<Longrightarrow> valid_utf8 fam \<Longrightarrow> valid_utf8 jti \<Longrightarrow>
    encodable (registered_claims iss uid jti a b name ty fam)"
  by (simp add: encodable_def)

lemma parse_registered:
  assumes "jwt_laws env" "ae_sign env (tm_secret m) (registered_claims (tm_issuer m) uid jti a b name ty fam) = Some raw"
    "valid_utf8 (tm_issuer m)" "valid_utf8 name" "valid_utf8 ty" "valid_utf8 fam" "valid_utf8 jti"
    "now v = (Inr t, v')" "numeric_date a \<le> t"
  shows "parse_token env m raw expected v =
    (if t < numeric_date b \<and> claims_ok expected (registered_claims (tm_issuer m) uid jti a b name ty fam)
     then (Inr (registered_claims (tm_issuer m) uid jti a b name ty fam), v') else (Inl ErrInvalidToken, v'))"
  using jwt_parse [OF assms(1,2) registered_encodable [OF assms(3-7)], of "tm_issuer m" t] assms(8,9)
  by (simp add: parse_token_def andThen_def ret_def throw_def)

lemma token_roundtrip_aux:
  assumes laws: "jwt_laws env" "valid_utf8 username" "valid_utf8 (tm_issuer m)" "valid_utf8 family"
    and issued: "issue_pair env m uid username family w = (Inr p, w1)"
    and later: "now v = (Inr t, v')" "w_clock w1 \<le> t"
  shows "t < numeric_date (w_clock w1 + tm_access_ttl m) \<Longrightarrow>
      \<exists>c. parse_access env m (tp_access p) v = (Inr c, v') \<and> cl_user_id c = uid \<and> cl_username c = username"
    "\<not> t < numeric_date (w_clock w1 + tm_access_ttl m) \<Longrightarrow>
      parse_access env m (tp_access p) v = (Inl ErrInvalidToken, v')"
    "t < numeric_date (w_clock w1 + tm_refresh_ttl m) \<Longrightarrow>
      \<exists>c. parse_refresh env m (tp_refresh p) v = (Inr c, v') \<and> cl_user_id c = uid \<and> cl_username c = username \<and>
        cl_id c = tp_refresh_jti p \<and> cl_family_id c = tp_family p"
    "\<not> t < numeric_date (w_clock w1 + tm_refresh_ttl m) \<Longrightarrow>
      parse_refresh env m (tp_refresh p) v = (Inl ErrInvalidToken, v')"
    "parse_access env m (tp_refresh p) v = (Inl ErrInvalidToken, v')"
    "parse_refresh env m (tp_access p) v = (Inl ErrInvalidToken, v')"
proof -
  obtain t0 ajti n where i: "0 < uid" "trim_space username \<noteq> []" "family \<noteq> [] \<Longrightarrow> tp_family p = family"
      "tp_family p \<noteq> []" "family = [] \<Longrightarrow> valid_utf8 (tp_family p)"
      "ae_sign env (tm_secret m) (registered_claims (tm_issuer m) uid (hex_id ajti) t0 (t0 + tm_access_ttl m) username TokenTypeAccess []) = Some (tp_access p)"
      "ae_sign env (tm_secret m) (registered_claims (tm_issuer m) uid (tp_refresh_jti p) t0 (t0 + tm_refresh_ttl m) username TokenTypeRefresh (tp_family p)) = Some (tp_refresh p)"
      "tp_refresh_jti p = hex_id n" "w_clock w1 = t0"
    using issue_pair_ok [OF issued] by metis
  have fam: "valid_utf8 (tp_family p)" using i(3,5) laws(4) by (cases "family = []") auto
  have t: "numeric_date t0 \<le> t" using later(2) i(9) numeric_date_le(1) [of t0] by simp
  note parse_a = parse_registered [OF laws(1) i(6) laws(3) laws(2) _ _ _ later(1) t, simplified]
  note parse_r = parse_registered [OF laws(1) i(7) laws(3) laws(2) _ fam _ later(1) t, simplified i(8), simplified]
  show "t < numeric_date (w_clock w1 + tm_access_ttl m) \<Longrightarrow>
      \<exists>c. parse_access env m (tp_access p) v = (Inr c, v') \<and> cl_user_id c = uid \<and> cl_username c = username"
    and "\<not> t < numeric_date (w_clock w1 + tm_access_ttl m) \<Longrightarrow>
      parse_access env m (tp_access p) v = (Inl ErrInvalidToken, v')"
    and "t < numeric_date (w_clock w1 + tm_refresh_ttl m) \<Longrightarrow>
      \<exists>c. parse_refresh env m (tp_refresh p) v = (Inr c, v') \<and> cl_user_id c = uid \<and> cl_username c = username \<and>
        cl_id c = tp_refresh_jti p \<and> cl_family_id c = tp_family p"
    and "\<not> t < numeric_date (w_clock w1 + tm_refresh_ttl m) \<Longrightarrow>
      parse_refresh env m (tp_refresh p) v = (Inl ErrInvalidToken, v')"
    and "parse_access env m (tp_refresh p) v = (Inl ErrInvalidToken, v')"
    and "parse_refresh env m (tp_access p) v = (Inl ErrInvalidToken, v')"
    using i parse_a parse_r by (simp_all add: parse_access_def parse_refresh_def claims_ok_def)
qed

text \<open>
  C19. Token round trip. A pair issued for a user is accepted by the verifier with the same identity
  exactly until its (whole-second) expiry, each token only as its own kind: an access token is
  never accepted as a refresh token and a refresh token never as an access token.
\<close>

theorem token_roundtrip:
  assumes "jwt_laws env" "valid_utf8 username" "valid_utf8 (tm_issuer m)" "valid_utf8 family"
    and "issue_pair env m uid username family w = (Inr p, w1)"
    and "now v = (Inr t, v')" "w_clock w1 \<le> t"
  shows "(if t < numeric_date (w_clock w1 + tm_access_ttl m)
      then \<exists>c. parse_access env m (tp_access p) v = (Inr c, v') \<and> cl_user_id c = uid \<and> cl_username c = username
      else parse_access env m (tp_access p) v = (Inl ErrInvalidToken, v')) \<and>
    (if t < numeric_date (w_clock w1 + tm_refresh_ttl m)
      then \<exists>c. parse_refresh env m (tp_refresh p) v = (Inr c, v') \<and> cl_user_id c = uid \<and> cl_username c = username \<and>
        cl_id c = tp_refresh_jti p \<and> cl_family_id c = tp_family p
      else parse_refresh env m (tp_refresh p) v = (Inl ErrInvalidToken, v')) \<and>
    parse_access env m (tp_refresh p) v = (Inl ErrInvalidToken, v') \<and>
    parse_refresh env m (tp_access p) v = (Inl ErrInvalidToken, v')"
  using token_roundtrip_aux [OF assms] by auto

subsection \<open>Credentials\<close>

lemma trim_space_no_space:
  assumes "list_all (\<lambda>r. \<not> is_space r) (runes s)"
  shows "trim_space s = s"
proof -
  have "dropWhile space_seg (segments s) = segments s" "dropWhile space_seg (rev (segments s)) = rev (segments s)"
    using assms by (auto simp: runes_def list_all_iff space_seg_def dropWhile_eq_self_iff hd_rev)
  then show ?thesis by (simp add: trim_space_def trim_segments_def)
qed


subsection \<open>Login\<close>

text \<open>A network without faults, a clock that stands still, and a signer that signs.\<close>

definition signs :: "auth_env \<Rightarrow> manager \<Rightarrow> bool" where
  "signs env m \<longleftrightarrow> (\<forall>c. ae_sign env (tm_secret m) c \<noteq> None) \<and> second \<le> tm_access_ttl m \<and> second \<le> tm_refresh_ttl m"

definition still :: "world \<Rightarrow> bool" where
  "still w \<longleftrightarrow> calm w \<and> w_ticks w = []"

lemma still_step:
  assumes "still w"
  shows "net_pop w = w" "net_now w = Pass" "now w = (Inr (w_clock w), w)"
    "random_id w = (Inr (hex_id (w_rand w)), w\<lparr>w_rand := Suc (w_rand w)\<rparr>)"
  using assms by (simp_all add: still_def now_def random_id_def random_token_def remote_def andThen_def ret_def)

lemma still_updates [simp]:
  "still (w\<lparr>w_rand := n\<rparr>) = still w" "still (w\<lparr>w_kv := k\<rparr>) = still w" "still (w\<lparr>w_db := d\<rparr>) = still w"
  "still (w\<lparr>w_auto := a\<rparr>) = still w"
  by (simp_all add: still_def)

lemma still_issue:
  assumes "still w" "signs env m" "0 < uid" "trim_space name \<noteq> []"
  shows "\<exists>p n. issue_pair env m uid name family w = (Inr p, w\<lparr>w_rand := n\<rparr>)"
proof -
  have sign: "sign_claims env m c v = (Inr (the (ae_sign env (tm_secret m) c)), v)" for c v
    using assms(2) by (cases "ae_sign env (tm_secret m) c") (simp_all add: signs_def sign_claims_def ret_def, metis option.distinct(1))
  show ?thesis
    using assms(1,3,4)
    by (cases "family = []") (auto simp: issue_pair_def andThen_def on_error_def still_step sign ret_def)
qed

lemma issued_expiry:
  "issue_pair env m uid name family w = (Inr p, w1) \<Longrightarrow> tp_refresh_expires p = w_clock w1 + tm_refresh_ttl m"
  by (erule issue_pair_ok) simp

lemma still_issue_and_store:
  assumes "still w" "signs env m" "0 < u_id u" "trim_space (u_username u) \<noteq> []"
  shows "\<exists>p n k. issue_pair env m (u_id u) (u_username u) family w = (Inr p, w\<lparr>w_rand := n\<rparr>) \<and>
    issue_and_store env m u family w =
      (Inr \<lparr>st_access = tp_access p, st_refresh = tp_refresh p, st_expires_in = tp_access_expires_in p,
           st_avatar_url = u_avatar_url u\<rparr>, w\<lparr>w_rand := n, w_kv := k\<rparr>)"
proof -
  obtain p n where p: "issue_pair env m (u_id u) (u_username u) family w = (Inr p, w\<lparr>w_rand := n\<rparr>)"
    using still_issue [OF assms] by blast
  have "0 < tp_refresh_expires p - w_clock w"
    using issued_expiry [OF p] assms(2) by (simp add: signs_def second_def)
  then show ?thesis using p assms(1)
    by (auto simp: issue_and_store_def new_pair_def store_refresh_session_def effective_ttl_def kv_write_def kv_def
        remote_def andThen_def on_error_def ret_def require_def still_step)
qed

text \<open>
  C22. Login. Without faults login succeeds exactly for the password of an account that has the
  (trimmed) name; in every other case, unknown name and wrong password alike, the answer is the
  same error and nothing at all has changed.
\<close>

theorem login_outcome:
  assumes "still w" "signs env m" "\<forall>u\<in>set (users (w_db w)). 0 < u_id u \<and> trim_space (u_username u) \<noteq> []"
  shows "if \<exists>u. find (\<lambda>u. ae_same_name env (u_username u) (trim_space name)) (users (w_db w)) = Some u \<and>
            ae_check env (u_password_hash u) pw
    then \<exists>pair w'. auth_login env m name pw w = (Inr pair, w') \<and> w_db w' = w_db w
    else auth_login env m name pw w = (Inl (new_err CodeWrongPassword), w)"
proof (cases "find (\<lambda>u. ae_same_name env (u_username u) (trim_space name)) (users (w_db w))")
  case None
  then show ?thesis using assms(1)
    by (simp add: auth_login_def andThen_def on_error_def get_user_by_username_def calm_query still_def throw_def)
next
  case (Some u)
  then have u: "0 < u_id u" "trim_space (u_username u) \<noteq> []" using assms(3) find_Some_iff2 by fastforce+
  show ?thesis
    using Some still_issue_and_store [OF assms(1,2) u, of "[]"] assms(1)
    by (auto simp: auth_login_def andThen_def on_error_def get_user_by_username_def calm_query still_def throw_def)
qed

subsection \<open>Registering, logging in and passing the guard\<close>

lemma segments_ascii: "list_all (\<lambda>c. byte c < 128) s \<Longrightarrow> segments s = map (\<lambda>c. (byte c, [c])) s"
proof (induction s)
  case (Cons c s)
  then show ?case by (subst segments.simps) (simp add: Let_def split: prod.split)
qed simp

lemma space_seg_printable: "32 < byte c \<Longrightarrow> byte c < 127 \<Longrightarrow> \<not> space_seg (byte c, [c])"
  by (auto simp: space_seg_def is_space_def)

lemma collect_printable:
  "printable s \<Longrightarrow> collect_fields cur (map (\<lambda>c. (byte c, [c])) s @ rest) = collect_fields (cur @ s) rest"
  by (induction s arbitrary: cur) (auto simp: printable_def space_seg_printable)

lemma bearer_header:
  assumes "printable raw" "raw \<noteq> []"
  shows "trim_space (''Bearer '' @ raw) = ''Bearer '' @ raw" "go_fields (''Bearer '' @ raw) = [''Bearer'', raw]"
proof -
  have ascii: "list_all (\<lambda>c. byte c < 128) (''Bearer '' @ raw)"
    using assms(1) by (auto simp: printable_def list_all_iff byte_def)
  let ?seg = "\<lambda>c. (byte c, [c])"
  have segs: "segments (''Bearer '' @ raw) = map ?seg (''Bearer '' @ raw)"
    by (rule segments_ascii [OF ascii])
  have word: "printable ''Bearer''" by (simp add: printable_def byte_def)
  have last: "\<not> space_seg (?seg (last raw))" using assms
    by (intro space_seg_printable) (auto simp: printable_def list_all_iff)
  have "dropWhile space_seg (map ?seg (''Bearer '' @ raw)) = map ?seg (''Bearer '' @ raw)"
    by (simp add: space_seg_def is_space_def byte_def)
  moreover have "dropWhile space_seg (rev (map ?seg (''Bearer '' @ raw))) = rev (map ?seg (''Bearer '' @ raw))"
    using last assms(2) by (simp add: dropWhile_eq_self_iff hd_append hd_rev last_map del: map_append)
  ultimately have "trim_segments (map ?seg (''Bearer '' @ raw)) = map ?seg (''Bearer '' @ raw)"
    by (simp only: trim_segments_def rev_rev_ident)
  then show "trim_space (''Bearer '' @ raw) = ''Bearer '' @ raw"
    unfolding trim_space_def segs by (simp add: comp_def)
  have "map ?seg (''Bearer '' @ raw) = map ?seg ''Bearer'' @ ?seg CHR '' '' # map ?seg raw" by simp
  then have "go_fields (''Bearer '' @ raw) = collect_fields [] (map ?seg ''Bearer'' @ ?seg CHR '' '' # map ?seg raw)"
    unfolding go_fields_def segs by (rule arg_cong)
  also have "\<dots> = ''Bearer'' # collect_fields [] (map ?seg raw @ [])"
    unfolding collect_printable [OF word] by (simp add: space_seg_def is_space_def byte_def)
  also have "\<dots> = [''Bearer'', raw]"
    unfolding collect_printable [OF assms(1)] using assms(2) by simp
  finally show "go_fields (''Bearer '' @ raw) = [''Bearer'', raw]" .
qed

lemma require_auth_bearer:
  assumes "printable raw" "raw \<noteq> []" "parse_access env m raw w = (Inr c, w')"
  shows "require_auth env m (''Bearer '' @ raw) w = (Inr (Inr (cl_user_id c, cl_username c)), w')"
proof -
  have "equal_fold ''Bearer'' ''Bearer''" by (simp add: equal_fold_def)
  then show ?thesis using assms
    by (simp add: require_auth_def bearer_header [OF assms(1,2)] Let_def andThen_def attempt_def ret_def
        del: append_Cons append_Nil)
qed

lemma validated:
  assumes "validate_username raw = Inr name"
  shows "name = raw" "trim_space raw = raw" "raw \<noteq> []"
  using assms by (auto simp: validate_username_def Let_def rune_count_def split: if_splits)

lemma numeric_date_later: "second \<le> ttl \<Longrightarrow> t < numeric_date (t + ttl)"
  using numeric_date_le(2) [of "t + ttl"] by linarith

lemma find_new: "\<not> list_ex p us \<Longrightarrow> p u \<Longrightarrow> find p (us @ [u]) = Some u"
  by (induction us) auto

text \<open>
  C21. An account that was just registered can be used: login with the registered name and password
  returns a token pair, and the access token in a bearer header passes \<open>RequireAuth\<close> as that user.
\<close>

theorem register_then_login:
  assumes lib: "jwt_laws env" "signs env m" "valid_utf8 (tm_issuer m)"
      "\<forall>salt h. ae_hash env salt pw = Some h \<longrightarrow> ae_check env h pw" "ae_same_name env raw raw"
    and registered: "auth_register env raw pw w = (Inr (uid, name), w1)"
    and quiet: "still w1" "0 < ai_users (w_auto w)" "valid_utf8 raw"
  shows "\<exists>pair w2. auth_login env m raw pw w1 = (Inr pair, w2) \<and>
    require_auth env m (''Bearer '' @ st_access pair) w2 = (Inr (Inr (uid, raw)), w2)"
proof -
  have "validate_username raw = Inr name" using registered by (auto simp: auth_register_def io_simps)
  note name = validated [OF this]
  have "\<exists>u. find (\<lambda>u. ae_same_name env (u_username u) raw) (users (w_db w1)) = Some u \<and>
      ae_check env (u_password_hash u) pw \<and> u_username u = raw \<and> u_id u = uid \<and> 0 < uid"
    using registered lib(4,5) quiet(2) name
    by (auto simp: auth_register_def io_simps name_taken_def find_new)
  then obtain u where u: "find (\<lambda>u. ae_same_name env (u_username u) raw) (users (w_db w1)) = Some u"
      "ae_check env (u_password_hash u) pw" "u_username u = raw" "u_id u = uid" "0 < uid" by blast
  note h = u name
  obtain p n k where p: "issue_pair env m uid raw [] w1 = (Inr p, w1\<lparr>w_rand := n\<rparr>)"
      "issue_and_store env m u [] w1 = (Inr \<lparr>st_access = tp_access p, st_refresh = tp_refresh p,
          st_expires_in = tp_access_expires_in p, st_avatar_url = u_avatar_url u\<rparr>, w1\<lparr>w_rand := n, w_kv := k\<rparr>)"
    using still_issue_and_store [OF quiet(1) lib(2), of u "[]"] h by auto
  let ?w2 = "w1\<lparr>w_rand := n, w_kv := k\<rparr>"
  have clock: "now ?w2 = (Inr (w_clock w1), ?w2)" using still_step(3) [of ?w2] quiet(1) by simp
  have "w_clock w1 < numeric_date (w_clock w1 + tm_access_ttl m)"
    using lib(2) numeric_date_later by (simp add: signs_def)
  then obtain c where "parse_access env m (tp_access p) ?w2 = (Inr c, ?w2)" "cl_user_id c = uid" "cl_username c = raw"
    using token_roundtrip_aux(1) [OF lib(1) quiet(3) lib(3) _ p(1) clock] by auto
  moreover have "tp_access p \<noteq> [] \<and> printable (tp_access p)"
    using issue_pair_ok [OF p(1)] jwt_printable [OF lib(1)] by metis
  moreover have "auth_login env m raw pw w1 = (Inr \<lparr>st_access = tp_access p, st_refresh = tp_refresh p,
      st_expires_in = tp_access_expires_in p, st_avatar_url = u_avatar_url u\<rparr>, ?w2)"
    using h p(2) quiet(1)
    by (simp add: auth_login_def andThen_def on_error_def get_user_by_username_def calm_query still_def)
  ultimately show ?thesis using require_auth_bearer by fastforce
qed

subsection \<open>A changed password ends the sessions\<close>

text \<open>Every session of a user is in the index of the user, and does not outlive it.\<close>

definition indexed :: "int \<Rightarrow> kv_store \<Rightarrow> bool" where
  "indexed t k \<longleftrightarrow> (\<forall>j h e. kv_sessions k j = Some (h, e) \<longrightarrow> t < e \<longrightarrow>
     (\<exists>uid js e'. parse_int (sh_user_id h) = Some uid \<and> kv_user_sessions k uid = Some (js, e') \<and> j \<in> set js \<and> e \<le> e'))"

definition sessions_of :: "int \<Rightarrow> int \<Rightarrow> kv_store \<Rightarrow> string set" where
  "sessions_of t uid k = {j. \<exists>h. live t (kv_sessions k j) = Some h \<and> parse_int (sh_user_id h) = Some uid}"

lemma revoked_none:
  assumes "indexed t k" "t \<le> t'"
  shows "sessions_of t' uid (drop_sessions uid (index_members t uid k) k) = {}"
proof -
  have "j \<in> set (index_members t uid k)"
    if j: "kv_sessions k j = Some (h, e)" "t' < e" "parse_int (sh_user_id h) = Some uid" for j h e
  proof -
    have "t < e" using j(2) assms(2) by simp
    then obtain js e' where "kv_user_sessions k uid = Some (js, e')" "j \<in> set js" "e \<le> e'"
      using assms(1) j unfolding indexed_def by fastforce
    then show ?thesis using \<open>t < e\<close> by (simp add: index_members_def)
  qed
  then show ?thesis by (fastforce simp: sessions_of_def live_Some split: if_splits)
qed

text \<open>A step that leaves the database and the sessions alone.\<close>

definition same_account :: "world \<Rightarrow> world \<Rightarrow> bool" where
  "same_account w w' \<longleftrightarrow> w_db w' = w_db w \<and> w_kv w' = w_kv w \<and> w_clock w' = w_clock w"

interpretation account_frame: world_frame same_account
  by unfold_locales (auto simp: same_account_def)

lemma account_random: "framed same_account random_token"
  unfolding random_token_def by (rule account_frame.framed_remote) (simp add: framed_def same_account_def)

lemma account_lift: "framed same_account (lift_sum r)" "framed same_account (lift_error e)"
  by (auto simp: lift_sum_def lift_error_def account_frame.framed_ret account_frame.framed_throw split: sum.split option.split)

lemma account_hash: "framed same_account (generate_hash env p)"
  unfolding generate_hash_def
  by (intro account_frame.framed_intros account_random)

lemma account_user: "framed same_account (get_user_by_id uid)"
  unfolding get_user_by_id_def by (intro account_frame.framed_intros)

lemma kv_keeps_db: "w_db (snd (kv f w)) = w_db w" "w_clock (snd (kv f w)) = w_clock w"
  by (auto simp: kv_def remote_def split: net_outcome.splits prod.splits)

text \<open>
  An operation that, if it changes the database, leaves the user without a session. Steps that
  leave the account alone can come before it.
\<close>

definition ends_sessions :: "int \<Rightarrow> 'a io \<Rightarrow> bool" where
  "ends_sessions uid m \<longleftrightarrow> (\<forall>w. indexed (w_clock w) (w_kv w) \<longrightarrow> w_db (snd (m w)) \<noteq> w_db w \<longrightarrow>
     sessions_of (w_clock (snd (m w))) uid (w_kv (snd (m w))) = {})"

lemma ends_throw: "ends_sessions uid (throw e)"
  by (simp add: ends_sessions_def throw_def)

lemma ends_after:
  assumes "framed same_account m" "\<And>x. ends_sessions uid (f x)"
  shows "ends_sessions uid (andThen m f)"
  unfolding ends_sessions_def
proof (intro allI impI)
  fix w assume w: "indexed (w_clock w) (w_kv w)" "w_db (snd (andThen m f w)) \<noteq> w_db w"
  obtain r w1 where m: "m w = (r, w1)" by fastforce
  then have same: "same_account w w1" using assms(1) unfolding framed_def by (metis snd_conv)
  then show "sessions_of (w_clock (snd (andThen m f w))) uid (w_kv (snd (andThen m f w))) = {}"
    using w m assms(2) by (cases r) (auto simp: andThen_def same_account_def ends_sessions_def)
qed

lemma ends_option:
  "ends_sessions uid m \<Longrightarrow> (\<And>x. ends_sessions uid (f x)) \<Longrightarrow> ends_sessions uid (case opt of None \<Rightarrow> m | Some x \<Rightarrow> f x)"
  by (simp split: option.split)

lemma password_hash_frame:
  "w_kv (snd (update_password_hash uid h w)) = w_kv w" "w_clock (snd (update_password_hash uid h w)) = w_clock w"
  by (auto simp: update_password_hash_def update_users_def affected_or_not_found_def require_def andThen_def on_error_def
      remote_def ret_def throw_def split: net_outcome.splits prod.splits sum.splits)

lemma revoke_db: "w_db (snd (revoke_user_refresh_sessions uid w)) = w_db w"
  by (auto simp: revoke_user_refresh_sessions_def revoke_begin_def revoke_commit_def kv_read_def kv_write_def
      andThen_def on_error_def kv_def remote_def split: net_outcome.splits prod.splits sum.splits)

lemma ends_revoke: "ends_sessions uid (andThen (on_error h (revoke_user_refresh_sessions uid))
    (\<lambda>_. on_error g (update_password_hash uid hash)))"
  unfolding ends_sessions_def
proof (intro allI impI)
  fix w assume w: "indexed (w_clock w) (w_kv w)"
    and changed: "w_db (snd (andThen (on_error h (revoke_user_refresh_sessions uid))
      (\<lambda>_. on_error g (update_password_hash uid hash)) w)) \<noteq> w_db w"
  obtain r w1 where rv: "revoke_user_refresh_sessions uid w = (r, w1)" by fastforce
  then have "w_db w1 = w_db w" using revoke_db [of uid w] by simp
  then have "r = Inr ()" using changed rv by (cases r) (auto simp: andThen_def on_error_def)
  then have w1: "w_kv w1 = drop_sessions uid (index_members (w_clock w) uid (w_kv w)) (w_kv w)" "w_clock w1 = w_clock w"
    using rv by (auto simp: revoke_ok)
  show "sessions_of (w_clock (snd (andThen (on_error h (revoke_user_refresh_sessions uid))
      (\<lambda>_. on_error g (update_password_hash uid hash)) w))) uid
    (w_kv (snd (andThen (on_error h (revoke_user_refresh_sessions uid))
      (\<lambda>_. on_error g (update_password_hash uid hash)) w))) = {}"
    using rv \<open>r = Inr ()\<close> w1 revoked_none [OF w order_refl, of uid]
    by (simp add: andThen_def on_error_def on_error_snd [unfolded on_error_def] password_hash_frame)
qed


subsection \<open>The properties at work\<close>

lemma demo_signs: "signs demo_env demo_manager"
  by (simp add: signs_def demo_env_def demo_manager_def demo_sign_def second_def)

lemma demo_utf8: "valid_utf8 ''bob''" "valid_utf8 (tm_issuer demo_manager)"
  by (rule valid_utf8_ascii, simp add: byte_def demo_manager_def)+

lemma demo_name: "trim_space ''bob'' = ''bob''"
  by (rule trim_space_no_space) (simp add: runes_def segments_ascii is_space_def byte_def)

theorem token_roundtrip_witness:
  "\<exists>p n c. issue_pair demo_env demo_manager 1 ''bob'' [] empty_world = (Inr p, empty_world\<lparr>w_rand := n\<rparr>) \<and>
     parse_access demo_env demo_manager (tp_access p) empty_world = (Inr c, empty_world) \<and> cl_user_id c = 1 \<and>
     parse_refresh demo_env demo_manager (tp_access p) empty_world = (Inl ErrInvalidToken, empty_world)"
proof -
  have still: "still empty_world" by (simp add: still_def)
  obtain p n where p: "issue_pair demo_env demo_manager 1 ''bob'' [] empty_world = (Inr p, empty_world\<lparr>w_rand := n\<rparr>)"
    using still_issue [OF still demo_signs, where uid = 1 and name = "''bob''" and family = "[]"] demo_name by auto
  have "now empty_world = (Inr 0, empty_world)" using still_step(3) [OF still] by simp
  moreover have "0 < numeric_date (tm_access_ttl demo_manager)" by code_simp
  ultimately show ?thesis
    using p token_roundtrip [OF demo_laws demo_utf8(1,2) _ p, of empty_world 0 empty_world] by auto
qed

definition demo_bob :: world where
  "demo_bob = empty_world\<lparr>w_db := (w_db empty_world)\<lparr>users :=
     [\<lparr>u_id = 1, u_username = ''bob'', u_password_hash = ''hsecret'', u_nickname = ''bob'', u_avatar_url = [],
        u_sign = [], u_gender = 0, u_created_at = 0, u_updated_at = 0\<rparr>]\<rparr>\<rparr>"

lemma demo_bob_still: "still demo_bob"
  by (simp add: still_def demo_bob_def)

theorem login_outcome_witness:
  "(\<exists>pair w'. auth_login demo_env demo_manager ''bob'' ''secret'' demo_bob = (Inr pair, w')) \<and>
   auth_login demo_env demo_manager ''bob'' ''wrong!'' demo_bob = (Inl (new_err CodeWrongPassword), demo_bob)"
proof -
  have users: "\<forall>u\<in>set (users (w_db demo_bob)). 0 < u_id u \<and> trim_space (u_username u) \<noteq> []"
    by (simp add: demo_bob_def demo_name)
  show ?thesis
    using login_outcome [OF demo_bob_still demo_signs users, of "''bob''" "''secret''"]
      login_outcome [OF demo_bob_still demo_signs users, of "''bob''" "''wrong!''"]
    by (auto simp: demo_bob_def demo_env_def demo_name)
qed

theorem register_then_login_witness:
  "\<exists>w1 pair w2. auth_register demo_env ''bob'' ''secret'' empty_world = (Inr (1, ''bob''), w1) \<and>
     auth_login demo_env demo_manager ''bob'' ''secret'' w1 = (Inr pair, w2) \<and>
     require_auth demo_env demo_manager (''Bearer '' @ st_access pair) w2 = (Inr (Inr (1, ''bob'')), w2)"
proof -
  let ?run = "auth_register demo_env ''bob'' ''secret'' empty_world"
  have "fst ?run = Inr (1, ''bob'')" "w_net (snd ?run) = []" "w_ticks (snd ?run) = []" by code_simp+
  then have run: "?run = (Inr (1, ''bob''), snd ?run)" "still (snd ?run)"
    by (auto simp: prod_eq_iff still_def calm_def)
  have "\<exists>pair w2. auth_login demo_env demo_manager ''bob'' ''secret'' (snd ?run) = (Inr pair, w2) \<and>
     require_auth demo_env demo_manager (''Bearer '' @ st_access pair) w2 = (Inr (Inr (1, ''bob'')), w2)"
    by (rule register_then_login [OF demo_laws demo_signs demo_utf8(2) _ _ run(1) run(2) _ demo_utf8(1)])
      (simp_all add: demo_env_def empty_world_def)
  then show ?thesis using run(1) by blast
qed

definition demo_logged_in :: world where
  "demo_logged_in = demo_bob\<lparr>w_kv := put_session \<lparr>rf_user = 1, rf_jti = ''j'', rf_family = ''f'', rf_expires_at = second\<rparr>
     second 0 (w_kv demo_bob)\<rparr>"


end
