(* ===== verification/SessionSystem.thy ===== *)
theory SessionSystem
  imports AuthProps
begin

text \<open>
  Refresh sessions under concurrency. The steps of the system are the calls the clients make on
  Redis, in any order and with any faults: a rotation is two of them and so is a revocation, and
  anything may happen between the two. JTIs come from \<open>crypto/rand\<close> and are new.
\<close>

datatype pending = Rotating string refresh_session int session_hash int | Revoking int "string list"

record session_system =
  sy_world :: world
  sy_pending :: "pending list"
  sy_issued :: "string list"
  sy_redeemed :: "(string \<times> string) list"

inductive session_step :: "session_system \<Rightarrow> session_system \<Rightarrow> bool" where
  login: "rf_jti s \<notin> set (sy_issued y) \<Longrightarrow> store_refresh_session s ttl (sy_world y) = (r, w') \<Longrightarrow>
    session_step y (y\<lparr>sy_world := w', sy_issued := rf_jti s # sy_issued y\<rparr>)"
| start_rotate: "rf_jti s \<notin> set (sy_issued y) \<Longrightarrow> rotate_begin old s (sy_world y) = (Inr (h, u), w') \<Longrightarrow>
    session_step y (y\<lparr>sy_world := w', sy_issued := rf_jti s # sy_issued y,
      sy_pending := Rotating old s ttl h u # sy_pending y\<rparr>)"
| refuse_rotate: "rotate_begin old s (sy_world y) = (Inl e, w') \<Longrightarrow> session_step y (y\<lparr>sy_world := w'\<rparr>)"
| finish_rotate: "sy_pending y = ps @ Rotating old s ttl h u # qs \<Longrightarrow>
    rotate_commit h u old s ttl (sy_world y) = (r, w') \<Longrightarrow>
    session_step y (y\<lparr>sy_world := w', sy_pending := ps @ qs,
      sy_redeemed := (if isl r then sy_redeemed y else (old, rf_jti s) # sy_redeemed y)\<rparr>)"
| start_revoke: "revoke_begin uid (sy_world y) = (Inr js, w') \<Longrightarrow>
    session_step y (y\<lparr>sy_world := w', sy_pending := Revoking uid js # sy_pending y\<rparr>)"
| finish_revoke: "sy_pending y = ps @ Revoking uid js # qs \<Longrightarrow> revoke_commit uid js (sy_world y) = (r, w') \<Longrightarrow>
    session_step y (y\<lparr>sy_world := w', sy_pending := ps @ qs\<rparr>)"
| crash: "sy_pending y = ps @ p # qs \<Longrightarrow> session_step y (y\<lparr>sy_pending := ps @ qs\<rparr>)"
| environment: "kv_sessions (w_kv w') \<subseteq>\<^sub>m kv_sessions (w_kv (sy_world y)) \<Longrightarrow> session_step y (y\<lparr>sy_world := w'\<rparr>)"

inductive session_run :: "session_system \<Rightarrow> bool" where
  start: "sy_pending y = [] \<Longrightarrow> sy_redeemed y = [] \<Longrightarrow> dom (kv_sessions (w_kv (sy_world y))) \<subseteq> set (sy_issued y) \<Longrightarrow> session_run y"
| step: "session_run y \<Longrightarrow> session_step y y' \<Longrightarrow> session_run y'"

subsection \<open>What each call does to the stored hashes\<close>

lemma kv_cases:
  assumes "kv f w = (r, w')"
  shows "w_kv w' = w_kv w \<and> isl r \<or> w_kv w' = snd (f (w_clock w) (w_kv w))"
  using assms by (auto simp: kv_def remote_def split: net_outcome.splits prod.splits)

lemma stored_hashes:
  assumes "store_refresh_session s ttl w = (r, w')"
  shows "\<exists>e. kv_sessions (w_kv w') = kv_sessions (w_kv w) \<or>
    kv_sessions (w_kv w') = (kv_sessions (w_kv w))(rf_jti s \<mapsto> (session_of s, e))"
proof -
  let ?g = "on_error (WrapErr ''store refresh session'')"
  obtain r1 w1 where t: "effective_ttl ttl (rf_expires_at s) ''refresh session is already expired'' w = (r1, w1)" by fastforce
  have kv: "w_kv w1 = w_kv w"
    using t by (auto simp: effective_ttl_def andThen_def now_def Let_def ret_def require_def throw_def split: if_splits)
  show ?thesis
  proof (cases r1)
    case (Inl e)
    then show ?thesis using assms t kv by (auto simp: store_refresh_session_def andThen_def)
  next
    case (Inr ttl')
    then have "?g (kv_write (put_session s ttl')) w1 = (r, w')"
      using assms t by (simp add: store_refresh_session_def andThen_def)
    then obtain r2 where "kv (\<lambda>t k. ((), put_session s ttl' t k)) w1 = (r2, w')"
      by (auto simp: on_error_def kv_write_def split: prod.splits sum.splits)
    then show ?thesis using kv_cases kv by (fastforce simp: put_session_def Let_def)
  qed
qed

lemma begin_hashes: "rotate_begin old s w = (r, w') \<Longrightarrow> w_kv w' = w_kv w"
  by (auto simp: rotate_begin_def andThen_def on_error_def kv_read_def kv_def remote_def check_session_def ret_def throw_def
      split: net_outcome.splits option.splits prod.splits sum.splits if_splits)

lemma commit_hashes:
  assumes "rotate_commit h u old s ttl w = (r, w')"
  shows "isl r \<and> w_kv w' = w_kv w \<or>
    live (w_clock w) (kv_sessions (w_kv w) old) = Some h \<and>
    (\<exists>e. kv_sessions (w_kv w') = (kv_sessions (w_kv w))(old := None, rf_jti s \<mapsto> (session_of s, e)))"
  using assms
  by (auto simp: rotate_commit_def andThen_def kv_def remote_def require_def ret_def throw_def fun_eq_iff
      split: net_outcome.splits prod.splits sum.splits if_splits)

lemma revoke_hashes:
  "revoke_begin uid w = (r, w') \<Longrightarrow> w_kv w' = w_kv w"
  "revoke_commit uid js w = (r', w') \<Longrightarrow> kv_sessions (w_kv w') \<subseteq>\<^sub>m kv_sessions (w_kv w)"
  by (auto simp: revoke_begin_def revoke_commit_def on_error_def kv_read_def kv_write_def kv_def remote_def map_le_def
      split: net_outcome.splits prod.splits sum.splits if_splits)

subsection \<open>The invariant\<close>

fun new_jtis :: "pending list \<Rightarrow> string list" where
  "new_jtis [] = []"
| "new_jtis (Rotating old s ttl h u # ps) = rf_jti s # new_jtis ps"
| "new_jtis (Revoking uid js # ps) = new_jtis ps"

lemma new_jtis_append [simp]: "new_jtis (ps @ qs) = new_jtis ps @ new_jtis qs"
  by (induction ps rule: new_jtis.induct) auto

text \<open>
  Stored and spent JTIs were issued; the JTI a pending rotation will write is not stored yet and
  no other rotation writes it; a spent JTI is gone, will not be written again, and was spent once.
\<close>

definition jti_inv :: "string set \<Rightarrow> string set \<Rightarrow> string list \<Rightarrow> string list \<Rightarrow> bool" where
  "jti_inv stored issued new spent \<longleftrightarrow>
     stored \<subseteq> issued \<and> set new \<subseteq> issued \<and> set spent \<subseteq> issued \<and> distinct new \<and> distinct spent \<and>
     set new \<inter> stored = {} \<and> set spent \<inter> stored = {} \<and> set spent \<inter> set new = {}"

lemma jti_shrink: "jti_inv D I n s \<Longrightarrow> D' \<subseteq> D \<Longrightarrow> jti_inv D' I n s"
  unfolding jti_inv_def by blast

lemma jti_store: "jti_inv D I n s \<Longrightarrow> j \<notin> I \<Longrightarrow> D' \<subseteq> insert j D \<Longrightarrow> jti_inv D' (insert j I) n s"
  unfolding jti_inv_def by blast

lemma jti_begin: "jti_inv D I n s \<Longrightarrow> j \<notin> I \<Longrightarrow> jti_inv D (insert j I) (j # n) s"
  unfolding jti_inv_def by auto

lemma jti_drop: "jti_inv D I (a @ b @ c) s \<Longrightarrow> jti_inv D I (a @ c) s"
  unfolding jti_inv_def by auto

lemma jti_commit: "jti_inv D I (a @ j # b) s \<Longrightarrow> old \<in> D \<Longrightarrow> jti_inv (insert j (D - {old})) I (a @ b) (old # s)"
  unfolding jti_inv_def by auto

definition stored_jtis :: "world \<Rightarrow> string set" where
  "stored_jtis w = dom (kv_sessions (w_kv w))"

definition sessions_inv :: "session_system \<Rightarrow> bool" where
  "sessions_inv y = jti_inv (stored_jtis (sy_world y)) (set (sy_issued y)) (new_jtis (sy_pending y)) (map fst (sy_redeemed y))"

lemma inv_shrink:
  assumes "sessions_inv y" "stored_jtis w' \<subseteq> stored_jtis (sy_world y)"
  shows "sessions_inv (y\<lparr>sy_world := w'\<rparr>)"
  using jti_shrink assms by (simp add: sessions_inv_def)

lemma inv_drop_pending:
  assumes "sessions_inv y" "sy_pending y = ps @ p # qs"
  shows "sessions_inv (y\<lparr>sy_pending := ps @ qs\<rparr>)"
proof -
  have "new_jtis (ps @ p # qs) = new_jtis ps @ new_jtis [p] @ new_jtis qs" by (cases p) simp_all
  then show ?thesis using assms jti_drop by (simp add: sessions_inv_def)
qed

lemma session_step_inv: "session_step y y' \<Longrightarrow> sessions_inv y \<Longrightarrow> sessions_inv y'"
proof (induction rule: session_step.induct)
  case (login s y ttl r w')
  have "stored_jtis w' \<subseteq> insert (rf_jti s) (stored_jtis (sy_world y))"
    using stored_hashes [OF login(2)] unfolding stored_jtis_def by (metis dom_fun_upd option.distinct(1) order_refl subset_insertI)
  then show ?case using login(1,3) jti_store by (simp add: sessions_inv_def)
next
  case (start_rotate s y old h u w' ttl)
  then have "stored_jtis w' = stored_jtis (sy_world y)"
    using begin_hashes [OF start_rotate(2)] by (simp add: stored_jtis_def)
  then show ?case using start_rotate(1,3) jti_begin by (simp add: sessions_inv_def)
next
  case (refuse_rotate old s y e w')
  then show ?case using begin_hashes [OF refuse_rotate(1)] by (simp add: inv_shrink stored_jtis_def)
next
  case (finish_rotate y ps old s ttl h u qs r w')
  show ?case
  proof (cases "isl r \<and> w_kv w' = w_kv (sy_world y)")
    case True
    then show ?thesis using inv_shrink [OF inv_drop_pending [OF finish_rotate(3,1)], of w']
      by (simp add: stored_jtis_def sessions_inv_def)
  next
    case False
    then obtain e where l: "live (w_clock (sy_world y)) (kv_sessions (w_kv (sy_world y)) old) = Some h"
      "kv_sessions (w_kv w') = (kv_sessions (w_kv (sy_world y)))(old := None, rf_jti s \<mapsto> (session_of s, e))"
      using commit_hashes [OF finish_rotate(2)] by blast
    then have "stored_jtis w' = insert (rf_jti s) (stored_jtis (sy_world y) - {old})" "old \<in> stored_jtis (sy_world y)"
      by (auto simp: stored_jtis_def live_Some)
    then have full: "jti_inv (stored_jtis w') (set (sy_issued y)) (new_jtis (ps @ qs)) (old # map fst (sy_redeemed y))"
      using jti_commit finish_rotate(1,3) by (simp add: sessions_inv_def)
    moreover have "jti_inv (stored_jtis w') (set (sy_issued y)) (new_jtis (ps @ qs)) (map fst (sy_redeemed y))"
      using full unfolding jti_inv_def by auto
    ultimately show ?thesis by (simp add: sessions_inv_def)
  qed
next
  case (start_revoke uid y js w')
  then show ?case using revoke_hashes(1) [OF start_revoke(1)] by (simp add: sessions_inv_def stored_jtis_def)
next
  case (finish_revoke y ps uid js qs r w')
  then show ?case
    using inv_shrink [OF inv_drop_pending [OF finish_revoke(3,1)], of w'] revoke_hashes(2) [OF finish_revoke(2)]
    by (simp add: map_le_implies_dom_le stored_jtis_def sessions_inv_def)
next
  case (crash y ps p qs)
  then show ?case using inv_drop_pending by blast
next
  case (environment w' y)
  then show ?case by (simp add: inv_shrink map_le_implies_dom_le stored_jtis_def)
qed

lemma session_run_inv: "session_run y \<Longrightarrow> sessions_inv y"
proof (induction rule: session_run.induct)
  case (start y)
  then show ?case by (simp add: sessions_inv_def jti_inv_def stored_jtis_def)
qed (rule session_step_inv)

text \<open>
  C18. A refresh token is good for one refresh: over all interleavings of logins, rotations and
  revocations, with any faults, crashes and losses of Redis data, no JTI is redeemed
  twice, also when two rotations have read the session before either commits.
\<close>

theorem refresh_single_use:
  assumes "session_run y"
  shows "distinct (map fst (sy_redeemed y))"
  using session_run_inv [OF assms] by (simp add: sessions_inv_def jti_inv_def)

subsection \<open>The index covers the sessions\<close>

lemma indexed_mono: "indexed t k \<Longrightarrow> t \<le> t' \<Longrightarrow> indexed t' k"
  unfolding indexed_def by (meson le_less_trans)

text \<open>A new lifetime that ends no earlier than the index the user already has.\<close>

definition lifetime_ok :: "refresh_session \<Rightarrow> int \<Rightarrow> world \<Rightarrow> bool" where
  "lifetime_ok s ttl w \<longleftrightarrow> 0 < ttl \<and> - (2 ^ 63) \<le> rf_user s \<and> rf_user s < 2 ^ 63 \<and>
     (\<forall>js e. kv_user_sessions (w_kv w) (rf_user s) = Some (js, e) \<longrightarrow> e \<le> w_clock w + expire_seconds ttl * second)"

lemma put_index [simp]:
  "kv_user_sessions (put_session s ttl t k) = (kv_user_sessions k)
     (rf_user s \<mapsto> (sadd (rf_jti s) (index_members t (rf_user s) k), t + expire_seconds ttl * second))"
  by (simp add: put_session_def Let_def)

lemma indexed_put:
  assumes "indexed t k" "- (2 ^ 63) \<le> rf_user s" "rf_user s < 2 ^ 63"
    and later: "\<And>js e. kv_user_sessions k (rf_user s) = Some (js, e) \<Longrightarrow> e \<le> t + expire_seconds ttl * second"
  shows "indexed t (put_session s ttl t k)"
  unfolding indexed_def
proof (intro allI impI)
  fix j h e
  assume j: "kv_sessions (put_session s ttl t k) j = Some (h, e)" and e: "t < e"
  show "\<exists>uid js e'. parse_int (sh_user_id h) = Some uid \<and>
      kv_user_sessions (put_session s ttl t k) uid = Some (js, e') \<and> j \<in> set js \<and> e \<le> e'"
  proof (cases "j = rf_jti s")
    case True
    then show ?thesis using j parse_int_format_int [OF assms(2,3)] by (auto simp: session_of_def)
  next
    case False
    then obtain uid js e' where o: "parse_int (sh_user_id h) = Some uid" "kv_user_sessions k uid = Some (js, e')"
        "j \<in> set js" "e \<le> e'"
      using assms(1) j e unfolding indexed_def by fastforce
    show ?thesis
    proof (cases "uid = rf_user s")
      case True
      then have "e' \<le> t + expire_seconds ttl * second" using later o(2) by blast
      then show ?thesis using True o e by (auto simp: index_members_def)
    qed (use o in auto)
  qed
qed

lemma indexed_drop: "indexed t k \<Longrightarrow> indexed t (drop_sessions uid (index_members t uid k) k)"
  unfolding indexed_def drop_sessions_def
  by (force simp: index_members_def split: if_splits)

lemma forget_index: "kv_user_sessions (forget_session u old t k) uid = Some (js, e) \<Longrightarrow>
    \<exists>js'. kv_user_sessions k uid = Some (js', e)"
  by (auto simp: forget_session_def live_Some split: option.splits if_splits)

lemma forget_member:
  assumes "kv_user_sessions k uid = Some (js, e)" "j \<in> set js" "j \<noteq> old"
  shows "\<exists>js'. kv_user_sessions (forget_session u old t k) uid = Some (js', e) \<and> j \<in> set js'"
proof -
  have "removeAll old js \<noteq> []" using assms(2,3) by (induction js) auto
  then show ?thesis using assms by (auto simp: forget_session_def live_Some split: option.split)
qed

lemma indexed_forget:
  assumes "indexed t k"
  shows "indexed t (forget_session u old t k)"
  unfolding indexed_def
proof (intro allI impI)
  fix j h e
  assume j: "kv_sessions (forget_session u old t k) j = Some (h, e)" and e: "t < e"
  then have "j \<noteq> old" "kv_sessions k j = Some (h, e)" by (auto simp: forget_session_def split: if_splits)
  then obtain uid js e' where "parse_int (sh_user_id h) = Some uid" "kv_user_sessions k uid = Some (js, e')"
      "j \<in> set js" "e \<le> e'"
    using assms e unfolding indexed_def by blast
  then show "\<exists>uid js e'. parse_int (sh_user_id h) = Some uid \<and>
      kv_user_sessions (forget_session u old t k) uid = Some (js, e') \<and> j \<in> set js \<and> e \<le> e'"
    using forget_member [OF _ _ \<open>j \<noteq> old\<close>] by metis
qed

lemma indexed_replace:
  assumes "indexed t k" "- (2 ^ 63) \<le> rf_user s" "rf_user s < 2 ^ 63"
    and "\<And>js e. kv_user_sessions k (rf_user s) = Some (js, e) \<Longrightarrow> e \<le> t + expire_seconds ttl * second"
  shows "indexed t (replace_session u old s ttl t k)"
  unfolding replace_session_def using assms
  by (intro indexed_put indexed_forget) (auto dest: forget_index)

text \<open>A remote call on the store keeps what its effect keeps.\<close>

lemma kv_keeps:
  assumes "P (w_clock w) (w_kv w)" "P (w_clock w) (snd (f (w_clock w) (w_kv w)))"
  shows "P (w_clock (snd (kv f w))) (w_kv (snd (kv f w)))"
  using assms by (auto simp: kv_def remote_def split: net_outcome.splits prod.splits)

lemma rotate_commit_snd: "snd (rotate_commit h u old s ttl w) = snd (kv (\<lambda>t k.
    if live t (kv_sessions k old) = Some h then (True, replace_session u old s ttl t k) else (False, k)) w)"
  by (auto simp: rotate_commit_def andThen_def require_def ret_def throw_def split: prod.splits sum.splits)

lemma rotate_snd:
  assumes "0 < ttl"
  shows "same_account w (snd (rotate_refresh_session old s ttl w)) \<or>
    (\<exists>h u w1. same_account w w1 \<and> snd (rotate_refresh_session old s ttl w) = snd (rotate_commit h u old s ttl w1))"
proof -
  obtain r w1 where b: "rotate_begin old s w = (r, w1)" by fastforce
  have "same_account w w1" using b
    by (auto simp: same_account_def rotate_begin_def andThen_def on_error_def kv_read_def kv_def remote_def check_session_def
        ret_def throw_def split: net_outcome.splits option.splits prod.splits sum.splits if_splits)
  then show ?thesis using b assms
    by (cases r) (auto simp: rotate_refresh_session_def effective_ttl_def andThen_def ret_def require_def split: prod.splits)
qed

text \<open>
  The index covers the sessions: under any faults, storing a session, a whole rotation and a
  whole revocation keep every live session in the index of its user, provided the new lifetime
  does not end before the one the index has.
\<close>

theorem index_covers_sessions:
  assumes "indexed (w_clock w) (w_kv w)" "lifetime_ok s ttl w"
    and "v \<in> {snd (store_refresh_session s ttl w), snd (rotate_refresh_session old s ttl w),
      snd (revoke_user_refresh_sessions uid w)}"
  shows "indexed (w_clock v) (w_kv v)"
proof -
  have life: "0 < ttl" "- (2 ^ 63) \<le> rf_user s" "rf_user s < 2 ^ 63"
    "\<And>js e. kv_user_sessions (w_kv w) (rf_user s) = Some (js, e) \<Longrightarrow> e \<le> w_clock w + expire_seconds ttl * second"
    using assms(2) by (auto simp: lifetime_ok_def)
  have put: "indexed (w_clock w) (put_session s ttl (w_clock w) (w_kv w))"
    by (rule indexed_put [OF assms(1) life(2,3)]) (rule life(4))
  have replace: "indexed (w_clock w) (replace_session u old s ttl (w_clock w) (w_kv w))" for u
    by (rule indexed_replace [OF assms(1) life(2,3)]) (rule life(4))
  consider (store) "v = snd (kv (\<lambda>t k. ((), put_session s ttl t k)) w)" | (rotate) "v = snd (rotate_refresh_session old s ttl w)"
    | (revoke) "v = snd (revoke_user_refresh_sessions uid w)"
    using assms(3) life(1)
    by (auto simp: store_refresh_session_def effective_ttl_def andThen_def ret_def require_def kv_write_def on_error_snd)
  then show ?thesis
  proof cases
    case store
    then show ?thesis
      using kv_keeps [where P = indexed and f = "\<lambda>t k. ((), put_session s ttl t k)", OF assms(1)] put by simp
  next
    case rotate
    then consider "same_account w v" | h u w1 where "same_account w w1" "v = snd (rotate_commit h u old s ttl w1)"
      using rotate_snd [OF life(1)] by blast
    then show ?thesis
    proof cases
      case 2
      then show ?thesis unfolding 2(2) rotate_commit_snd
        by (intro kv_keeps [where P = indexed]) (use assms(1) replace in \<open>simp_all add: same_account_def\<close>)
    qed (use assms(1) in \<open>simp add: same_account_def\<close>)
  next
    case revoke
    obtain r w1 where b: "revoke_begin uid w = (r, w1)" by fastforce
    have same: "same_account w w1" "\<And>js. r = Inr js \<Longrightarrow> js = index_members (w_clock w) uid (w_kv w)" using b
      by (auto simp: same_account_def revoke_begin_def on_error_def kv_read_def kv_def remote_def
          split: net_outcome.splits prod.splits sum.splits)
    show ?thesis
    proof (cases r)
      case (Inr js)
      then have "v = snd (kv (\<lambda>t k. ((), drop_sessions uid (index_members (w_clock w) uid (w_kv w)) k)) w1)"
        using revoke b same(2) by (simp add: revoke_user_refresh_sessions_def revoke_commit_def andThen_def kv_write_def on_error_snd)
      then show ?thesis using same(1) assms(1) indexed_drop [OF assms(1)]
        by (auto intro!: kv_keeps [where P = indexed] simp: same_account_def)
    qed (use revoke b same(1) assms(1) in \<open>simp add: revoke_user_refresh_sessions_def andThen_def same_account_def\<close>)
  qed
qed

text \<open>A stored session that is rotated twice at the same time: one rotation wins.\<close>

definition demo_session :: "string \<Rightarrow> refresh_session" where
  "demo_session j = \<lparr>rf_user = 1, rf_jti = j, rf_family = ''f'', rf_expires_at = 10 * second\<rparr>"

definition demo_system :: "world \<Rightarrow> pending list \<Rightarrow> string list \<Rightarrow> (string \<times> string) list \<Rightarrow> session_system" where
  "demo_system w ps js rs = \<lparr>sy_world = w, sy_pending = ps, sy_issued = js, sy_redeemed = rs\<rparr>"

definition demo_stored :: world where
  "demo_stored = snd (store_refresh_session (demo_session ''a'') (10 * second) empty_world)"

definition demo_race :: session_system where
  "demo_race =
     (let h = session_of (demo_session ''a'');
          w1 = snd (rotate_begin ''a'' (demo_session ''b'') demo_stored);
          w2 = snd (rotate_begin ''a'' (demo_session ''c'') w1);
          w3 = snd (rotate_commit h 1 ''a'' (demo_session ''c'') (10 * second) w2)
      in demo_system (snd (rotate_commit h 1 ''a'' (demo_session ''b'') (10 * second) w3)) []
           [''c'', ''b'', ''a''] [(''a'', ''c'')])"

lemma demo_reads:
  "rotate_begin ''a'' (demo_session ''b'') demo_stored = (Inr (session_of (demo_session ''a''), 1), demo_stored)"
  "rotate_begin ''a'' (demo_session ''c'') demo_stored = (Inr (session_of (demo_session ''a''), 1), demo_stored)"
proof -
  have "calm demo_stored" "w_clock demo_stored = 0"
    "kv_sessions (w_kv demo_stored) ''a'' = Some (session_of (demo_session ''a''), 10 * second)"
    by (simp_all add: demo_stored_def store_refresh_session_def effective_ttl_def andThen_def ret_def require_def kv_write_def
        on_error_def kv_def remote_def demo_session_def expire_seconds_def second_def)
  moreover have "parse_int (sh_user_id (session_of (demo_session ''a''))) = Some 1" by code_simp
  ultimately show
    "rotate_begin ''a'' (demo_session ''b'') demo_stored = (Inr (session_of (demo_session ''a''), 1), demo_stored)"
    "rotate_begin ''a'' (demo_session ''c'') demo_stored = (Inr (session_of (demo_session ''a''), 1), demo_stored)"
    by (simp_all add: rotate_begin_ok second_def) (simp_all add: demo_session_def session_of_def)
qed

lemma demo_commits:
  defines "h \<equiv> session_of (demo_session ''a'')"
  defines "w1 \<equiv> snd (rotate_commit h 1 ''a'' (demo_session ''c'') (10 * second) demo_stored)"
  shows "rotate_commit h 1 ''a'' (demo_session ''c'') (10 * second) demo_stored = (Inr (), w1)"
    "isl (fst (rotate_commit h 1 ''a'' (demo_session ''b'') (10 * second) w1))"
proof -
  have "isl (fst (rotate_commit h 1 ''a'' (demo_session ''c'') (10 * second) demo_stored)) = False"
    unfolding h_def by code_simp
  then show "rotate_commit h 1 ''a'' (demo_session ''c'') (10 * second) demo_stored = (Inr (), w1)"
    unfolding w1_def by (cases "fst (rotate_commit h 1 ''a'' (demo_session ''c'') (10 * second) demo_stored)") (auto simp: prod_eq_iff)
  show "isl (fst (rotate_commit h 1 ''a'' (demo_session ''b'') (10 * second) w1))"
    unfolding h_def w1_def by code_simp
qed

lemma demo_run: "session_run demo_race"
proof -
  let ?h = "session_of (demo_session ''a'')"
  let ?w1 = "snd (rotate_commit ?h 1 ''a'' (demo_session ''c'') (10 * second) demo_stored)"
  let ?c2 = "rotate_commit ?h 1 ''a'' (demo_session ''b'') (10 * second) ?w1"
  let ?pb = "Rotating ''a'' (demo_session ''b'') (10 * second) ?h 1"
  let ?pc = "Rotating ''a'' (demo_session ''c'') (10 * second) ?h 1"
  have jti: "rf_jti (demo_session j) = j" for j by (simp add: demo_session_def)
  have c2: "?c2 = (fst ?c2, snd ?c2)" "isl (fst ?c2)" using demo_commits(2) by simp_all
  note sys = demo_system_def jti
  have "session_run (demo_system empty_world [] [] [])"
    by (rule start) (simp_all add: demo_system_def empty_store_def)
  moreover have "session_step (demo_system empty_world [] [] []) (demo_system demo_stored [] [''a''] [])"
    using login [of "demo_session ''a''" "demo_system empty_world [] [] []" "10 * second" _ demo_stored]
    by (simp add: sys) (metis demo_stored_def prod.collapse)
  moreover have "session_step (demo_system demo_stored [] [''a''] []) (demo_system demo_stored [?pb] [''b'', ''a''] [])"
    using start_rotate [of "demo_session ''b''" "demo_system demo_stored [] [''a''] []" "''a''" ?h 1 demo_stored "10 * second"]
      demo_reads(1) by (simp add: sys)
  moreover have "session_step (demo_system demo_stored [?pb] [''b'', ''a''] [])
      (demo_system demo_stored [?pc, ?pb] [''c'', ''b'', ''a''] [])"
    using start_rotate [of "demo_session ''c''" "demo_system demo_stored [?pb] [''b'', ''a''] []" "''a''" ?h 1 demo_stored "10 * second"]
      demo_reads(2) by (simp add: sys)
  moreover have "session_step (demo_system demo_stored [?pc, ?pb] [''c'', ''b'', ''a''] [])
      (demo_system ?w1 [?pb] [''c'', ''b'', ''a''] [(''a'', ''c'')])"
    using finish_rotate [of "demo_system demo_stored [?pc, ?pb] [''c'', ''b'', ''a''] []" "[]" "''a''" "demo_session ''c''"
        "10 * second" ?h 1 "[?pb]" "Inr ()" ?w1] demo_commits(1) by (simp add: sys)
  moreover have "session_step (demo_system ?w1 [?pb] [''c'', ''b'', ''a''] [(''a'', ''c'')])
      (demo_system (snd ?c2) [] [''c'', ''b'', ''a''] [(''a'', ''c'')])"
    using finish_rotate [of "demo_system ?w1 [?pb] [''c'', ''b'', ''a''] [(''a'', ''c'')]" "[]" "''a''" "demo_session ''b''"
        "10 * second" ?h 1 "[]" "fst ?c2" "snd ?c2"] c2 by (simp add: sys)
  ultimately have "session_run (demo_system (snd ?c2) [] [''c'', ''b'', ''a''] [(''a'', ''c'')])"
    by (meson step)
  then show ?thesis by (simp add: demo_race_def Let_def demo_reads)
qed

theorem refresh_single_use_witness:
  "session_run demo_race \<and> map fst (sy_redeemed demo_race) = [''a''] \<and> distinct (map fst (sy_redeemed demo_race))"
  using demo_run refresh_single_use [OF demo_run] by (simp add: demo_race_def Let_def demo_system_def)

theorem index_covers_sessions_witness:
  "indexed 0 (w_kv (snd (store_refresh_session (demo_session ''a'') (10 * second) empty_world)))"
proof -
  have "indexed (w_clock empty_world) (w_kv empty_world)" by (simp add: indexed_def empty_store_def)
  moreover have "lifetime_ok (demo_session ''a'') (10 * second) empty_world"
    by (simp add: lifetime_ok_def demo_session_def second_def empty_store_def)
  ultimately have "indexed (w_clock demo_stored) (w_kv demo_stored)"
    using index_covers_sessions [of empty_world "demo_session ''a''" "10 * second" demo_stored] by (simp add: demo_stored_def)
  moreover have "w_clock demo_stored = 0" by code_simp
  ultimately show ?thesis by (simp add: demo_stored_def)
qed

text \<open>
  The condition on overlapping steps is needed: a login between the SMEMBERS and the DEL of a
  revocation leaves a live session that is in no index, so no later revocation finds it.
\<close>

definition late_login :: world where
  "late_login =
     (let w1 = snd (revoke_begin 1 demo_stored);
          w2 = snd (store_refresh_session (demo_session ''b'') (10 * second) w1)
      in snd (revoke_commit 1 [''a''] w2))"

lemma revocation_misses_late_login:
  "fst (revoke_begin 1 demo_stored) = Inr [''a''] \<and>
   live 0 (kv_sessions (w_kv late_login) ''b'') = Some (session_of (demo_session ''b'')) \<and>
   kv_user_sessions (w_kv late_login) 1 = None \<and>
   fst (rotate_begin ''b'' (demo_session ''d'') (snd (revoke_user_refresh_sessions 1 late_login))) = Inr (session_of (demo_session ''b''), 1)"
  by code_simp

end
