(* ===== verification/Presence.thy ===== *)
theory Presence
  imports SessionSystem CacheEvents
begin

text \<open>
  \<open>repository/presence_repository.go\<close>: the lease of a user's WebSocket connection. \<open>conn:{user}\<close>
  holds the ID of the connection that owns the lease, \<open>online:{user}\<close> is what other parts read. Each
  Lua script is one atomic call. Lifetimes are sent in whole milliseconds; Redis refuses an
  expiry of zero.
\<close>

definition millisecond :: int where "millisecond = 1000000"

definition lease_owner :: "int \<Rightarrow> int \<Rightarrow> kv_store \<Rightarrow> string option" where
  "lease_owner t uid k = live t (kv_conn k uid)"

text \<open>\<open>claimPresenceScript\<close>: was the user offline, and the new lease.\<close>

definition claim_script :: "int \<Rightarrow> string \<Rightarrow> int \<Rightarrow> int \<Rightarrow> kv_store \<Rightarrow> bool \<times> kv_store" where
  "claim_script uid conn ms t k =
     (live t (kv_online k uid) = None,
      k\<lparr>kv_conn := (kv_conn k)(uid \<mapsto> (conn, t + ms * millisecond)),
        kv_online := (kv_online k)(uid \<mapsto> (conn, t + ms * millisecond))\<rparr>)"

definition claim_presence :: "int \<Rightarrow> string \<Rightarrow> int \<Rightarrow> bool io" where
  "claim_presence uid conn ttl =
     (if uid \<le> 0 \<or> conn = [] \<or> ttl \<le> 0 then throw (PlainErr ''invalid presence lease'')
      else on_error (WrapErr ''claim presence'')
        (andThen (require (0 < ttl div millisecond) remote_err) (\<lambda>_. kv (claim_script uid conn (ttl div millisecond)))))"

text \<open>\<open>renewPresenceScript\<close>: only the owner extends the lease.\<close>

definition renew_script :: "int \<Rightarrow> string \<Rightarrow> int \<Rightarrow> int \<Rightarrow> kv_store \<Rightarrow> bool \<times> kv_store" where
  "renew_script uid conn ms t k =
     (if lease_owner t uid k \<noteq> Some conn then (False, k)
      else (True, k\<lparr>kv_conn := (kv_conn k)(uid \<mapsto> (conn, t + ms * millisecond)),
                   kv_online := (kv_online k)(uid \<mapsto> (conn, t + ms * millisecond))\<rparr>))"

definition renew_presence :: "int \<Rightarrow> string \<Rightarrow> int \<Rightarrow> bool io" where
  "renew_presence uid conn ttl = on_error (WrapErr ''renew presence'')
     (andThen (require (0 < ttl div millisecond) remote_err) (\<lambda>_. kv (renew_script uid conn (ttl div millisecond))))"

text \<open>\<open>releasePresenceScript\<close>: compare and delete.\<close>

definition release_script :: "int \<Rightarrow> string \<Rightarrow> int \<Rightarrow> kv_store \<Rightarrow> bool \<times> kv_store" where
  "release_script uid conn t k =
     (if lease_owner t uid k \<noteq> Some conn then (False, k)
      else (True, k\<lparr>kv_conn := (kv_conn k)(uid := None), kv_online := (kv_online k)(uid := None)\<rparr>))"

definition release_presence :: "int \<Rightarrow> string \<Rightarrow> bool io" where
  "release_presence uid conn = on_error (WrapErr ''release presence'') (kv (release_script uid conn))"

text \<open>\<open>GetOnlineStates\<close>: one MGET of the online keys; the map of the result is its list of entries.\<close>

definition get_online_states :: "int list \<Rightarrow> (int \<times> bool) list io" where
  "get_online_states ids =
     (if ids = [] then ret []
      else on_error (WrapErr ''batch read online states'')
        (kv_read (\<lambda>t k. map (\<lambda>u. (u, live t (kv_online k u) \<noteq> None)) ids)))"

subsection \<open>What a call does to the owners of leases\<close>

definition world_owner :: "world \<Rightarrow> int \<Rightarrow> string option" where
  "world_owner w uid = lease_owner (w_clock w) uid (w_kv w)"

lemma kv_result:
  "kv f w = (r, w') \<Longrightarrow> (w_kv w' = w_kv w \<and> isl r \<or> w_kv w' = snd (f (w_clock w) (w_kv w))) \<and> w_clock w' = w_clock w"
  using kv_cases [of f w r w'] kv_keeps_db [of f w] by auto

lemma claim_result:
  assumes "claim_presence uid conn ttl w = (r, w')"
  shows "world_owner w' = world_owner w \<and> isl r \<or> world_owner w' = (world_owner w)(uid := Some conn)"
proof -
  let ?ms = "ttl div millisecond"
  have "w' = w \<and> isl r \<or> 0 < ?ms \<and> (\<exists>r1. kv (claim_script uid conn ?ms) w = (r1, w') \<and> isl r1 = isl r)"
    using assms
    by (auto simp: claim_presence_def on_error_def andThen_def require_def ret_def throw_def
        split: if_splits prod.splits sum.splits)
  then show ?thesis
    by (auto dest!: kv_result simp: world_owner_def lease_owner_def claim_script_def fun_eq_iff millisecond_def)
qed

lemma renew_result:
  assumes "renew_presence uid conn ttl w = (r, w')"
  shows "world_owner w' = world_owner w"
proof -
  let ?ms = "ttl div millisecond"
  have "w' = w \<or> 0 < ?ms \<and> (\<exists>r1. kv (renew_script uid conn ?ms) w = (r1, w'))"
    using assms
    by (auto simp: renew_presence_def on_error_def andThen_def require_def ret_def throw_def
        split: if_splits prod.splits sum.splits)
  then show ?thesis
    by (auto dest!: kv_result simp: world_owner_def lease_owner_def renew_script_def fun_eq_iff millisecond_def)
qed

lemma release_result:
  assumes "release_presence uid conn w = (r, w')"
  shows "world_owner w' = world_owner w \<and> (isl r \<or> world_owner w uid \<noteq> Some conn \<and> r = Inr False) \<or>
    world_owner w uid = Some conn \<and> world_owner w' = (world_owner w)(uid := None)"
  using assms
  by (auto simp: release_presence_def on_error_def kv_def remote_def world_owner_def lease_owner_def release_script_def fun_eq_iff
      split: net_outcome.splits prod.splits sum.splits if_splits)

lemma friends_read_owner:
  "w_kv (snd (list_friend_ids_for_cache uid w)) = w_kv w" "w_clock (snd (list_friend_ids_for_cache uid w)) = w_clock w"
  by (auto simp: list_friend_ids_for_cache_def on_error_snd query_def remote_def split: net_outcome.splits)

end
