(* ===== verification/Hub.thy ===== *)
theory Hub
  imports Presence
begin

text \<open>
  \<open>ws/hub.go\<close>: one process's WebSocket connections. A connection is named by its random
  connection ID. Its record holds how far the HTTP handler that accepted it has come, how far its
  read loop has come, whether \<open>done\<close> is closed, the queue of frames to send and what has
  been written to the socket. Each field access under a mutex, each channel operation and each
  remote call is one step; HubSystem composes them into the goroutines.
\<close>

definition defaultPresenceTTL :: int where "defaultPresenceTTL = 60 * second"
definition defaultPingEvery :: int where "defaultPingEvery = 20 * second"
definition defaultWriteWait :: int where "defaultWriteWait = 10 * second"

record hub_options =
  ho_presence_ttl :: int
  ho_ping_every :: int
  ho_write_wait :: int

definition new_hub :: "hub_options \<Rightarrow> go_error + hub_options" where
  "new_hub o1 =
     (let o2 = o1\<lparr>ho_presence_ttl := (if ho_presence_ttl o1 \<le> 0 then defaultPresenceTTL else ho_presence_ttl o1),
                  ho_ping_every := (if ho_ping_every o1 \<le> 0 then defaultPingEvery else ho_ping_every o1),
                  ho_write_wait := (if ho_write_wait o1 \<le> 0 then defaultWriteWait else ho_write_wait o1)\<rparr>
      in if ho_ping_every o2 \<ge> ho_presence_ttl o2
         then Inl (PlainErr ''websocket ping interval must be shorter than presence TTL'') else Inr o2)"

text \<open>The frames a client receives: typed events, presence changes and the kick.\<close>

datatype frame = Event string payload | PresenceEvent int bool | KickFrame

text \<open>
  Where the handler of a connection stands: the socket is upgraded; it is registered with the wait
  group and waits for the lock of its user; it holds the lock; it has claimed the lease (was
  the user offline?); it is installed (and what it replaced); the lock is released; the old
  connection is kicked; it is finished, or it failed. \<open>Foreign\<close> names of other processes.
\<close>

datatype handler_pc = Fresh | Foreign | Upgraded | Waiting | Locked | Claimed bool
  | Installed bool "string option" | Unlocked bool "string option" | Announcing bool | Finished | Failed

text \<open>Where the goroutine \<open>run\<close> of a connection stands; \<open>disconnect\<close> is its deferred part.\<close>

datatype run_pc = NotStarted | Running | Closing | Removed | Released bool | Gone

record conn_state =
  cn_user :: int
  cn_handler :: handler_pc
  cn_run :: run_pc
  cn_done :: bool
  cn_send :: "frame list"
  cn_written :: "frame list"

datatype close_pc = Open | Draining | Closed

record hub =
  hb_conns :: "string \<Rightarrow> conn_state"
  hb_clients :: "int \<rightharpoonup> string"
  hb_locks :: "nat \<rightharpoonup> string"
  hb_closed :: bool
  hb_close :: close_pc

definition fresh_conn :: conn_state where
  "fresh_conn = \<lparr>cn_user = 0, cn_handler = Fresh, cn_run = NotStarted, cn_done = False, cn_send = [], cn_written = []\<rparr>"

definition empty_hub :: hub where
  "empty_hub = \<lparr>hb_conns = (\<lambda>_. fresh_conn), hb_clients = Map.empty, hb_locks = Map.empty, hb_closed = False, hb_close = Open\<rparr>"

definition on_conn :: "string \<Rightarrow> (conn_state \<Rightarrow> conn_state) \<Rightarrow> hub \<Rightarrow> hub" where
  "on_conn c f h = h\<lparr>hb_conns := (hb_conns h)(c := f (hb_conns h c))\<rparr>"

definition set_handler :: "string \<Rightarrow> handler_pc \<Rightarrow> hub \<Rightarrow> hub" where
  "set_handler c pc = on_conn c (\<lambda>s. s\<lparr>cn_handler := pc\<rparr>)"

definition set_run :: "string \<Rightarrow> run_pc \<Rightarrow> hub \<Rightarrow> hub" where
  "set_run c pc = on_conn c (\<lambda>s. s\<lparr>cn_run := pc\<rparr>)"

definition token_from_request :: "string \<Rightarrow> string \<Rightarrow> string" where
  "token_from_request query_token header =
     (let raw = trim_space query_token; parts = go_fields header in
      if raw = [] \<and> length parts = 2 \<and> equal_fold (parts ! 0) ''Bearer'' then parts ! 1 else raw)"

text \<open>\<open>beginRegistration\<close>.\<close>

definition begin_registration :: "hub \<Rightarrow> bool" where
  "begin_registration h = (\<not> hb_closed h)"

text \<open>\<open>userRegistrationLock\<close>: the stripe of a user, the ID taken as an unsigned 64-bit number.\<close>

definition registration_stripe :: "int \<Rightarrow> nat" where
  "registration_stripe uid = nat ((uid mod 2 ^ 64) mod 64)"

definition hub_install :: "string \<Rightarrow> hub \<Rightarrow> string option \<times> hub" where
  "hub_install c h = (let u = cn_user (hb_conns h c) in (hb_clients h u, h\<lparr>hb_clients := (hb_clients h)(u \<mapsto> c)\<rparr>))"

definition hub_remove :: "string \<Rightarrow> hub \<Rightarrow> bool \<times> hub" where
  "hub_remove c h = (let u = cn_user (hb_conns h c) in
     if hb_clients h u \<noteq> Some c then (False, h) else (True, h\<lparr>hb_clients := (hb_clients h)(u := None)\<rparr>))"

text \<open>\<open>close\<close> and \<open>kickAndClose\<close>: only the first of them has an effect (\<open>closeOnce\<close>).\<close>

definition conn_close :: "conn_state \<Rightarrow> conn_state" where
  "conn_close s = s\<lparr>cn_done := True\<rparr>"

definition conn_kick :: "conn_state \<Rightarrow> conn_state" where
  "conn_kick s = (if cn_done s then s else s\<lparr>cn_done := True, cn_written := cn_written s @ [KickFrame]\<rparr>)"

text \<open>\<open>Notify\<close>: a full queue closes the connection and reports backpressure.\<close>

definition send_capacity :: nat where "send_capacity = 64"

definition conn_enqueue :: "frame \<Rightarrow> conn_state \<Rightarrow> conn_state" where
  "conn_enqueue f s = (if length (cn_send s) < send_capacity then s\<lparr>cn_send := cn_send s @ [f]\<rparr> else conn_close s)"

definition hub_notify :: "int \<Rightarrow> frame \<Rightarrow> hub \<Rightarrow> bool \<times> hub" where
  "hub_notify uid f h = (case hb_clients h uid of
      None \<Rightarrow> (True, h)
    | Some c \<Rightarrow> (length (cn_send (hb_conns h c)) < send_capacity, on_conn c (conn_enqueue f) h))"

definition notify_all :: "int list \<Rightarrow> frame \<Rightarrow> hub \<Rightarrow> hub" where
  "notify_all ids f h = fold (\<lambda>uid h. snd (hub_notify uid f h)) ids h"

definition broadcast_presence :: "int \<Rightarrow> bool \<Rightarrow> world \<times> hub \<Rightarrow> world \<times> hub" where
  "broadcast_presence uid online = (\<lambda>(w, h).
     case list_friend_ids_for_cache uid w of
       (Inl e, w') \<Rightarrow> (w', h)
     | (Inr ids, w') \<Rightarrow> (w', notify_all ids (PresenceEvent uid online) h))"

text \<open>The writer takes the next frame unless \<open>done\<close> is closed.\<close>

definition conn_write :: "conn_state \<Rightarrow> conn_state" where
  "conn_write s = (case cn_send s of
      [] \<Rightarrow> s
    | f # fs \<Rightarrow> if cn_done s then s else s\<lparr>cn_send := fs, cn_written := cn_written s @ [f]\<rparr>)"

text \<open>\<open>Close\<close> after the registrations have drained: close every installed client.\<close>

definition close_clients :: "hub \<Rightarrow> hub" where
  "close_clients h = h\<lparr>hb_conns := (\<lambda>c. if hb_clients h (cn_user (hb_conns h c)) = Some c
      then conn_close (hb_conns h c) else hb_conns h c)\<rparr>"

definition registering :: "handler_pc \<Rightarrow> bool" where
  "registering pc \<longleftrightarrow> pc \<notin> {Fresh, Foreign, Upgraded, Finished, Failed}"

subsection \<open>Facts\<close>

lemma on_conn_fields [simp]:
  "hb_clients (on_conn c f h) = hb_clients h" "hb_locks (on_conn c f h) = hb_locks h"
  "hb_closed (on_conn c f h) = hb_closed h" "hb_close (on_conn c f h) = hb_close h"
  "hb_conns (on_conn c f h) x = (if x = c then f (hb_conns h c) else hb_conns h x)"
  by (simp_all add: on_conn_def)

lemma conn_op_fields [simp]:
  "cn_user (conn_close s) = cn_user s" "cn_handler (conn_close s) = cn_handler s" "cn_run (conn_close s) = cn_run s"
  "cn_user (conn_kick s) = cn_user s" "cn_handler (conn_kick s) = cn_handler s" "cn_run (conn_kick s) = cn_run s"
  "cn_user (conn_enqueue f s) = cn_user s" "cn_handler (conn_enqueue f s) = cn_handler s" "cn_run (conn_enqueue f s) = cn_run s"
  "cn_user (conn_write s) = cn_user s" "cn_handler (conn_write s) = cn_handler s" "cn_run (conn_write s) = cn_run s"
  "cn_done (conn_close s)" "cn_done (conn_kick s)" "cn_done (conn_write s) = cn_done s"
  "cn_done s \<Longrightarrow> cn_done (conn_enqueue f s)"
  by (auto simp: conn_close_def conn_kick_def conn_enqueue_def conn_write_def split: list.split)

text \<open>What notifying leaves alone: everything but queues, and a connection once done stays done.\<close>

definition only_queues :: "hub \<Rightarrow> hub \<Rightarrow> bool" where
  "only_queues h h' \<longleftrightarrow> hb_clients h' = hb_clients h \<and> hb_locks h' = hb_locks h \<and> hb_closed h' = hb_closed h \<and>
     hb_close h' = hb_close h \<and> (\<forall>x. cn_user (hb_conns h' x) = cn_user (hb_conns h x) \<and>
       cn_handler (hb_conns h' x) = cn_handler (hb_conns h x) \<and> cn_run (hb_conns h' x) = cn_run (hb_conns h x) \<and>
       (cn_done (hb_conns h x) \<longrightarrow> cn_done (hb_conns h' x)) \<and>
       (length (cn_send (hb_conns h x)) \<le> send_capacity \<longrightarrow> length (cn_send (hb_conns h' x)) \<le> send_capacity))"

lemma only_queues_refl [simp]: "only_queues h h"
  by (simp add: only_queues_def)

lemma only_queues_trans: "only_queues h h1 \<Longrightarrow> only_queues h1 h2 \<Longrightarrow> only_queues h h2"
  unfolding only_queues_def by (intro conjI allI) metis+

lemma notify_only_queues: "only_queues h (snd (hub_notify uid f h))"
  by (auto simp: hub_notify_def only_queues_def split: option.split) (auto simp: conn_enqueue_def conn_close_def split: if_splits)

lemma notify_all_only_queues: "only_queues h (notify_all ids f h)"
proof (induction ids arbitrary: h)
  case (Cons i ids)
  then show ?case
    by (simp add: notify_all_def) (blast intro: only_queues_trans notify_only_queues)
qed (simp add: notify_all_def)

lemma broadcast_result:
  assumes "broadcast_presence uid b (w, h) = (w', h')"
  shows "only_queues h h'" "world_owner w' = world_owner w"
proof -
  obtain r w1 where l: "list_friend_ids_for_cache uid w = (r, w1)" by fastforce
  then have "world_owner w1 = world_owner w"
    using friends_read_owner [of uid w] by (simp add: world_owner_def fun_eq_iff)
  then show "only_queues h h'" "world_owner w' = world_owner w"
    using assms l notify_all_only_queues
    by (auto simp: broadcast_presence_def split: sum.splits)
qed

end
