(* ===== verification/HubSystem.thy ===== *)
theory HubSystem
  imports Hub
begin

text \<open>
  The goroutines of the hub, interleaved at will, with Redis shared with other processes: the
  handler of a connection (\<open>handler_step\<close>), its read and write loops with the deferred
  disconnect (\<open>client_step\<close>), \<open>Close\<close> (\<open>close_step\<close>), and everything outside (\<open>outside_step\<close>:
  time, other processes, Redis losing keys, events pushed by the services).
\<close>

inductive handler_step :: "auth_env \<Rightarrow> manager \<Rightarrow> hub_options \<Rightarrow> world \<times> hub \<Rightarrow> world \<times> hub \<Rightarrow> bool"
  for env m opt where
  upgrade: "cn_handler (hb_conns h c) = Fresh \<Longrightarrow> fst (parse_access env m (token_from_request qtoken hdr) w) = Inr cl \<Longrightarrow>
    handler_step env m opt (w, h) (w, on_conn c (\<lambda>s. s\<lparr>cn_user := cl_user_id cl, cn_handler := Upgraded\<rparr>) h)"
| register: "cn_handler (hb_conns h c) = Upgraded \<Longrightarrow> begin_registration h \<Longrightarrow>
    handler_step env m opt (w, h) (w, set_handler c Waiting h)"
| refuse: "cn_handler (hb_conns h c) = Upgraded \<Longrightarrow> \<not> begin_registration h \<Longrightarrow>
    handler_step env m opt (w, h) (w, set_handler c Failed h)"
| lock: "cn_handler (hb_conns h c) = Waiting \<Longrightarrow> hb_locks h (registration_stripe (cn_user (hb_conns h c))) = None \<Longrightarrow>
    handler_step env m opt (w, h) (w, (set_handler c Locked h)
      \<lparr>hb_locks := (hb_locks h)(registration_stripe (cn_user (hb_conns h c)) \<mapsto> c)\<rparr>)"
| claim: "cn_handler (hb_conns h c) = Locked \<Longrightarrow>
    claim_presence (cn_user (hb_conns h c)) c (ho_presence_ttl opt) w = (Inr was_offline, w') \<Longrightarrow>
    handler_step env m opt (w, h) (w', set_handler c (Claimed was_offline) h)"
| claim_failed: "cn_handler (hb_conns h c) = Locked \<Longrightarrow>
    claim_presence (cn_user (hb_conns h c)) c (ho_presence_ttl opt) w = (Inl e, w') \<Longrightarrow>
    handler_step env m opt (w, h) (w', (set_handler c Failed h)
      \<lparr>hb_locks := (hb_locks h)(registration_stripe (cn_user (hb_conns h c)) := None)\<rparr>)"
| install: "cn_handler (hb_conns h c) = Claimed was_offline \<Longrightarrow> hub_install c h = (old, h') \<Longrightarrow>
    handler_step env m opt (w, h) (w, on_conn c (\<lambda>s. s\<lparr>cn_handler := Installed was_offline old, cn_run := Running\<rparr>) h')"
| unlock: "cn_handler (hb_conns h c) = Installed was_offline old \<Longrightarrow>
    handler_step env m opt (w, h) (w, (set_handler c (Unlocked was_offline old) h)
      \<lparr>hb_locks := (hb_locks h)(registration_stripe (cn_user (hb_conns h c)) := None)\<rparr>)"
| kick: "cn_handler (hb_conns h c) = Unlocked was_offline old \<Longrightarrow>
    handler_step env m opt (w, h) (w, set_handler c (Announcing was_offline)
      (case old of None \<Rightarrow> h | Some x \<Rightarrow> on_conn x conn_kick h))"
| announce: "cn_handler (hb_conns h c) = Announcing was_offline \<Longrightarrow>
    (if was_offline then broadcast_presence (cn_user (hb_conns h c)) True (w, h) else (w, h)) = (w', h') \<Longrightarrow>
    handler_step env m opt (w, h) (w', set_handler c Finished h')"

inductive client_step :: "hub_options \<Rightarrow> world \<times> hub \<Rightarrow> world \<times> hub \<Rightarrow> bool" for opt where
  read_failed: "cn_run (hb_conns h c) = Running \<Longrightarrow>
    client_step opt (w, h) (w, set_run c Closing (on_conn c conn_close h))"
| remove: "cn_run (hb_conns h c) = Closing \<Longrightarrow> hub_remove c h = (b, h') \<Longrightarrow>
    client_step opt (w, h) (w, set_run c Removed h')"
| release: "cn_run (hb_conns h c) = Removed \<Longrightarrow> release_presence (cn_user (hb_conns h c)) c w = (Inr b, w') \<Longrightarrow>
    client_step opt (w, h) (w', set_run c (Released b) h)"
| release_failed: "cn_run (hb_conns h c) = Removed \<Longrightarrow> release_presence (cn_user (hb_conns h c)) c w = (Inl e, w') \<Longrightarrow>
    client_step opt (w, h) (w', set_run c Gone h)"
| announce_offline: "cn_run (hb_conns h c) = Released b \<Longrightarrow>
    (if b then broadcast_presence (cn_user (hb_conns h c)) False (w, h) else (w, h)) = (w', h') \<Longrightarrow>
    client_step opt (w, h) (w', set_run c Gone h')"
| renewed: "cn_run (hb_conns h c) \<noteq> NotStarted \<Longrightarrow>
    renew_presence (cn_user (hb_conns h c)) c (ho_presence_ttl opt) w = (r, w') \<Longrightarrow> r \<noteq> Inr False \<Longrightarrow>
    client_step opt (w, h) (w', h)"
| not_owned: "cn_run (hb_conns h c) \<noteq> NotStarted \<Longrightarrow>
    renew_presence (cn_user (hb_conns h c)) c (ho_presence_ttl opt) w = (Inr False, w') \<Longrightarrow>
    client_step opt (w, h) (w', on_conn c conn_close h)"
| write_frame: "cn_run (hb_conns h c) \<noteq> NotStarted \<Longrightarrow> client_step opt (w, h) (w, on_conn c conn_write h)"
| write_failed: "cn_run (hb_conns h c) \<noteq> NotStarted \<Longrightarrow> client_step opt (w, h) (w, on_conn c conn_close h)"

inductive close_step :: "world \<times> hub \<Rightarrow> world \<times> hub \<Rightarrow> bool" where
  mark_closed: "hb_close h = Open \<Longrightarrow> close_step (w, h) (w, h\<lparr>hb_closed := True, hb_close := Draining\<rparr>)"
| close_all: "hb_close h = Draining \<Longrightarrow> \<forall>c. \<not> registering (cn_handler (hb_conns h c)) \<Longrightarrow>
    close_step (w, h) (w, (close_clients h)\<lparr>hb_close := Closed\<rparr>)"

inductive outside_step :: "world \<times> hub \<Rightarrow> world \<times> hub \<Rightarrow> bool" where
  other_process: "cn_handler (hb_conns h c) = Fresh \<Longrightarrow> outside_step (w, h) (w, set_handler c Foreign h)"
| environment: "\<forall>u x. world_owner w' u = Some x \<longrightarrow> world_owner w u = Some x \<or> cn_handler (hb_conns h x) = Foreign \<Longrightarrow>
    outside_step (w, h) (w', h)"
| push: "outside_step (w, h) (w, snd (hub_notify u (Event t p) h))"

inductive hub_run :: "auth_env \<Rightarrow> manager \<Rightarrow> hub_options \<Rightarrow> world \<times> hub \<Rightarrow> bool" for env m opt where
  start: "hub_run env m opt (w, empty_hub)" if "\<forall>u. world_owner w u = None"
| handler: "hub_run env m opt y \<Longrightarrow> handler_step env m opt y y' \<Longrightarrow> hub_run env m opt y'"
| client: "hub_run env m opt y \<Longrightarrow> client_step opt y y' \<Longrightarrow> hub_run env m opt y'"
| close: "hub_run env m opt y \<Longrightarrow> close_step y y' \<Longrightarrow> hub_run env m opt y'"
| outside: "hub_run env m opt y \<Longrightarrow> outside_step y y' \<Longrightarrow> hub_run env m opt y'"

subsection \<open>The invariant\<close>

text \<open>Which stages of the handler hold the lock, own the lease, started the loops, will kick.\<close>

fun holds_lock :: "handler_pc \<Rightarrow> bool" where
  "holds_lock Locked = True"
| "holds_lock (Claimed b) = True"
| "holds_lock (Installed b old) = True"
| "holds_lock _ = False"

fun claimed :: "handler_pc \<Rightarrow> bool" where
  "claimed (Claimed b) = True"
| "claimed _ = False"

fun installed :: "handler_pc \<Rightarrow> bool" where
  "installed (Installed b old) = True"
| "installed (Unlocked b old) = True"
| "installed (Announcing b) = True"
| "installed Finished = True"
| "installed _ = False"

fun will_kick :: "handler_pc \<Rightarrow> string \<Rightarrow> bool" where
  "will_kick (Installed b old) x = (old = Some x)"
| "will_kick (Unlocked b old) x = (old = Some x)"
| "will_kick _ x = False"

fun has_left :: "run_pc \<Rightarrow> bool" where
  "has_left Removed = True"
| "has_left (Released b) = True"
| "has_left Gone = True"
| "has_left _ = False"

definition locks_ok :: "hub \<Rightarrow> bool" where
  "locks_ok h \<longleftrightarrow> (\<forall>c. holds_lock (cn_handler (hb_conns h c)) \<longrightarrow>
     hb_locks h (registration_stripe (cn_user (hb_conns h c))) = Some c)"

definition clients_ok :: "hub \<Rightarrow> bool" where
  "clients_ok h \<longleftrightarrow> (\<forall>u c. hb_clients h u = Some c \<longrightarrow> cn_user (hb_conns h c) = u \<and>
     cn_run (hb_conns h c) \<noteq> NotStarted \<and> \<not> has_left (cn_run (hb_conns h c)))"

definition started_ok :: "hub \<Rightarrow> bool" where
  "started_ok h \<longleftrightarrow> (\<forall>c. cn_run (hb_conns h c) \<noteq> NotStarted \<longrightarrow> installed (cn_handler (hb_conns h c)))"

text \<open>
  The owner of a lease is the installed client, unless it is a connection that is being
  installed, failed after the claim or has left; other processes are not our concern.
\<close>

definition owner_ok :: "world \<Rightarrow> hub \<Rightarrow> bool" where
  "owner_ok w h \<longleftrightarrow> (\<forall>u x. world_owner w u = Some x \<longrightarrow> cn_handler (hb_conns h x) \<noteq> Foreign \<longrightarrow>
     cn_user (hb_conns h x) = u \<and> (claimed (cn_handler (hb_conns h x)) \<or> cn_handler (hb_conns h x) = Failed \<or>
       has_left (cn_run (hb_conns h x)) \<or> hb_clients h u = Some x))"

text \<open>While a claim is being installed, the lease is its own, another process's, or gone.\<close>

definition claims_ok :: "world \<Rightarrow> hub \<Rightarrow> bool" where
  "claims_ok w h \<longleftrightarrow> (\<forall>c x. claimed (cn_handler (hb_conns h c)) \<longrightarrow>
     world_owner w (cn_user (hb_conns h c)) = Some x \<longrightarrow> cn_handler (hb_conns h x) \<noteq> Foreign \<longrightarrow> x = c)"

text \<open>A running connection is the installed one of its user, or closed, or about to be kicked.\<close>

definition single_ok :: "hub \<Rightarrow> bool" where
  "single_ok h \<longleftrightarrow> (\<forall>x. cn_run (hb_conns h x) = Running \<longrightarrow> \<not> cn_done (hb_conns h x) \<longrightarrow>
     hb_clients h (cn_user (hb_conns h x)) \<noteq> Some x \<longrightarrow> (\<exists>y. will_kick (cn_handler (hb_conns h y)) x))"

definition closed_ok :: "hub \<Rightarrow> bool" where
  "closed_ok h \<longleftrightarrow> (hb_close h \<noteq> Open \<longrightarrow> hb_closed h) \<and>
     (hb_close h = Closed \<longrightarrow> (\<forall>c. \<not> registering (cn_handler (hb_conns h c)) \<and>
        (cn_run (hb_conns h c) = Running \<longrightarrow> cn_done (hb_conns h c))))"

definition queues_ok :: "hub \<Rightarrow> bool" where
  "queues_ok h \<longleftrightarrow> (\<forall>c. length (cn_send (hb_conns h c)) \<le> send_capacity)"

definition hub_inv :: "world \<times> hub \<Rightarrow> bool" where
  "hub_inv y \<longleftrightarrow> (case y of (w, h) \<Rightarrow> locks_ok h \<and> clients_ok h \<and> started_ok h \<and> owner_ok w h \<and>
     claims_ok w h \<and> single_ok h \<and> closed_ok h \<and> queues_ok h)"

lemmas inv_defs = locks_ok_def clients_ok_def started_ok_def owner_ok_def claims_ok_def single_ok_def closed_ok_def
  queues_ok_def
lemmas pc_defs = set_handler_def set_run_def begin_registration_def conn_close_def conn_kick_def

text \<open>A change that only touches queues and closes connections.\<close>

lemma inv_only_queues:
  assumes "hub_inv (w, h)" "only_queues h h'" "world_owner w' = world_owner w"
  shows "hub_inv (w', h')"
  using assms unfolding hub_inv_def only_queues_def prod.case
  by (simp add: inv_defs) meson

subsection \<open>Local steps\<close>

text \<open>The invariant at one connection.\<close>

lemma inv_at:
  assumes "hub_inv (w, h)"
  shows "holds_lock (cn_handler (hb_conns h c)) \<Longrightarrow> hb_locks h (registration_stripe (cn_user (hb_conns h c))) = Some c"
    "hb_clients h u = Some c \<Longrightarrow> cn_user (hb_conns h c) = u \<and> cn_run (hb_conns h c) \<noteq> NotStarted \<and> \<not> has_left (cn_run (hb_conns h c))"
    "cn_run (hb_conns h c) \<noteq> NotStarted \<Longrightarrow> installed (cn_handler (hb_conns h c))"
    "world_owner w u = Some c \<Longrightarrow> cn_handler (hb_conns h c) \<noteq> Foreign \<Longrightarrow>
       cn_user (hb_conns h c) = u \<and> (claimed (cn_handler (hb_conns h c)) \<or> cn_handler (hb_conns h c) = Failed \<or>
         has_left (cn_run (hb_conns h c)) \<or> hb_clients h u = Some c)"
    "claimed (cn_handler (hb_conns h c)) \<Longrightarrow> world_owner w (cn_user (hb_conns h c)) = Some x \<Longrightarrow>
       cn_handler (hb_conns h x) \<noteq> Foreign \<Longrightarrow> x = c"
    "cn_run (hb_conns h c) = Running \<Longrightarrow> \<not> cn_done (hb_conns h c) \<Longrightarrow>
       hb_clients h (cn_user (hb_conns h c)) \<noteq> Some c \<Longrightarrow> \<exists>y. will_kick (cn_handler (hb_conns h y)) c"
    "hb_close h = Closed \<Longrightarrow> \<not> registering (cn_handler (hb_conns h c))"
    "hb_close h = Closed \<Longrightarrow> cn_run (hb_conns h c) = Running \<Longrightarrow> cn_done (hb_conns h c)"
    "length (cn_send (hb_conns h c)) \<le> send_capacity"
    "hb_close h \<noteq> Open \<Longrightarrow> hb_closed h"
  using assms unfolding hub_inv_def prod.case inv_defs by blast+

text \<open>
  A step that changes the connection \<open>c\<close>, and beside it only the lock \<open>c\<close> takes or gives back and
  the entry of \<open>c\<close> among the clients. The premises are what \<open>c\<close> must satisfy afterwards.
\<close>

lemma local_step:
  assumes inv: "hub_inv (w, h)"
    and other: "\<And>x. x \<noteq> c \<Longrightarrow> hb_conns h' x = hb_conns h x"
    and locks: "\<And>k. hb_locks h' k \<noteq> hb_locks h k \<Longrightarrow> hb_locks h k = None \<or> hb_locks h k = Some c"
      "holds_lock (cn_handler (hb_conns h' c)) \<Longrightarrow> hb_locks h' (registration_stripe (cn_user (hb_conns h' c))) = Some c"
    and clients: "\<And>u x. hb_clients h' u = Some x \<Longrightarrow> x \<noteq> c \<Longrightarrow> hb_clients h u = Some x"
      "\<And>u. hb_clients h' u = Some c \<Longrightarrow> cn_user (hb_conns h' c) = u \<and> cn_run (hb_conns h' c) \<noteq> NotStarted \<and>
         \<not> has_left (cn_run (hb_conns h' c))"
    and started: "cn_run (hb_conns h' c) \<noteq> NotStarted \<Longrightarrow> installed (cn_handler (hb_conns h' c))"
    and owner: "\<And>u x. world_owner w' u = Some x \<Longrightarrow> x \<noteq> c \<Longrightarrow> world_owner w u = Some x"
      "\<And>u x. world_owner w' u = Some x \<Longrightarrow> x \<noteq> c \<Longrightarrow> cn_handler (hb_conns h x) \<noteq> Foreign \<Longrightarrow>
         hb_clients h u = Some x \<Longrightarrow> hb_clients h' u = Some x"
      "\<And>u. world_owner w' u = Some c \<Longrightarrow> cn_handler (hb_conns h' c) \<noteq> Foreign \<Longrightarrow> cn_user (hb_conns h' c) = u \<and>
         (claimed (cn_handler (hb_conns h' c)) \<or> cn_handler (hb_conns h' c) = Failed \<or>
          has_left (cn_run (hb_conns h' c)) \<or> hb_clients h' u = Some c)"
    and claims: "\<And>x. claimed (cn_handler (hb_conns h' c)) \<Longrightarrow> world_owner w' (cn_user (hb_conns h' c)) = Some x \<Longrightarrow>
         x \<noteq> c \<Longrightarrow> cn_handler (hb_conns h x) = Foreign"
      "\<And>x. x \<noteq> c \<Longrightarrow> claimed (cn_handler (hb_conns h x)) \<Longrightarrow> world_owner w' (cn_user (hb_conns h x)) = Some c \<Longrightarrow>
         cn_handler (hb_conns h' c) = Foreign"
    and single: "cn_run (hb_conns h' c) = Running \<Longrightarrow> \<not> cn_done (hb_conns h' c) \<Longrightarrow>
         hb_clients h' (cn_user (hb_conns h' c)) \<noteq> Some c \<Longrightarrow> \<exists>y. will_kick (cn_handler (hb_conns h' y)) c"
      "\<And>x. x \<noteq> c \<Longrightarrow> hb_clients h (cn_user (hb_conns h x)) = Some x \<Longrightarrow> hb_clients h' (cn_user (hb_conns h x)) \<noteq> Some x \<Longrightarrow>
         will_kick (cn_handler (hb_conns h' c)) x"
      "\<And>x. will_kick (cn_handler (hb_conns h c)) x \<Longrightarrow> will_kick (cn_handler (hb_conns h' c)) x \<or> cn_done (hb_conns h x)"
    and closed: "hb_closed h' = hb_closed h" "hb_close h' = hb_close h"
      "hb_close h = Closed \<Longrightarrow> \<not> registering (cn_handler (hb_conns h' c)) \<and>
         (cn_run (hb_conns h' c) = Running \<longrightarrow> cn_done (hb_conns h' c))"
    and queue: "length (cn_send (hb_conns h' c)) \<le> send_capacity"
  shows "hub_inv (w', h')"
proof -
  note at = inv_at [OF inv]
  have "locks_ok h'" unfolding locks_ok_def
  proof (intro allI impI)
    fix x assume x: "holds_lock (cn_handler (hb_conns h' x))"
    show "hb_locks h' (registration_stripe (cn_user (hb_conns h' x))) = Some x"
    proof (cases "x = c")
      case False
      then have "hb_locks h (registration_stripe (cn_user (hb_conns h x))) = Some x" using at(1) [of x] x other by simp
      then show ?thesis using locks(1) other False by (metis option.distinct(1) option.inject)
    qed (use x locks(2) in simp)
  qed
  moreover have "clients_ok h'" unfolding clients_ok_def
  proof (intro allI impI)
    fix u x assume "hb_clients h' u = Some x"
    then show "cn_user (hb_conns h' x) = u \<and> cn_run (hb_conns h' x) \<noteq> NotStarted \<and> \<not> has_left (cn_run (hb_conns h' x))"
      using clients at(2) [of u x] other [of x] by (cases "x = c") simp_all
  qed
  moreover have "started_ok h'" unfolding started_ok_def
  proof (intro allI impI)
    fix x assume "cn_run (hb_conns h' x) \<noteq> NotStarted"
    then show "installed (cn_handler (hb_conns h' x))"
      using started at(3) [of x] other [of x] by (cases "x = c") simp_all
  qed
  moreover have "owner_ok w' h'" unfolding owner_ok_def
  proof (intro allI impI)
    fix u x assume x: "world_owner w' u = Some x" "cn_handler (hb_conns h' x) \<noteq> Foreign"
    show "cn_user (hb_conns h' x) = u \<and> (claimed (cn_handler (hb_conns h' x)) \<or> cn_handler (hb_conns h' x) = Failed \<or>
       has_left (cn_run (hb_conns h' x)) \<or> hb_clients h' u = Some x)"
    proof (cases "x = c")
      case False
      then have "world_owner w u = Some x" "cn_handler (hb_conns h x) \<noteq> Foreign" using owner(1) x other by auto
      then show ?thesis using at(4) [of u x] owner(2) [OF x(1) False] other [OF False] by auto
    qed (use x owner(3) in simp)
  qed
  moreover have "claims_ok w' h'" unfolding claims_ok_def
  proof (intro allI impI)
    fix y x assume y: "claimed (cn_handler (hb_conns h' y))" "world_owner w' (cn_user (hb_conns h' y)) = Some x"
      "cn_handler (hb_conns h' x) \<noteq> Foreign"
    show "x = y"
    proof (cases "y = c")
      case True
      then show ?thesis using claims(1) [of x] y other [of x] by (cases "x = c") auto
    next
      case False
      then have "x \<noteq> c" using claims(2) [OF False] y other by auto
      then show ?thesis using at(5) [of y x] owner(1) [OF y(2)] y other [OF False] other [of x] by simp
    qed
  qed
  moreover have "single_ok h'" unfolding single_ok_def
  proof (intro allI impI)
    fix x assume x: "cn_run (hb_conns h' x) = Running" "\<not> cn_done (hb_conns h' x)"
      "hb_clients h' (cn_user (hb_conns h' x)) \<noteq> Some x"
    show "\<exists>y. will_kick (cn_handler (hb_conns h' y)) x"
    proof (cases "x = c")
      case True
      then show ?thesis using single(1) x by simp
    next
      case False
      show ?thesis
      proof (cases "hb_clients h (cn_user (hb_conns h x)) = Some x")
        case True
        then show ?thesis using single(2) [OF False] x other [OF False] by auto
      next
        case None: False
        then obtain y where y: "will_kick (cn_handler (hb_conns h y)) x" using at(6) [of x] x other [OF False] by auto
        show ?thesis
        proof (cases "y = c")
          case True
          then have "will_kick (cn_handler (hb_conns h' c)) x" using single(3) x other [OF False] y by auto
          then show ?thesis by (rule exI)
        next
          case yc: False
          have "will_kick (cn_handler (hb_conns h' y)) x" using y other [OF yc] by simp
          then show ?thesis by (rule exI)
        qed
      qed
    qed
  qed
  moreover have "closed_ok h'" unfolding closed_ok_def
  proof (intro conjI impI allI)
    show "hb_closed h'" if "hb_close h' \<noteq> Open" using that at(10) closed by simp
    show "\<not> registering (cn_handler (hb_conns h' x))" if "hb_close h' = Closed" for x
      using that at(7) [of x] closed other [of x] by (cases "x = c") auto
    show "cn_done (hb_conns h' x)" if "hb_close h' = Closed" "cn_run (hb_conns h' x) = Running" for x
      using that at(8) [of x] closed other [of x] by (cases "x = c") auto
  qed
  moreover have "queues_ok h'" unfolding queues_ok_def
  proof
    show "length (cn_send (hb_conns h' x)) \<le> send_capacity" for x
      using queue at(9) [of x] other [of x] by (cases "x = c") auto
  qed
  ultimately show ?thesis by (simp add: hub_inv_def)
qed

text \<open>Two handlers of users in the same stripe do not hold the lock together.\<close>

lemma lock_unique:
  assumes "hub_inv (w, h)" "holds_lock (cn_handler (hb_conns h c))" "holds_lock (cn_handler (hb_conns h x))"
    "registration_stripe (cn_user (hb_conns h c)) = registration_stripe (cn_user (hb_conns h x))"
  shows "x = c"
  using inv_at(1) [OF assms(1,2)] inv_at(1) [OF assms(1,3)] assms(4) by (metis option.inject)

lemma claimed_holds: "claimed pc \<Longrightarrow> holds_lock pc"
  by (cases pc) simp_all

lemma not_started: "\<not> installed (cn_handler (hb_conns h c)) \<Longrightarrow> hub_inv (w, h) \<Longrightarrow>
    cn_run (hb_conns h c) = NotStarted \<and> (\<forall>u. hb_clients h u \<noteq> Some c)"
  using inv_at(2,3) by blast

end
