(* ===== verification/HubInv.thy ===== *)
theory HubInv
  imports HubSystem
begin

text \<open>Every step of every goroutine of the hub keeps \<open>hub_inv\<close>.\<close>

lemma claimed_not_other:
  assumes "hub_inv (w, h)" "holds_lock (cn_handler (hb_conns h c))" "claimed (cn_handler (hb_conns h x))"
    "cn_user (hb_conns h x) = cn_user (hb_conns h c)"
  shows "x = c"
  using lock_unique [OF assms(1,2) claimed_holds [OF assms(3)]] assms(4) by simp

text \<open>A connection whose handler has not claimed the lease is not installed and owns nothing.\<close>

lemma not_begun:
  assumes "hub_inv (w, h)" "cn_handler (hb_conns h c) = pc" "pc \<in> {Fresh, Upgraded, Waiting, Locked}"
  shows "cn_run (hb_conns h c) = NotStarted" "hb_clients h u \<noteq> Some c" "world_owner w u \<noteq> Some c"
proof -
  show r: "cn_run (hb_conns h c) = NotStarted" "hb_clients h u \<noteq> Some c" for u
    using not_started [OF _ assms(1), of c] assms(2,3) by auto
  show "world_owner w u \<noteq> Some c"
    using inv_at(4) [OF assms(1), of u c] r assms(2,3) by auto
qed

subsection \<open>The handler\<close>

lemma step_upgrade:
  assumes "hub_inv (w, h)" "cn_handler (hb_conns h c) = Fresh"
  shows "hub_inv (w, on_conn c (\<lambda>s. s\<lparr>cn_user := u, cn_handler := Upgraded\<rparr>) h)"
  by (rule local_step [OF assms(1), of c])
    (simp_all add: not_begun [OF assms] inv_at(8,9) [OF assms(1)] registering_def assms(2))

lemma step_register:
  assumes "hub_inv (w, h)" "cn_handler (hb_conns h c) = Upgraded" "begin_registration h"
  shows "hub_inv (w, set_handler c Waiting h)"
  using assms(3) inv_at(10) [OF assms(1)]
  by (intro local_step [OF assms(1), of c])
    (simp_all add: not_begun [OF assms(1,2)] inv_at(8,9) [OF assms(1)] registering_def assms(2) set_handler_def begin_registration_def)

lemma step_fail:
  assumes "hub_inv (w, h)" "cn_handler (hb_conns h c) = Upgraded"
  shows "hub_inv (w, set_handler c Failed h)"
  by (rule local_step [OF assms(1), of c])
    (simp_all add: not_begun [OF assms] inv_at(8,9) [OF assms(1)] registering_def assms(2) set_handler_def)

lemma step_lock:
  assumes "hub_inv (w, h)" "cn_handler (hb_conns h c) = Waiting"
    "hb_locks h (registration_stripe (cn_user (hb_conns h c))) = None"
  shows "hub_inv (w, (set_handler c Locked h)\<lparr>hb_locks := (hb_locks h)(registration_stripe (cn_user (hb_conns h c)) \<mapsto> c)\<rparr>)"
  using inv_at(7) [OF assms(1), of c]
  by (intro local_step [OF assms(1), of c])
    (simp_all add: not_begun [OF assms(1,2)] inv_at(8,9) [OF assms(1)] registering_def assms(2,3) set_handler_def split: if_splits)

lemma step_claim:
  assumes "hub_inv (w, h)" "cn_handler (hb_conns h c) = Locked"
    "claim_presence (cn_user (hb_conns h c)) c ttl w = (Inr b, w')"
  shows "hub_inv (w', set_handler c (Claimed b) h)"
proof -
  have o: "world_owner w' = (world_owner w)(cn_user (hb_conns h c) := Some c)"
    using claim_result [OF assms(3)] by simp
  show ?thesis
    using inv_at(1,7) [OF assms(1), of c] assms(2) claimed_not_other [OF assms(1), of c]
    by (intro local_step [OF assms(1), of c])
      (simp_all add: not_begun [OF assms(1,2)] inv_at(8,9) [OF assms(1)] registering_def set_handler_def o split: if_splits)
qed

lemma step_claim_failed:
  assumes "hub_inv (w, h)" "cn_handler (hb_conns h c) = Locked"
    "claim_presence (cn_user (hb_conns h c)) c ttl w = (Inl e, w')"
  shows "hub_inv (w', (set_handler c Failed h)\<lparr>hb_locks := (hb_locks h)(registration_stripe (cn_user (hb_conns h c)) := None)\<rparr>)"
proof -
  have "world_owner w' = world_owner w \<or> world_owner w' = (world_owner w)(cn_user (hb_conns h c) := Some c)"
    using claim_result [OF assms(3)] by auto
  then show ?thesis
    using inv_at(1,7) [OF assms(1), of c] assms(2) claimed_not_other [OF assms(1), of c]
    by (intro local_step [OF assms(1), of c])
      (auto simp: not_begun [OF assms(1,2)] inv_at(8,9) [OF assms(1)] registering_def set_handler_def split: if_splits)
qed

lemma step_install:
  assumes "hub_inv (w, h)" "cn_handler (hb_conns h c) = Claimed b" "hub_install c h = (old, h1)"
  shows "hub_inv (w, on_conn c (\<lambda>s. s\<lparr>cn_handler := Installed b old, cn_run := Running\<rparr>) h1)"
proof -
  let ?u = "cn_user (hb_conns h c)"
  have h1: "old = hb_clients h ?u" "h1 = h\<lparr>hb_clients := (hb_clients h)(?u \<mapsto> c)\<rparr>"
    using assms(3) by (simp_all add: hub_install_def Let_def)
  have n: "cn_run (hb_conns h c) = NotStarted" "\<And>u. hb_clients h u \<noteq> Some c"
    using not_started [OF _ assms(1), of c] assms(2) by auto
  have own: "world_owner w u = Some x \<Longrightarrow> cn_handler (hb_conns h x) \<noteq> Foreign \<Longrightarrow> u = ?u \<Longrightarrow> x = c" for u x
    using inv_at(5) [OF assms(1), of c x] assms(2) by simp
  have mine: "world_owner w u = Some c \<Longrightarrow> u = ?u" for u
    using inv_at(4) [OF assms(1), of u c] assms(2) by simp
  have other: "x \<noteq> c \<Longrightarrow> claimed (cn_handler (hb_conns h x)) \<Longrightarrow> cn_user (hb_conns h x) \<noteq> ?u" for x
    using claimed_not_other [OF assms(1), of c x] assms(2) by auto
  show ?thesis
  proof (rule local_step [OF assms(1), of c], goal_cases)
    case (8 u x)
    then show ?case using own [of u x] by (auto simp: h1)
  next
    case (11 x)
    then show ?case using mine [of "cn_user (hb_conns h x)"] other [of x] by simp
  qed (use inv_at(1,7) [OF assms(1), of c] assms(2) mine in \<open>simp_all add: n h1 inv_at(8,9) [OF assms(1)] registering_def split: if_splits\<close>)
qed

text \<open>The stages after the installation only give back the lock and forget whom to kick.\<close>

lemma step_advance:
  assumes "hub_inv (w, h)" "installed (cn_handler (hb_conns h c))" "installed pc" "\<not> holds_lock pc"
    "\<And>x. will_kick (cn_handler (hb_conns h c)) x \<Longrightarrow> will_kick pc x \<or> cn_done (hb_conns h x)"
    "registering pc \<Longrightarrow> registering (cn_handler (hb_conns h c))"
    "h' = set_handler c pc h \<or> holds_lock (cn_handler (hb_conns h c)) \<and>
       h' = (set_handler c pc h)\<lparr>hb_locks := (hb_locks h)(registration_stripe (cn_user (hb_conns h c)) := None)\<rparr>"
  shows "hub_inv (w, h')"
proof -
  have i: "\<not> claimed q" "q \<noteq> Failed" "q \<noteq> Foreign" if "installed q" for q
    using that by (cases q; simp)+
  note c = i [OF assms(2)] i [OF assms(3)]
  have h': "hb_conns h' = hb_conns (set_handler c pc h)" "hb_clients h' = hb_clients h" "hb_closed h' = hb_closed h"
    "hb_close h' = hb_close h"
    using assms(7) by (auto simp: set_handler_def)
  show ?thesis
  proof (rule local_step [OF assms(1), of c], goal_cases)
    case (2 k)
    then show ?case using assms(7) inv_at(1) [OF assms(1), of c] by (auto simp: set_handler_def split: if_splits)
  next
    case (5 u)
    then show ?case using inv_at(2) [OF assms(1), of u c] by (simp add: h' set_handler_def)
  next
    case (9 u)
    then show ?case using inv_at(4) [OF assms(1), of u c] c by (auto simp: h' set_handler_def)
  next
    case (11 x)
    then show ?case using inv_at(5) [OF assms(1), of x c] c by simp
  next
    case 12
    then obtain y where y: "will_kick (cn_handler (hb_conns h y)) c" "\<not> cn_done (hb_conns h c)"
      using inv_at(6) [OF assms(1), of c] by (auto simp: h' set_handler_def)
    then show ?case using assms(5) [of c] by (cases "y = c") (auto simp: h' set_handler_def intro!: exI [of _ y])
  next
    case 17
    then show ?case using inv_at(7,8) [OF assms(1), of c] assms(6) by (auto simp: h' set_handler_def)
  qed (use inv_at(7,8,9) [OF assms(1), of c] assms(3-6) c in \<open>simp_all add: h' set_handler_def split: if_splits\<close>)
qed

lemma step_unlock:
  assumes "hub_inv (w, h)" "cn_handler (hb_conns h c) = Installed b old"
  shows "hub_inv (w, (set_handler c (Unlocked b old) h)
    \<lparr>hb_locks := (hb_locks h)(registration_stripe (cn_user (hb_conns h c)) := None)\<rparr>)"
  by (rule step_advance [OF assms(1), of c "Unlocked b old"]) (use assms(2) in \<open>simp_all add: registering_def\<close>)


lemma step_kick:
  assumes "hub_inv (w, h)" "cn_handler (hb_conns h c) = Unlocked b old"
  shows "hub_inv (w, set_handler c (Announcing b) (case old of None \<Rightarrow> h | Some x \<Rightarrow> on_conn x conn_kick h))"
proof -
  let ?h = "case old of None \<Rightarrow> h | Some x \<Rightarrow> on_conn x conn_kick h"
  have q: "only_queues h ?h" by (auto simp: only_queues_def split: option.split) (simp add: conn_kick_def)
  have pc: "cn_handler (hb_conns ?h c) = Unlocked b old" using assms(2) by (simp split: option.split)
  show ?thesis
    by (rule step_advance [OF inv_only_queues [OF assms(1) q refl], of c "Announcing b"])
      (simp_all add: pc registering_def split: option.split)
qed

lemma step_announce:
  assumes "hub_inv (w, h)" "cn_handler (hb_conns h c) = Announcing b"
    "(if b then broadcast_presence u online (w, h) else (w, h)) = (w', h')"
  shows "hub_inv (w', set_handler c Finished h')"
proof -
  have q: "only_queues h h'" "world_owner w' = world_owner w"
    using assms(3) broadcast_result [of u online w h w' h'] by (auto split: if_splits)
  then have "cn_handler (hb_conns h' c) = Announcing b" using assms(2) by (simp add: only_queues_def)
  then show ?thesis
    by (intro step_advance [OF inv_only_queues [OF assms(1) q], of c Finished]) (simp_all add: registering_def)
qed

lemma handler_step_inv: "handler_step env m opt y y' \<Longrightarrow> hub_inv y \<Longrightarrow> hub_inv y'"
  by (induction rule: handler_step.induct)
    (blast intro: step_upgrade step_register step_fail step_lock step_claim step_claim_failed step_install step_unlock
      step_kick step_announce)+

subsection \<open>The loops of a connection\<close>

lemma step_run:
  assumes inv: "hub_inv (w, h)" and pc: "cn_run (hb_conns h c) \<noteq> NotStarted" "rpc \<noteq> NotStarted" "rpc \<noteq> Running"
    and left: "has_left rpc \<longleftrightarrow> cn_run (hb_conns h c) = Closing \<or> has_left (cn_run (hb_conns h c))"
    and h1: "h1 = h \<and> (has_left rpc \<longrightarrow> (\<forall>u. hb_clients h u \<noteq> Some c)) \<or>
      has_left rpc \<and> hb_clients h (cn_user (hb_conns h c)) = Some c \<and> h1 = h\<lparr>hb_clients := (hb_clients h)(cn_user (hb_conns h c) := None)\<rparr>"
    and own: "world_owner w' = world_owner w \<or> world_owner w' = (world_owner w)(cn_user (hb_conns h c) := None)"
  shows "hub_inv (w', set_run c rpc h1)"
proof -
  have i: "\<not> claimed q" "q \<noteq> Failed" "q \<noteq> Foreign" if "installed q" for q
    using that by (cases q; simp)+
  note c = inv_at(3) [OF inv pc(1)]
  note c' = i [OF c]
  have sub: "world_owner w' u = Some x \<Longrightarrow> world_owner w u = Some x" for u x
    using own by (auto split: if_splits)
  have f: "hb_conns h1 = hb_conns h" "hb_locks h1 = hb_locks h" "hb_closed h1 = hb_closed h" "hb_close h1 = hb_close h"
    using h1 by auto
  show ?thesis
  proof (rule local_step [OF inv, of c], goal_cases)
    case (4 u x)
    then show ?case using h1 by (auto simp: set_run_def split: if_splits)
  next
    case (5 u)
    then show ?case using h1 inv_at(2) [OF inv, of u c] pc left by (auto simp: set_run_def f split: if_splits)
  next
    case (8 u x)
    then show ?case using h1 by (auto simp: set_run_def split: if_splits)
  next
    case (9 u)
    then show ?case using sub [of u c] inv_at(2,4) [OF inv, of u c] h1 left c' by (auto simp: set_run_def f)
  next
    case (11 x)
    then show ?case using sub inv_at(5) [OF inv, of x c] c' by (auto simp: set_run_def f)
  next
    case (13 x)
    then show ?case using h1 by (auto simp: set_run_def split: if_splits)
  qed (use inv_at(1,7,8,9) [OF inv, of c] pc c c' sub in \<open>simp_all add: f set_run_def\<close>)
qed


text \<open>Closing a connection, and writing to it.\<close>

lemma step_close_conn: "hub_inv (w, h) \<Longrightarrow> world_owner w' = world_owner w \<Longrightarrow> hub_inv (w', on_conn c conn_close h)"
  by (erule inv_only_queues) (simp_all add: only_queues_def conn_close_def)

lemma step_write_frame: "hub_inv (w, h) \<Longrightarrow> hub_inv (w, on_conn c conn_write h)"
  by (erule inv_only_queues) (auto simp: only_queues_def conn_write_def split: list.split)

lemma step_remove:
  assumes "hub_inv (w, h)" "cn_run (hb_conns h c) = Closing" "hub_remove c h = (b, h')"
  shows "hub_inv (w, set_run c Removed h')"
proof (rule step_run [OF assms(1)])
  show "h' = h \<and> (has_left Removed \<longrightarrow> (\<forall>u. hb_clients h u \<noteq> Some c)) \<or>
      has_left Removed \<and> hb_clients h (cn_user (hb_conns h c)) = Some c \<and>
      h' = h\<lparr>hb_clients := (hb_clients h)(cn_user (hb_conns h c) := None)\<rparr>"
  proof (cases "hb_clients h (cn_user (hb_conns h c)) = Some c")
    case False
    then have "hb_clients h u \<noteq> Some c" for u using inv_at(2) [OF assms(1), of u c] by auto
    then show ?thesis using assms(3) False by (simp add: hub_remove_def Let_def)
  qed (use assms(3) in \<open>simp add: hub_remove_def Let_def\<close>)
qed (use assms(2) in simp_all)

lemma step_leaving:
  assumes "hub_inv (w, h)" "has_left (cn_run (hb_conns h c))" "has_left rpc"
    "world_owner w' = world_owner w \<or> world_owner w' = (world_owner w)(cn_user (hb_conns h c) := None)"
  shows "hub_inv (w', set_run c rpc h)"
proof (rule step_run [OF assms(1)])
  show "h = h \<and> (has_left rpc \<longrightarrow> (\<forall>u. hb_clients h u \<noteq> Some c)) \<or> has_left rpc \<and>
      hb_clients h (cn_user (hb_conns h c)) = Some c \<and> h = h\<lparr>hb_clients := (hb_clients h)(cn_user (hb_conns h c) := None)\<rparr>"
    using assms(2) inv_at(2) [OF assms(1), of _ c] by auto
  show "cn_run (hb_conns h c) \<noteq> NotStarted" "rpc \<noteq> NotStarted" "rpc \<noteq> Running"
    using assms(2,3) by auto
qed (use assms in simp_all)

lemma client_step_inv: "client_step opt y y' \<Longrightarrow> hub_inv y \<Longrightarrow> hub_inv y'"
proof (induction rule: client_step.induct)
  case (read_failed h c w)
  have "hub_inv (w, on_conn c conn_close h)" using read_failed(2) by (rule step_close_conn) simp
  then show ?case by (rule step_run) (use read_failed(1) in simp_all)
next
  case (remove h c b h' w)
  then show ?case by (blast intro: step_remove)
next
  case (release h c w b w')
  then show ?case using release_result [of "cn_user (hb_conns h c)" c w "Inr b" w'] by (intro step_leaving [OF release(3)]) auto
next
  case (release_failed h c w e w')
  then show ?case
    using release_result [of "cn_user (hb_conns h c)" c w "Inl e" w'] by (intro step_leaving [OF release_failed(3)]) auto
next
  case (announce_offline h c b w w' h')
  have q: "only_queues h h'" "world_owner w' = world_owner w"
    using announce_offline(2) broadcast_result [of "cn_user (hb_conns h c)" False w h w' h'] by (auto split: if_splits)
  then have "cn_run (hb_conns h' c) = Released b" using announce_offline(1) by (simp add: only_queues_def)
  then show ?case by (intro step_leaving [OF inv_only_queues [OF announce_offline(3) q]]) simp_all
next
  case (renewed h c w r w')
  then show ?case using renew_result [OF renewed(2)] by (intro inv_only_queues [OF renewed(4)]) simp_all
next
  case (not_owned h c w w')
  then show ?case using renew_result [OF not_owned(2)] by (intro step_close_conn) simp_all
qed (blast intro: step_write_frame step_close_conn)+

subsection \<open>Close and the outside\<close>

lemma close_step_inv: "close_step y y' \<Longrightarrow> hub_inv y \<Longrightarrow> hub_inv y'"
proof (induction rule: close_step.induct)
  case (mark_closed h w)
  then show ?case by (simp add: hub_inv_def inv_defs)
next
  case (close_all h w)
  let ?h = "close_clients h"
  have q: "only_queues h ?h" by (simp add: only_queues_def close_clients_def conn_close_def)
  have inv: "hub_inv (w, ?h)" using close_all(3) q by (rule inv_only_queues) simp
  have all_done: "cn_done (hb_conns ?h c)" if r: "cn_run (hb_conns ?h c) = Running" for c
  proof (rule ccontr)
    assume d: "\<not> cn_done (hb_conns ?h c)"
    have n: "\<not> registering (cn_handler (hb_conns ?h y))" for y using close_all(2) q by (simp add: only_queues_def)
    have "hb_clients ?h (cn_user (hb_conns ?h c)) \<noteq> Some c" using d by (auto simp: close_clients_def conn_close_def split: if_splits)
    then obtain y where "will_kick (cn_handler (hb_conns ?h y)) c" using inv_at(6) [OF inv r d] by auto
    then show False using n [of y] by (cases "cn_handler (hb_conns ?h y)") (simp_all add: registering_def)
  qed
  have "closed_ok (?h\<lparr>hb_close := Closed\<rparr>)"
    using inv_at(10) [OF close_all(3)] close_all(1,2) all_done q by (simp add: closed_ok_def only_queues_def)
  then show ?case using inv by (simp add: hub_inv_def inv_defs)
qed

lemma outside_step_inv: "outside_step y y' \<Longrightarrow> hub_inv y \<Longrightarrow> hub_inv y'"
proof (induction rule: outside_step.induct)
  case (other_process h c w)
  show ?case
    by (rule local_step [OF other_process(2), of c])
      (simp_all add: not_begun [OF other_process(2,1)] inv_at(8,9) [OF other_process(2)] registering_def other_process(1) set_handler_def)
next
  case (environment w' w h)
  then have o: "world_owner w' u = Some x \<Longrightarrow> cn_handler (hb_conns h x) \<noteq> Foreign \<Longrightarrow> world_owner w u = Some x" for u x
    by blast
  have "owner_ok w' h" "claims_ok w' h"
    using o inv_at(4,5) [OF environment(2)] unfolding owner_ok_def claims_ok_def by blast+
  then show ?case using environment(2) by (simp add: hub_inv_def)
next
  case (push w h u t p)
  then show ?case by (intro inv_only_queues [OF push notify_only_queues]) simp
qed

theorem hub_run_inv: "hub_run env m opt y \<Longrightarrow> hub_inv y"
proof (induction rule: hub_run.induct)
  case (start w)
  then show ?case by (simp add: hub_inv_def inv_defs empty_hub_def fresh_conn_def registering_def send_capacity_def)
qed (blast intro: handler_step_inv client_step_inv close_step_inv outside_step_inv)+

end
