(* ===== verification/HubProps.thy ===== *)
theory HubProps
  imports HubInv AuthDemo
begin

text \<open>What the hub guarantees in every interleaving of its goroutines.\<close>

subsection \<open>A kick is the last frame\<close>

definition kick_ends :: "conn_state \<Rightarrow> bool" where
  "kick_ends s \<longleftrightarrow> KickFrame \<notin> set (cn_send s) \<and> KickFrame \<notin> set (butlast (cn_written s)) \<and>
     (KickFrame \<in> set (cn_written s) \<longrightarrow> cn_done s)"

lemma butlast_snoc_notin: "x \<notin> set xs \<Longrightarrow> x \<notin> set (butlast xs)"
  by (meson in_set_butlastD)

lemma kick_ends_ops [simp]:
  "kick_ends s \<Longrightarrow> kick_ends (conn_close s)" "kick_ends s \<Longrightarrow> kick_ends (conn_kick s)"
  "kick_ends s \<Longrightarrow> f \<noteq> KickFrame \<Longrightarrow> kick_ends (conn_enqueue f s)" "kick_ends s \<Longrightarrow> kick_ends (conn_write s)"
  by (auto simp: kick_ends_def conn_close_def conn_kick_def conn_enqueue_def conn_write_def split: list.split)

lemma kick_ends_fields [simp]:
  "kick_ends (s\<lparr>cn_handler := pc\<rparr>) = kick_ends s" "kick_ends (s\<lparr>cn_run := rpc\<rparr>) = kick_ends s"
  "kick_ends (s\<lparr>cn_user := u\<rparr>) = kick_ends s"
  by (simp_all add: kick_ends_def)

definition kicks_end :: "hub \<Rightarrow> bool" where
  "kicks_end h \<longleftrightarrow> (\<forall>c. kick_ends (hb_conns h c))"

lemma kicks_end_on_conn: "kicks_end h \<Longrightarrow> (kick_ends (hb_conns h c) \<Longrightarrow> kick_ends (f (hb_conns h c))) \<Longrightarrow> kicks_end (on_conn c f h)"
  by (simp add: kicks_end_def)

lemma kicks_end_fields [simp]:
  "kicks_end (h\<lparr>hb_locks := l\<rparr>) = kicks_end h" "kicks_end (h\<lparr>hb_clients := cs\<rparr>) = kicks_end h"
  "kicks_end (h\<lparr>hb_closed := b\<rparr>) = kicks_end h" "kicks_end (h\<lparr>hb_close := k\<rparr>) = kicks_end h"
  by (simp_all add: kicks_end_def)

lemma kicks_end_notify: "kicks_end h \<Longrightarrow> f \<noteq> KickFrame \<Longrightarrow> kicks_end (snd (hub_notify uid f h))"
  by (auto simp: hub_notify_def intro: kicks_end_on_conn split: option.split)

lemma kicks_end_notify_all: "kicks_end h \<Longrightarrow> f \<noteq> KickFrame \<Longrightarrow> kicks_end (notify_all ids f h)"
  unfolding notify_all_def by (induction ids arbitrary: h) (simp_all add: kicks_end_notify)

lemma kicks_end_broadcast: "kicks_end h \<Longrightarrow> broadcast_presence uid b (w, h) = (w', h') \<Longrightarrow> kicks_end h'"
  by (auto simp: broadcast_presence_def kicks_end_notify_all split: prod.splits sum.splits)

lemma kicks_end_set [simp]:
  "kicks_end (set_handler c pc h) = kicks_end h" "kicks_end (set_run c rpc h) = kicks_end h"
  by (auto simp: kicks_end_def set_handler_def set_run_def split: if_splits)

lemma kicks_end_ops:
  "kicks_end h \<Longrightarrow> kicks_end (on_conn c conn_close h)" "kicks_end h \<Longrightarrow> kicks_end (on_conn c conn_kick h)"
  "kicks_end h \<Longrightarrow> kicks_end (on_conn c conn_write h)" "kicks_end h \<Longrightarrow> kicks_end (close_clients h)"
  by (auto simp: kicks_end_def close_clients_def)

lemma handler_step_kicks: "handler_step env m opt y y' \<Longrightarrow> kicks_end (snd y) \<Longrightarrow> kicks_end (snd y')"
  by (induction rule: handler_step.induct)
    (auto simp: hub_install_def Let_def intro: kicks_end_on_conn kicks_end_ops kicks_end_broadcast split: option.split if_splits)

lemma client_step_kicks: "client_step opt y y' \<Longrightarrow> kicks_end (snd y) \<Longrightarrow> kicks_end (snd y')"
  by (induction rule: client_step.induct)
    (auto simp: hub_remove_def Let_def intro: kicks_end_ops kicks_end_broadcast split: if_splits)

lemma close_step_kicks: "close_step y y' \<Longrightarrow> kicks_end (snd y) \<Longrightarrow> kicks_end (snd y')"
  by (induction rule: close_step.induct) (simp_all add: kicks_end_ops)

lemma outside_step_kicks: "outside_step y y' \<Longrightarrow> kicks_end (snd y) \<Longrightarrow> kicks_end (snd y')"
  by (induction rule: outside_step.induct) (simp_all add: kicks_end_notify)

lemma hub_run_kicks: "hub_run env m opt y \<Longrightarrow> kicks_end (snd y)"
proof (induction rule: hub_run.induct)
  case (start w)
  then show ?case by (simp add: kicks_end_def kick_ends_def empty_hub_def fresh_conn_def)
qed (blast intro: handler_step_kicks client_step_kicks close_step_kicks outside_step_kicks)+


subsection \<open>Properties\<close>

text \<open>
  C24. One connection per user: over all interleavings of the handlers, read and write loops, lease
  renewals, \<open>Close\<close>, other processes and lost leases, if two connections of one user are
  both running and not closed in this process, some handler is about to kick one of them.
\<close>

theorem one_connection_per_user:
  assumes "hub_run env m opt (w, h)" "x \<noteq> y" "cn_user (hb_conns h x) = cn_user (hb_conns h y)"
    "cn_run (hb_conns h x) = Running \<and> \<not> cn_done (hb_conns h x)"
    "cn_run (hb_conns h y) = Running \<and> \<not> cn_done (hb_conns h y)"
  shows "\<exists>c. will_kick (cn_handler (hb_conns h c)) x \<or> will_kick (cn_handler (hb_conns h c)) y"
  using inv_at(6) [OF hub_run_inv [OF assms(1)], of x] inv_at(6) [OF hub_run_inv [OF assms(1)], of y] assms(2-5)
  by (cases "hb_clients h (cn_user (hb_conns h y)) = Some x") auto

text \<open>
  C25. Presence: the connection of this process that owns the lease of a user belongs to that
  user and is the installed one, unless it is still being installed, failed after its claim,
  or has left (its lease then ends with its lifetime). While a connection waits between claim and
  installation no other connection of this process owns the lease.
\<close>

theorem lease_owner_is_connected:
  assumes "hub_run env m opt (w, h)" "world_owner w u = Some x" "cn_handler (hb_conns h x) \<noteq> Foreign"
  shows "cn_user (hb_conns h x) = u \<and>
    (hb_clients h u = Some x \<or> claimed (cn_handler (hb_conns h x)) \<or> cn_handler (hb_conns h x) = Failed \<or>
      has_left (cn_run (hb_conns h x))) \<and>
    (\<forall>c. claimed (cn_handler (hb_conns h c)) \<and> cn_user (hb_conns h c) = u \<longrightarrow> x = c)"
  using inv_at(4,5) [OF hub_run_inv [OF assms(1)]] assms(2,3) by blast

text \<open>
  C26. When \<open>Close\<close> has closed the clients, no registration is in progress, none can begin,
  and every connection whose read loop still runs has been told to end.
\<close>

theorem closed_hub_drains:
  assumes "hub_run env m opt (w, h)" "hb_close h = Closed"
  shows "\<not> begin_registration h \<and> (\<forall>c. \<not> registering (cn_handler (hb_conns h c)) \<and>
    (cn_run (hb_conns h c) = Running \<longrightarrow> cn_done (hb_conns h c)))"
  using inv_at(7,8,10) [OF hub_run_inv [OF assms(1)]] assms(2) by (auto simp: begin_registration_def)


text \<open>
  Backpressure: a queue never holds more than 64 frames, and \<open>Notify\<close> to a user whose queue is
  full reports it, queues nothing and closes the connection.
\<close>

theorem queue_bounded:
  assumes "hub_run env m opt (w, h)"
  shows "length (cn_send (hb_conns h c)) \<le> 64 \<and>
    (hb_clients h u = Some c \<longrightarrow> hub_notify u f h =
      (if length (cn_send (hb_conns h c)) = 64 then (False, on_conn c conn_close h)
       else (True, on_conn c (\<lambda>s. s\<lparr>cn_send := cn_send s @ [f]\<rparr>) h)))"
  using inv_at(9) [OF hub_run_inv [OF assms], of c]
  by (simp_all add: send_capacity_def hub_notify_def conn_enqueue_def on_conn_def)

subsection \<open>Two logins of one user\<close>

definition demo_options :: hub_options where
  "demo_options = \<lparr>ho_presence_ttl = 60 * second, ho_ping_every = 20 * second, ho_write_wait = 10 * second\<rparr>"

definition demo_claims :: claims where
  "demo_claims = \<lparr>cl_user_id = 1, cl_username = ''bob'', cl_token_type = ''access'', cl_family_id = ''f'',
     cl_issuer = ''my-im'', cl_subject = ''1'', cl_id = ''x'', cl_issued_at = 0, cl_expires_at = 900\<rparr>"

definition demo_token :: string where
  "demo_token = the (demo_sign [] demo_claims)"

lemma demo_token_ok: "fst (parse_access demo_env demo_manager (token_from_request demo_token []) empty_world) = Inr demo_claims"
  by code_simp


text \<open>The steps of a handler up to the installation, and up to the kick.\<close>

lemma login_run:
  assumes run: "hub_run env m opt (w, h)"
    and c: "cn_handler (hb_conns h c) = Fresh" "cn_run (hb_conns h c) = NotStarted"
    and tok: "fst (parse_access env m (token_from_request qtoken hdr) w) = Inr cl" "cl_user_id cl = u"
    and free: "begin_registration h" "hb_locks h (registration_stripe u) = None"
    and claim: "claim_presence u c (ho_presence_ttl opt) w = (Inr b, w')"
  shows "hub_run env m opt (w', on_conn c (\<lambda>s. s\<lparr>cn_user := u, cn_handler := Installed b (hb_clients h u), cn_run := Running\<rparr>)
    (h\<lparr>hb_locks := (hb_locks h)(registration_stripe u \<mapsto> c), hb_clients := (hb_clients h)(u \<mapsto> c)\<rparr>))"
proof -
  let ?s = "hb_conns h c"
  have 1: "hub_run env m opt (w, on_conn c (\<lambda>s. s\<lparr>cn_user := u, cn_handler := Upgraded\<rparr>) h)" (is "hub_run _ _ _ (_, ?h1)")
    using hub_run.handler [OF run handler_step.upgrade [OF c(1) tok(1)]] tok(2) by simp
  have 2: "hub_run env m opt (w, set_handler c Waiting ?h1)" (is "hub_run _ _ _ (_, ?h2)")
    by (rule hub_run.handler [OF 1 handler_step.register]) (use free in \<open>simp_all add: begin_registration_def\<close>)
  have 3: "hub_run env m opt (w, (set_handler c Locked ?h2)
      \<lparr>hb_locks := (hb_locks ?h2)(registration_stripe (cn_user (hb_conns ?h2 c)) \<mapsto> c)\<rparr>)" (is "hub_run _ _ _ (_, ?h3)")
    by (rule hub_run.handler [OF 2 handler_step.lock]) (use free in \<open>simp_all add: set_handler_def\<close>)
  have 4: "hub_run env m opt (w', set_handler c (Claimed b) ?h3)" (is "hub_run _ _ _ (_, ?h4)")
    by (rule hub_run.handler [OF 3 handler_step.claim]) (use claim in \<open>simp_all add: set_handler_def\<close>)
  have "hub_run env m opt (w', on_conn c (\<lambda>s. s\<lparr>cn_handler := Installed b (hb_clients h u), cn_run := Running\<rparr>)
      (?h4\<lparr>hb_clients := (hb_clients h)(u \<mapsto> c)\<rparr>))" (is "hub_run _ _ _ (_, ?h5)")
    by (rule hub_run.handler [OF 4 handler_step.install]) (simp_all add: set_handler_def hub_install_def Let_def)
  moreover have "?h5 = on_conn c (\<lambda>s. s\<lparr>cn_user := u, cn_handler := Installed b (hb_clients h u), cn_run := Running\<rparr>)
    (h\<lparr>hb_locks := (hb_locks h)(registration_stripe u \<mapsto> c), hb_clients := (hb_clients h)(u \<mapsto> c)\<rparr>)"
    by (simp add: on_conn_def set_handler_def)
  ultimately show ?thesis by simp
qed

definition demo_w1 :: world where "demo_w1 = snd (claim_presence 1 ''a'' (60 * second) empty_world)"
definition demo_w2 :: world where "demo_w2 = snd (claim_presence 1 ''b'' (60 * second) demo_w1)"

definition demo_conn :: "handler_pc \<Rightarrow> conn_state" where
  "demo_conn pc = \<lparr>cn_user = 1, cn_handler = pc, cn_run = Running, cn_done = False, cn_send = [], cn_written = []\<rparr>"

definition demo_h1 :: hub where
  "demo_h1 = empty_hub\<lparr>hb_conns := (hb_conns empty_hub)(''a'' := demo_conn (Unlocked True None)), hb_clients := [1 \<mapsto> ''a'']\<rparr>"

definition demo_h2 :: hub where
  "demo_h2 = empty_hub\<lparr>hb_conns := (hb_conns empty_hub)(''a'' := demo_conn (Unlocked True None),
     ''b'' := demo_conn (Unlocked False (Some ''a''))), hb_clients := [1 \<mapsto> ''b'']\<rparr>"

lemma demo_claim:
  "claim_presence 1 ''a'' (60 * second) empty_world = (Inr True, demo_w1)"
  "claim_presence 1 ''b'' (60 * second) demo_w1 = (Inr False, demo_w2)"
  "fst (parse_access demo_env demo_manager (token_from_request demo_token []) demo_w1) = Inr demo_claims"
proof -
  have "fst (claim_presence 1 ''a'' (60 * second) empty_world) = Inr True" by code_simp
  then show "claim_presence 1 ''a'' (60 * second) empty_world = (Inr True, demo_w1)"
    by (simp add: demo_w1_def prod_eq_iff)
  have "fst (claim_presence 1 ''b'' (60 * second) demo_w1) = Inr False" by code_simp
  then show "claim_presence 1 ''b'' (60 * second) demo_w1 = (Inr False, demo_w2)"
    by (simp add: demo_w2_def prod_eq_iff)
  show "fst (parse_access demo_env demo_manager (token_from_request demo_token []) demo_w1) = Inr demo_claims" by code_simp
qed

lemma demo_opens: "hub_run demo_env demo_manager demo_options (empty_world, empty_hub)"
  by (rule hub_run.start) (simp add: world_owner_def lease_owner_def live_def empty_store_def)

lemma demo_run1: "hub_run demo_env demo_manager demo_options (demo_w1, demo_h1)"
proof -
  note r = login_run [OF demo_opens _ _ demo_token_ok, of "''a''" 1 True demo_w1]
  have "hub_run demo_env demo_manager demo_options (demo_w1, on_conn ''a'' (\<lambda>s. s\<lparr>cn_user := 1, cn_handler := Installed True None, cn_run := Running\<rparr>)
     (empty_hub\<lparr>hb_locks := [registration_stripe 1 \<mapsto> ''a''], hb_clients := [1 \<mapsto> ''a'']\<rparr>))" (is "hub_run _ _ _ (_, ?h)")
    using r demo_claim(1) by (simp add: empty_hub_def fresh_conn_def demo_claims_def begin_registration_def demo_options_def)
  from hub_run.handler [OF this handler_step.unlock [of ?h "''a''" True None]]
  show ?thesis
    by (simp add: demo_h1_def demo_conn_def empty_hub_def on_conn_def set_handler_def fresh_conn_def)
qed

lemma demo_run2: "hub_run demo_env demo_manager demo_options (demo_w2, demo_h2)"
proof -
  note r = login_run [OF demo_run1 _ _ demo_claim(3), of "''b''" 1 False demo_w2]
  have "hub_run demo_env demo_manager demo_options (demo_w2, on_conn ''b'' (\<lambda>s. s\<lparr>cn_user := 1, cn_handler := Installed False (Some ''a''), cn_run := Running\<rparr>)
     (demo_h1\<lparr>hb_locks := [registration_stripe 1 \<mapsto> ''b''], hb_clients := [1 \<mapsto> ''b'']\<rparr>))" (is "hub_run _ _ _ (_, ?h)")
    using r demo_claim(2) by (simp add: demo_h1_def empty_hub_def fresh_conn_def demo_claims_def begin_registration_def demo_options_def)
  from hub_run.handler [OF this handler_step.unlock [of ?h "''b''" False "Some ''a''"]]
  show ?thesis
    by (simp add: demo_h1_def demo_h2_def demo_conn_def empty_hub_def on_conn_def set_handler_def fresh_conn_def)
qed

lemma demo_fields [simp]:
  "cn_user (demo_conn pc) = 1" "cn_run (demo_conn pc) = Running" "\<not> cn_done (demo_conn pc)" "cn_handler (demo_conn pc) = pc"
  "cn_send (demo_conn pc) = []" "cn_written (demo_conn pc) = []"
  "hb_conns demo_h2 ''a'' = demo_conn (Unlocked True None)" "hb_conns demo_h2 ''b'' = demo_conn (Unlocked False (Some ''a''))"
  "hb_clients demo_h2 = [1 \<mapsto> ''b'']"
  by (simp_all add: demo_conn_def demo_h2_def)

theorem one_connection_per_user_witness:
  "\<exists>c. will_kick (cn_handler (hb_conns demo_h2 c)) ''a'' \<or> will_kick (cn_handler (hb_conns demo_h2 c)) ''b''"
  by (rule one_connection_per_user [OF demo_run2]) simp_all

theorem lease_owner_is_connected_witness:
  "world_owner demo_w2 1 = Some ''b'' \<and> cn_user (hb_conns demo_h2 ''b'') = 1 \<and> \<not> has_left (cn_run (hb_conns demo_h2 ''b''))"
proof -
  have o: "world_owner demo_w2 1 = Some ''b''" by code_simp
  show ?thesis using lease_owner_is_connected [OF demo_run2 o] o by simp
qed

lemma demo_kick: "hub_run demo_env demo_manager demo_options
    (demo_w2, set_handler ''b'' (Announcing False) (on_conn ''a'' conn_kick demo_h2))"
  using hub_run.handler [OF demo_run2 handler_step.kick [of demo_h2 "''b''" False "Some ''a''"]] by simp


theorem queue_bounded_witness:
  "hub_notify 1 (Event ''hint'' (GroupRemovedNotification 1 [])) demo_h2 = (True, on_conn ''b'' (\<lambda>s. s\<lparr>cn_send := cn_send s @ [Event ''hint'' (GroupRemovedNotification 1 [])]\<rparr>) demo_h2)"
  using queue_bounded [OF demo_run2, of "''b''" 1 "Event ''hint'' (GroupRemovedNotification 1 [])"] by simp

theorem closed_hub_drains_witness:
  "\<exists>h. hub_run demo_env demo_manager demo_options (empty_world, h) \<and> hb_close h = Closed \<and> \<not> begin_registration h"
proof -
  let ?h1 = "empty_hub\<lparr>hb_closed := True, hb_close := Draining\<rparr>"
  let ?h2 = "(close_clients ?h1)\<lparr>hb_close := Closed\<rparr>"
  have "hub_run demo_env demo_manager demo_options (empty_world, ?h1)"
    by (rule hub_run.close [OF demo_opens close_step.mark_closed]) (simp add: empty_hub_def)
  then have r: "hub_run demo_env demo_manager demo_options (empty_world, ?h2)"
    by (rule hub_run.close [OF _ close_step.close_all]) (simp_all add: empty_hub_def fresh_conn_def registering_def)
  show ?thesis using closed_hub_drains [OF r] r by (intro exI [of _ ?h2]) simp
qed

end
