(* ===== verification/Zset.thy ===== *)
theory Zset
  imports Sessions
begin

text \<open>
  Sorted sets of Redis as lists of (score, member) in ascending order of the score, members with
  equal scores in ascending order of their bytes. \<open>tie\<close> is that order of the members.
\<close>

fun text_less :: "string \<Rightarrow> string \<Rightarrow> bool" where
  "text_less _ [] = False"
| "text_less [] (d # ds) = True"
| "text_less (c # cs) (d # ds) = ((of_char c :: nat) < of_char d \<or> c = d \<and> text_less cs ds)"

fun zinsert :: "('m \<Rightarrow> 'm \<Rightarrow> bool) \<Rightarrow> int \<Rightarrow> 'm \<Rightarrow> 'm zset \<Rightarrow> 'm zset" where
  "zinsert tie s m [] = [(s, m)]"
| "zinsert tie s m ((s', m') # z) =
    (if s < s' \<or> s = s' \<and> tie m m' then (s, m) # (s', m') # z else (s', m') # zinsert tie s m z)"

definition zrem :: "'m \<Rightarrow> 'm zset \<Rightarrow> 'm zset" where
  "zrem m z = filter (\<lambda>e. snd e \<noteq> m) z"

definition zadd :: "('m \<Rightarrow> 'm \<Rightarrow> bool) \<Rightarrow> int \<Rightarrow> 'm \<Rightarrow> 'm zset \<Rightarrow> 'm zset" where
  "zadd tie s m z = zinsert tie s m (zrem m z)"

text \<open>ZRANGEBYSCORE, ZREMRANGEBYSCORE from \<open>lo\<close> to \<open>hi\<close>.\<close>

definition zrange_from :: "int \<Rightarrow> 'm zset \<Rightarrow> 'm zset" where
  "zrange_from lo z = filter (\<lambda>e. lo \<le> fst e) z"

definition zrem_scores :: "int \<Rightarrow> int \<Rightarrow> 'm zset \<Rightarrow> 'm zset" where
  "zrem_scores lo hi z = filter (\<lambda>e. \<not> (lo \<le> fst e \<and> fst e \<le> hi)) z"

text \<open>ZREMRANGEBYRANK 0 stop; a negative \<open>stop\<close> counts from the end.\<close>

definition zrem_ranks :: "int \<Rightarrow> 'm zset \<Rightarrow> 'm zset" where
  "zrem_ranks stop z = drop (nat ((if stop < 0 then int (length z) + stop else stop) + 1)) z"

text \<open>LIMIT 0 count as the client sends it: no limit for 0, and Redis takes a negative count as all.\<close>

definition limited :: "int \<Rightarrow> 'a list \<Rightarrow> 'a list" where
  "limited count xs = (if count \<le> 0 then xs else take (nat count) xs)"

subsection \<open>Well-formed sorted sets\<close>

definition zset_ok :: "'m zset \<Rightarrow> bool" where
  "zset_ok z \<longleftrightarrow> sorted (map fst z) \<and> distinct (map snd z)"

lemma zset_ok_Nil [simp]: "zset_ok []"
  by (simp add: zset_ok_def)

lemma set_zinsert [simp]: "set (zinsert tie s m z) = insert (s, m) (set z)"
  by (induction tie s m z rule: zinsert.induct) auto

lemma length_zinsert [simp]: "length (zinsert tie s m z) = Suc (length z)"
  by (induction tie s m z rule: zinsert.induct) auto

lemma set_zrem [simp]: "set (zrem m z) = {e \<in> set z. snd e \<noteq> m}"
  by (auto simp: zrem_def)

lemma set_zadd: "set (zadd tie s m z) = insert (s, m) {e \<in> set z. snd e \<noteq> m}"
  by (simp add: zadd_def)

lemma sorted_zinsert: "sorted (map fst z) \<Longrightarrow> sorted (map fst (zinsert tie s m z))"
  by (induction tie s m z rule: zinsert.induct) auto

lemma distinct_zinsert: "distinct (map snd z) \<Longrightarrow> m \<notin> snd ` set z \<Longrightarrow> distinct (map snd (zinsert tie s m z))"
  by (induction tie s m z rule: zinsert.induct) auto

lemma sorted_map_filter: "sorted (map f z) \<Longrightarrow> sorted (map f (filter p z))"
  by (induction z) auto

lemma distinct_map_filter_zset: "distinct (map f z) \<Longrightarrow> distinct (map f (filter p z))"
  by (induction z) auto

lemma zset_ok_filter: "zset_ok z \<Longrightarrow> zset_ok (filter p z)"
  by (simp add: zset_ok_def sorted_map_filter distinct_map_filter_zset)

lemma zset_ok_zrem: "zset_ok z \<Longrightarrow> zset_ok (zrem m z)"
  by (simp add: zrem_def zset_ok_filter)

lemma zset_ok_zadd: "zset_ok z \<Longrightarrow> zset_ok (zadd tie s m z)"
  by (auto simp: zset_ok_def zadd_def zrem_def sorted_zinsert sorted_map_filter distinct_map_filter_zset intro!: distinct_zinsert)

lemma zset_ok_drop: "zset_ok z \<Longrightarrow> zset_ok (drop n z)"
  by (simp add: zset_ok_def flip: drop_map)

lemma zset_ok_scores: "zset_ok z \<Longrightarrow> zset_ok (zrem_scores lo hi z)"
  by (simp add: zrem_scores_def zset_ok_filter)

lemma zset_ok_ranks: "zset_ok z \<Longrightarrow> zset_ok (zrem_ranks stop z)"
  by (simp add: zrem_ranks_def zset_ok_drop)

lemmas zset_ok_intros = zset_ok_zadd zset_ok_zrem zset_ok_scores zset_ok_ranks zset_ok_Nil

lemma set_zrem_ranks: "set (zrem_ranks stop z) \<subseteq> set z"
  by (auto simp: zrem_ranks_def dest: in_set_dropD)

text \<open>Keeping the newest \<open>n\<close> members.\<close>

lemma zrem_ranks_keeps: "0 < n \<Longrightarrow> zrem_ranks (- (n + 1)) z = drop (length z - nat n) z"
  by (simp add: zrem_ranks_def) (simp add: nat_diff_distrib' of_nat_diff algebra_simps)

lemma zset_ok_unique: "zset_ok z \<Longrightarrow> (s, m) \<in> set z \<Longrightarrow> (s', m) \<in> set z \<Longrightarrow> s = s'"
  unfolding zset_ok_def by (induction z) (auto simp: image_iff)

subsection \<open>Strict order\<close>

text \<open>When \<open>tie\<close> is a strict total order the list is the only one with these members.\<close>

locale tie_order =
  fixes tie :: "'m \<Rightarrow> 'm \<Rightarrow> bool"
  assumes tie_irrefl: "\<not> tie m m"
    and tie_trans: "tie a b \<Longrightarrow> tie b c \<Longrightarrow> tie a c"
    and tie_total: "a \<noteq> b \<Longrightarrow> tie a b \<or> tie b a"
begin

lemma before_trans:
  "fst a < fst b \<or> fst a = fst b \<and> tie (snd a) (snd b) \<Longrightarrow> fst b < fst (c :: int \<times> 'm) \<or> fst b = fst c \<and> tie (snd b) (snd c) \<Longrightarrow>
    fst a < fst c \<or> fst a = fst c \<and> tie (snd a) (snd c)"
  using tie_trans by (auto intro: less_trans)

lemma zinsert_strict:
  assumes "sorted_wrt (\<lambda>a b. fst a < fst b \<or> fst a = fst b \<and> tie (snd a) (snd b)) z" "m \<notin> snd ` set z"
  shows "sorted_wrt (\<lambda>a b. fst a < fst b \<or> fst a = fst b \<and> tie (snd a) (snd b)) (zinsert tie s m z)"
  using assms
proof (induction z)
  case (Cons e z)
  obtain s' m' where e: "e = (s', m')" by fastforce
  show ?case
  proof (cases "s < s' \<or> s = s' \<and> tie m m'")
    case True
    then show ?thesis using Cons.prems before_trans [of "(s, m)" e] by (auto simp: e)
  next
    case False
    then have "s' < s \<or> s' = s \<and> tie m' m" using tie_total [of m m'] Cons.prems by (auto simp: e)
    then show ?thesis using False Cons by (auto simp: e)
  qed
qed simp

lemma zadd_strict:
  "sorted_wrt (\<lambda>a b. fst a < fst b \<or> fst a = fst b \<and> tie (snd a) (snd b)) z \<Longrightarrow>
   sorted_wrt (\<lambda>a b. fst a < fst b \<or> fst a = fst b \<and> tie (snd a) (snd b)) (zadd tie s m z)"
  unfolding zadd_def by (rule zinsert_strict) (auto simp: zrem_def sorted_wrt_filter)

end

text \<open>Byte strings are ordered, and so are any members told apart by their text.\<close>

lemma text_less_order:
  "\<not> text_less s s" "text_less s t \<Longrightarrow> text_less t u \<Longrightarrow> text_less s u" "s \<noteq> t \<Longrightarrow> text_less s t \<or> text_less t s"
proof -
  show "\<not> text_less s s" by (induction s) auto
  show "text_less s t \<Longrightarrow> text_less t u \<Longrightarrow> text_less s u"
  proof (induction s t arbitrary: u rule: text_less.induct)
    case (3 c cs d ds)
    then show ?case by (cases u) auto
  next
    case (2 d ds)
    then show ?case by (cases u) auto
  qed simp
  show "s \<noteq> t \<Longrightarrow> text_less s t \<or> text_less t s"
  proof (induction s t rule: text_less.induct)
    case (1 s)
    then show ?case by (cases s) auto
  next
    case (3 c cs d ds)
    then show ?case by (auto simp: neq_iff of_char_eq_iff dest: linorder_neqE_nat)
  qed simp
qed

text \<open>The feeds: members are moment IDs in decimal.\<close>

definition id_less :: "int \<Rightarrow> int \<Rightarrow> bool" where
  "id_less a b = text_less (format_int a) (format_int b)"

interpretation feed_ids: tie_order id_less
  by unfold_locales (use text_less_order format_int_inj in \<open>auto simp: id_less_def\<close>)

text \<open>Numbers with the same number of digits are ordered as their texts.\<close>

lemma text_less_append: "length a = length b \<Longrightarrow> text_less (a @ c) (b @ d) \<longleftrightarrow> text_less a b \<or> a = b \<and> text_less c d"
proof (induction a b rule: list_induct2)
  case (Cons x xs y ys)
  then show ?case by auto
qed simp

lemma last_digit_less: "a div 10 < b div 10 \<or> a div 10 = b div 10 \<and> a mod 10 < b mod 10 \<longleftrightarrow> a < (b :: nat)"
proof -
  have "qa < qb \<or> qa = qb \<and> ra < rb \<longleftrightarrow> 10 * qa + ra < 10 * qb + rb" if "ra < 10" "rb < 10" for qa qb ra rb :: nat
    using that by (cases qa qb rule: linorder_cases) auto
  from this [of "a mod 10" "b mod 10" "a div 10" "b div 10"] show ?thesis by simp
qed

lemma format_nat_less: "length (format_nat a) = length (format_nat b) \<Longrightarrow> text_less (format_nat a) (format_nat b) \<longleftrightarrow> a < b"
proof (induction a arbitrary: b rule: format_nat.induct)
  case (1 a)
  have pos: "0 < length (format_nat n)" for n by (subst format_nat.simps) simp
  show ?case
  proof (cases "a < 10 \<or> b < 10")
    case True
    then have "a < 10 \<and> b < 10"
      using "1.prems" pos [of "a div 10"] pos [of "b div 10"] by (auto simp: format_nat.simps [of a] format_nat.simps [of b] split: if_splits)
    then show ?thesis by (simp add: format_nat.simps of_char_of)
  next
    case False
    then have a: "format_nat a = format_nat (a div 10) @ [char_of (48 + a mod 10)]"
      and b: "format_nat b = format_nat (b div 10) @ [char_of (48 + b mod 10)]"
      by (simp_all add: format_nat.simps [of a] format_nat.simps [of b])
    have l: "length (format_nat (a div 10)) = length (format_nat (b div 10))" using "1.prems" a b by simp
    have d: "(of_char (char_of (48 + x mod 10)) :: nat) = 48 + x mod 10" for x :: nat by (simp add: of_char_of)
    have "text_less (format_nat a) (format_nat b) \<longleftrightarrow> a div 10 < b div 10 \<or> a div 10 = b div 10 \<and> a mod 10 < b mod 10"
      using "1.IH" [OF _ l] False by (simp add: a b text_less_append [OF l] format_nat_inj d)
    also have "\<dots> \<longleftrightarrow> a < b"
      by (rule last_digit_less)
    finally show ?thesis .
  qed
qed

lemma id_less_same_length:
  "0 \<le> a \<Longrightarrow> 0 \<le> b \<Longrightarrow> length (format_int a) = length (format_int b) \<Longrightarrow> id_less a b \<longleftrightarrow> a < b"
  by (auto simp: id_less_def format_int_def format_nat_less)

end
