(* ===== verification/MessageBox.thy ===== *)
theory MessageBox
  imports Zset RedisCache "HOL-Library.Product_Lexorder"
begin

text \<open>
  The message part of \<open>repository/redis_repository.go\<close> with the Lua scripts of \<open>internal/redis\<close>:
  message boxes, conversation lists, unread counters, read positions, the checks before a
  message is sent, reading and revoking. A script is one atomic call. The texts of the JSON members
  decide only the order of members with equal scores; they are the arguments \<open>js\<close> (boxes) and
  \<open>ct\<close> (summaries). Scores are milliseconds and IDs, below \<open>2^53\<close>, so exact as doubles.
\<close>

text \<open>A call that can fail with a reply of Redis, and a call on both groups of keys.\<close>

definition kv_try :: "(int \<Rightarrow> kv_store \<Rightarrow> go_error + 'a \<times> kv_store) \<Rightarrow> 'a io" where
  "kv_try f = remote (\<lambda>w. case f (w_clock w) (w_kv w) of Inl e \<Rightarrow> (Inl e, w) | Inr (x, k) \<Rightarrow> (Inr x, w\<lparr>w_kv := k\<rparr>))"

definition both :: "(int \<Rightarrow> rel_cache \<Rightarrow> kv_store \<Rightarrow> go_error + 'a \<times> rel_cache \<times> kv_store) \<Rightarrow> 'a io" where
  "both f = remote (\<lambda>w. case f (w_clock w) (w_cache w) (w_kv w) of
     Inl e \<Rightarrow> (Inl e, w) | Inr (x, c, k) \<Rightarrow> (Inr x, w\<lparr>w_cache := c, w_kv := k\<rparr>))"

definition box_less :: "(box_member \<Rightarrow> string) \<Rightarrow> box_member \<Rightarrow> box_member \<Rightarrow> bool" where
  "box_less js a b = text_less (js a) (js b)"

subsection \<open>Boxes\<close>

definition write_inbox :: "(box_member \<Rightarrow> string) \<Rightarrow> int \<Rightarrow> inbox_message \<Rightarrow> unit io" where
  "write_inbox js uid m = kv_write (\<lambda>t k. k\<lparr>kv_inbox := (kv_inbox k)
     (uid := zadd (box_less js) (im_timestamp m) (Message m) (kv_inbox k uid))\<rparr>)"

definition write_outbox :: "(box_member \<Rightarrow> string) \<Rightarrow> int \<Rightarrow> inbox_message \<Rightarrow> unit io" where
  "write_outbox js gid m = redis_write (\<lambda>c. c\<lparr>rc_outbox := (rc_outbox c)
     (gid := zadd (box_less js) (im_timestamp m) (Message m) (rc_outbox c gid))\<rparr>)"

fun go_decode :: "box_member \<Rightarrow> inbox_message option" where
  "go_decode (Message m) = Some m"
| "go_decode (Rounded m) = None"
| "go_decode (Undecodable s) = None"

text \<open>\<open>readMessagesAfter\<close>: what lies strictly behind the cursor, in order, at most \<open>limit\<close>.\<close>

definition behind_cursor :: "int \<Rightarrow> int \<Rightarrow> inbox_message \<Rightarrow> bool" where
  "behind_cursor last_time last_id m \<longleftrightarrow>
     \<not> (im_timestamp m < last_time \<or> im_timestamp m = last_time \<and> 0 < last_id \<and> im_msg_id m \<le> last_id)"

definition messages_after :: "int \<Rightarrow> int \<Rightarrow> box_member zset \<Rightarrow> inbox_message list" where
  "messages_after last_time last_id z = sort_key (\<lambda>m. (im_timestamp m, im_msg_id m))
     (filter (behind_cursor last_time last_id) (List.map_filter (\<lambda>e. go_decode (snd e)) (zrange_from last_time z)))"

definition read_messages_after :: "int \<Rightarrow> int \<Rightarrow> int \<Rightarrow> box_member zset \<Rightarrow> inbox_message list" where
  "read_messages_after last_time last_id limit z =
     (let msgs = messages_after last_time last_id z
      in if 0 < limit \<and> limit < int (length msgs) then take (nat limit) msgs else msgs)"

definition read_inbox :: "int \<Rightarrow> int \<Rightarrow> int \<Rightarrow> int \<Rightarrow> inbox_message list io" where
  "read_inbox uid last_time last_id limit = on_error (WrapErr ''ZRangeByScore'')
     (kv_read (\<lambda>t k. read_messages_after last_time last_id limit (kv_inbox k uid)))"

definition read_outbox :: "int \<Rightarrow> int \<Rightarrow> int \<Rightarrow> int \<Rightarrow> inbox_message list io" where
  "read_outbox gid last_time last_id limit = on_error (WrapErr ''ZRangeByScore'')
     (redis_read (\<lambda>c. read_messages_after last_time last_id limit (rc_outbox c gid)))"

text \<open>Trimming to a count: ZCARD, then the oldest beyond \<open>max_count\<close> are removed.\<close>

definition trim_inbox :: "int \<Rightarrow> int \<Rightarrow> unit io" where
  "trim_inbox uid max_count =
     andThen (on_error (WrapErr ''ZCard'') (kv_read (\<lambda>t k. int (length (kv_inbox k uid))))) (\<lambda>card.
     when_ok (max_count < card) (on_error (WrapErr ''ZRemRangeByRank'') (kv_write (\<lambda>t k. k\<lparr>kv_inbox := (kv_inbox k)
       (uid := zrem_ranks (card - max_count - 1) (kv_inbox k uid))\<rparr>))))"

definition trim_outbox :: "int \<Rightarrow> int \<Rightarrow> unit io" where
  "trim_outbox gid max_count =
     andThen (on_error (WrapErr ''ZCard'') (redis_read (\<lambda>c. int (length (rc_outbox c gid))))) (\<lambda>card.
     when_ok (max_count < card) (on_error (WrapErr ''ZRemRangeByRank'') (redis_write (\<lambda>c. c\<lparr>rc_outbox := (rc_outbox c)
       (gid := zrem_ranks (card - max_count - 1) (rc_outbox c gid))\<rparr>))))"

definition trim_inbox_by_time :: "int \<Rightarrow> int \<Rightarrow> unit io" where
  "trim_inbox_by_time uid before_ts = on_error (WrapErr ''ZRemRangeByScore'')
     (kv_write (\<lambda>t k. k\<lparr>kv_inbox := (kv_inbox k)(uid := zrem_scores 0 before_ts (kv_inbox k uid))\<rparr>))"

definition trim_outbox_by_time :: "int \<Rightarrow> int \<Rightarrow> unit io" where
  "trim_outbox_by_time gid before_ts = on_error (WrapErr ''ZRemRangeByScore'')
     (redis_write (\<lambda>c. c\<lparr>rc_outbox := (rc_outbox c)(gid := zrem_scores 0 before_ts (rc_outbox c gid))\<rparr>))"

definition trim_conv_list_by_time :: "int \<Rightarrow> int \<Rightarrow> unit io" where
  "trim_conv_list_by_time uid before_ts = on_error (WrapErr ''ZRemRangeByScore'')
     (kv_write (\<lambda>t k. k\<lparr>kv_conv_list := (kv_conv_list k)(uid := zrem_scores 0 before_ts (kv_conv_list k uid))\<rparr>))"

definition trim_timeline_by_time :: "int \<Rightarrow> int \<Rightarrow> unit io" where
  "trim_timeline_by_time uid before_ts = on_error (WrapErr ''ZRemRangeByScore'')
     (kv_write (\<lambda>t k. k\<lparr>kv_timeline := (kv_timeline k)(uid := zrem_scores 0 before_ts (kv_timeline k uid))\<rparr>))"

subsection \<open>Conversations\<close>

fun conv_text :: "(conv_summary \<Rightarrow> string) \<Rightarrow> conv_member \<Rightarrow> string" where
  "conv_text ct (Summary s) = ct s"
| "conv_text ct (BareConv c) = c"

definition conv_less :: "(conv_summary \<Rightarrow> string) \<Rightarrow> conv_member \<Rightarrow> conv_member \<Rightarrow> bool" where
  "conv_less ct a b = text_less (conv_text ct a) (conv_text ct b)"

fun is_conv :: "string \<Rightarrow> conv_member \<Rightarrow> bool" where
  "is_conv conv (Summary s) = (cs_conv_id s = conv)"
| "is_conv conv (BareConv c) = (c = conv)"

definition update_conv_list :: "(conv_summary \<Rightarrow> string) \<Rightarrow> int \<Rightarrow> string \<Rightarrow> conv_member option \<Rightarrow> int \<Rightarrow> unit io" where
  "update_conv_list ct uid conv summary ts =
     andThen (on_error (WrapErr ''read old summaries'') (kv_read (\<lambda>t k. map snd (kv_conv_list k uid)))) (\<lambda>members.
     andThen (for_each (\<lambda>m. on_error (WrapErr ''remove old summary'')
         (kv_write (\<lambda>t k. k\<lparr>kv_conv_list := (kv_conv_list k)(uid := zrem m (kv_conv_list k uid))\<rparr>)))
       (filter (is_conv conv) members)) (\<lambda>_.
     kv_write (\<lambda>t k. k\<lparr>kv_conv_list := (kv_conv_list k)(uid := zadd (conv_less ct) ts
       (case summary of None \<Rightarrow> BareConv conv | Some m \<Rightarrow> m) (kv_conv_list k uid))\<rparr>)))"

definition bare_summary :: "string \<Rightarrow> conv_summary" where
  "bare_summary conv = \<lparr>cs_conv_id = conv, cs_conv_type = 0, cs_target_id = 0, cs_target_name = [],
     cs_target_avatar = [], cs_last_msg = [], cs_last_msg_time = 0\<rparr>"

fun conv_entries :: "(conv_summary \<Rightarrow> string) \<Rightarrow> string list \<Rightarrow> conv_member list \<Rightarrow> conv_summary list" where
  "conv_entries ct seen [] = []"
| "conv_entries ct seen (Summary s # ms) =
    (if cs_conv_id s = [] then bare_summary (ct s) # conv_entries ct seen ms
     else if cs_conv_id s \<in> set seen then conv_entries ct seen ms
     else s # conv_entries ct (cs_conv_id s # seen) ms)"
| "conv_entries ct seen (BareConv c # ms) = bare_summary c # conv_entries ct seen ms"

definition get_conv_list :: "(conv_summary \<Rightarrow> string) \<Rightarrow> int \<Rightarrow> conv_summary list io" where
  "get_conv_list ct uid = on_error (WrapErr ''ZRevRange'')
     (kv_read (\<lambda>t k. conv_entries ct [] (rev (map snd (kv_conv_list k uid)))))"

subsection \<open>Counters and positions\<close>

definition unread_of :: "int \<Rightarrow> string \<Rightarrow> kv_store \<Rightarrow> int" where
  "unread_of uid conv k = (case kv_unread k (uid, conv) of None \<Rightarrow> 0 | Some n \<Rightarrow> n)"

text \<open>HINCRBY refuses to leave 64 bits.\<close>

definition increment_unread :: "int \<Rightarrow> string \<Rightarrow> unit io" where
  "increment_unread uid conv = kv_try (\<lambda>t k. let n = unread_of uid conv k + 1 in
     if 2 ^ 63 \<le> n then Inl (PlainErr ''increment or decrement would overflow'')
     else Inr ((), k\<lparr>kv_unread := (kv_unread k)((uid, conv) \<mapsto> n)\<rparr>))"

definition clear_unread :: "int \<Rightarrow> string \<Rightarrow> unit io" where
  "clear_unread uid conv = kv_write (\<lambda>t k. k\<lparr>kv_unread := (kv_unread k)((uid, conv) \<mapsto> 0)\<rparr>)"

definition get_unread_map :: "int \<Rightarrow> (string \<rightharpoonup> int) io" where
  "get_unread_map uid = on_error (WrapErr ''HGetAll'') (kv_read (\<lambda>t k conv.
     case kv_unread k (uid, conv) of None \<Rightarrow> None | Some n \<Rightarrow> if 0 < n then Some n else None))"

text \<open>\<open>luaInboxMarkRead\<close>.\<close>

definition mark_read_script :: "int \<Rightarrow> string \<Rightarrow> int \<Rightarrow> kv_store \<Rightarrow> int \<times> kv_store" where
  "mark_read_script uid conv t k = (unread_of uid conv k, k\<lparr>kv_unread := (kv_unread k)((uid, conv) \<mapsto> 0)\<rparr>)"

definition exec_inbox_mark_read :: "int \<Rightarrow> string \<Rightarrow> int io" where
  "exec_inbox_mark_read uid conv = kv (mark_read_script uid conv)"

definition set_group_read_pos :: "int \<Rightarrow> string \<Rightarrow> int \<Rightarrow> unit io" where
  "set_group_read_pos uid conv seq = kv_write (\<lambda>t k. k\<lparr>kv_read_pos := (kv_read_pos k)((uid, conv) \<mapsto> seq)\<rparr>)"

definition get_group_read_pos :: "int \<Rightarrow> string \<Rightarrow> int io" where
  "get_group_read_pos uid conv = on_error (WrapErr ''HGet'')
     (kv_read (\<lambda>t k. case kv_read_pos k (uid, conv) of None \<Rightarrow> 0 | Some n \<Rightarrow> n))"

subsection \<open>Group membership keys\<close>

definition get_group_memberships :: "int \<Rightarrow> int list io" where
  "get_group_memberships uid = on_error (WrapErr ''SMembers'') (redis_read (\<lambda>c. pairs_of uid (rc_user_groups c)))"

definition cached_group_members :: "int \<Rightarrow> int list io" where
  "cached_group_members gid = on_error (WrapErr ''SMembers'') (redis_read (\<lambda>c. pairs_of gid (rc_group_members c)))"

definition add_group_member_cache :: "int \<Rightarrow> int \<Rightarrow> unit io" where
  "add_group_member_cache gid uid = on_error (WrapErr ''add group member cache'') (redis_write (\<lambda>c.
     c\<lparr>rc_group_members := sadd (gid, uid) (rc_group_members c), rc_user_groups := sadd (uid, gid) (rc_user_groups c),
       rc_reverse_index := sadd (gid, uid) (rc_reverse_index c), rc_group_loaded := (rc_group_loaded c)(gid := None)\<rparr>))"

definition group_conv_text :: "int \<Rightarrow> string" where
  "group_conv_text gid = ''g_'' @ format_int gid"

definition remove_group_member_cache :: "int \<Rightarrow> int \<Rightarrow> unit io" where
  "remove_group_member_cache gid uid =
     (let conv = group_conv_text gid in
     andThen (on_error (WrapErr ''read summaries'') (kv_read (\<lambda>t k. map snd (kv_conv_list k uid)))) (\<lambda>members.
     on_error (WrapErr ''clear group member cache'') (both (\<lambda>t c k. Inr ((),
       c\<lparr>rc_group_members := removeAll (gid, uid) (rc_group_members c), rc_user_groups := removeAll (uid, gid) (rc_user_groups c),
         rc_reverse_index := removeAll (gid, uid) (rc_reverse_index c),
         rc_group_info := filter (\<lambda>e. fst e \<noteq> (gid, uid)) (rc_group_info c),
         rc_group_loaded := (rc_group_loaded c)(gid := None)\<rparr>,
       k\<lparr>kv_conv_list := (kv_conv_list k)(uid := fold zrem (filter (is_conv conv) members) (kv_conv_list k uid)),
         kv_unread := (kv_unread k)((uid, conv) := None),
         kv_read_pos := (kv_read_pos k)((uid, conv) := None)\<rparr>)))))"

subsection \<open>Checks before sending\<close>

definition dedup_seconds :: int where "dedup_seconds = 300"

definition check_duplicate :: "int \<Rightarrow> string \<Rightarrow> bool io" where
  "check_duplicate uid cid = on_error (WrapErr ''SetNX'') (kv (\<lambda>t k.
     if live t (kv_dedup k (uid, cid)) \<noteq> None then (True, k)
     else (False, k\<lparr>kv_dedup := (kv_dedup k)((uid, cid) \<mapsto> ((), t + dedup_seconds * second))\<rparr>)))"

definition MaxLuaID :: int where "MaxLuaID = 9007199254740991"

definition lua_id_ok :: "int \<Rightarrow> bool" where
  "lua_id_ok n \<longleftrightarrow> 1 \<le> n \<and> n \<le> MaxLuaID"

record private_check =
  pc_err :: int
  pc_msg_id :: int
  pc_timestamp :: int
  pc_online :: bool
  pc_friend :: bool
  pc_blocked :: bool

definition PMErrNotFriend :: int where "PMErrNotFriend = 1"
definition PMErrBlocked :: int where "PMErrBlocked = 2"
definition PMErrDuplicate :: int where "PMErrDuplicate = 3"
definition CodePMNotFriend :: int where "CodePMNotFriend = 4001"
definition CodePMBlocked :: int where "CodePMBlocked = 4002"
definition CodePMDuplicate :: int where "CodePMDuplicate = 4003"

definition map_private_code :: "int \<Rightarrow> int" where
  "map_private_code e = (if e = PMErrNotFriend then CodePMNotFriend else if e = PMErrBlocked then CodePMBlocked
     else if e = PMErrDuplicate then CodePMDuplicate else e)"

definition unix_ms :: "int \<Rightarrow> int" where "unix_ms t = t div 1000000"

text \<open>\<open>luaPrivateMsgCheck\<close>.\<close>

definition private_msg_script :: "int \<Rightarrow> int \<Rightarrow> string \<Rightarrow> int \<Rightarrow> int \<Rightarrow> rel_cache \<Rightarrow> kv_store \<Rightarrow>
    go_error + private_check \<times> rel_cache \<times> kv_store" where
  "private_msg_script sender receiver cid msg_id t c k =
     (if \<not> lua_id_ok msg_id then Inl (PlainErr ''invalid externally allocated message ID'')
      else if (sender, receiver) \<notin> set (rc_friend c) \<or> (receiver, sender) \<notin> set (rc_friend c)
      then Inr (\<lparr>pc_err = PMErrNotFriend, pc_msg_id = 0, pc_timestamp = 0, pc_online = False, pc_friend = False, pc_blocked = False\<rparr>, c, k)
      else if (receiver, sender) \<in> set (rc_blacklist c) \<or> (sender, receiver) \<in> set (rc_blacklist c)
      then Inr (\<lparr>pc_err = PMErrBlocked, pc_msg_id = 0, pc_timestamp = 0, pc_online = False, pc_friend = True, pc_blocked = True\<rparr>, c, k)
      else if live t (kv_dedup k (sender, cid)) \<noteq> None
      then Inr (\<lparr>pc_err = PMErrDuplicate, pc_msg_id = 0, pc_timestamp = 0, pc_online = False, pc_friend = False, pc_blocked = False\<rparr>, c, k)
      else Inr (\<lparr>pc_err = 0, pc_msg_id = msg_id, pc_timestamp = unix_ms t, pc_online = live t (kv_online k receiver) \<noteq> None,
                pc_friend = True, pc_blocked = False\<rparr>, c,
              k\<lparr>kv_dedup := (kv_dedup k)((sender, cid) \<mapsto> ((), t + dedup_seconds * second))\<rparr>))"

text \<open>The Go wrapper: a rule that refuses the message is \<open>Inl\<close> with the client code.\<close>

definition exec_private_msg_check :: "int io option \<Rightarrow> int \<Rightarrow> int \<Rightarrow> string \<Rightarrow> (int + int \<times> int) io" where
  "exec_private_msg_check message_ids sender receiver cid = (case message_ids of
      None \<Rightarrow> throw (PlainErr ''message ID generator is not configured'')
    | Some next \<Rightarrow>
        andThen (on_error (WrapErr ''generate private message ID'') next) (\<lambda>msg_id.
        andThen (both (private_msg_script sender receiver cid msg_id)) (\<lambda>r.
        ret (if pc_err r \<noteq> 0 then Inl (map_private_code (pc_err r)) else Inr (pc_msg_id r, pc_timestamp r)))))"

record group_check =
  gc_err :: int
  gc_msg_id :: int
  gc_group_seq :: int
  gc_timestamp :: int
  gc_member :: bool
  gc_muted :: bool

definition GMErrNotMember :: int where "GMErrNotMember = 1"
definition GMErrMuted :: int where "GMErrMuted = 2"
definition GMErrDuplicate :: int where "GMErrDuplicate = 3"
definition CodeGMNotMember :: int where "CodeGMNotMember = 5001"
definition CodeGMMuted :: int where "CodeGMMuted = 5002"
definition CodeGMDuplicate :: int where "CodeGMDuplicate = 5003"

definition map_group_code :: "int \<Rightarrow> int" where
  "map_group_code e = (if e = GMErrNotMember then CodeGMNotMember else if e = GMErrMuted then CodeGMMuted
     else if e = GMErrDuplicate then CodeGMDuplicate else e)"

definition group_refused :: "int \<Rightarrow> bool \<Rightarrow> group_check" where
  "group_refused e muted = \<lparr>gc_err = e, gc_msg_id = 0, gc_group_seq = 0, gc_timestamp = 0, gc_member = muted, gc_muted = muted\<rparr>"

text \<open>
  \<open>luaGroupMsgCheck\<close>. The hash values are kept decoded in the current format; the branch for
  the format before the upgrade (a text deadline) does not arise.
\<close>

definition group_msg_script :: "int \<Rightarrow> int \<Rightarrow> string \<Rightarrow> int \<Rightarrow> int \<Rightarrow> rel_cache \<Rightarrow> kv_store \<Rightarrow>
    go_error + group_check \<times> rel_cache \<times> kv_store" where
  "group_msg_script gid sender cid msg_id t c k =
     (if \<not> lua_id_ok msg_id then Inl (PlainErr ''invalid externally allocated message ID'')
      else if (gid, sender) \<notin> set (rc_group_members c) then Inr (group_refused GMErrNotMember False, c, k)
      else case map_of (rc_group_info c) (gid, sender) of
        None \<Rightarrow> Inr (group_refused GMErrNotMember False, c, k)
      | Some info \<Rightarrow>
          if mi_muted_until info > unix_ms t then Inr (group_refused GMErrMuted True, c, k)
          else if live t (kv_dedup k (sender, cid)) \<noteq> None then Inr (group_refused GMErrDuplicate False, c, k)
          else let seq = (case rc_group_seq c gid of None \<Rightarrow> 1 | Some n \<Rightarrow> n + 1) in
            Inr (\<lparr>gc_err = 0, gc_msg_id = msg_id, gc_group_seq = seq, gc_timestamp = unix_ms t, gc_member = True, gc_muted = False\<rparr>,
              c\<lparr>rc_group_seq := (rc_group_seq c)(gid \<mapsto> seq)\<rparr>,
              k\<lparr>kv_dedup := (kv_dedup k)((sender, cid) \<mapsto> ((), t + dedup_seconds * second))\<rparr>))"

definition exec_group_msg_check :: "int io option \<Rightarrow> int \<Rightarrow> int \<Rightarrow> string \<Rightarrow> (int + int \<times> int \<times> int) io" where
  "exec_group_msg_check message_ids gid sender cid = (case message_ids of
      None \<Rightarrow> throw (PlainErr ''message ID generator is not configured'')
    | Some next \<Rightarrow>
        andThen (on_error (WrapErr ''generate group message ID'') next) (\<lambda>msg_id.
        andThen (both (group_msg_script gid sender cid msg_id)) (\<lambda>r.
        ret (if gc_err r \<noteq> 0 then Inl (map_group_code (gc_err r)) else Inr (gc_msg_id r, gc_group_seq r, gc_timestamp r)))))"

subsection \<open>Revoking\<close>

text \<open>Lua prints a number with \<open>%.14g\<close>: rounded to 14 significant digits, ties to even.\<close>

definition lua_round :: "int \<Rightarrow> int" where
  "lua_round n = (if \<bar>n\<bar> < 10 ^ 14 then n else
     let p = 10 ^ (length (format_nat (nat \<bar>n\<bar>)) - 14); q = \<bar>n\<bar> div p; r = \<bar>n\<bar> mod p
     in sgn n * ((if p < 2 * r \<or> p = 2 * r \<and> odd q then q + 1 else q) * p))"

definition lua_exact :: "inbox_message \<Rightarrow> bool" where
  "lua_exact m \<longleftrightarrow> (\<forall>n\<in>set [im_msg_id m, im_conv_type m, im_from m, im_to m, im_msg_type m, im_read_status m, im_group_seq m,
     im_timestamp m]. \<bar>n\<bar> < 10 ^ 14)"

definition lua_encode :: "inbox_message \<Rightarrow> box_member" where
  "lua_encode m = (if lua_exact m then Message m else Rounded (m\<lparr>im_msg_id := lua_round (im_msg_id m),
     im_conv_type := lua_round (im_conv_type m), im_from := lua_round (im_from m), im_to := lua_round (im_to m),
     im_msg_type := lua_round (im_msg_type m), im_read_status := lua_round (im_read_status m),
     im_group_seq := lua_round (im_group_seq m), im_timestamp := lua_round (im_timestamp m)\<rparr>))"

fun lua_decode :: "box_member \<Rightarrow> inbox_message option" where
  "lua_decode (Message m) = Some m"
| "lua_decode (Rounded m) = Some m"
| "lua_decode (Undecodable s) = None"

text \<open>\<open>findMessage\<close>: an error when a member before the message does not decode.\<close>

fun find_message :: "int \<Rightarrow> box_member zset \<Rightarrow> go_error + (box_member \<times> inbox_message) option" where
  "find_message msg_id [] = Inr None"
| "find_message msg_id ((s, b) # z) = (case lua_decode b of
      None \<Rightarrow> Inl (PlainErr ''cjson decode'')
    | Some m \<Rightarrow> if im_msg_id m = msg_id then Inr (Some (b, m)) else find_message msg_id z)"

definition replace_revoked :: "(box_member \<Rightarrow> string) \<Rightarrow> box_member \<Rightarrow> inbox_message \<Rightarrow> int \<Rightarrow> string \<Rightarrow> box_member zset \<Rightarrow> box_member zset" where
  "replace_revoked js raw original msg_type content z =
     zadd (box_less js) (im_timestamp original) (lua_encode (original\<lparr>im_msg_type := msg_type, im_content := content\<rparr>)) (zrem raw z)"

definition revoke_window :: int where "revoke_window = 120000"

text \<open>The outbox named by the text after \<open>g_\<close>, and an inbox named by a Lua number.\<close>

definition outbox_named :: "string \<Rightarrow> int option" where
  "outbox_named s = (case parse_int s of Some g \<Rightarrow> if format_int g = s then Some g else None | None \<Rightarrow> None)"

definition inbox_of_number :: "int \<Rightarrow> kv_store \<Rightarrow> box_member zset" where
  "inbox_of_number n k = (if \<bar>n\<bar> < 10 ^ 14 then kv_inbox k n else [])"

text \<open>\<open>luaRevokeMsg\<close>.\<close>

definition revoke_group :: "(box_member \<Rightarrow> string) \<Rightarrow> int \<Rightarrow> string \<Rightarrow> int \<Rightarrow> int \<Rightarrow> string \<Rightarrow> int \<Rightarrow> rel_cache \<Rightarrow>
    go_error + bool \<times> rel_cache" where
  "revoke_group js uid group_text msg_id msg_type content now_ms c = (case outbox_named group_text of
      None \<Rightarrow> Inr (False, c)
    | Some gid \<Rightarrow> (case find_message msg_id (rc_outbox c gid) of
        Inl e \<Rightarrow> Inl e
      | Inr None \<Rightarrow> Inr (False, c)
      | Inr (Some (raw, m)) \<Rightarrow>
          if im_from m \<noteq> uid \<or> revoke_window < now_ms - im_timestamp m then Inr (False, c)
          else Inr (True, c\<lparr>rc_outbox := (rc_outbox c)(gid := replace_revoked js raw m msg_type content (rc_outbox c gid))\<rparr>)))"

definition revoke_private :: "(box_member \<Rightarrow> string) \<Rightarrow> int \<Rightarrow> int \<Rightarrow> int \<Rightarrow> string \<Rightarrow> int \<Rightarrow> kv_store \<Rightarrow>
    go_error + bool \<times> kv_store" where
  "revoke_private js uid msg_id msg_type content now_ms k = (case find_message msg_id (kv_inbox k uid) of
      Inl e \<Rightarrow> Inl e
    | Inr None \<Rightarrow> Inr (False, k)
    | Inr (Some (raw, m)) \<Rightarrow>
        if im_from m \<noteq> uid \<or> revoke_window < now_ms - im_timestamp m \<or> im_to m = uid then Inr (False, k)
        else (case find_message msg_id (inbox_of_number (im_to m) k) of
            Inl e \<Rightarrow> Inl e
          | Inr None \<Rightarrow> Inr (False, k)
          | Inr (Some (raw', m')) \<Rightarrow>
              if im_from m' \<noteq> uid then Inr (False, k)
              else Inr (True, k\<lparr>kv_inbox := (kv_inbox k)(uid := replace_revoked js raw m msg_type content (kv_inbox k uid),
                     im_to m := replace_revoked js raw' m' msg_type content (kv_inbox k (im_to m)))\<rparr>)))"

definition revoke_script :: "(box_member \<Rightarrow> string) \<Rightarrow> int \<Rightarrow> string \<Rightarrow> int \<Rightarrow> (int \<times> string) option \<Rightarrow> int \<Rightarrow>
    int \<Rightarrow> rel_cache \<Rightarrow> kv_store \<Rightarrow> go_error + bool \<times> rel_cache \<times> kv_store" where
  "revoke_script js uid conv msg_id replacement now_ms t c k = (case replacement of
      None \<Rightarrow> Inl (PlainErr ''cjson decode'')
    | Some (msg_type, content) \<Rightarrow>
        if take 2 conv = ''g_''
        then (case revoke_group js uid (drop 2 conv) msg_id msg_type content now_ms c of
            Inl e \<Rightarrow> Inl e | Inr (b, c') \<Rightarrow> Inr (b, c', k))
        else (case revoke_private js uid msg_id msg_type content now_ms k of
            Inl e \<Rightarrow> Inl e | Inr (b, k') \<Rightarrow> Inr (b, c, k')))"

definition exec_revoke_msg :: "(box_member \<Rightarrow> string) \<Rightarrow> int \<Rightarrow> string \<Rightarrow> int \<Rightarrow> (int \<times> string) option \<Rightarrow> int \<Rightarrow> bool io" where
  "exec_revoke_msg js uid conv msg_id replacement now_ms = both (revoke_script js uid conv msg_id replacement now_ms)"

end
