(* ===== verification/MessageProps.thy ===== *)
theory MessageProps
  imports MessageBox
begin

text \<open>Message boxes: their invariant, reading in pages, and revoking.\<close>

subsection \<open>The invariant of a box\<close>

definition message_key :: "inbox_message \<Rightarrow> int \<times> int" where
  "message_key m = (im_timestamp m, im_msg_id m)"

text \<open>Sorted, each member once, and the score of a message is its timestamp.\<close>

definition box_ok :: "box_member zset \<Rightarrow> bool" where
  "box_ok z \<longleftrightarrow> zset_ok z \<and> (\<forall>s m. (s, Message m) \<in> set z \<longrightarrow> s = im_timestamp m)"

definition boxes_ok :: "world \<Rightarrow> bool" where
  "boxes_ok w \<longleftrightarrow> (\<forall>u. box_ok (kv_inbox (w_kv w) u)) \<and> (\<forall>g. box_ok (rc_outbox (w_cache w) g))"

lemma box_ok_zadd: "box_ok z \<Longrightarrow> (\<And>m. b = Message m \<Longrightarrow> s = im_timestamp m) \<Longrightarrow> box_ok (zadd tie s b z)"
  by (auto simp: box_ok_def zset_ok_zadd set_zadd)

lemma box_ok_sub: "box_ok z \<Longrightarrow> zset_ok z' \<Longrightarrow> set z' \<subseteq> set z \<Longrightarrow> box_ok z'"
  by (auto simp: box_ok_def)

lemma box_ok_zrem: "box_ok z \<Longrightarrow> box_ok (zrem b z)"
  by (rule box_ok_sub) (auto simp: box_ok_def zset_ok_zrem)

lemma box_ok_ranks: "box_ok z \<Longrightarrow> box_ok (zrem_ranks n z)"
  by (rule box_ok_sub) (auto simp: box_ok_def zset_ok_ranks dest: subsetD [OF set_zrem_ranks])

lemma box_ok_scores: "box_ok z \<Longrightarrow> box_ok (zrem_scores lo hi z)"
  by (rule box_ok_sub [OF _ zset_ok_scores]) (auto simp: box_ok_def zrem_scores_def)

lemma lua_encode_cases: "lua_encode m = Message m' \<longleftrightarrow> lua_exact m \<and> m' = m"
  by (auto simp: lua_encode_def)

lemma box_ok_revoked: "box_ok z \<Longrightarrow> box_ok (replace_revoked js raw m ty content z)"
  unfolding replace_revoked_def by (rule box_ok_zadd) (auto simp: box_ok_zrem lua_encode_cases)

lemma boxes_ok_net [simp]: "boxes_ok (net_pop w) = boxes_ok w"
  by (simp add: boxes_ok_def)

lemma boxes_ok_kv:
  assumes "boxes_ok w" "\<And>t. \<forall>u. box_ok (kv_inbox (snd (f t (w_kv w))) u)"
  shows "boxes_ok (snd (kv f w))"
  using assms(1) assms(2) [of "w_clock w"] by (auto simp: kv_def remote_def boxes_ok_def split: net_outcome.split prod.split)

lemma boxes_ok_redis:
  assumes "boxes_ok w" "\<forall>g. box_ok (rc_outbox (snd (f (w_cache w))) g)"
  shows "boxes_ok (snd (redis f w))"
  using assms by (auto simp: redis_def remote_def boxes_ok_def split: net_outcome.split prod.split)

lemma boxes_ok_reads: "boxes_ok w \<Longrightarrow> boxes_ok (snd (kv_read f w))" "boxes_ok w \<Longrightarrow> boxes_ok (snd (redis_read g w))"
  unfolding kv_read_def redis_read_def by (rule boxes_ok_kv boxes_ok_redis; simp add: boxes_ok_def)+

text \<open>An operation that keeps the boxes, whatever calls fail.\<close>

definition keeps_boxes :: "'a io \<Rightarrow> bool" where
  "keeps_boxes m \<longleftrightarrow> (\<forall>w. boxes_ok w \<longrightarrow> boxes_ok (snd (m w)))"

lemma keeps_boxes_intros:
  "keeps_boxes (ret x)" "keeps_boxes (throw e)" "keeps_boxes m \<Longrightarrow> keeps_boxes (on_error h m)"
  "keeps_boxes (kv_read f)" "keeps_boxes (redis_read g)" "keeps_boxes n \<Longrightarrow> keeps_boxes (when_ok b n)"
  by (auto simp: keeps_boxes_def ret_def throw_def on_error_snd when_ok_def boxes_ok_reads)

lemma keeps_boxes_andThen: "keeps_boxes m \<Longrightarrow> (\<And>x. keeps_boxes (f x)) \<Longrightarrow> keeps_boxes (andThen m f)"
  unfolding keeps_boxes_def by (auto simp: andThen_def split: prod.split sum.split)

lemma keeps_boxes_kv_write: "(\<And>t k u. \<forall>v. box_ok (kv_inbox k v) \<Longrightarrow> box_ok (kv_inbox (f t k) u)) \<Longrightarrow> keeps_boxes (kv_write f)"
  unfolding keeps_boxes_def kv_write_def by (intro allI impI boxes_ok_kv) (simp_all add: boxes_ok_def)

lemma keeps_boxes_redis_write: "(\<And>c g. \<forall>v. box_ok (rc_outbox c v) \<Longrightarrow> box_ok (rc_outbox (f c) g)) \<Longrightarrow> keeps_boxes (redis_write f)"
  unfolding keeps_boxes_def redis_write_def by (intro allI impI boxes_ok_redis) (simp_all add: boxes_ok_def)

lemma keeps_boxes_revoke: "keeps_boxes (exec_revoke_msg js uid conv msg_id replacement now_ms)"
  unfolding keeps_boxes_def exec_revoke_msg_def both_def remote_def boxes_ok_def revoke_script_def revoke_group_def revoke_private_def
  by (auto simp: box_ok_revoked split: net_outcome.split prod.split sum.splits option.splits if_splits)

text \<open>
  Writing, trimming and revoking messages, and clearing a disbanded group, keep every box
  sorted by the time of its messages with each member once, whatever calls fail.
\<close>

theorem boxes_stay_ok:
  assumes "boxes_ok w"
  shows "boxes_ok (snd (write_inbox js uid m w)) \<and> boxes_ok (snd (write_outbox js gid m w)) \<and>
    boxes_ok (snd (trim_inbox uid n w)) \<and> boxes_ok (snd (trim_outbox gid n w)) \<and>
    boxes_ok (snd (trim_inbox_by_time uid t w)) \<and> boxes_ok (snd (trim_outbox_by_time gid t w)) \<and>
    boxes_ok (snd (exec_revoke_msg js uid conv msg_id replacement now_ms w)) \<and>
    boxes_ok (snd (delete_disbanded_group_runtime gid w))"
proof -
  have "keeps_boxes (write_inbox js uid m)" "keeps_boxes (write_outbox js gid m)"
    unfolding write_inbox_def write_outbox_def
    by (rule keeps_boxes_kv_write keeps_boxes_redis_write; auto intro: box_ok_zadd)+
  moreover have "keeps_boxes (trim_inbox uid n)" unfolding trim_inbox_def
    by (intro keeps_boxes_andThen keeps_boxes_intros keeps_boxes_kv_write) (auto intro: box_ok_ranks)
  moreover have "keeps_boxes (trim_outbox gid n)" unfolding trim_outbox_def
    by (intro keeps_boxes_andThen keeps_boxes_intros keeps_boxes_redis_write) (auto intro: box_ok_ranks)
  moreover have "keeps_boxes (trim_inbox_by_time uid t)" unfolding trim_inbox_by_time_def
    by (intro keeps_boxes_intros keeps_boxes_kv_write) (auto intro: box_ok_scores)
  moreover have "keeps_boxes (trim_outbox_by_time gid t)" unfolding trim_outbox_by_time_def
    by (intro keeps_boxes_intros keeps_boxes_redis_write) (auto intro: box_ok_scores)
  moreover have "keeps_boxes (delete_disbanded_group_runtime gid)"
    unfolding delete_disbanded_group_runtime_def
    by (cases "gid \<le> 0"; simp; intro keeps_boxes_intros keeps_boxes_redis_write; simp add: box_ok_def)
  ultimately show ?thesis using assms keeps_boxes_revoke [of js uid conv msg_id replacement now_ms]
    by (simp add: keeps_boxes_def)
qed

subsection \<open>Reading in pages\<close>

definition readable :: "box_member zset \<Rightarrow> inbox_message list" where
  "readable z = List.map_filter (\<lambda>e. go_decode (snd e)) z"

lemma go_decode_Some [simp]: "go_decode b = Some m \<longleftrightarrow> b = Message m"
  by (cases b) auto

lemma set_readable: "set (readable z) = {m. \<exists>s. (s, Message m) \<in> set z}"
  by (force simp: readable_def List.map_filter_def)

lemma filter_map_filter:
  "(\<And>e m. e \<in> set z \<Longrightarrow> \<not> p e \<Longrightarrow> f e = Some m \<Longrightarrow> \<not> q m) \<Longrightarrow>
   filter q (List.map_filter f (filter p z)) = filter q (List.map_filter f z)"
  by (induction z) (auto simp: map_filter_simps split: option.split)

text \<open>The score range is implied by the cursor.\<close>

lemma messages_after_readable:
  assumes "box_ok z"
  shows "messages_after t i z = sort_key message_key (filter (behind_cursor t i) (readable z))"
proof -
  have "filter (behind_cursor t i) (readable (zrange_from t z)) = filter (behind_cursor t i) (readable z)"
    unfolding readable_def zrange_from_def
    by (rule filter_map_filter) (use assms in \<open>auto simp: box_ok_def behind_cursor_def\<close>)
  then show ?thesis by (simp add: messages_after_def readable_def message_key_def [abs_def])
qed

lemma behind_key:
  "0 < im_msg_id m \<Longrightarrow> behind_cursor (im_timestamp m) (im_msg_id m) = (\<lambda>x. message_key m < message_key x)"
  by (auto simp: behind_cursor_def message_key_def fun_eq_iff)

lemma behind_trans: "behind_cursor t i m \<Longrightarrow> message_key m < message_key x \<Longrightarrow> behind_cursor t i x"
  by (auto simp: behind_cursor_def message_key_def)

text \<open>In a list sorted by a key without repetition, what lies behind an element is the rest.\<close>

lemma filter_behind:
  assumes "sorted_wrt (\<lambda>a b. f a < (f b :: 'b :: linorder)) xs" "k < length xs"
  shows "filter (\<lambda>x. f (xs ! k) < f x) xs = drop (Suc k) xs"
  using assms
proof (induction xs arbitrary: k)
  case (Cons x xs)
  show ?case
  proof (cases k)
    case 0
    have "filter (\<lambda>y. f x < f y) xs = xs" using Cons.prems(1) by (auto intro: filter_True)
    then show ?thesis using 0 by simp
  next
    case (Suc j)
    then have "f x < f (xs ! j)" using Cons.prems by auto
    then have "\<not> f (xs ! j) < f x" by simp
    then show ?thesis using Suc Cons by simp
  qed
qed simp

lemma sorted_key_strict:
  assumes "sorted (map f xs)" "distinct (map f xs)"
  shows "sorted_wrt (\<lambda>a b. f a < (f b :: 'b :: linorder)) xs"
  using assms by (induction xs) (auto simp: less_le)


lemma readable_distinct: "box_ok z \<Longrightarrow> distinct (readable z)"
proof (induction z)
  case (Cons e z)
  obtain s b where e: "e = (s, b)" by fastforce
  have "box_ok z" using Cons.prems by (auto simp: box_ok_def zset_ok_def)
  moreover have "m \<notin> set (readable z)" if "b = Message m" for m
    using Cons.prems that by (force simp: e box_ok_def zset_ok_def set_readable)
  ultimately show ?case using Cons.IH by (cases b) (auto simp: readable_def map_filter_simps e)
qed (simp add: readable_def map_filter_simps)

text \<open>Two lists with the same distinct keys and elements, sorted by them, are equal.\<close>

lemma sort_key_same:
  assumes "set xs = set ys" "distinct xs" "distinct ys" "inj_on f (set xs)"
  shows "sort_key f xs = sort_key f ys"
proof (rule map_sorted_distinct_set_unique [of f])
  show "inj_on f (set (sort_key f xs) \<union> set (sort_key f ys))" using assms(1,4) by simp
  show "distinct (map f (sort_key f xs))" "distinct (map f (sort_key f ys))"
    using assms by (simp_all add: distinct_map)
qed (use assms(1) in simp_all)

text \<open>Reading on from the message at a position gives what comes after it.\<close>

lemma messages_after_position:
  assumes "box_ok z" "inj_on message_key (set (readable z))" "\<forall>m\<in>set (readable z). 0 < im_msg_id m"
    and k: "k < length (messages_after t i z)"
  shows "messages_after (im_timestamp (messages_after t i z ! k)) (im_msg_id (messages_after t i z ! k)) z =
    drop (Suc k) (messages_after t i z)"
proof -
  let ?all = "messages_after t i z"
  have all: "?all = sort_key message_key (filter (behind_cursor t i) (readable z))"
    by (rule messages_after_readable [OF assms(1)])
  have strict: "sorted_wrt (\<lambda>a b. message_key a < message_key b) (sort_key message_key (readable z))"
    by (rule sorted_key_strict) (use assms(1,2) readable_distinct in \<open>simp_all add: distinct_map\<close>)
  have mem: "?all ! k \<in> set (readable z)" using nth_mem [OF k] unfolding all by simp
  have strict_all: "sorted_wrt (\<lambda>a b. message_key a < message_key b) ?all"
    using strict by (simp add: all flip: filter_sort) (rule sorted_wrt_filter)
  have "messages_after (im_timestamp (?all ! k)) (im_msg_id (?all ! k)) z =
      sort_key message_key (filter (\<lambda>x. message_key (?all ! k) < message_key x) (readable z))"
    using assms(3) mem by (simp add: messages_after_readable [OF assms(1)] behind_key del: less_prod_simp)
  also have "\<dots> = sort_key message_key (filter (\<lambda>x. message_key (?all ! k) < message_key x) (filter (behind_cursor t i) (readable z)))"
  proof -
    have "?all ! k \<in> set ?all" by (rule nth_mem [OF k])
    then have "behind_cursor t i (?all ! k)" by (simp add: all)
    then have "behind_cursor t i x" if "message_key (?all ! k) < message_key x" for x
      using behind_trans that by blast
    then have "filter (\<lambda>x. message_key (?all ! k) < message_key x) (readable z) =
        filter (\<lambda>x. message_key (?all ! k) < message_key x) (filter (behind_cursor t i) (readable z))"
      unfolding filter_filter by (intro filter_cong) blast+
    then show ?thesis by simp
  qed
  also have "\<dots> = filter (\<lambda>x. message_key (?all ! k) < message_key x) ?all" by (simp add: all filter_sort)
  also have "\<dots> = drop (Suc k) ?all" by (rule filter_behind [OF strict_all k])
  finally show ?thesis .
qed

text \<open>
  C31. Reading a box in pages: with positive IDs and no two messages alike in time and ID, a page
  is the first \<open>limit\<close> messages behind the cursor in order, and reading on from its last message gives
  exactly the rest: nothing is repeated and nothing is left out.
\<close>

theorem pages_are_complete:
  assumes "box_ok z" "inj_on message_key (set (readable z))" "\<forall>m\<in>set (readable z). 0 < im_msg_id m" "0 < limit"
  shows "read_messages_after t i limit z = take (nat limit) (messages_after t i z) \<and>
    (case read_messages_after t i limit z of [] \<Rightarrow> messages_after t i z = []
     | m # ms \<Rightarrow> (let final = last (m # ms) in
         messages_after t i z = (m # ms) @ messages_after (im_timestamp final) (im_msg_id final) z))"
proof -
  let ?all = "messages_after t i z" and ?n = "nat limit"
  have page: "read_messages_after t i limit z = take ?n ?all" using assms(4) by (simp add: read_messages_after_def Let_def)
  show ?thesis
  proof (cases "take ?n ?all")
    case Nil
    then show ?thesis using assms(4) by (simp add: page)
  next
    case (Cons m ms)
    let ?k = "length ms"
    have pre: "m # ms = take (Suc ?k) ?all"
      using arg_cong [OF Cons, of length] Cons by (metis length_Cons length_take min.commute take_all_iff take_take order_refl)
    have k: "?k < length ?all" using arg_cong [OF pre, of length] by simp
    have final: "last (m # ms) = ?all ! ?k"
    proof -
      have "last (m # ms) = (m # ms) ! ?k" by (subst last_conv_nth) simp_all
      also have "\<dots> = ?all ! ?k" using arg_cong [OF pre, of "\<lambda>l. l ! ?k"] by simp
      finally show ?thesis .
    qed
    have "?all = (m # ms) @ drop (Suc ?k) ?all" using pre by (metis append_take_drop_id)
    then show ?thesis using messages_after_position [OF assms(1-3) k] final by (simp add: page Cons Let_def)
  qed
qed

end
