(* ===== verification/RevokeProps.thy ===== *)
theory RevokeProps
  imports MessageProps
begin

text \<open>Revoking a message replaces it in both boxes; a long message ID is lost on the way.\<close>

subsection \<open>One box\<close>

definition revoked_as :: "int \<Rightarrow> string \<Rightarrow> inbox_message \<Rightarrow> inbox_message" where
  "revoked_as ty content m = m\<lparr>im_msg_type := ty, im_content := content\<rparr>"

text \<open>The message with this ID is readable and IDs do not repeat.\<close>

definition revocable :: "int \<Rightarrow> box_member zset \<Rightarrow> bool" where
  "revocable msg_id z \<longleftrightarrow> inj_on im_msg_id (set (readable z)) \<and>
     (\<forall>s b m. (s, b) \<in> set z \<longrightarrow> lua_decode b = Some m \<longrightarrow> im_msg_id m = msg_id \<longrightarrow> b = Message m)"

lemma find_message_found:
  "find_message msg_id z = Inr (Some (raw, m)) \<Longrightarrow> (\<exists>s. (s, raw) \<in> set z) \<and> lua_decode raw = Some m \<and> im_msg_id m = msg_id"
  by (induction z) (auto split: option.splits if_splits)

lemma revoked_fields [simp]:
  "message_key (revoked_as ty content m) = message_key m" "im_msg_id (revoked_as ty content m) = im_msg_id m"
  "behind_cursor t i (revoked_as ty content m) = behind_cursor t i m" "im_timestamp (revoked_as ty content m) = im_timestamp m"
  by (simp_all add: revoked_as_def message_key_def behind_cursor_def)

lemma readable_key_inj: "inj_on im_msg_id S \<Longrightarrow> inj_on message_key S"
  by (auto simp: inj_on_def message_key_def)

text \<open>A sorted list is what \<open>messages_after\<close> gives for a box with these messages.\<close>

lemma messages_after_unique:
  assumes "box_ok z" "sorted (map message_key xs)" "distinct (map message_key xs)"
    "set xs = {m \<in> set (readable z). behind_cursor t i m}" "inj_on message_key (set (readable z))"
  shows "messages_after t i z = xs"
proof (rule map_sorted_distinct_set_unique [of message_key])
  have all: "messages_after t i z = sort_key message_key (filter (behind_cursor t i) (readable z))"
    by (rule messages_after_readable [OF assms(1)])
  have set: "set (messages_after t i z) = set xs" by (auto simp: all assms(4))
  show "set (messages_after t i z) = set xs" by (rule set)
  show "inj_on message_key (set (messages_after t i z) \<union> set xs)"
    using assms(4,5) by (auto simp: set intro: inj_on_subset)
  show "sorted (map message_key (messages_after t i z))" by (simp add: all)
  have "inj_on message_key {m \<in> set (readable z). behind_cursor t i m}" using assms(5) by (auto intro: inj_on_subset)
  then show "distinct (map message_key (messages_after t i z))"
    using readable_distinct [OF assms(1)] by (simp add: all distinct_map)
qed (use assms in simp_all)

lemma messages_after_sorted:
  assumes "box_ok z" "inj_on message_key (set (readable z))"
  shows "sorted (map message_key (messages_after t i z))" "distinct (map message_key (messages_after t i z))"
    "set (messages_after t i z) = {m \<in> set (readable z). behind_cursor t i m}"
proof -
  have all: "messages_after t i z = sort_key message_key (filter (behind_cursor t i) (readable z))"
    by (rule messages_after_readable [OF assms(1)])
  show "sorted (map message_key (messages_after t i z))" by (simp add: all)
  show "set (messages_after t i z) = {m \<in> set (readable z). behind_cursor t i m}" by (auto simp: all)
  have "inj_on message_key {m \<in> set (readable z). behind_cursor t i m}" using assms(2) by (auto intro: inj_on_subset)
  then show "distinct (map message_key (messages_after t i z))"
    using readable_distinct [OF assms(1)] by (simp add: all distinct_map)
qed

lemma image_filter_same: "(\<And>x. P (f x) = P x) \<Longrightarrow> f ` {x \<in> S. P x} = {y \<in> f ` S. P y}"
  by auto

lemma revoke_box:
  fixes js ty content
  assumes ok: "box_ok z" and r: "revocable msg_id z" and f: "find_message msg_id z = Inr (Some (raw, m))"
  defines "z' \<equiv> replace_revoked js raw m ty content z"
  shows "m \<in> set (readable z)"
    and "lua_exact (revoked_as ty content m) \<Longrightarrow> messages_after t i z' =
      map (\<lambda>x. if im_msg_id x = msg_id then revoked_as ty content x else x) (messages_after t i z)"
    and "\<not> lua_exact (revoked_as ty content m) \<Longrightarrow> messages_after t i z' =
      filter (\<lambda>x. im_msg_id x \<noteq> msg_id) (messages_after t i z)"
proof -
  obtain s where raw: "(s, raw) \<in> set z" "lua_decode raw = Some m" "im_msg_id m = msg_id"
    using find_message_found [OF f] by blast
  then have raw_m: "raw = Message m" using r by (simp add: revocable_def)
  show m: "m \<in> set (readable z)" using raw(1) by (auto simp: set_readable raw_m)
  have only: "x \<in> set (readable z) \<Longrightarrow> im_msg_id x = msg_id \<Longrightarrow> x = m" for x
    using r m raw(3) by (auto simp: revocable_def inj_on_def)
  have keys: "inj_on message_key (set (readable z))" using r by (simp add: revocable_def readable_key_inj)
  note old = messages_after_sorted [OF ok keys]
  have ok': "box_ok z'" unfolding z'_def by (rule box_ok_revoked [OF ok])
  have new: "set (readable z') = {x \<in> set (readable z). x \<noteq> m} \<union>
      (if lua_exact (revoked_as ty content m) then {revoked_as ty content m} else {})"
    by (auto simp: z'_def replace_revoked_def set_zadd set_readable raw_m lua_encode_def revoked_as_def)
  {
    assume e: "lua_exact (revoked_as ty content m)"
    let ?f = "\<lambda>x. if im_msg_id x = msg_id then revoked_as ty content x else x"
    have key: "message_key \<circ> ?f = message_key" by (auto simp: fun_eq_iff)
    have img: "set (readable z') = ?f ` set (readable z)"
    proof -
      have "?f ` set (readable z) = (\<lambda>x. if x = m then revoked_as ty content m else x) ` set (readable z)"
      proof (rule image_cong [OF refl])
        fix x assume "x \<in> set (readable z)"
        then show "?f x = (if x = m then revoked_as ty content m else x)" using only [of x] raw(3) by (cases "x = m") (simp, fastforce)
      qed
      also have "\<dots> = {x \<in> set (readable z). x \<noteq> m} \<union> {revoked_as ty content m}" using m by auto
      finally show ?thesis using e by (simp add: new)
    qed
    show "messages_after t i z' = map ?f (messages_after t i z)"
    proof (rule messages_after_unique [OF ok'])
      show "sorted (map message_key (map ?f (messages_after t i z)))" "distinct (map message_key (map ?f (messages_after t i z)))"
        using old(1,2) by (simp_all add: key)
      show "inj_on message_key (set (readable z'))"
        unfolding img by (rule inj_on_imageI) (simp add: key keys)
      show "set (map ?f (messages_after t i z)) = {x \<in> set (readable z'). behind_cursor t i x}"
        unfolding img set_map old(3) by (rule image_filter_same) simp
    qed
  }
  {
    assume e: "\<not> lua_exact (revoked_as ty content m)"
    show "messages_after t i z' = filter (\<lambda>x. im_msg_id x \<noteq> msg_id) (messages_after t i z)"
    proof (rule messages_after_unique [OF ok'])
      show "inj_on message_key (set (readable z'))" using keys by (auto simp: new e inj_on_def)
      show "set (filter (\<lambda>x. im_msg_id x \<noteq> msg_id) (messages_after t i z)) = {x \<in> set (readable z'). behind_cursor t i x}"
        using only raw(3) by (auto simp: old(3) new e)
    qed (use old(1,2) in \<open>simp_all add: sorted_map_filter distinct_map_filter_zset\<close>)
  }
qed

subsection \<open>Both participants\<close>

lemma revoke_private_result:
  assumes "revoke_private js uid msg_id ty content now_ms k = Inr (True, k')"
  obtains raw m raw' m' where
    "find_message msg_id (kv_inbox k uid) = Inr (Some (raw, m))" "im_from m = uid" "now_ms - im_timestamp m \<le> revoke_window"
    "im_to m \<noteq> uid" "find_message msg_id (kv_inbox k (im_to m)) = Inr (Some (raw', m'))" "im_from m' = uid"
    "\<And>u. kv_inbox k' u = (if u = uid then replace_revoked js raw m ty content (kv_inbox k uid)
       else if u = im_to m then replace_revoked js raw' m' ty content (kv_inbox k (im_to m)) else kv_inbox k u)"
  using assms by (auto simp: revoke_private_def inbox_of_number_def split: sum.splits option.splits if_splits)


text \<open>
  A message whose ID has 15 digits or more (as the IDs of the scheme before the allocator) is not
  shown as revoked: the script writes back an ID that Go cannot decode, and the message
  disappears from both boxes.
\<close>

theorem revoke_hides_long_ids:
  assumes ok: "\<forall>u. box_ok (kv_inbox k u) \<and> revocable msg_id (kv_inbox k u)"
    and long: "10 ^ 14 \<le> msg_id"
    and done_it: "revoke_private js uid msg_id ty content now_ms k = Inr (True, k')"
  shows "messages_after t i (kv_inbox k' uid) = filter (\<lambda>x. im_msg_id x \<noteq> msg_id) (messages_after t i (kv_inbox k uid))"
proof -
  obtain raw m where r: "find_message msg_id (kv_inbox k uid) = Inr (Some (raw, m))"
    "kv_inbox k' uid = replace_revoked js raw m ty content (kv_inbox k uid)"
    by (rule revoke_private_result [OF done_it]) auto
  have "\<not> lua_exact (revoked_as ty content m)"
    using find_message_found [OF r(1)] long by (auto simp: lua_exact_def revoked_as_def)
  then show ?thesis using revoke_box(3) [OF _ _ r(1)] ok r(2) by simp
qed


subsection \<open>The properties at work\<close>

definition demo_message :: "int \<Rightarrow> int \<Rightarrow> inbox_message" where
  "demo_message msg_id ts = \<lparr>im_msg_id = msg_id, im_conv_id = ''p_1_2'', im_conv_type = 1, im_from = 1, im_to = 2, im_msg_type = 1,
     im_content = ''hi'', im_read_status = 0, im_group_seq = 0, im_timestamp = ts\<rparr>"

text \<open>Two messages of the same millisecond and a later one.\<close>

definition demo_box :: "box_member zset" where
  "demo_box = [(10, Message (demo_message 5 10)), (10, Message (demo_message 4 10)), (11, Message (demo_message 6 11))]"

lemma demo_box_ok: "box_ok demo_box"
  by (auto simp: box_ok_def zset_ok_def demo_box_def demo_message_def)

lemma demo_readable: "set (readable demo_box) = {demo_message 5 10, demo_message 4 10, demo_message 6 11}"
  by (auto simp: set_readable demo_box_def)

theorem pages_are_complete_witness:
  "map im_msg_id (read_messages_after 0 0 2 demo_box) = [4, 5] \<and>
   messages_after 0 0 demo_box = read_messages_after 0 0 2 demo_box @ messages_after 10 5 demo_box"
proof -
  have page: "read_messages_after 0 0 2 demo_box = [demo_message 4 10, demo_message 5 10]" by code_simp
  have u: "inj_on message_key (set (readable demo_box))" "\<forall>m\<in>set (readable demo_box). 0 < im_msg_id m"
    unfolding demo_readable by (simp_all add: inj_on_def message_key_def demo_message_def)
  have rest: "case [demo_message 4 10, demo_message 5 10] of [] \<Rightarrow> messages_after 0 0 demo_box = []
      | m # ms \<Rightarrow> let final = last (m # ms) in
          messages_after 0 0 demo_box = (m # ms) @ messages_after (im_timestamp final) (im_msg_id final) demo_box"
    using pages_are_complete [where t = 0 and i = 0 and limit = 2, OF demo_box_ok u zero_less_numeral, THEN conjunct2]
    unfolding page .
  have final: "last [demo_message 4 10, demo_message 5 10] = demo_message 5 10" by simp
  from rest have "messages_after 0 0 demo_box = [demo_message 4 10, demo_message 5 10] @
      messages_after (im_timestamp (demo_message 5 10)) (im_msg_id (demo_message 5 10)) demo_box"
    unfolding list.case Let_def final .
  moreover have "im_timestamp (demo_message a b) = b" "im_msg_id (demo_message a b) = a" for a b
    by (simp_all add: demo_message_def)
  ultimately show ?thesis unfolding page by (simp only: list.map simp_thms)
qed

theorem boxes_stay_ok_witness:
  "boxes_ok empty_world \<and> boxes_ok (snd (write_inbox (\<lambda>_. []) 2 (demo_message 5 10) empty_world))"
proof -
  have ok: "boxes_ok empty_world" by (simp add: boxes_ok_def box_ok_def empty_world_def empty_store_def empty_cache_def)
  show ?thesis by (rule conjI [OF ok conjunct1 [OF boxes_stay_ok [OF ok]]])
qed

definition demo_inboxes :: "int \<Rightarrow> kv_store" where
  "demo_inboxes msg_id = empty_store\<lparr>kv_inbox := (\<lambda>u. if u = 1 \<or> u = 2 then [(10, Message (demo_message msg_id 10))] else [])\<rparr>"

lemma demo_inboxes_ok: "\<forall>u. box_ok (kv_inbox (demo_inboxes n) u) \<and> revocable n (kv_inbox (demo_inboxes n) u)"
  by (auto simp: demo_inboxes_def box_ok_def zset_ok_def demo_message_def revocable_def set_readable inj_on_def)

definition demo_revoked :: "int \<Rightarrow> kv_store" where
  "demo_revoked n = (case revoke_private (\<lambda>_. []) 1 n MsgTypeRevoked [] 1000 (demo_inboxes n) of Inr (_, k) \<Rightarrow> k | Inl _ \<Rightarrow> empty_store)"

lemma inr_pair: "map_sum id fst r = Inr x \<Longrightarrow> r = Inr (x, case r of Inr (_, k) \<Rightarrow> k | Inl _ \<Rightarrow> empty_store)"
  by (cases r) auto

lemma demo_revokes:
  "revoke_private (\<lambda>_. []) 1 5 MsgTypeRevoked [] 1000 (demo_inboxes 5) = Inr (True, demo_revoked 5)"
  "revoke_private (\<lambda>_. []) 1 (10 ^ 15) MsgTypeRevoked [] 1000 (demo_inboxes (10 ^ 15)) = Inr (True, demo_revoked (10 ^ 15))"
proof -
  have "map_sum id fst (revoke_private (\<lambda>_. []) 1 5 MsgTypeRevoked [] 1000 (demo_inboxes 5)) = Inr True"
    "map_sum id fst (revoke_private (\<lambda>_. []) 1 (10 ^ 15) MsgTypeRevoked [] 1000 (demo_inboxes (10 ^ 15))) = Inr True"
    by (simp_all add: revoke_private_def demo_inboxes_def inbox_of_number_def demo_message_def revoke_window_def)
  note r = this [THEN inr_pair]
  show
    "revoke_private (\<lambda>_. []) 1 5 MsgTypeRevoked [] 1000 (demo_inboxes 5) = Inr (True, demo_revoked 5)"
    "revoke_private (\<lambda>_. []) 1 (10 ^ 15) MsgTypeRevoked [] 1000 (demo_inboxes (10 ^ 15)) = Inr (True, demo_revoked (10 ^ 15))"
    unfolding demo_revoked_def by (rule r(1), rule r(2))
qed

lemma demo_before: "messages_after 0 0 (kv_inbox (demo_inboxes n) 2) = [demo_message n 10]"
  by (simp add: messages_after_def zrange_from_def demo_inboxes_def behind_cursor_def demo_message_def map_filter_simps)


theorem revoke_hides_long_ids_witness:
  "messages_after 0 0 (kv_inbox (demo_revoked (10 ^ 15)) 1) = []"
  using revoke_hides_long_ids [OF demo_inboxes_ok _ demo_revokes(2), of 0 0]
  by (simp add: messages_after_def zrange_from_def demo_inboxes_def demo_message_def map_filter_simps behind_cursor_def)

end
