(* ===== verification/SendProps.thy ===== *)
theory SendProps
  imports MessageBox CacheInv
begin

text \<open>The checks before a message is sent: what they decide, and what they promise over time.\<close>

subsection \<open>The decision\<close>

lemma infos_lookup: "map_of (infos_of gid c) u = map_of (rc_group_info c) (gid, u)"
proof -
  have "map_of (map (\<lambda>e. (snd (fst e), snd e)) (filter (\<lambda>e. fst (fst e) = gid) xs)) u = map_of xs (gid, u)" for xs :: "((int \<times> int) \<times> member_info) list"
    by (induction xs) auto
  then show ?thesis by (simp add: infos_of_def)
qed

lemma pairs_mem: "x \<in> set (pairs_of o1 ps) \<longleftrightarrow> (o1, x) \<in> set ps"
  by (force simp: pairs_of_def)

definition are_friends :: "int \<Rightarrow> int \<Rightarrow> db \<Rightarrow> bool" where
  "are_friends a b d \<longleftrightarrow> (\<exists>f\<in>set (friendships d). fs_user f = a \<and> fs_friend f = b) \<and>
     (\<exists>f\<in>set (friendships d). fs_user f = b \<and> fs_friend f = a)"

definition either_blocked :: "int \<Rightarrow> int \<Rightarrow> db \<Rightarrow> bool" where
  "either_blocked a b d \<longleftrightarrow> (\<exists>r\<in>set (blacklists d). bl_user r = a \<and> bl_blocked r = b \<or> bl_user r = b \<and> bl_blocked r = a)"

text \<open>
  C29. Where the projections of both users are those of MySQL, the check of a private message refuses
  it exactly for want of a mutual friendship, for a block in either direction or as a repetition
  within five minutes, in this order; otherwise it passes the ID on and remembers the message.
\<close>

theorem private_check_decides:
  assumes "projected Friends s d c" "projected Friends r d c" "projected Blacklist s d c" "projected Blacklist r d c"
    "0 < s" "0 < r" "lua_id_ok msg_id"
  shows "\<exists>p k'. private_msg_script s r cid msg_id t c k = Inr (p, c, k') \<and>
    pc_err p = (if \<not> are_friends s r d then 1 else if either_blocked s r d then 2
      else if live t (kv_dedup k (s, cid)) \<noteq> None then 3 else 0) \<and>
    (pc_err p \<noteq> 0 \<longrightarrow> k' = k) \<and>
    (pc_err p = 0 \<longrightarrow> pc_msg_id p = msg_id \<and> pc_timestamp p = t div 1000000 \<and>
      k' = k\<lparr>kv_dedup := (kv_dedup k)((s, cid) \<mapsto> ((), t + 300 * second))\<rparr>)"
proof -
  have f: "(s, r) \<in> set (rc_friend c) \<and> (r, s) \<in> set (rc_friend c) \<longleftrightarrow> are_friends s r d"
    using assms(1,2,5,6) by (auto simp: projected_def are_friends_def true_friends_def set_eq_iff pairs_mem)
  have b: "(r, s) \<in> set (rc_blacklist c) \<or> (s, r) \<in> set (rc_blacklist c) \<longleftrightarrow> either_blocked s r d"
    using assms(3-6) by (auto simp: projected_def either_blocked_def true_blocks_def set_eq_iff pairs_mem)
  show ?thesis
    using assms(7) f b
    by (auto simp: private_msg_script_def PMErrNotFriend_def PMErrBlocked_def PMErrDuplicate_def unix_ms_def dedup_seconds_def)
qed

text \<open>
  C30. Where the projection of a group is that of MySQL, the check of a group message refuses exactly
  senders that are not members, members muted beyond this millisecond and repetitions; otherwise
  it gives the next sequence number of the group.
\<close>

theorem group_check_decides:
  assumes "projected GroupMembers gid d c" "0 < s" "lua_id_ok msg_id" "0 \<le> t"
  shows "\<exists>p c' k'. group_msg_script gid s cid msg_id t c k = Inr (p, c', k') \<and>
    gc_err p = (case find_member gid s d of None \<Rightarrow> 1
      | Some m \<Rightarrow> if \<exists>until. gm_muted_until m = Some until \<and> t div 1000000 < until div 1000000 then 2
          else if live t (kv_dedup k (s, cid)) \<noteq> None then 3 else 0) \<and>
    (gc_err p \<noteq> 0 \<longrightarrow> c' = c \<and> k' = k) \<and>
    (gc_err p = 0 \<longrightarrow> gc_group_seq p = (case rc_group_seq c gid of None \<Rightarrow> 1 | Some n \<Rightarrow> n + 1) \<and>
      rc_group_seq c' gid = Some (gc_group_seq p))"
proof -
  have mem: "(gid, s) \<in> set (rc_group_members c) \<longleftrightarrow> find_member gid s d \<noteq> None"
    using assms(1,2) by (auto simp: projected_def true_members_def set_eq_iff pairs_mem dom_def split: option.splits)
  have info: "map_of (rc_group_info c) (gid, s) =
      map_option (\<lambda>m. new_cached_group_member_info (gm_role m) (gm_muted_until m)) (find_member gid s d)"
    using assms(1,2) infos_lookup [of gid c s] by (auto simp: projected_def true_members_def)
  show ?thesis
  proof (cases "find_member gid s d")
    case None
    then show ?thesis using assms(3) mem by (auto simp: group_msg_script_def group_refused_def GMErrNotMember_def)
  next
    case (Some m)
    have ms: "0 \<le> t div 1000000" using assms(4) by simp
    then show ?thesis using assms(3) mem info Some
      by (cases "gm_muted_until m")
        (auto simp: group_msg_script_def group_refused_def GMErrNotMember_def GMErrMuted_def GMErrDuplicate_def unix_ms_def
          new_cached_group_member_info_def Let_def)
  qed
qed


subsection \<open>Over time\<close>

text \<open>
  A run of checks against one Redis, in the order Redis executes them, with the accepted ones in a
  log: the sender, the client's message ID, the time, and for a group message the group and its
  sequence number. A check whose reply is lost takes effect but is not logged. Other operations
  may come in between as long as they keep the records of sent messages and the sequence counters.
\<close>

record accepted =
  ac_sender :: int
  ac_client_id :: string
  ac_time :: int
  ac_group :: "(int \<times> int) option"

inductive send_step :: "world \<times> accepted list \<Rightarrow> world \<times> accepted list \<Rightarrow> bool" where
  private_accepted: "both (private_msg_script s r cid msg_id) w = (Inr p, w') \<Longrightarrow> pc_err p = 0 \<Longrightarrow>
    send_step (w, l) (w', l @ [\<lparr>ac_sender = s, ac_client_id = cid, ac_time = w_clock w, ac_group = None\<rparr>])"
| private_other: "both (private_msg_script s r cid msg_id) w = (res, w') \<Longrightarrow> (\<And>p. res = Inr p \<Longrightarrow> pc_err p \<noteq> 0) \<Longrightarrow>
    send_step (w, l) (w', l)"
| group_accepted: "both (group_msg_script gid s cid msg_id) w = (Inr p, w') \<Longrightarrow> gc_err p = 0 \<Longrightarrow>
    send_step (w, l) (w', l @ [\<lparr>ac_sender = s, ac_client_id = cid, ac_time = w_clock w, ac_group = Some (gid, gc_group_seq p)\<rparr>])"
| group_other: "both (group_msg_script gid s cid msg_id) w = (res, w') \<Longrightarrow> (\<And>p. res = Inr p \<Longrightarrow> gc_err p \<noteq> 0) \<Longrightarrow>
    send_step (w, l) (w', l)"
| set_duplicate: "check_duplicate uid cid w = (res, w') \<Longrightarrow> send_step (w, l) (w', l)"
| other: "kv_dedup (w_kv w') = kv_dedup (w_kv w) \<Longrightarrow> rc_group_seq (w_cache w') = rc_group_seq (w_cache w) \<Longrightarrow>
    w_clock w \<le> w_clock w' \<Longrightarrow> send_step (w, l) (w', l)"

inductive send_run :: "world \<times> accepted list \<Rightarrow> bool" where
  send_start: "send_run (w, [])"
| send_next: "send_run y \<Longrightarrow> send_step y y' \<Longrightarrow> send_run y'"

definition seq_of :: "int \<Rightarrow> rel_cache \<Rightarrow> int" where
  "seq_of gid c = (case rc_group_seq c gid of None \<Rightarrow> 0 | Some n \<Rightarrow> n)"

definition group_seqs :: "int \<Rightarrow> accepted list \<Rightarrow> int list" where
  "group_seqs gid l = List.map_filter (\<lambda>a. case ac_group a of Some (g, n) \<Rightarrow> if g = gid then Some n else None | None \<Rightarrow> None) l"

lemma group_seqs_simps [simp]:
  "group_seqs gid [] = []"
  "group_seqs gid (l @ [a]) = group_seqs gid l @ (case ac_group a of Some (g, n) \<Rightarrow> if g = gid then [n] else [] | None \<Rightarrow> [])"
  by (auto simp: group_seqs_def List.map_filter_def split: option.split)

text \<open>Every logged message is remembered for five minutes; sequence numbers stay below the counters.\<close>

definition remembered :: "int \<Rightarrow> (int \<times> string \<rightharpoonup> unit \<times> int) \<Rightarrow> accepted list \<Rightarrow> bool" where
  "remembered t m l \<longleftrightarrow> (\<forall>a\<in>set l. ac_time a \<le> t \<and>
     (\<exists>e. m (ac_sender a, ac_client_id a) = Some ((), e) \<and> ac_time a + 300 * second \<le> e))"

definition spaced :: "accepted list \<Rightarrow> bool" where
  "spaced l \<longleftrightarrow> sorted_wrt (\<lambda>a b. ac_sender a = ac_sender b \<and> ac_client_id a = ac_client_id b \<longrightarrow>
     ac_time a + 300 * second \<le> ac_time b) l"

definition numbered :: "rel_cache \<Rightarrow> accepted list \<Rightarrow> bool" where
  "numbered c l \<longleftrightarrow> (\<forall>gid. sorted_wrt (<) (group_seqs gid l) \<and> (\<forall>n\<in>set (group_seqs gid l). n \<le> seq_of gid c))"

definition log_inv :: "world \<times> accepted list \<Rightarrow> bool" where
  "log_inv y \<longleftrightarrow> (case y of (w, l) \<Rightarrow> remembered (w_clock w) (kv_dedup (w_kv w)) l \<and> spaced l \<and> numbered (w_cache w) l)"

lemma remember_more:
  assumes "remembered t m l" "live t (m key) = None"
  shows "remembered t (m(key \<mapsto> ((), t + 300 * second))) l"
  using assms unfolding remembered_def by (auto simp: live_None)

lemma remember_more_unit: "remembered t m l \<Longrightarrow> live t (m key) \<noteq> Some () \<Longrightarrow> remembered t (m(key \<mapsto> ((), t + 300 * second))) l"
  by (rule remember_more) (simp_all flip: not_Some_eq)

lemma remember_new:
  assumes "remembered t m l" "live t (m (s, cid)) = None" "spaced l"
  shows "remembered t (m((s, cid) \<mapsto> ((), t + 300 * second))) (l @ [\<lparr>ac_sender = s, ac_client_id = cid, ac_time = t, ac_group = g\<rparr>])"
    "spaced (l @ [\<lparr>ac_sender = s, ac_client_id = cid, ac_time = t, ac_group = g\<rparr>])"
proof -
  show "remembered t (m((s, cid) \<mapsto> ((), t + 300 * second))) (l @ [\<lparr>ac_sender = s, ac_client_id = cid, ac_time = t, ac_group = g\<rparr>])"
    using remember_more [OF assms(1,2)] by (simp add: remembered_def)
  have "ac_time a + 300 * second \<le> t" if "a \<in> set l" "ac_sender a = s" "ac_client_id a = cid" for a
    using assms(1,2) that by (fastforce simp: remembered_def live_None)
  then show "spaced (l @ [\<lparr>ac_sender = s, ac_client_id = cid, ac_time = t, ac_group = g\<rparr>])"
    using assms(3) by (simp add: spaced_def sorted_wrt_append)
qed

lemma remember_later: "remembered t m l \<Longrightarrow> t \<le> t' \<Longrightarrow> remembered t' m l"
  by (fastforce simp: remembered_def)

lemma numbered_next:
  assumes "numbered c l"
  shows "numbered (c\<lparr>rc_group_seq := (rc_group_seq c)(gid \<mapsto> seq_of gid c + 1)\<rparr>) l"
    "numbered (c\<lparr>rc_group_seq := (rc_group_seq c)(gid \<mapsto> seq_of gid c + 1)\<rparr>)
      (l @ [\<lparr>ac_sender = s, ac_client_id = cid, ac_time = t, ac_group = Some (gid, seq_of gid c + 1)\<rparr>])"
  using assms by (fastforce simp: numbered_def seq_of_def sorted_wrt_append)+

lemma numbered_private: "numbered c (l @ [\<lparr>ac_sender = s, ac_client_id = cid, ac_time = t, ac_group = None\<rparr>]) = numbered c l"
  by (simp add: numbered_def)

text \<open>The effect of a call on both groups of keys, and of the two scripts.\<close>

lemma both_result:
  assumes "both f w = (res, w')"
  shows "w' = net_pop w \<and> isl res \<or> (\<exists>x c k. f (w_clock w) (w_cache w) (w_kv w) = Inr (x, c, k) \<and>
    w' = (net_pop w)\<lparr>w_cache := c, w_kv := k\<rparr> \<and> (res = Inr x \<or> isl res))"
  using assms by (auto simp: both_def remote_def split: net_outcome.splits sum.splits)

lemma private_script_effect:
  assumes "private_msg_script s r cid msg_id t c k = Inr (p, c', k')"
  shows "c' = c \<and> (pc_err p \<noteq> 0 \<and> k' = k \<or> pc_err p = 0 \<and> live t (kv_dedup k (s, cid)) = None \<and>
    k' = k\<lparr>kv_dedup := (kv_dedup k)((s, cid) \<mapsto> ((), t + 300 * second))\<rparr>)"
  using assms by (auto simp: private_msg_script_def PMErrNotFriend_def PMErrBlocked_def PMErrDuplicate_def dedup_seconds_def split: if_splits)

lemma group_script_effect:
  assumes "group_msg_script gid s cid msg_id t c k = Inr (p, c', k')"
  shows "gc_err p \<noteq> 0 \<and> c' = c \<and> k' = k \<or> gc_err p = 0 \<and> live t (kv_dedup k (s, cid)) = None \<and>
    gc_group_seq p = seq_of gid c + 1 \<and> c' = c\<lparr>rc_group_seq := (rc_group_seq c)(gid \<mapsto> seq_of gid c + 1)\<rparr> \<and>
    k' = k\<lparr>kv_dedup := (kv_dedup k)((s, cid) \<mapsto> ((), t + 300 * second))\<rparr>"
  using assms by (auto simp: group_msg_script_def group_refused_def GMErrNotMember_def GMErrMuted_def GMErrDuplicate_def
      dedup_seconds_def seq_of_def Let_def split: if_splits option.splits)

lemma send_step_inv: "send_step y y' \<Longrightarrow> log_inv y \<Longrightarrow> log_inv y'"
proof (induction rule: send_step.induct)
  case (private_accepted s r cid msg_id w p w' l)
  then show ?case using both_result [OF private_accepted(1)]
    by (auto simp: log_inv_def numbered_private dest!: private_script_effect intro: remember_new)
next
  case (private_other s r cid msg_id w res w' l)
  then show ?case using both_result [OF private_other(1)]
    by (auto simp: log_inv_def dest!: private_script_effect intro: remember_more)
next
  case (group_accepted gid s cid msg_id w p w' l)
  then show ?case using both_result [OF group_accepted(1)]
    by (auto simp: log_inv_def dest!: group_script_effect intro: remember_new numbered_next)
next
  case (group_other gid s cid msg_id w res w' l)
  then show ?case using both_result [OF group_other(1)]
    by (auto simp: log_inv_def dest!: group_script_effect intro: remember_more numbered_next)
next
  case (set_duplicate uid cid w res w' l)
  then show ?case
    by (auto simp: log_inv_def check_duplicate_def on_error_def kv_def remote_def dedup_seconds_def intro: remember_more_unit
        split: net_outcome.splits if_splits prod.splits)
next
  case (other w' w l)
  then show ?case by (auto simp: log_inv_def numbered_def seq_of_def intro: remember_later)
qed

lemma send_run_inv: "send_run y \<Longrightarrow> log_inv y"
proof (induction rule: send_run.induct)
  case (send_start w)
  then show ?case by (simp add: log_inv_def remembered_def spaced_def numbered_def)
qed (rule send_step_inv)

text \<open>
  C28. No message is accepted twice: of two accepted checks with the same sender and client
  message ID the later one is at least five minutes after the other, and the accepted messages of a group
  carry strictly increasing sequence numbers, whatever replies are lost.
\<close>

theorem messages_accepted_once:
  assumes "send_run (w, l)"
  shows "sorted_wrt (\<lambda>a b. ac_sender a = ac_sender b \<and> ac_client_id a = ac_client_id b \<longrightarrow>
      ac_time a + 300 * second \<le> ac_time b) l \<and> sorted_wrt (<) (group_seqs gid l)"
  using send_run_inv [OF assms] by (simp add: log_inv_def spaced_def numbered_def)


subsection \<open>The properties at work\<close>

text \<open>Users 1 and 2 are friends and members of group 7, where 2 is muted for a minute.\<close>

definition chat_db :: db where
  "chat_db = empty_db\<lparr>friendships := [
     \<lparr>fs_id = 1, fs_user = 1, fs_friend = 2, fs_nickname = [], fs_avatar_url = [], fs_online = False, fs_is_blocked = False, fs_created_at = 0\<rparr>,
     \<lparr>fs_id = 2, fs_user = 2, fs_friend = 1, fs_nickname = [], fs_avatar_url = [], fs_online = False, fs_is_blocked = False, fs_created_at = 0\<rparr>],
     group_members := [
     \<lparr>gm_id = 1, gm_group = 7, gm_user = 1, gm_role = 2, gm_muted_until = None, gm_joined_at = 0\<rparr>,
     \<lparr>gm_id = 2, gm_group = 7, gm_user = 2, gm_role = 0, gm_muted_until = Some (60 * second), gm_joined_at = 0\<rparr>]\<rparr>"

definition chat_cache :: rel_cache where
  "chat_cache = empty_cache\<lparr>rc_friend := [(1, 2), (2, 1)], rc_group_members := [(7, 1), (7, 2)],
     rc_user_groups := [(1, 7), (2, 7)],
     rc_group_info := [((7, 1), \<lparr>mi_role = 2, mi_muted_until = 0\<rparr>), ((7, 2), \<lparr>mi_role = 0, mi_muted_until = 60000\<rparr>)]\<rparr>"

lemma chat_projected:
  "projected Friends 1 chat_db chat_cache" "projected Friends 2 chat_db chat_cache"
  "projected Blacklist 1 chat_db chat_cache" "projected Blacklist 2 chat_db chat_cache"
  by (auto simp: projected_def true_friends_def true_blocks_def pairs_of_def chat_db_def chat_cache_def empty_db_def empty_cache_def)

lemma chat_member: "true_members 7 chat_db u = (if u = 1 then Some \<lparr>mi_role = 2, mi_muted_until = 0\<rparr>
   else if u = 2 then Some \<lparr>mi_role = 0, mi_muted_until = 60000\<rparr> else None)"
  by (simp add: true_members_def find_member_def member_row_def chat_db_def empty_db_def new_cached_group_member_info_def second_def)

lemma chat_group: "projected GroupMembers 7 chat_db chat_cache"
proof -
  have "dom (true_members 7 chat_db) = {1, 2}" by (auto simp: chat_member dom_def split: if_splits)
  moreover have "map_of (infos_of 7 chat_cache) = true_members 7 chat_db"
    by (auto simp: chat_member infos_of_def chat_cache_def fun_eq_iff)
  ultimately show ?thesis by (auto simp: projected_def pairs_of_def chat_cache_def)
qed

theorem private_check_decides_witness:
  "\<exists>p k'. private_msg_script 1 2 ''m1'' 5 0 chat_cache empty_store = Inr (p, chat_cache, k') \<and> pc_err p = 0 \<and> pc_msg_id p = 5"
proof -
  have "are_friends 1 2 chat_db" "\<not> either_blocked 1 2 chat_db" by (simp_all add: are_friends_def either_blocked_def chat_db_def empty_db_def)
  then show ?thesis
    using private_check_decides [OF chat_projected _ _, of 5 "''m1''" 0 empty_store]
    by (auto simp: lua_id_ok_def MaxLuaID_def empty_store_def)
qed

theorem group_check_decides_witness:
  "\<exists>p c' k'. group_msg_script 7 2 ''m1'' 5 0 chat_cache empty_store = Inr (p, c', k') \<and> gc_err p = 2"
proof -
  have "find_member 7 2 chat_db = Some \<lparr>gm_id = 2, gm_group = 7, gm_user = 2, gm_role = 0, gm_muted_until = Some (60 * second), gm_joined_at = 0\<rparr>"
    by (simp add: find_member_def member_row_def chat_db_def empty_db_def)
  then show ?thesis
    using group_check_decides [OF chat_group, of 2 5 0 "''m1''" empty_store]
    by (auto simp: lua_id_ok_def MaxLuaID_def second_def)
qed

definition chat_world :: world where "chat_world = empty_world\<lparr>w_cache := chat_cache\<rparr>"

theorem messages_accepted_once_witness:
  "\<exists>w a. send_run (w, [a]) \<and> ac_sender a = 1 \<and> sorted_wrt (<) (group_seqs 7 [a]) \<and> group_seqs 7 [a] = [1]"
proof -
  let ?call = "both (group_msg_script 7 1 ''m1'' 5) chat_world"
  have res: "map_sum (\<lambda>_. ()) (\<lambda>p. (gc_err p, gc_group_seq p)) (fst ?call) = Inr (0, 1)" by code_simp
  then obtain p where p: "fst ?call = Inr p" "gc_err p = 0" "gc_group_seq p = 1" by (cases "fst ?call") auto
  then have c: "?call = (Inr p, snd ?call)" by (simp add: prod_eq_iff)
  let ?a = "\<lparr>ac_sender = 1, ac_client_id = ''m1'', ac_time = w_clock chat_world, ac_group = Some (7, gc_group_seq p)\<rparr>"
  have run: "send_run (snd ?call, [?a])"
    using send_next [OF send_start [of chat_world] group_accepted [OF c p(2)]] by simp
  have "group_seqs 7 [?a] = [1]" using group_seqs_simps(2) [of 7 "[]" ?a] p(3) by simp
  then show ?thesis using messages_accepted_once [OF run, of 7] run by (intro exI [of _ "snd ?call"] exI [of _ ?a]) simp
qed

end
