(* ===== verification/Feed.thy ===== *)
theory Feed
  imports MessageProps
begin

text \<open>
  The moment feeds of \<open>repository/redis_repository.go\<close>: timelines and outboxes as sorted sets of
  moment IDs, whose members Redis orders as decimal texts (\<open>id_less\<close>). A pipeline is sent as one
  batch and modelled as one call.
\<close>

definition feed_add :: "int \<Rightarrow> int \<Rightarrow> int \<Rightarrow> int zset \<Rightarrow> int zset" where
  "feed_add moment ts max_len z =
     (let z' = zadd id_less ts moment z in if 0 < max_len then zrem_ranks (- (max_len + 1)) z' else z')"

definition publish_moment_feed :: "int \<Rightarrow> int \<Rightarrow> int \<Rightarrow> unit io" where
  "publish_moment_feed uid moment ts =
     kv_write (\<lambda>t k. k\<lparr>kv_timeline := (kv_timeline k)(uid := zadd id_less ts moment (kv_timeline k uid))\<rparr>)"

definition get_moment_feed :: "int \<Rightarrow> int \<Rightarrow> int \<Rightarrow> int list io" where
  "get_moment_feed uid last_time limit = on_error (WrapErr ''ZRangeByScore'')
     (kv_read (\<lambda>t k. map snd (limited limit (zrange_from last_time (kv_timeline k uid)))))"

definition fanout_moment_feed :: "int list \<Rightarrow> int \<Rightarrow> int \<Rightarrow> int \<Rightarrow> unit io" where
  "fanout_moment_feed friends moment ts max_len =
     (if friends = [] then ret ()
      else on_error (WrapErr ''fan out moment'') (kv_write (\<lambda>t k. k\<lparr>kv_timeline :=
        fold (\<lambda>f tl. tl(f := feed_add moment ts max_len (tl f))) friends (kv_timeline k)\<rparr>)))"

definition add_to_moment_outbox :: "int \<Rightarrow> int \<Rightarrow> int \<Rightarrow> int \<Rightarrow> unit io" where
  "add_to_moment_outbox author moment ts max_len = on_error (WrapErr ''write moment outbox'')
     (kv_write (\<lambda>t k. k\<lparr>kv_moment_outbox := (kv_moment_outbox k)(author := feed_add moment ts max_len (kv_moment_outbox k author))\<rparr>))"

definition mark_big_user :: "int \<Rightarrow> unit io" where
  "mark_big_user uid = on_error (WrapErr ''mark big user'') (kv_write (\<lambda>t k. k\<lparr>kv_big_users := sadd uid (kv_big_users k)\<rparr>))"

definition filter_big_users :: "int list \<Rightarrow> int list io" where
  "filter_big_users ids = (if ids = [] then ret []
     else on_error (WrapErr ''filter big users'') (kv_read (\<lambda>t k. filter (\<lambda>u. u \<in> set (kv_big_users k)) ids)))"

subsection \<open>Pages\<close>

definition entry_of :: "int \<times> int \<Rightarrow> feed_entry" where
  "entry_of e = \<lparr>fe_moment = snd e, fe_ts = fst e\<rparr>"

text \<open>\<open>zrevPage\<close>: descending, the scores chosen by \<open>p\<close>; no limit for a count of zero or less.\<close>

definition zrev_page :: "(kv_store \<Rightarrow> int zset) \<Rightarrow> (int \<Rightarrow> bool) \<Rightarrow> int \<Rightarrow> feed_entry list io" where
  "zrev_page sel p count = on_error (WrapErr ''ZRevRangeByScore'')
     (kv_read (\<lambda>t k. map entry_of (limited count (rev (filter (\<lambda>e. p (fst e)) (sel k))))))"

text \<open>The loop over the entries at the score of the cursor: has the page been filled, and the page.\<close>

fun same_score :: "int \<Rightarrow> int \<Rightarrow> feed_entry list \<Rightarrow> feed_entry list \<Rightarrow> bool \<times> feed_entry list" where
  "same_score max_id limit acc [] = (False, acc)"
| "same_score max_id limit acc (e # es) =
    (if fe_moment e < max_id
     then let acc' = acc @ [e] in if limit \<le> int (length acc') then (True, acc') else same_score max_id limit acc' es
     else same_score max_id limit acc es)"

definition feed_page :: "(kv_store \<Rightarrow> int zset) \<Rightarrow> int \<Rightarrow> int \<Rightarrow> int \<Rightarrow> feed_entry list io" where
  "feed_page sel max_ts max_id limit =
     (if max_ts < 0 then zrev_page sel (\<lambda>_. True) limit
      else andThen (zrev_page sel (\<lambda>s. s = max_ts) (-1)) (\<lambda>same.
        case same_score max_id limit [] same of (full, entries) \<Rightarrow>
          if full then ret entries
          else andThen (zrev_page sel (\<lambda>s. s < max_ts) (limit - int (length entries))) (\<lambda>older.
            ret (entries @ older))))"

definition get_timeline_page :: "int \<Rightarrow> int \<Rightarrow> int \<Rightarrow> int \<Rightarrow> feed_entry list io" where
  "get_timeline_page uid = feed_page (\<lambda>k. kv_timeline k uid)"

definition get_moment_outbox_page :: "int \<Rightarrow> int \<Rightarrow> int \<Rightarrow> int \<Rightarrow> feed_entry list io" where
  "get_moment_outbox_page uid = feed_page (\<lambda>k. kv_moment_outbox k uid)"

subsection \<open>Feeds in order\<close>

text \<open>A feed in numeric order: so it is while IDs at one time have the same number of digits.\<close>

definition feed_ok :: "int zset \<Rightarrow> bool" where
  "feed_ok z \<longleftrightarrow> sorted_wrt (\<lambda>a b. fst a < fst b \<or> fst a = fst b \<and> snd a < snd b) z"

definition same_digits :: "int \<Rightarrow> int \<Rightarrow> int zset \<Rightarrow> bool" where
  "same_digits ts moment z \<longleftrightarrow> 0 \<le> moment \<and> (\<forall>e\<in>set z. fst e = ts \<longrightarrow> 0 \<le> snd e \<and> length (format_int (snd e)) = length (format_int moment))"

lemma feed_ok_filter: "feed_ok z \<Longrightarrow> feed_ok (filter p z)"
  by (simp add: feed_ok_def sorted_wrt_filter)

lemma feed_ok_drop: "feed_ok z \<Longrightarrow> feed_ok (drop n z)"
  by (simp add: feed_ok_def sorted_wrt_drop)

lemma feed_ok_insert:
  assumes "feed_ok z" "same_digits ts moment z" "moment \<notin> snd ` set z"
  shows "feed_ok (zinsert id_less ts moment z)"
  using assms
proof (induction z)
  case (Cons e z)
  obtain s m where e: "e = (s, m)" by fastforce
  have o: "id_less moment m \<longleftrightarrow> moment < m" if "s = ts"
    using Cons.prems(2) that by (auto simp: same_digits_def e id_less_same_length)
  have "same_digits ts moment z" using Cons.prems(2) by (simp add: same_digits_def)
  then show ?case using Cons o by (auto simp: feed_ok_def e)
qed (simp add: feed_ok_def)

lemma feed_ok_add:
  assumes "feed_ok z" "same_digits ts moment z"
  shows "feed_ok (feed_add moment ts n z)"
proof -
  have "feed_ok (zadd id_less ts moment z)" unfolding zadd_def
    by (rule feed_ok_insert) (use assms in \<open>auto simp: same_digits_def zrem_def feed_ok_filter\<close>)
  then show ?thesis by (simp add: feed_add_def Let_def zrem_ranks_def feed_ok_drop)
qed


subsection \<open>What a page holds\<close>

definition entries_before :: "int zset \<Rightarrow> int \<Rightarrow> int \<Rightarrow> feed_entry list" where
  "entries_before z max_ts max_id =
     map entry_of (rev (filter (\<lambda>e. max_ts < 0 \<or> fst e < max_ts \<or> fst e = max_ts \<and> snd e < max_id) z))"

lemma calm_kv_read: "calm w \<Longrightarrow> kv_read f w = (Inr (f (w_clock w) (w_kv w)), w)"
  by (simp add: kv_read_def kv_def remote_def calm_def net_now_def net_pop_def)

lemma calm_zrev_page:
  "calm w \<Longrightarrow> zrev_page sel p count w = (Inr (map entry_of (limited count (rev (filter (\<lambda>e. p (fst e)) (sel (w_kv w)))))), w)"
  by (simp add: zrev_page_def on_error_def calm_kv_read)

lemma same_score_result:
  assumes "int (length acc) < limit"
  shows "same_score max_id limit acc es =
    (let es' = filter (\<lambda>e. fe_moment e < max_id) es
     in if limit \<le> int (length acc + length es') then (True, acc @ take (nat limit - length acc) es') else (False, acc @ es'))"
  using assms
proof (induction es arbitrary: acc)
  case (Cons e es)
  show ?case
  proof (cases "fe_moment e < max_id")
    case True
    show ?thesis
    proof (cases "limit \<le> int (length (acc @ [e]))")
      case full: True
      then have "nat limit - length acc = 1" using Cons.prems by simp
      then show ?thesis using True full by (simp add: Let_def)
    next
      case False
      have "nat limit - length acc = Suc (nat limit - Suc (length acc))" using False by simp
      then show ?thesis using True False Cons.IH [of "acc @ [e]"] by (simp add: Let_def)
    qed
  next
    case False
    then show ?thesis using Cons by simp
  qed
qed simp

text \<open>The two ranges are one: the entries at the cursor's time come first.\<close>

lemma rev_two_ranges:
  assumes "feed_ok z" "0 \<le> max_ts"
  shows "entries_before z max_ts max_id =
    filter (\<lambda>e. fe_moment e < max_id) (map entry_of (rev (filter (\<lambda>e. fst e = max_ts) z))) @
    map entry_of (rev (filter (\<lambda>e. fst e < max_ts) z))"
  using assms
proof (induction z)
  case (Cons e z)
  have ok: "feed_ok z" using Cons.prems(1) by (simp add: feed_ok_def)
  show ?case
  proof (cases "fst e < max_ts")
    case True
    then show ?thesis using Cons.IH [OF ok Cons.prems(2)] Cons.prems(2) by (simp add: entries_before_def)
  next
    case False
    then have "filter (\<lambda>e. fst e < max_ts) z = []"
      using Cons.prems(1) by (auto simp: feed_ok_def filter_empty_conv)
    then show ?thesis using False Cons.IH [OF ok Cons.prems(2)] Cons.prems(2)
      by (auto simp: entries_before_def entry_of_def)
  qed
qed (simp add: entries_before_def)

lemma feed_page_result:
  assumes "calm w" "feed_ok (sel (w_kv w))" "0 < limit"
  shows "feed_page sel max_ts max_id limit w = (Inr (take (nat limit) (entries_before (sel (w_kv w)) max_ts max_id)), w)"
proof (cases "max_ts < 0")
  case True
  then show ?thesis using assms by (simp add: feed_page_def calm_zrev_page limited_def entries_before_def take_map)
next
  case False
  let ?same = "filter (\<lambda>e. fe_moment e < max_id) (map entry_of (rev (filter (\<lambda>e. fst e = max_ts) (sel (w_kv w)))))"
  let ?older = "map entry_of (rev (filter (\<lambda>e. fst e < max_ts) (sel (w_kv w))))"
  have b: "entries_before (sel (w_kv w)) max_ts max_id = ?same @ ?older" using False assms by (intro rev_two_ranges) simp_all
  have s: "same_score max_id limit [] (map entry_of (rev (filter (\<lambda>e. fst e = max_ts) (sel (w_kv w))))) =
      (if limit \<le> int (length ?same) then (True, take (nat limit) ?same) else (False, ?same))"
    using same_score_result [of "[]" limit max_id] assms(3) by (simp add: Let_def)
  show ?thesis
  proof (cases "limit \<le> int (length ?same)")
    case True
    then show ?thesis unfolding b feed_page_def using False s
      by (simp add: andThen_def calm_zrev_page [OF assms(1)] limited_def ret_def)
  next
    case few: False
    have n: "nat (limit - int k) = nat limit - k" for k by arith
    show ?thesis unfolding b feed_page_def using False s few
      by (simp add: andThen_def calm_zrev_page [OF assms(1)] limited_def ret_def n take_map)
  qed
qed

lemma filter_after: "sorted_wrt (\<lambda>a b. (b :: 'a :: linorder) < a) xs \<Longrightarrow> k < length xs \<Longrightarrow> filter (\<lambda>x. x < xs ! k) xs = drop (Suc k) xs"
proof (induction xs arbitrary: k)
  case (Cons x xs)
  show ?case
  proof (cases k)
    case 0
    have "filter (\<lambda>y. y < x) xs = xs" using Cons.prems(1) by (auto intro: filter_True)
    then show ?thesis using 0 by simp
  next
    case (Suc j)
    then have "xs ! j < x" using Cons.prems by auto
    then have "\<not> x < xs ! j" by simp
    then show ?thesis using Suc Cons by simp
  qed
qed simp

text \<open>
  C33. A feed is read completely: where IDs of one millisecond have equally many digits, a page holds
  the first \<open>limit\<close> entries before the cursor in descending order of time and ID, and reading on from its
  last entry gives exactly the rest.
\<close>

theorem feed_pages_are_complete:
  assumes "calm w" "feed_ok (sel (w_kv w))" "\<forall>e\<in>set (sel (w_kv w)). 0 \<le> fst e" "0 < limit"
  shows "\<exists>page. feed_page sel max_ts max_id limit w = (Inr page, w) \<and>
    page = take (nat limit) (entries_before (sel (w_kv w)) max_ts max_id) \<and>
    (page = [] \<and> entries_before (sel (w_kv w)) max_ts max_id = [] \<or>
     page \<noteq> [] \<and> entries_before (sel (w_kv w)) max_ts max_id =
       page @ entries_before (sel (w_kv w)) (fe_ts (last page)) (fe_moment (last page)))"
proof -
  let ?z = "sel (w_kv w)"
  let ?keep = "\<lambda>e. max_ts < 0 \<or> fst e < max_ts \<or> fst e = max_ts \<and> snd e < max_id"
  define d where "d = rev (filter ?keep ?z)"
  let ?n = "nat limit"
  have before: "entries_before ?z max_ts max_id = map entry_of d" by (simp add: entries_before_def d_def)
  have res: "feed_page sel max_ts max_id limit w = (Inr (map entry_of (take ?n d)), w)"
    using feed_page_result [where sel = sel, OF assms(1,2,4)] by (simp add: before take_map)
  show ?thesis
  proof (cases "d = []")
    case True
    then show ?thesis using res by (simp add: before)
  next
    case False
    define k where "k = min ?n (length d) - 1"
    have "0 < length d" "0 < ?n" using False assms(4) by simp_all
    then have k: "k < length d" "Suc k = min ?n (length d)" unfolding k_def by linarith+
    have page: "take ?n d = take (Suc k) d" unfolding k(2) by (simp add: min_def)
    have last: "last (map entry_of (take ?n d)) = entry_of (d ! k)"
      using k(1) unfolding page by (simp add: take_Suc_conv_app_nth)
    obtain ts m where e: "d ! k = (ts, m)" by fastforce
    have "(ts, m) \<in> set d" using nth_mem [OF k(1)] by (simp add: e)
    then have mem: "(ts, m) \<in> set ?z" "?keep (ts, m)" by (simp_all add: d_def)
    have "0 \<le> ts" using assms(3) mem(1) by fastforce
    have sorted: "sorted_wrt (\<lambda>a b. b < a) d"
      using feed_ok_filter [OF assms(2)] by (simp add: d_def feed_ok_def sorted_wrt_rev less_prod_def' order_le_less)
    have "filter (\<lambda>e. fst e < ts \<or> fst e = ts \<and> snd e < m) ?z = filter (\<lambda>e. e < (ts, m)) (filter ?keep ?z)"
      using mem(2) by (auto simp: filter_filter less_prod_def' intro!: filter_cong)
    then have "rev (filter (\<lambda>e. fst e < ts \<or> fst e = ts \<and> snd e < m) ?z) = filter (\<lambda>e. e < (ts, m)) d"
      by (simp add: d_def rev_filter)
    also have "\<dots> = filter (\<lambda>e. e < d ! k) d" unfolding e ..
    also have "\<dots> = drop (Suc k) d" by (rule filter_after [OF sorted k(1)])
    finally have rest: "entries_before ?z ts m = map entry_of (drop (Suc k) d)"
      using \<open>0 \<le> ts\<close> by (simp add: entries_before_def)
    have "map entry_of d = map entry_of (take ?n d) @ map entry_of (drop (Suc k) d)"
      unfolding page map_append [symmetric] append_take_drop_id ..
    then show ?thesis using res last rest e False assms(4) k(2)
      by (intro exI [of _ "map entry_of (take ?n d)"]) (auto simp: entry_of_def before take_map)
  qed
qed

text \<open>A feed and an outbox never exceed the length they are trimmed to, and keep the newest entries.\<close>

lemma feed_add_length: "0 < n \<Longrightarrow> int (length (feed_add moment ts n z)) \<le> n"
  using zrem_ranks_keeps [of n "zadd id_less ts moment z"] by (simp add: feed_add_def Let_def)

lemma feed_add_newest:
  "0 < n \<Longrightarrow> feed_add moment ts n z = drop (length (zadd id_less ts moment z) - nat n) (zadd id_less ts moment z)"
  using zrem_ranks_keeps [of n "zadd id_less ts moment z"] by (simp add: feed_add_def Let_def)

subsection \<open>The property at work, and where it ends\<close>

definition demo_feed :: world where
  "demo_feed = empty_world\<lparr>w_kv := empty_store\<lparr>kv_timeline := (\<lambda>u. if u = 1 then [(5, 10), (5, 11), (6, 12)] else [])\<rparr>\<rparr>"

theorem feed_pages_are_complete_witness:
  "\<exists>page. get_timeline_page 1 (-1) 0 2 demo_feed = (Inr page, demo_feed) \<and> length page = 2"
proof -
  let ?sel = "\<lambda>k. kv_timeline k 1"
  have c: "calm demo_feed" by (simp add: demo_feed_def)
  have z: "?sel (w_kv demo_feed) = [(5, 10), (5, 11), (6, 12)]" by (simp add: demo_feed_def)
  have "entries_before (?sel (w_kv demo_feed)) (-1) 0 = map entry_of [(6, 12), (5, 11), (5, 10)]"
    by (simp add: z entries_before_def)
  then show ?thesis
    using feed_pages_are_complete [where sel = ?sel, OF c, of 2 "-1" 0]
    by (auto simp: get_timeline_page_def z feed_ok_def)
qed

text \<open>
  Moments 9 and 10 of one millisecond: Redis orders their texts, so 9 is served first, and the next
  page, which asks for IDs below 9, is empty. Moment 10 is never served.
\<close>

theorem feed_page_skips:
  assumes "calm w" "kv_timeline (w_kv w) u = feed_add 10 5 100 (feed_add 9 5 100 [])"
  shows "get_timeline_page u (-1) 0 1 w = (Inr [\<lparr>fe_moment = 9, fe_ts = 5\<rparr>], w)"
    and "get_timeline_page u 5 9 1 w = (Inr [], w)"
proof -
  have z: "kv_timeline (w_kv w) u = [(5, 10), (5, 9)]" unfolding assms(2) by code_simp
  show "get_timeline_page u (-1) 0 1 w = (Inr [\<lparr>fe_moment = 9, fe_ts = 5\<rparr>], w)"
    using assms(1) by (simp add: get_timeline_page_def feed_page_def calm_zrev_page z limited_def entry_of_def)
  show "get_timeline_page u 5 9 1 w = (Inr [], w)"
    using assms(1) by (simp add: get_timeline_page_def feed_page_def andThen_def calm_zrev_page z limited_def entry_of_def ret_def)
qed

end
