(* ===== verification/Likes.thy ===== *)
theory Likes
  imports MessageBox CacheTruth
begin

text \<open>
  The likes of moments, \<open>repository/redis_repository.go\<close> and \<open>redis/lua_moment_like.go\<close>: the set of
  likers, the counter and the loaded marker of a moment, each with its own lifetime (or none), and the
  lock under which they are loaded from MySQL. Counters stay far below 64 bits.
\<close>

definition live_opt :: "int \<Rightarrow> ('v \<times> int option) option \<Rightarrow> 'v option" where
  "live_opt t k = (case k of None \<Rightarrow> None | Some (v, None) \<Rightarrow> Some v
     | Some (v, Some e) \<Rightarrow> if t < e then Some v else None)"

text \<open>The lifetime a key keeps when its value changes.\<close>

definition kept_ttl :: "int \<Rightarrow> ('v \<times> int option) option \<Rightarrow> int option" where
  "kept_ttl t k = (if live_opt t k = None then None else snd (the k))"

definition likers :: "int \<Rightarrow> int \<Rightarrow> kv_store \<Rightarrow> int list" where
  "likers t moment k = (case live_opt t (kv_likes k moment) of None \<Rightarrow> [] | Some ms \<Rightarrow> ms)"

definition like_count :: "int \<Rightarrow> int \<Rightarrow> kv_store \<Rightarrow> int" where
  "like_count t moment k = (case live_opt t (kv_like_count k moment) of None \<Rightarrow> 0 | Some n \<Rightarrow> n)"

text \<open>\<open>luaMomentLike\<close> and \<open>luaMomentUnlike\<close>; SET without options clears the lifetime.\<close>

definition like_script :: "int \<Rightarrow> int \<Rightarrow> int \<Rightarrow> kv_store \<Rightarrow> (bool \<times> int) \<times> kv_store" where
  "like_script moment uid t k =
     (if uid \<notin> set (likers t moment k)
      then let c = like_count t moment k + 1 in
        ((True, c), k\<lparr>kv_likes := (kv_likes k)(moment \<mapsto> (likers t moment k @ [uid], kept_ttl t (kv_likes k moment))),
           kv_like_count := (kv_like_count k)(moment \<mapsto> (c, kept_ttl t (kv_like_count k moment)))\<rparr>)
      else ((False, like_count t moment k), k))"

definition unlike_script :: "int \<Rightarrow> int \<Rightarrow> int \<Rightarrow> kv_store \<Rightarrow> (bool \<times> int) \<times> kv_store" where
  "unlike_script moment uid t k =
     (if uid \<in> set (likers t moment k)
      then let ms = removeAll uid (likers t moment k); c = like_count t moment k - 1 in
        ((True, max 0 c), k\<lparr>kv_likes := (kv_likes k)(moment :=
             (if ms = [] then None else Some (ms, kept_ttl t (kv_likes k moment)))),
           kv_like_count := (kv_like_count k)(moment \<mapsto>
             (if c < 0 then (0, None) else (c, kept_ttl t (kv_like_count k moment))))\<rparr>)
      else ((False, like_count t moment k), k))"

definition like_moment_atomic :: "int \<Rightarrow> int \<Rightarrow> (bool \<times> int) io" where
  "like_moment_atomic moment uid = on_error (WrapErr ''like moment'') (kv (like_script moment uid))"

definition unlike_moment_atomic :: "int \<Rightarrow> int \<Rightarrow> (bool \<times> int) io" where
  "unlike_moment_atomic moment uid = on_error (WrapErr ''unlike moment'') (kv (unlike_script moment uid))"

subsection \<open>Loading\<close>

text \<open>SET takes whole seconds or milliseconds.\<close>

definition set_ttl :: "int \<Rightarrow> int" where
  "set_ttl ttl = (if ttl mod second = 0 \<and> second \<le> ttl then ttl else if ttl < 1000000 then 1000000 else ttl div 1000000 * 1000000)"

definition load_likes :: "int \<Rightarrow> int list \<Rightarrow> int \<Rightarrow> int \<Rightarrow> kv_store \<Rightarrow> kv_store" where
  "load_likes moment ids ttl t k = k\<lparr>kv_likes := (kv_likes k)(moment :=
       (if ids = [] then None else Some (fold sadd ids [], Some (t + expire_seconds ttl * second)))),
     kv_like_count := (kv_like_count k)(moment \<mapsto> (int (length ids), Some (t + set_ttl ttl))),
     kv_like_loaded := (kv_like_loaded k)(moment \<mapsto> ((), t + set_ttl ttl))\<rparr>"

definition likes_loaded :: "int \<Rightarrow> bool io" where
  "likes_loaded moment = kv_read (\<lambda>t k. live t (kv_like_loaded k moment) \<noteq> None)"

text \<open>\<open>ex, _ := \<dots>\<close>: an error counts as not loaded.\<close>

definition seems_loaded :: "int \<Rightarrow> bool io" where
  "seems_loaded moment = andThen (attempt (likes_loaded moment)) (\<lambda>r. ret (r = Inr True))"

definition take_like_lock :: "int \<Rightarrow> bool io" where
  "take_like_lock moment = on_error (WrapErr ''like warm-up lock'') (kv (\<lambda>t k.
     if live t (kv_like_lock k moment) \<noteq> None then (False, k)
     else (True, k\<lparr>kv_like_lock := (kv_like_lock k)(moment \<mapsto> ((), t + 5 * second))\<rparr>)))"

definition drop_like_lock :: "int \<Rightarrow> unit io" where
  "drop_like_lock moment = kv_write (\<lambda>t k. k\<lparr>kv_like_lock := (kv_like_lock k)(moment := None)\<rparr>)"

text \<open>Waiting for another loader: twenty rounds of ten milliseconds, then on without it.\<close>

fun await_loaded :: "nat \<Rightarrow> int \<Rightarrow> unit io" where
  "await_loaded 0 moment = ret ()"
| "await_loaded (Suc n) moment = andThen (sleep 10000000) (\<lambda>_.
     andThen (seems_loaded moment) (\<lambda>b. if b then ret () else await_loaded n moment))"

text \<open>The deferred release of the lock runs whatever the body returns; its error is dropped.\<close>

definition deferring :: "unit io \<Rightarrow> 'a io \<Rightarrow> 'a io" where
  "deferring d m = andThen (attempt m) (\<lambda>r. andThen (best_effort d) (\<lambda>_. case r of Inl e \<Rightarrow> throw e | Inr x \<Rightarrow> ret x))"

definition ensure_moment_likes_loaded :: "int \<Rightarrow> int list io \<Rightarrow> int \<Rightarrow> unit io" where
  "ensure_moment_likes_loaded moment loader ttl =
     andThen (seems_loaded moment) (\<lambda>b. if b then ret () else
     andThen (take_like_lock moment) (\<lambda>got.
       if \<not> got then await_loaded 20 moment
       else deferring (drop_like_lock moment)
         (andThen (seems_loaded moment) (\<lambda>b. if b then ret () else
          andThen (on_error (WrapErr ''load likes'') loader) (\<lambda>ids.
          on_error (WrapErr ''write likes'') (kv_write (load_likes moment ids ttl)))))))"

definition get_moment_like_stats :: "int \<Rightarrow> int list \<Rightarrow> ((int \<rightharpoonup> int) \<times> (int \<rightharpoonup> bool)) io" where
  "get_moment_like_stats viewer ids = (if ids = [] then ret (Map.empty, Map.empty)
     else on_error (WrapErr ''read like stats'') (kv_read (\<lambda>t k.
       (\<lambda>m. if m \<in> set ids then live_opt t (kv_like_count k m) else None,
        \<lambda>m. if m \<in> set ids then Some (viewer \<in> set (likers t m k)) else None))))"

definition get_moment_liker_ids :: "int \<Rightarrow> int list io" where
  "get_moment_liker_ids moment = on_error (WrapErr ''read likers'') (kv_read (\<lambda>t k. likers t moment k))"

definition delete_moment_likes :: "int \<Rightarrow> unit io" where
  "delete_moment_likes moment = on_error (WrapErr ''delete likes'') (kv_write (\<lambda>t k.
     k\<lparr>kv_likes := (kv_likes k)(moment := None), kv_like_count := (kv_like_count k)(moment := None),
       kv_like_loaded := (kv_like_loaded k)(moment := None), kv_like_lock := (kv_like_lock k)(moment := None)\<rparr>))"

subsection \<open>While the marker lives, the counter is the number of likers\<close>

definition outlives :: "int \<Rightarrow> int option \<Rightarrow> bool" where
  "outlives e x = (case x of None \<Rightarrow> True | Some e' \<Rightarrow> e \<le> e')"

definition counted :: "int \<Rightarrow> int \<Rightarrow> kv_store \<Rightarrow> bool" where
  "counted t moment k = (case kv_like_loaded k moment of None \<Rightarrow> True
     | Some (_, e) \<Rightarrow> t < e \<longrightarrow> (case kv_like_count k moment of None \<Rightarrow> False
         | Some (n, x) \<Rightarrow> outlives e x \<and> (case kv_likes k moment of None \<Rightarrow> n = 0
             | Some (ms, y) \<Rightarrow> outlives e y \<and> distinct ms \<and> n = int (length ms))))"

lemma counted_iff: "counted t moment k \<longleftrightarrow> (\<forall>e. kv_like_loaded k moment = Some ((), e) \<and> t < e \<longrightarrow>
     (\<exists>n x. kv_like_count k moment = Some (n, x) \<and> outlives e x \<and>
        (case kv_likes k moment of None \<Rightarrow> n = 0
         | Some (ms, y) \<Rightarrow> outlives e y \<and> distinct ms \<and> n = int (length ms))))"
  by (simp add: counted_def split: option.split prod.split)

lemma outlives_live: "outlives e x \<Longrightarrow> t < e \<Longrightarrow> live_opt t (Some (v, x)) = Some v \<and> kept_ttl t (Some (v, x)) = x"
  by (auto simp: outlives_def live_opt_def kept_ttl_def split: option.splits)

lemma counted_view:
  assumes "counted t moment k" "kv_like_loaded k moment = Some ((), e)" "t < e"
  shows "like_count t moment k = int (length (likers t moment k))" "distinct (likers t moment k)"
    "outlives e (kept_ttl t (kv_like_count k moment))" "outlives e (kept_ttl t (kv_likes k moment))"
proof -
  obtain n x where n: "kv_like_count k moment = Some (n, x)" "outlives e x"
    "case kv_likes k moment of None \<Rightarrow> n = 0 | Some (ms, y) \<Rightarrow> outlives e y \<and> distinct ms \<and> n = int (length ms)"
    using assms unfolding counted_iff by blast
  have c: "like_count t moment k = n" "outlives e (kept_ttl t (kv_like_count k moment))"
    using n(1,2) outlives_live [OF n(2) assms(3), of n] by (simp_all add: like_count_def)
  have l: "n = int (length (likers t moment k)) \<and> distinct (likers t moment k) \<and> outlives e (kept_ttl t (kv_likes k moment))"
  proof (cases "kv_likes k moment")
    case None
    then show ?thesis using n(3) by (simp add: likers_def kept_ttl_def outlives_def) (simp add: live_opt_def)
  next
    case (Some q)
    obtain ms y where q: "q = (ms, y)" by fastforce
    have "outlives e y" "distinct ms" "n = int (length ms)" using n(3) by (simp_all add: Some q)
    then show ?thesis using outlives_live [of e y t ms] assms(3) by (simp add: likers_def Some q)
  qed
  show "like_count t moment k = int (length (likers t moment k))" "distinct (likers t moment k)"
    "outlives e (kept_ttl t (kv_like_count k moment))" "outlives e (kept_ttl t (kv_likes k moment))"
    using c l by simp_all
qed

lemma counted_like:
  assumes "counted t m k"
  shows "counted t m (snd (like_script moment uid t k))"
proof (cases "m = moment")
  case True
  show ?thesis unfolding counted_iff
  proof (intro allI impI)
    fix e assume "kv_like_loaded (snd (like_script moment uid t k)) m = Some ((), e) \<and> t < e"
    then have e: "kv_like_loaded k moment = Some ((), e)" "t < e"
      using True by (auto simp: like_script_def Let_def split: if_splits)
    show "\<exists>n x. kv_like_count (snd (like_script moment uid t k)) m = Some (n, x) \<and> outlives e x \<and>
        (case kv_likes (snd (like_script moment uid t k)) m of None \<Rightarrow> n = 0
         | Some (ms, y) \<Rightarrow> outlives e y \<and> distinct ms \<and> n = int (length ms))"
    proof (cases "uid \<in> set (likers t moment k)")
      case already: True
      then show ?thesis using assms e unfolding counted_iff by (simp add: like_script_def True)
    next
      case False
      then show ?thesis using counted_view [OF assms [unfolded True] e] by (simp add: like_script_def Let_def True)
    qed
  qed
qed (use assms in \<open>simp add: counted_iff like_script_def Let_def\<close>)

lemma counted_unlike:
  assumes "counted t m k"
  shows "counted t m (snd (unlike_script moment uid t k))"
proof (cases "m = moment")
  case True
  show ?thesis unfolding counted_iff
  proof (intro allI impI)
    fix e assume "kv_like_loaded (snd (unlike_script moment uid t k)) m = Some ((), e) \<and> t < e"
    then have e: "kv_like_loaded k moment = Some ((), e)" "t < e"
      using True by (auto simp: unlike_script_def Let_def split: if_splits)
    show "\<exists>n x. kv_like_count (snd (unlike_script moment uid t k)) m = Some (n, x) \<and> outlives e x \<and>
        (case kv_likes (snd (unlike_script moment uid t k)) m of None \<Rightarrow> n = 0
         | Some (ms, y) \<Rightarrow> outlives e y \<and> distinct ms \<and> n = int (length ms))"
    proof (cases "uid \<in> set (likers t moment k)")
      case already: True
      note v = counted_view [OF assms [unfolded True] e]
      have pos: "0 < length (likers t moment k)" using already by (rule length_pos_if_in_set)
      have "length (removeAll uid (likers t moment k)) = length (likers t moment k) - 1"
        using already by (simp add: distinct_remove1_removeAll [OF v(2), symmetric] length_remove1)
      then have len: "int (length (removeAll uid (likers t moment k))) = like_count t moment k - 1"
        using v(1) pos by linarith
      have nn: "\<not> like_count t moment k - 1 < 0" using len by linarith
      show ?thesis
      proof (cases "removeAll uid (likers t moment k) = []")
        case True
        then show ?thesis using v(3) nn already len by (simp add: unlike_script_def Let_def \<open>m = moment\<close>)
      next
        case False
        then show ?thesis using v(2,3,4) nn already len
          by (simp add: unlike_script_def Let_def \<open>m = moment\<close> distinct_removeAll)
      qed
    next
      case False
      then show ?thesis using assms e unfolding counted_iff by (simp add: unlike_script_def True)
    qed
  qed
qed (use assms in \<open>simp add: counted_iff unlike_script_def Let_def\<close>)

lemma fold_sadd_distinct: "distinct (xs @ ys) \<Longrightarrow> fold sadd ys xs = xs @ ys"
  by (induction ys arbitrary: xs) (simp_all add: sadd_def)

lemma whole_seconds: "ttl mod second = 0 \<Longrightarrow> second \<le> ttl \<Longrightarrow> set_ttl ttl = ttl \<and> expire_seconds ttl * second = ttl"
  by (auto simp: set_ttl_def expire_seconds_def)

lemma counted_load:
  assumes "counted t m k" "distinct ids" "ttl mod second = 0" "second \<le> ttl"
  shows "counted t m (load_likes moment ids ttl t k)"
  using assms fold_sadd_distinct [of "[]" ids] whole_seconds [OF assms(3,4)]
  by (cases "m = moment") (simp_all add: counted_iff load_likes_def outlives_def)

lemma counted_later: "counted t m k \<Longrightarrow> t \<le> t' \<Longrightarrow> counted t' m k"
  unfolding counted_iff by (meson order_le_less_trans)

subsection \<open>Operations that keep the counters exact, whatever calls fail\<close>

definition likes_counted :: "int \<Rightarrow> world \<Rightarrow> bool" where
  "likes_counted m w \<longleftrightarrow> counted (w_clock w) m (w_kv w)"

text \<open>
  With a condition \<open>S\<close> on the database that the operations keep, too: it says that the likers read
  from it are distinct.
\<close>

definition likes_fine :: "(db \<Rightarrow> bool) \<Rightarrow> int \<Rightarrow> world \<Rightarrow> bool" where
  "likes_fine S m w \<longleftrightarrow> S (w_db w) \<and> likes_counted m w"

definition keeps_counts :: "(db \<Rightarrow> bool) \<Rightarrow> int \<Rightarrow> 'a io \<Rightarrow> bool" where
  "keeps_counts S m p \<longleftrightarrow> (\<forall>w. likes_fine S m w \<longrightarrow> likes_fine S m (snd (p w)))"

lemma keeps_counts_kv: "(\<And>t k. counted t m k \<Longrightarrow> counted t m (snd (f t k))) \<Longrightarrow> keeps_counts S m (kv f)"
  by (auto simp: keeps_counts_def likes_fine_def likes_counted_def kv_def remote_def net_pop_def split: net_outcome.split prod.split)
    (metis snd_conv)+

lemma keeps_counts_intros:
  "keeps_counts S m (ret x)" "keeps_counts S m (throw e)" "keeps_counts S m p \<Longrightarrow> keeps_counts S m (on_error h p)"
  "keeps_counts S m p \<Longrightarrow> keeps_counts S m (attempt p)" 
  by (auto simp: keeps_counts_def ret_def throw_def on_error_snd attempt_def split: prod.split)

lemma keeps_counts_best_effort: "keeps_counts S m p \<Longrightarrow> keeps_counts S m (best_effort p)"
  by (simp add: keeps_counts_def best_effort_def)

lemma keeps_counts_sleep: "0 \<le> d \<Longrightarrow> keeps_counts S m (sleep d)"
  by (auto simp: keeps_counts_def likes_fine_def likes_counted_def sleep_def split: list.split elim!: counted_later)

lemma keeps_counts_kv_read: "keeps_counts S m (kv_read f)"
  unfolding kv_read_def by (rule keeps_counts_kv) simp

lemma keeps_counts_kv_write: "(\<And>t k. counted t m k \<Longrightarrow> counted t m (f t k)) \<Longrightarrow> keeps_counts S m (kv_write f)"
  unfolding kv_write_def by (rule keeps_counts_kv) simp

lemma keeps_counts_andThen:
  assumes "keeps_counts S m p" "\<And>x. keeps_counts S m (f x)"
  shows "keeps_counts S m (andThen p f)"
  unfolding keeps_counts_def
proof (intro allI impI)
  fix w assume "likes_fine S m w"
  then have "likes_fine S m (snd (p w))" using assms(1) by (simp add: keeps_counts_def)
  then show "likes_fine S m (snd (andThen p f w))"
    using assms(2) by (auto simp: andThen_def keeps_counts_def split: prod.splits sum.splits)
qed

lemma keeps_counts_if: "(b \<Longrightarrow> keeps_counts S m p) \<Longrightarrow> (\<not> b \<Longrightarrow> keeps_counts S m q) \<Longrightarrow> keeps_counts S m (if b then p else q)"
  by simp

lemma keeps_counts_seems: "keeps_counts S m (seems_loaded moment)"
  unfolding seems_loaded_def likes_loaded_def
  by (intro keeps_counts_andThen keeps_counts_intros keeps_counts_kv_read)

lemma keeps_counts_await: "keeps_counts S m (await_loaded n moment)"
  by (induction n) (auto intro!: keeps_counts_andThen keeps_counts_intros keeps_counts_sleep keeps_counts_seems)

lemma keeps_counts_deferring: "keeps_counts S m d \<Longrightarrow> keeps_counts S m p \<Longrightarrow> keeps_counts S m (deferring d p)"
  unfolding deferring_def
  by (intro keeps_counts_andThen keeps_counts_intros keeps_counts_best_effort) (auto intro: keeps_counts_intros split: sum.split)

lemma keeps_counts_lock: "keeps_counts S m (take_like_lock moment)" "keeps_counts S m (drop_like_lock moment)"
  unfolding take_like_lock_def drop_like_lock_def
  by (intro keeps_counts_intros keeps_counts_kv, simp add: counted_iff)
    (intro keeps_counts_kv_write, simp add: counted_iff)

lemma keeps_counts_changes:
  "keeps_counts S m (like_moment_atomic moment uid)" "keeps_counts S m (unlike_moment_atomic moment uid)"
  "keeps_counts S m (delete_moment_likes moment)"
  unfolding like_moment_atomic_def unlike_moment_atomic_def delete_moment_likes_def
  by (intro keeps_counts_intros keeps_counts_kv keeps_counts_kv_write counted_like counted_unlike;
      auto simp: counted_iff)+

subsection \<open>Loading from a source of likers\<close>

text \<open>
  What a load relies on: its reader leaves the store and the database, its clock runs forwards, and a sound
  database gives no liker twice.
\<close>

locale like_loader =
  fixes sound :: "db \<Rightarrow> bool" and loader :: "int list io"
  assumes loader_state: "w_kv (snd (loader w)) = w_kv w" "w_db (snd (loader w)) = w_db w" "w_clock w \<le> w_clock (snd (loader w))"
    and loader_distinct: "sound (w_db w) \<Longrightarrow> fst (loader w) = Inr ids \<Longrightarrow> distinct ids"
begin

lemma keeps_loading:
  assumes "ttl mod second = 0" "second \<le> ttl"
  shows "keeps_counts sound m (andThen (on_error g loader) (\<lambda>ids. on_error h (kv_write (load_likes moment ids ttl))))"
  unfolding keeps_counts_def
proof (intro allI impI)
  fix w assume w: "likes_fine sound m w"
  obtain r w1 where l: "loader w = (r, w1)" by fastforce
  have w1: "likes_fine sound m w1" using w loader_state [of w] counted_later
    unfolding likes_fine_def likes_counted_def l snd_conv by metis
  show "likes_fine sound m (snd (andThen (on_error g loader) (\<lambda>ids. on_error h (kv_write (load_likes moment ids ttl))) w))"
  proof (cases r)
    case (Inl e)
    then show ?thesis using w1 by (simp add: andThen_def on_error_def l)
  next
    case (Inr ids)
    then have "distinct ids" using loader_distinct [of w ids] w l by (simp add: likes_fine_def)
    then have "keeps_counts sound m (on_error h (kv_write (load_likes moment ids ttl)))"
      by (intro keeps_counts_intros keeps_counts_kv_write counted_load assms)
    then show ?thesis using w1 by (simp add: andThen_def on_error_def [of g] l Inr keeps_counts_def)
  qed
qed

lemma keeps_ensure:
  assumes "ttl mod second = 0" "second \<le> ttl"
  shows "keeps_counts sound m (ensure_moment_likes_loaded moment loader ttl)"
  unfolding ensure_moment_likes_loaded_def
  by (intro keeps_counts_andThen keeps_counts_if keeps_counts_seems keeps_counts_lock keeps_counts_await
      keeps_counts_deferring keeps_loading [OF assms]) (simp_all add: keeps_counts_intros)

end

lemma kv_returns: "fst (kv f w) = Inr x \<Longrightarrow> f (w_clock w) (w_kv w) = (x, w_kv (snd (kv f w)))"
  by (cases "net_now w"; cases "f (w_clock w) (w_kv w)") (simp_all add: kv_def remote_def net_pop_def)

lemma on_error_Inr: "fst (on_error g p w) = Inr x \<longleftrightarrow> fst (p w) = Inr x"
  by (auto simp: on_error_def split: prod.split sum.split)

lemma like_script_exact:
  assumes "counted t moment k" "kv_like_loaded k moment = Some ((), e)" "t < e"
    and "like_script moment uid t k = ((changed, n), k')"
  shows "n = int (length (likers t moment k')) \<and> uid \<in> set (likers t moment k') \<and>
    (changed \<longleftrightarrow> uid \<notin> set (likers t moment k))"
proof -
  have c: "counted t moment k'" using counted_like [OF assms(1), of moment uid] by (simp add: assms(4))
  have e: "kv_like_loaded k' moment = Some ((), e)"
    using assms(2,4) by (auto simp: like_script_def Let_def split: if_splits)
  have v: "like_count t moment k' = int (length (likers t moment k'))" by (rule counted_view [OF c e assms(3)])
  show ?thesis
  proof (cases "uid \<in> set (likers t moment k)")
    case True
    then have "\<not> changed \<and> like_count t moment k = n \<and> k = k'" using assms(4) by (auto simp: like_script_def)
    then show ?thesis using v True by metis
  next
    case False
    note outlive = counted_view(3,4) [OF assms(1,2,3)]
    have k': "changed" "n = like_count t moment k + 1"
      "kv_like_count k' moment = Some (n, kept_ttl t (kv_like_count k moment))"
      "kv_likes k' moment = Some (likers t moment k @ [uid], kept_ttl t (kv_likes k moment))"
      using assms(4) False by (auto simp: like_script_def Let_def)
    have "like_count t moment k' = n" "likers t moment k' = likers t moment k @ [uid]"
      using outlives_live [OF outlive(1) assms(3), of n] outlives_live [OF outlive(2) assms(3), of "likers t moment k @ [uid]"]
      by (simp_all add: like_count_def likers_def k'(3,4))
    then show ?thesis using v False k'(1) by simp
  qed
qed

end
