(* ===== verification/Archive.thy ===== *)
theory Archive
  imports FriendRepo UserRepo MessageId
begin

text \<open>
  The rest of \<open>repository/mysql_repository.go\<close> and \<open>UpsertMessageUserState\<close> of \<open>mysql_runner.go\<close>: the
  archive of messages, moments with their likes and comments, user settings, search, and the friend
  statements of the broad repository contract. Texts in unique keys are compared by the collation
  (\<open>same\<close>), LIKE is an argument, and so is the form MySQL gives to a JSON value (\<open>js\<close>, nothing for an
  invalid one). Where SQL leaves the order of rows open, the rows come as they are stored.
\<close>

subsection \<open>Inserting with given keys\<close>

definition insert_keyed :: "(db \<Rightarrow> bool) \<Rightarrow> (world \<Rightarrow> db \<Rightarrow> db) \<Rightarrow> unit io" where
  "insert_keyed duplicate f = on_error map_mysql_error
     (remote (\<lambda>w. if duplicate (w_db w) then (Inl (DriverErr 1062), w) else (Inr (), w\<lparr>w_db := f w (w_db w)\<rparr>)))"

definition change_archive :: "(archive \<Rightarrow> archive) \<Rightarrow> db \<Rightarrow> db" where
  "change_archive f d = d\<lparr>d_archive := f (d_archive d)\<rparr>"

text \<open>The value a DATETIME(6) column stores.\<close>

definition sql_datetime6 :: "int \<Rightarrow> int" where
  "sql_datetime6 t = ((t + 500) div 1000) * 1000"

subsection \<open>Messages\<close>

definition valid_message_id :: "int \<Rightarrow> bool" where
  "valid_message_id n \<longleftrightarrow> \<not> (n < 1 \<or> sint MaxID < n)"

text \<open>A NULL client message ID conflicts with nothing.\<close>

definition same_client :: "(string \<Rightarrow> string \<Rightarrow> bool) \<Rightarrow> string \<Rightarrow> string \<Rightarrow> bool" where
  "same_client same a b = (case (null_if_empty a, null_if_empty b) of (Some x, Some y) \<Rightarrow> same x y | _ \<Rightarrow> False)"

definition private_conflict :: "(string \<Rightarrow> string \<Rightarrow> bool) \<Rightarrow> private_message \<Rightarrow> private_message \<Rightarrow> bool" where
  "private_conflict same m r \<longleftrightarrow> pm_id r = pm_id m \<or>
     (pm_sender r = pm_sender m \<and> same_client same (pm_client_msg_id r) (pm_client_msg_id m))"

definition insert_private_message :: "(string \<Rightarrow> string \<Rightarrow> bool) \<Rightarrow> private_message option \<Rightarrow> unit io" where
  "insert_private_message same msg = (case msg of
      None \<Rightarrow> throw (PlainErr ''insert private message: message is nil'')
    | Some m \<Rightarrow>
        if \<not> valid_message_id (pm_id m) then throw (PlainErr ''insert private message: ID out of range'')
        else on_error (WrapErr ''insert private_messages'')
          (insert_keyed (\<lambda>d. exists_row (private_conflict same m) (tb_private (d_archive d)))
             (\<lambda>w. change_archive (\<lambda>a. a\<lparr>tb_private := tb_private a @
                [m\<lparr>pm_created_at := sql_datetime (pm_created_at m)\<rparr>]\<rparr>))))"

definition group_conflict :: "(string \<Rightarrow> string \<Rightarrow> bool) \<Rightarrow> group_message \<Rightarrow> group_message \<Rightarrow> bool" where
  "group_conflict same m r \<longleftrightarrow> gq_id r = gq_id m \<or>
     (gq_sender r = gq_sender m \<and> same_client same (gq_client_msg_id r) (gq_client_msg_id m)) \<or>
     (gq_group r = gq_group m \<and> gq_seq r = gq_seq m)"

definition insert_group_message :: "(string \<Rightarrow> string \<Rightarrow> bool) \<Rightarrow> group_message option \<Rightarrow> unit io" where
  "insert_group_message same msg = (case msg of
      None \<Rightarrow> throw (PlainErr ''insert group message: message is nil'')
    | Some m \<Rightarrow>
        if \<not> valid_message_id (gq_id m) then throw (PlainErr ''insert group message: ID out of range'')
        else on_error (WrapErr ''insert group_messages'')
          (insert_keyed (\<lambda>d. exists_row (group_conflict same m) (tb_group (d_archive d)))
             (\<lambda>w. change_archive (\<lambda>a. a\<lparr>tb_group := tb_group a @
                [m\<lparr>gq_created_at := sql_datetime (gq_created_at m)\<rparr>]\<rparr>))))"

definition insert_msg_revoked :: "(string \<Rightarrow> string \<Rightarrow> bool) \<Rightarrow> msg_revoked \<Rightarrow> int io" where
  "insert_msg_revoked same r = on_error (WrapErr ''insert msg_revoked'')
     (insert_row ai_revoked (\<lambda>c. c\<lparr>ai_revoked := ai_revoked c + 1\<rparr>)
       (\<lambda>d. exists_row (\<lambda>q. same (rv_conv q) (rv_conv r) \<and> rv_msg q = rv_msg r) (tb_revoked (d_archive d)))
       (\<lambda>k w. change_archive (\<lambda>a. a\<lparr>tb_revoked := tb_revoked a @ [r\<lparr>rv_id := k, rv_at := sql_datetime (rv_at r)\<rparr>]\<rparr>)))"

text \<open>\<open>INSERT ... ON DUPLICATE KEY UPDATE deleted_at\<close>.\<close>

definition put_user_state :: "(string \<Rightarrow> string \<Rightarrow> bool) \<Rightarrow> message_user_state \<Rightarrow> message_user_state list \<Rightarrow> message_user_state list" where
  "put_user_state same s rs =
     (let key = (\<lambda>r. us_user r = us_user s \<and> same (us_conv r) (us_conv s) \<and> us_msg r = us_msg s);
          s' = s\<lparr>us_deleted_at := map_option sql_datetime6 (us_deleted_at s)\<rparr> in
      if exists_row key rs then update_where key (\<lambda>r. r\<lparr>us_deleted_at := us_deleted_at s'\<rparr>) rs else rs @ [s'])"

definition upsert_message_user_state :: "(string \<Rightarrow> string \<Rightarrow> bool) \<Rightarrow> message_user_state \<Rightarrow> unit io" where
  "upsert_message_user_state same s = on_error (WrapErr ''upsert message user state'')
     (exec (\<lambda>w. change_archive (\<lambda>a. a\<lparr>tb_states := put_user_state same s (tb_states a)\<rparr>)))"

text \<open>\<open>CONCAT('p_', LEAST(..), '_', GREATEST(..))\<close>; the LEFT JOIN hides what the user deleted.\<close>

definition private_conv :: "private_message \<Rightarrow> string" where
  "private_conv m = ''p_'' @ format_int (min (pm_sender m) (pm_receiver m)) @ ''_'' @ format_int (max (pm_sender m) (pm_receiver m))"

definition hidden_for :: "(string \<Rightarrow> string \<Rightarrow> bool) \<Rightarrow> int \<Rightarrow> message_user_state list \<Rightarrow> private_message \<Rightarrow> bool" where
  "hidden_for same uid states m = exists_row (\<lambda>s. us_user s = uid \<and> same (us_conv s) (private_conv m) \<and>
     us_msg s = pm_id m \<and> us_deleted_at s \<noteq> None) states"

definition search_private_messages ::
  "(string \<Rightarrow> string \<Rightarrow> bool) \<Rightarrow> (string \<Rightarrow> string \<Rightarrow> bool) \<Rightarrow> int \<Rightarrow> string \<Rightarrow> int \<Rightarrow> int \<Rightarrow> private_message list io" where
  "search_private_messages same like uid text limit offset = on_error (WrapErr ''search private messages'')
     (query (\<lambda>d. page_of limit offset
        (sort_key (\<lambda>m. (- pm_created_at m, - pm_id m))
          (filter (\<lambda>m. (pm_sender m = uid \<or> pm_receiver m = uid) \<and> like (''%'' @ text @ ''%'') (pm_content m) \<and>
              \<not> hidden_for same uid (tb_states (d_archive d)) m)
            (tb_private (d_archive d))))))"

subsection \<open>Friends and groups, the broad contract\<close>

text \<open>An open request stays as it is; a closed one is opened again with the new text.\<close>

definition reopened :: "friend_request \<Rightarrow> int \<Rightarrow> friend_request \<Rightarrow> friend_request" where
  "reopened q t r = (if fr_status r = FriendRequestPending then r
     else r\<lparr>fr_message := fr_message q, fr_created_at := t, fr_updated_at := t, fr_status := fr_status q\<rparr>)"

definition create_friend_request :: "friend_request \<Rightarrow> int io" where
  "create_friend_request q = on_error (WrapErr ''insert friend_requests'') (on_error map_mysql_error (remote (\<lambda>w.
     let k = ai_friend_requests (w_auto w); t = sql_now w; d = w_db w;
         w1 = w\<lparr>w_auto := (w_auto w)\<lparr>ai_friend_requests := k + 1\<rparr>\<rparr>;
         pair = (\<lambda>r. fr_from r = fr_from q \<and> fr_to r = fr_to q) in
     case find pair (friend_requests d) of
       Some old \<Rightarrow> (Inr (fr_id old), w1\<lparr>w_db := d\<lparr>friend_requests := update_where pair (reopened q t) (friend_requests d)\<rparr>\<rparr>)
     | None \<Rightarrow> (Inr k, w1\<lparr>w_db := d\<lparr>friend_requests := friend_requests d @
         [q\<lparr>fr_id := k, fr_username := [], fr_avatar_url := [], fr_created_at := t, fr_updated_at := t\<rparr>]\<rparr>\<rparr>))))"

definition update_friend_request :: "int \<Rightarrow> int \<Rightarrow> unit io" where
  "update_friend_request rid status = on_error (WrapErr ''update friend_requests'')
     (exec (\<lambda>w d. d\<lparr>friend_requests := update_where (\<lambda>r. fr_id r = rid) (with_status status (sql_now w)) (friend_requests d)\<rparr>))"

definition get_friend_request_by_id :: "int \<Rightarrow> friend_request option io" where
  "get_friend_request_by_id rid = on_error (WrapErr ''get friend request by id'') (query (find_request rid))"

definition get_friend_requests_by_user :: "int \<Rightarrow> friend_request list io" where
  "get_friend_requests_by_user uid = on_error (WrapErr ''get friend requests by user'')
     (query (\<lambda>d. sort_key (\<lambda>r. - fr_created_at r)
        (filter (\<lambda>r. fr_to r = uid \<and> fr_status r = FriendRequestPending) (friend_requests d))))"

definition insert_friendship :: "string \<Rightarrow> int \<Rightarrow> int \<Rightarrow> unit io" where
  "insert_friendship what a b = on_error (WrapErr what)
     (andThen (insert_row ai_friendships (\<lambda>c. c\<lparr>ai_friendships := ai_friendships c + 1\<rparr>)
        (\<lambda>d. exists_row (directed a b) (friendships d))
        (\<lambda>k w d. d\<lparr>friendships := friendships d @ [new_friendship k a b (sql_now w)]\<rparr>)) (\<lambda>_. ret ()))"

text \<open>Two statements and no transaction of their own.\<close>

definition create_friendship :: "int \<Rightarrow> int \<Rightarrow> unit io" where
  "create_friendship a b =
     andThen (insert_friendship ''insert friendship user->friend'' a b) (\<lambda>_.
     insert_friendship ''insert friendship friend->user'' b a)"

definition delete_friendship :: "int \<Rightarrow> int \<Rightarrow> unit io" where
  "delete_friendship a b = on_error (WrapErr ''delete friendship'')
     (exec (\<lambda>w d. d\<lparr>friendships := delete_where (friend_row a b) (friendships d)\<rparr>))"

definition get_friend_list :: "int \<Rightarrow> friendship list io" where
  "get_friend_list uid = on_error (WrapErr ''get friend list'')
     (query (\<lambda>d. filter (\<lambda>f. fs_user f = uid) (friendships d)))"

definition count_friends :: "int \<Rightarrow> int io" where
  "count_friends uid = on_error (WrapErr ''count friends'') (query (\<lambda>d. count_where (\<lambda>f. fs_user f = uid) (friendships d)))"

definition is_friend :: "int \<Rightarrow> int \<Rightarrow> bool io" where
  "is_friend a b = on_error (WrapErr ''check friendship'') (query (\<lambda>d. 0 < count_where (directed a b) (friendships d)))"

definition create_blacklist :: "int \<Rightarrow> int \<Rightarrow> int io" where
  "create_blacklist a b = on_error (WrapErr ''insert blacklist'')
     (insert_row ai_blacklist (\<lambda>c. c\<lparr>ai_blacklist := ai_blacklist c + 1\<rparr>)
       (\<lambda>d. exists_row (blocks a b) (blacklists d))
       (\<lambda>k w d. d\<lparr>blacklists := blacklists d @ [\<lparr>bl_id = k, bl_user = a, bl_blocked = b, bl_created_at = sql_now w\<rparr>]\<rparr>))"

definition delete_blacklist :: "int \<Rightarrow> int \<Rightarrow> unit io" where
  "delete_blacklist a b = on_error (WrapErr ''delete blacklist'')
     (exec (\<lambda>w d. d\<lparr>blacklists := delete_where (blocks a b) (blacklists d)\<rparr>))"

definition is_blocked :: "int \<Rightarrow> int \<Rightarrow> bool io" where
  "is_blocked a b = on_error (WrapErr ''check block'') (query (\<lambda>d. 0 < count_where (blocks a b) (blacklists d)))"

definition update_group :: "group \<Rightarrow> unit io" where
  "update_group g = on_error (WrapErr ''update group'')
     (exec (\<lambda>w d. d\<lparr>groups := update_where (is_group (g_id g))
        (\<lambda>r. r\<lparr>g_name := g_name g, g_notice := g_notice g, g_owner := g_owner g, g_updated_at := sql_now w\<rparr>) (groups d)\<rparr>))"

end
