(* ===== verification/Moments.thy ===== *)
theory Moments
  imports Archive
begin

text \<open>
  Moments, their likes and comments, and the user settings: the last part of
  \<open>repository/mysql_repository.go\<close>.
\<close>

subsection \<open>Moments\<close>

text \<open>A JSON column: NULL stays NULL, an invalid text is error 3140.\<close>

definition json_column :: "(string \<Rightarrow> string option) \<Rightarrow> string option \<Rightarrow> go_error + string option" where
  "json_column js v = (case v of None \<Rightarrow> Inr None
     | Some s \<Rightarrow> (case js s of None \<Rightarrow> Inl (DriverErr 3140) | Some s' \<Rightarrow> Inr (Some s')))"

definition create_moment :: "(string \<Rightarrow> string option) \<Rightarrow> moment \<Rightarrow> int io" where
  "create_moment js m = on_error (WrapErr ''insert moment'') (on_error map_mysql_error (remote (\<lambda>w.
     let k = ai_moments (w_auto w); w1 = w\<lparr>w_auto := (w_auto w)\<lparr>ai_moments := k + 1\<rparr>\<rparr> in
     case json_column js (mo_media_urls m) of
       Inl e \<Rightarrow> (Inl e, w)
     | Inr urls \<Rightarrow> (Inr k, w1\<lparr>w_db := change_archive (\<lambda>a. a\<lparr>tb_moments := tb_moments a @
         [m\<lparr>mo_id := k, mo_media_urls := urls, mo_created_at := sql_datetime (mo_created_at m)\<rparr>]\<rparr>) (w_db w)\<rparr>))))"

definition get_moment_by_id :: "int \<Rightarrow> moment option io" where
  "get_moment_by_id mid = on_error (WrapErr ''get moment by id'')
     (query (\<lambda>d. find (\<lambda>m. mo_id m = mid) (tb_moments (d_archive d))))"

definition delete_moment_rows :: "int \<Rightarrow> unit io" where
  "delete_moment_rows mid = on_error (WrapErr ''delete moment rows'')
     (andThen (exec (\<lambda>w. change_archive (\<lambda>a. a\<lparr>tb_comments := delete_where (\<lambda>c. mc_moment c = mid) (tb_comments a)\<rparr>))) (\<lambda>_.
      andThen (exec (\<lambda>w. change_archive (\<lambda>a. a\<lparr>tb_likes := delete_where (\<lambda>l. ml_moment l = mid) (tb_likes a)\<rparr>))) (\<lambda>_.
      exec (\<lambda>w. change_archive (\<lambda>a. a\<lparr>tb_moments := delete_where (\<lambda>m. mo_id m = mid) (tb_moments a)\<rparr>)))))"

text \<open>Inside a transaction the statements run in it; otherwise they get one of their own.\<close>

definition delete_moment :: "bool \<Rightarrow> int \<Rightarrow> unit io" where
  "delete_moment in_tx mid =
     (if in_tx then delete_moment_rows mid else deferred_tx ''delete moment transaction'' (delete_moment_rows mid))"

definition get_moments_by_ids :: "int list \<Rightarrow> moment list io" where
  "get_moments_by_ids ids = (if ids = [] then ret []
     else on_error (WrapErr ''get moments by ids'')
       (query (\<lambda>d. filter (\<lambda>m. mo_id m \<in> set ids) (tb_moments (d_archive d)))))"

definition get_moments_by_user :: "int \<Rightarrow> int \<Rightarrow> int \<Rightarrow> moment list io" where
  "get_moments_by_user uid limit offset = on_error (WrapErr ''get moments by user'')
     (query (\<lambda>d. page_of limit offset (sort_key (\<lambda>m. - mo_created_at m)
        (filter (\<lambda>m. mo_author m = uid) (tb_moments (d_archive d))))))"

subsection \<open>Likes\<close>

definition likers_of :: "int \<Rightarrow> archive \<Rightarrow> int list" where
  "likers_of mid a = map ml_user (filter (\<lambda>l. ml_moment l = mid) (tb_likes a))"

definition get_moment_likers :: "int \<Rightarrow> int list io" where
  "get_moment_likers mid = on_error (WrapErr ''get moment likers'') (query (\<lambda>d. likers_of mid (d_archive d)))"

definition like_key :: "moment_like \<Rightarrow> int \<times> int" where
  "like_key l = (ml_moment l, ml_user l)"

text \<open>\<open>INSERT IGNORE\<close> row by row; every row uses up a key value.\<close>

fun insert_likes :: "int \<Rightarrow> moment_like list \<Rightarrow> moment_like list \<Rightarrow> moment_like list" where
  "insert_likes k [] rs = rs"
| "insert_likes k (l # ls) rs = insert_likes (k + 1) ls
     (if exists_row (\<lambda>r. like_key r = like_key l) rs then rs
      else rs @ [l\<lparr>ml_id := k, ml_created_at := sql_datetime (ml_created_at l)\<rparr>])"

definition batch_upsert_moment_likes :: "moment_like list \<Rightarrow> unit io" where
  "batch_upsert_moment_likes likes = (if likes = [] then ret ()
     else on_error (WrapErr ''batch insert moment likes'')
       (andThen (insert_row ai_moment_likes (\<lambda>c. c\<lparr>ai_moment_likes := ai_moment_likes c + int (length likes)\<rparr>) (\<lambda>_. False)
          (\<lambda>k w. change_archive (\<lambda>a. a\<lparr>tb_likes := insert_likes k likes (tb_likes a)\<rparr>))) (\<lambda>_. ret ())))"

definition batch_delete_moment_likes :: "(int \<times> int) list \<Rightarrow> unit io" where
  "batch_delete_moment_likes keys = (if keys = [] then ret ()
     else on_error (WrapErr ''batch delete moment likes'')
       (exec (\<lambda>w. change_archive (\<lambda>a. a\<lparr>tb_likes := delete_where (\<lambda>l. like_key l \<in> set keys) (tb_likes a)\<rparr>))))"

subsection \<open>Comments\<close>

definition create_moment_comment :: "moment_comment \<Rightarrow> int io" where
  "create_moment_comment c = on_error (WrapErr ''insert moment comment'')
     (insert_row ai_moment_comments (\<lambda>n. n\<lparr>ai_moment_comments := ai_moment_comments n + 1\<rparr>) (\<lambda>_. False)
       (\<lambda>k w. change_archive (\<lambda>a. a\<lparr>tb_comments := tb_comments a @
          [c\<lparr>mc_id := k, mc_created_at := sql_datetime (mc_created_at c), mc_username := [], mc_avatar_url := []\<rparr>]\<rparr>)))"

definition get_moment_comment_by_id :: "int \<Rightarrow> moment_comment option io" where
  "get_moment_comment_by_id cid = on_error (WrapErr ''get moment comment by id'')
     (query (\<lambda>d. find (\<lambda>c. mc_id c = cid) (tb_comments (d_archive d))))"

definition comments_of :: "int \<Rightarrow> db \<Rightarrow> moment_comment list" where
  "comments_of mid d = sort_key mc_id
     [c\<lparr>mc_username := u_username u, mc_avatar_url := u_avatar_url u\<rparr>.
       c \<leftarrow> tb_comments (d_archive d), mc_moment c = mid, u \<leftarrow> users d, u_id u = mc_user c]"

definition get_moment_comments :: "int \<Rightarrow> moment_comment list io" where
  "get_moment_comments mid = on_error (WrapErr ''get moment comments'') (query (comments_of mid))"

definition delete_moment_comment :: "int \<Rightarrow> unit io" where
  "delete_moment_comment cid = on_error (WrapErr ''delete moment comment'')
     (exec (\<lambda>w. change_archive (\<lambda>a. a\<lparr>tb_comments := delete_where (\<lambda>c. mc_id c = cid) (tb_comments a)\<rparr>)))"

subsection \<open>Settings\<close>

definition get_user_settings :: "int \<Rightarrow> user_settings option io" where
  "get_user_settings uid = on_error (WrapErr ''get user settings'')
     (query (\<lambda>d. find (\<lambda>s. se_user s = uid) (tb_settings (d_archive d))))"

text \<open>An update that changes a column moves \<open>updated_at\<close>.\<close>

definition settings_updated :: "user_settings \<Rightarrow> string \<Rightarrow> int \<Rightarrow> user_settings \<Rightarrow> user_settings" where
  "settings_updated s mute t r =
     (let r' = r\<lparr>se_notification := se_notification s, se_preview := se_preview s, se_mute_list := mute\<rparr>
      in if r' = r then r else r'\<lparr>se_updated_at := t\<rparr>)"

text \<open>
  The row must belong to a user (error 1452). What the driver reports as the last ID after an update of an
  existing row is left open (\<open>reported\<close>).
\<close>

definition create_or_update_user_settings :: "(string \<Rightarrow> string option) \<Rightarrow> int \<Rightarrow> user_settings \<Rightarrow> user_settings io" where
  "create_or_update_user_settings js reported s = on_error (WrapErr ''create or update user settings'')
     (on_error map_mysql_error (remote (\<lambda>w.
       let k = ai_settings (w_auto w); t = sql_now w; d = w_db w;
           w1 = w\<lparr>w_auto := (w_auto w)\<lparr>ai_settings := k + 1\<rparr>\<rparr>;
           mute = (if se_mute_list s = [] then None else Some (se_mute_list s)) in
       case json_column js mute of
         Inl e \<Rightarrow> (Inl e, w)
       | Inr m \<Rightarrow> let text = (case m of None \<Rightarrow> [] | Some x \<Rightarrow> x) in
           if \<not> exists_row (\<lambda>u. u_id u = se_user s) (users d) then (Inl (DriverErr 1452), w1)
           else if exists_row (\<lambda>r. se_user r = se_user s) (tb_settings (d_archive d))
           then (Inr (s\<lparr>se_id := reported\<rparr>), w1\<lparr>w_db := change_archive (\<lambda>a. a\<lparr>tb_settings :=
              update_where (\<lambda>r. se_user r = se_user s) (settings_updated s text t) (tb_settings a)\<rparr>) d\<rparr>)
           else (Inr (s\<lparr>se_id := k\<rparr>), w1\<lparr>w_db := change_archive (\<lambda>a. a\<lparr>tb_settings := tb_settings a @
              [s\<lparr>se_id := k, se_mute_list := text, se_created_at := t, se_updated_at := t\<rparr>]\<rparr>) d\<rparr>))))"

end
