(* ===== verification/LikeSystem.thy ===== *)
theory LikeSystem
  imports Likes Moments
begin

text \<open>
  The likes of moments as a system: the scripts in Redis, the loads from MySQL, the batches that persist
  likes, and the deletion of moments, in any order, with any faults and with a Redis that may lose its
  data. A load reads MySQL in one step and writes Redis in a later one.
\<close>

subsection \<open>The stored likes\<close>

definition likes_keyed :: "db \<Rightarrow> bool" where
  "likes_keyed d \<longleftrightarrow> distinct (map like_key (tb_likes (d_archive d)))"

lemma likers_distinct: "likes_keyed d \<Longrightarrow> distinct (likers_of mid (d_archive d))"
proof -
  assume "likes_keyed d"
  then have k: "distinct (tb_likes (d_archive d))" "inj_on like_key (set (tb_likes (d_archive d)))"
    by (simp_all add: likes_keyed_def distinct_map)
  have "inj_on ml_user (set (filter (\<lambda>l. ml_moment l = mid) (tb_likes (d_archive d))))"
    by (rule inj_onI) (auto simp: like_key_def intro: inj_onD [OF k(2)])
  then show "distinct (likers_of mid (d_archive d))" using k(1) by (simp add: likers_of_def distinct_map)
qed

lemma insert_likes_keyed: "distinct (map like_key rs) \<Longrightarrow> distinct (map like_key (insert_likes k ls rs))"
proof (induction ls arbitrary: k rs)
  case (Cons l ls)
  have "distinct (map like_key (if exists_row (\<lambda>r. like_key r = like_key l) rs then rs
      else rs @ [l\<lparr>ml_id := k, ml_created_at := sql_datetime (ml_created_at l)\<rparr>]))"
    using Cons.prems by (auto simp: exists_row_def list_ex_iff) (auto simp: like_key_def)
  from Cons.IH [OF this] show ?case by simp
qed simp

lemma delete_keyed: "distinct (map like_key rs) \<Longrightarrow> distinct (map like_key (delete_where p rs))"
  by (simp add: delete_where_def distinct_map_filter)

interpretation stored_likes: like_loader likes_keyed "get_moment_likers moment" for moment
proof
  fix w ids
  show "w_kv (snd (get_moment_likers moment w)) = w_kv w" "w_db (snd (get_moment_likers moment w)) = w_db w"
    "w_clock w \<le> w_clock (snd (get_moment_likers moment w))"
    by (simp_all add: get_moment_likers_def query_def on_error_def remote_def net_pop_def split: net_outcome.split)
  show "likes_keyed (w_db w) \<Longrightarrow> fst (get_moment_likers moment w) = Inr ids \<Longrightarrow> distinct ids"
    using likers_distinct by (auto simp: get_moment_likers_def query_def on_error_def remote_def net_pop_def split: net_outcome.splits)
qed

subsection \<open>The system\<close>

text \<open>The world, with the lists of likers that loads have read so far.\<close>

inductive like_step :: "world \<times> int list set \<Rightarrow> world \<times> int list set \<Rightarrow> bool" where
  like: "like_step (w, R) (snd (like_moment_atomic moment uid w), R)"
| unlike: "like_step (w, R) (snd (unlike_moment_atomic moment uid w), R)"
| forget: "like_step (w, R) (snd (delete_moment_likes moment w), R)"
| load: "ttl mod second = 0 \<Longrightarrow> second \<le> ttl \<Longrightarrow>
    like_step (w, R) (snd (ensure_moment_likes_loaded moment (get_moment_likers moment) ttl w), R)"
| lock: "like_step (w, R) (snd (take_like_lock moment w), R)"
| unlock: "like_step (w, R) (snd (drop_like_lock moment w), R)"
| read: "get_moment_likers moment w = (Inr ids, w') \<Longrightarrow> like_step (w, R) (w', insert ids R)"
| fill: "ids \<in> R \<Longrightarrow> ttl mod second = 0 \<Longrightarrow> second \<le> ttl \<Longrightarrow> like_step (w, R) (snd (kv_write (load_likes moment ids ttl) w), R)"
| persist: "like_step (w, R) (snd (batch_upsert_moment_likes ls w), R)"
| unpersist: "like_step (w, R) (snd (batch_delete_moment_likes keys w), R)"
| delete: "like_step (w, R) (snd (delete_moment in_tx moment w), R)"
| lose: "like_step (w, R) (w\<lparr>w_kv := empty_store\<rparr>, R)"
| later: "0 \<le> d \<Longrightarrow> like_step (w, R) (w\<lparr>w_clock := w_clock w + d, w_net := net, w_ticks := ticks\<rparr>, R)"

inductive like_run :: "world \<times> int list set \<Rightarrow> bool" where
  start: "tb_likes (d_archive (w_db w)) = [] \<Longrightarrow> w_kv w = empty_store \<Longrightarrow> like_run (w, {})"
| step: "like_run s \<Longrightarrow> like_step s s' \<Longrightarrow> like_run s'"

definition like_inv :: "world \<times> int list set \<Rightarrow> bool" where
  "like_inv s \<longleftrightarrow> likes_keyed (w_db (fst s)) \<and> (\<forall>m. likes_counted m (fst s)) \<and> (\<forall>ids\<in>snd s. distinct ids)"

lemma like_inv_keeps: "(\<And>m. keeps_counts likes_keyed m p) \<Longrightarrow> like_inv (w, R) \<Longrightarrow> like_inv (snd (p w), R)"
  by (simp add: like_inv_def keeps_counts_def likes_fine_def)

text \<open>Statements on the stored likes leave Redis alone.\<close>

definition sql_only :: "'a io \<Rightarrow> bool" where
  "sql_only p \<longleftrightarrow> (\<forall>w. likes_keyed (w_db w) \<longrightarrow> likes_keyed (w_db (snd (p w))) \<and> w_kv (snd (p w)) = w_kv w \<and>
     w_clock w \<le> w_clock (snd (p w)))"

lemma like_inv_sql: "sql_only p \<Longrightarrow> like_inv (w, R) \<Longrightarrow> like_inv (snd (p w), R)"
proof -
  assume p: "sql_only p" "like_inv (w, R)"
  then have "likes_keyed (w_db (snd (p w)))" "w_kv (snd (p w)) = w_kv w" "w_clock w \<le> w_clock (snd (p w))"
    by (simp_all add: sql_only_def like_inv_def)
  moreover have "counted (w_clock (snd (p w))) m (w_kv w)" for m
    by (rule counted_later [OF _ calculation(3)]) (use p(2) in \<open>simp add: like_inv_def likes_counted_def\<close>)
  ultimately show "like_inv (snd (p w), R)" using p(2) by (simp add: like_inv_def likes_counted_def)
qed

lemma sql_only_intros:
  "sql_only (ret x)" "sql_only p \<Longrightarrow> sql_only (on_error h p)"
  "(\<And>w d. likes_keyed d \<Longrightarrow> likes_keyed (f w d)) \<Longrightarrow> sql_only (exec f)"
  "(\<And>k w d. likes_keyed d \<Longrightarrow> likes_keyed (i k w d)) \<Longrightarrow> sql_only (insert_row ctr adv dup i)"
  by (auto simp: sql_only_def ret_def on_error_snd exec_def insert_row_def remote_def net_pop_def Let_def
      split: net_outcome.split prod.split)

lemma sql_only_andThen: "sql_only p \<Longrightarrow> (\<And>x. sql_only (f x)) \<Longrightarrow> sql_only (andThen p f)"
  unfolding sql_only_def andThen_def by (auto split: prod.split sum.split) (metis order_trans prod.collapse snd_conv)+

lemma sql_only_tx: "sql_only p \<Longrightarrow> sql_only (tx_block report what p)"
proof -
  assume p: "sql_only p"
  show "sql_only (tx_block report what p)" unfolding sql_only_def
  proof (intro allI impI)
    fix w :: world assume w: "likes_keyed (w_db w)"
    obtain r w1 where r: "p (net_pop w) = (r, w1)" by fastforce
    have "likes_keyed (w_db w1)" "w_kv w1 = w_kv w" "w_clock w \<le> w_clock w1"
      using p [unfolded sql_only_def, rule_format, of "net_pop w", unfolded r snd_conv] w by (simp_all add: net_pop_def)
    then show "likes_keyed (w_db (snd (tx_block report what p w))) \<and> w_kv (snd (tx_block report what p w)) = w_kv w \<and>
        w_clock w \<le> w_clock (snd (tx_block report what p w))"
      using w by (cases r) (auto simp: tx_block_def r [unfolded net_pop_def] net_pop_def split: net_outcome.split)
  qed
qed

lemma sql_only_likes:
  "sql_only (batch_upsert_moment_likes ls)" "sql_only (batch_delete_moment_likes keys)" "sql_only (delete_moment in_tx moment)"
proof -
  show "sql_only (batch_upsert_moment_likes ls)" "sql_only (batch_delete_moment_likes keys)"
    unfolding batch_upsert_moment_likes_def batch_delete_moment_likes_def
    by (auto intro!: sql_only_intros sql_only_andThen simp: likes_keyed_def change_archive_def insert_likes_keyed delete_keyed)
  have "sql_only (delete_moment_rows moment)" unfolding delete_moment_rows_def
    by (intro sql_only_intros sql_only_andThen) (simp_all add: likes_keyed_def change_archive_def delete_keyed)
  then show "sql_only (delete_moment in_tx moment)" unfolding delete_moment_def by (simp add: sql_only_tx)
qed

lemma like_step_inv: "like_step s s' \<Longrightarrow> like_inv s \<Longrightarrow> like_inv s'"
proof (induction rule: like_step.induct)
  case (load ttl w R moment)
  show ?case by (rule like_inv_keeps [OF stored_likes.keeps_ensure [OF load(1,2)] load(3)])
next
  case (read moment w ids w' R)
  have "fst (get_moment_likers moment w) = Inr ids" "w' = snd (get_moment_likers moment w)" using read(1) by simp_all
  moreover have "likes_counted m w'" for m
    using read(2) counted_later [of "w_clock w" m "w_kv w" "w_clock w'"] calculation(2)
      stored_likes.loader_state [where w = w and moment = moment] by (simp add: like_inv_def likes_counted_def)
  ultimately show ?case using read(2) stored_likes.loader_state [where w = w and moment = moment]
      stored_likes.loader_distinct [where w = w and moment = moment and ids = ids] by (simp add: like_inv_def)
next
  case (fill ids R ttl w moment)
  then have "keeps_counts likes_keyed m (kv_write (load_likes moment ids ttl))" for m
    by (intro keeps_counts_kv_write counted_load) (auto simp: like_inv_def)
  then show ?case using fill(4) by (rule like_inv_keeps)
next
  case (lose w R)
  then show ?case by (simp add: like_inv_def likes_counted_def counted_iff empty_store_def)
next
  case (later d w R net ticks)
  then have "counted (w_clock w + d) m (w_kv w)" for m
    using counted_later [of "w_clock w" m "w_kv w" "w_clock w + d"] by (simp add: like_inv_def likes_counted_def)
  then show ?case using later by (simp add: like_inv_def likes_counted_def)
qed (simp_all add: like_inv_keeps keeps_counts_changes keeps_counts_lock like_inv_sql sql_only_likes)

lemma like_run_inv: "like_run s \<Longrightarrow> like_inv s"
proof (induction rule: like_run.induct)
  case (start w)
  then show ?case by (simp add: like_inv_def likes_counted_def counted_iff empty_store_def likes_keyed_def)
qed (rule like_step_inv)


definition demo_liked :: world where
  "demo_liked = snd (ensure_moment_likes_loaded 5 (get_moment_likers 5) (3600 * second)
     (snd (batch_upsert_moment_likes [\<lparr>ml_id = 0, ml_moment = 5, ml_user = 7, ml_created_at = 0\<rparr>,
        \<lparr>ml_id = 0, ml_moment = 5, ml_user = 8, ml_created_at = 0\<rparr>] empty_world)))"


end
