(* ===== verification/Migrate.thy ===== *)
theory Migrate
  imports GoText
begin

text \<open>
  \<open>internal/migrate/migrate.go\<close>: loading a directory of numbered SQL files and applying them once each,
  with the table \<open>schema_migrations\<close> and its dirty mark. MySQL commits implicitly with every DDL
  statement, so every call of a runner is a step of its own, and any number of processes may run at the
  same time, fail or stop between two calls. The hash of a file (\<open>sha\<close>) is an argument.
\<close>

record migration =
  mg_version :: int
  mg_name :: string
  mg_path :: string
  mg_sql :: string
  mg_checksum :: string

text \<open>\<open>State\<close>, without the time of application.\<close>

record migration_state =
  ms_version :: int
  ms_name :: string
  ms_checksum :: string
  ms_dirty :: bool

subsection \<open>Loading a directory\<close>

text \<open>A directory entry; a file that cannot be read has no content.\<close>

record dir_entry =
  de_name :: string
  de_is_dir :: bool
  de_content :: "string option"

definition is_digit :: "char \<Rightarrow> bool" where
  "is_digit c \<longleftrightarrow> digit_value c \<noteq> None"

definition name_char :: "char \<Rightarrow> bool" where
  "name_char c \<longleftrightarrow> (let b = (of_char c :: nat) in (48 \<le> b \<and> b \<le> 57) \<or> (65 \<le> b \<and> b \<le> 90) \<or> (97 \<le> b \<and> b \<le> 122) \<or>
     c = CHR ''_'' \<or> c = CHR ''-'')"

text \<open>\<open>^(\d+)_([a-zA-Z0-9_-]+)\.sql$\<close> with its two groups.\<close>

definition match_file :: "string \<Rightarrow> (string \<times> string) option" where
  "match_file s = (let digits = takeWhile is_digit s; rest = dropWhile is_digit s in
     case rest of [] \<Rightarrow> None | c # cs \<Rightarrow>
       (let name = takeWhile name_char cs in
        if digits \<noteq> [] \<and> c = CHR ''_'' \<and> name \<noteq> [] \<and> dropWhile name_char cs = ''.sql'' then Some (digits, name) else None))"

fun load_entries :: "(string \<Rightarrow> string) \<Rightarrow> string \<Rightarrow> dir_entry list \<Rightarrow> migration list \<Rightarrow> go_error + migration list" where
  "load_entries sha dir [] acc = Inr acc"
| "load_entries sha dir (e # es) acc =
    (if de_is_dir e then load_entries sha dir es acc
     else (case match_file (de_name e) of
       None \<Rightarrow> load_entries sha dir es acc
     | Some (digits, name) \<Rightarrow> (case parse_int digits of
         None \<Rightarrow> Inl (WrapErr ''parse migration version'' (PlainErr ''value out of range''))
       | Some version \<Rightarrow>
           if version \<in> mg_version ` set acc then Inl (PlainErr ''duplicate migration version'')
           else (case de_content e of
             None \<Rightarrow> Inl (WrapErr ''read migration'' remote_err)
           | Some body \<Rightarrow>
               if trim_space body = [] then Inl (PlainErr ''migration is empty'')
               else load_entries sha dir es (acc @ [\<lparr>mg_version = version, mg_name = name,
                   mg_path = dir @ ''/'' @ de_name e, mg_sql = body, mg_checksum = sha body\<rparr>])))))"

definition load_dir :: "(string \<Rightarrow> string) \<Rightarrow> string \<Rightarrow> dir_entry list option \<Rightarrow> go_error + migration list" where
  "load_dir sha dir entries = (case entries of
      None \<Rightarrow> Inl (WrapErr ''read migration directory'' remote_err)
    | Some es \<Rightarrow> (case load_entries sha dir es [] of
        Inl e \<Rightarrow> Inl e
      | Inr ms \<Rightarrow> if ms = [] then Inl (PlainErr ''no migration files found'') else Inr (sort_key mg_version ms)))"

subsection \<open>Applying\<close>

text \<open>
  The table, absent until it is created, the scripts that were started and those that ran to their end.
\<close>

record schema =
  sc_rows :: "migration_state list option"
  sc_started :: "(int \<times> string) list"
  sc_completed :: "(int \<times> string) list"

text \<open>
  Where a run of \<open>Up\<close> stands: about to create the table, to read it, to insert the row of the first
  migration that is left, to execute it, to mark it clean; or it returned.
\<close>

datatype run_state =
    CreateTable "migration list"
  | ReadStatus "migration list"
  | MarkDirty "int \<rightharpoonup> migration_state" migration "migration list"
  | ApplySQL "int \<rightharpoonup> migration_state" migration "migration list"
  | MarkClean "int \<rightharpoonup> migration_state" migration "migration list"
  | Returned "go_error option"

text \<open>The loop up to its next call: applied migrations are skipped if they are unchanged.\<close>

fun resume :: "(int \<rightharpoonup> migration_state) \<Rightarrow> migration list \<Rightarrow> run_state" where
  "resume applied [] = Returned None"
| "resume applied (m # ms) = (case applied (mg_version m) of
      Some st \<Rightarrow> if ms_name st \<noteq> mg_name m \<or> ms_checksum st \<noteq> mg_checksum m
        then Returned (Some (PlainErr ''migration changed after it was applied'')) else resume applied ms
    | None \<Rightarrow> MarkDirty applied m ms)"

definition start_up :: "(string \<Rightarrow> string) \<Rightarrow> string \<Rightarrow> dir_entry list option \<Rightarrow> run_state" where
  "start_up sha dir entries = (case load_dir sha dir entries of
      Inl e \<Rightarrow> Returned (Some e) | Inr ms \<Rightarrow> CreateTable ms)"

definition after_status :: "migration list \<Rightarrow> migration_state list \<Rightarrow> run_state" where
  "after_status ms rows = (if list_ex ms_dirty rows
     then Returned (Some (PlainErr ''migration is dirty; inspect the partially applied DDL before retrying''))
     else resume (map_of (map (\<lambda>r. (ms_version r, r)) rows)) ms)"

definition rows_of :: "schema \<Rightarrow> migration_state list" where
  "rows_of s = (case sc_rows s of None \<Rightarrow> [] | Some rows \<Rightarrow> rows)"

definition insert_dirty :: "migration \<Rightarrow> schema \<Rightarrow> schema" where
  "insert_dirty m s = s\<lparr>sc_rows := Some (rows_of s @ [\<lparr>ms_version = mg_version m, ms_name = mg_name m,
     ms_checksum = mg_checksum m, ms_dirty = True\<rparr>])\<rparr>"

definition mark_clean :: "int \<Rightarrow> schema \<Rightarrow> schema" where
  "mark_clean v s = s\<lparr>sc_rows := Some (map (\<lambda>r. if ms_version r = v then r\<lparr>ms_dirty := False\<rparr> else r) (rows_of s))\<rparr>"

text \<open>
  One call. A call passes, fails before it does anything, or fails on the way: a script that fails on
  the way was started; the other statements have taken effect.
\<close>

fun up_call :: "net_outcome \<Rightarrow> run_state \<Rightarrow> schema \<Rightarrow> run_state \<times> schema" where
  "up_call out (CreateTable ms) s =
     (if out = Pass then ReadStatus ms else Returned (Some (WrapErr ''create schema_migrations'' remote_err)),
      if out = Fail then s else s\<lparr>sc_rows := Some (rows_of s)\<rparr>)"
| "up_call out (ReadStatus ms) s =
     (if out = Pass then after_status ms (rows_of s) else Returned (Some (WrapErr ''query migration status'' remote_err)), s)"
| "up_call out (MarkDirty applied m ms) s =
     (if out = Fail then (Returned (Some (WrapErr ''mark migration dirty'' remote_err)), s)
      else if mg_version m \<in> ms_version ` set (rows_of s)
      then (Returned (Some (WrapErr ''mark migration dirty'' (DriverErr 1062))), s)
      else (if out = Pass then ApplySQL applied m ms else Returned (Some (WrapErr ''mark migration dirty'' remote_err)),
            insert_dirty m s))"
| "up_call out (ApplySQL applied m ms) s =
     (if out = Pass then MarkClean applied m ms else Returned (Some (WrapErr ''apply migration'' remote_err)),
      s\<lparr>sc_started := (if out = Fail then sc_started s else sc_started s @ [(mg_version m, mg_checksum m)]),
        sc_completed := (if out = Pass then sc_completed s @ [(mg_version m, mg_checksum m)] else sc_completed s)\<rparr>)"
| "up_call out (MarkClean applied m ms) s =
     (if out = Pass then resume applied ms else Returned (Some (WrapErr ''mark migration clean'' remote_err)),
      if out = Fail then s else mark_clean (mg_version m) s)"
| "up_call out (Returned e) s = (Returned e, s)"

text \<open>Processes, each started with a directory of its own, make their calls in any order.\<close>

inductive migrations_run :: "(nat \<Rightarrow> run_state) \<Rightarrow> schema \<Rightarrow> bool" where
  fresh: "migrations_run (\<lambda>_. Returned None) \<lparr>sc_rows = None, sc_started = [], sc_completed = []\<rparr>"
| start: "migrations_run rs s \<Longrightarrow> migrations_run (rs(i := start_up sha dir entries)) s"
| call: "migrations_run rs s \<Longrightarrow> up_call out (rs i) s = (r', s') \<Longrightarrow> migrations_run (rs(i := r')) s'"
| crash: "migrations_run rs s \<Longrightarrow> migrations_run (rs(i := Returned (Some e))) s"

end
