(* ===== verification/MigrateProps.thy ===== *)
theory MigrateProps
  imports Migrate
begin

text \<open>What the migrator guarantees: every script is started at most once, whatever fails.\<close>

text \<open>The version a run is applying: its row is marked and the script is its own.\<close>

fun owned :: "run_state \<Rightarrow> migration option" where
  "owned (ApplySQL applied m ms) = Some m"
| "owned (MarkClean applied m ms) = Some m"
| "owned _ = None"

definition key :: "migration \<Rightarrow> int \<times> string" where
  "key m = (mg_version m, mg_checksum m)"

lemma fst_key [simp]: "fst (key m) = mg_version m"
  by (simp add: key_def)

definition row_key :: "migration_state \<Rightarrow> int \<times> string" where
  "row_key r = (ms_version r, ms_checksum r)"

definition schema_ok :: "schema \<Rightarrow> bool" where
  "schema_ok s \<longleftrightarrow> distinct (map ms_version (rows_of s)) \<and> distinct (map fst (sc_started s)) \<and>
     set (sc_started s) \<subseteq> row_key ` set (rows_of s) \<and> set (sc_completed s) \<subseteq> set (sc_started s) \<and>
     (\<forall>r\<in>set (rows_of s). \<not> ms_dirty r \<longrightarrow> row_key r \<in> set (sc_completed s))"

text \<open>What a run in the middle of a migration knows.\<close>

fun run_ok :: "run_state \<Rightarrow> schema \<Rightarrow> bool" where
  "run_ok (ApplySQL applied m ms) s \<longleftrightarrow> key m \<in> row_key ` set (rows_of s) \<and> mg_version m \<notin> fst ` set (sc_started s)"
| "run_ok (MarkClean applied m ms) s \<longleftrightarrow> key m \<in> row_key ` set (rows_of s) \<and> key m \<in> set (sc_completed s)"
| "run_ok _ s \<longleftrightarrow> True"

definition apart :: "(nat \<Rightarrow> run_state) \<Rightarrow> bool" where
  "apart rs \<longleftrightarrow> (\<forall>i j m n. i \<noteq> j \<longrightarrow> owned (rs i) = Some m \<longrightarrow> owned (rs j) = Some n \<longrightarrow> mg_version m \<noteq> mg_version n)"

lemma apart_update:
  assumes "apart rs" "\<And>j m n. j \<noteq> i \<Longrightarrow> owned (rs j) = Some n \<Longrightarrow> owned r = Some m \<Longrightarrow> mg_version n \<noteq> mg_version m"
  shows "apart (rs(i := r))"
  unfolding apart_def
proof (intro allI impI)
  fix j k p q assume o: "j \<noteq> k" "owned ((rs(i := r)) j) = Some p" "owned ((rs(i := r)) k) = Some q"
  consider "j = i" "k \<noteq> i" | "k = i" "j \<noteq> i" | "j \<noteq> i" "k \<noteq> i" using o(1) by blast
  then show "mg_version p \<noteq> mg_version q"
  proof cases
    case 1
    then have "mg_version q \<noteq> mg_version p" using o(2,3) by (intro assms(2) [of k]) simp_all
    then show ?thesis by (rule not_sym)
  next
    case 2
    then show ?thesis using o(2,3) by (intro assms(2) [of j]) simp_all
  next
    case 3
    then have "owned (rs j) = Some p" "owned (rs k) = Some q" using o(2,3) by simp_all
    then show ?thesis using assms(1) o(1) unfolding apart_def by blast
  qed
qed

definition migrate_inv :: "(nat \<Rightarrow> run_state) \<Rightarrow> schema \<Rightarrow> bool" where
  "migrate_inv rs s \<longleftrightarrow> schema_ok s \<and> (\<forall>i. run_ok (rs i) s) \<and> apart rs"

lemma owned_resume [simp]: "owned (resume applied ms) = None" "run_ok (resume applied ms) s"
  by (induction ms) (auto split: option.split)

lemma owned_others [simp]:
  "owned (after_status ms rows) = None" "run_ok (after_status ms rows) s"
  "owned (start_up sha dir entries) = None" "run_ok (start_up sha dir entries) s"
  by (auto simp: after_status_def start_up_def split: sum.split)

lemma rows_of_simps [simp]:
  "rows_of (s\<lparr>sc_rows := Some rows\<rparr>) = rows" "rows_of (insert_dirty m s) = rows_of s @ [\<lparr>ms_version = mg_version m,
     ms_name = mg_name m, ms_checksum = mg_checksum m, ms_dirty = True\<rparr>]"
  "rows_of (mark_clean v s) = map (\<lambda>r. if ms_version r = v then r\<lparr>ms_dirty := False\<rparr> else r) (rows_of s)"
  "rows_of (s\<lparr>sc_started := x, sc_completed := y\<rparr>) = rows_of s"
  "sc_started (insert_dirty m s) = sc_started s" "sc_completed (insert_dirty m s) = sc_completed s"
  "sc_started (mark_clean v s) = sc_started s" "sc_completed (mark_clean v s) = sc_completed s"
  by (simp_all add: rows_of_def insert_dirty_def mark_clean_def)

text \<open>A run that gives up its migration, or has none, needs nothing but the state.\<close>

lemma migrate_inv_release:
  assumes "migrate_inv rs s" "owned r = None" "run_ok r s"
  shows "migrate_inv (rs(i := r)) s"
  using assms unfolding migrate_inv_def by (auto intro: apart_update)

lemma migrate_inv_schema:
  assumes "migrate_inv rs s" "rows_of s' = rows_of s" "sc_started s' = sc_started s" "sc_completed s' = sc_completed s"
  shows "migrate_inv rs s'"
proof -
  have "run_ok r s' = run_ok r s" for r using assms(2-4) by (cases r) simp_all
  then show ?thesis using assms unfolding migrate_inv_def schema_ok_def by simp
qed

lemma run_ok_more_rows: "run_ok r s \<Longrightarrow> run_ok r (insert_dirty m s)"
  by (cases r) auto

lemma row_key_marked [simp]: "row_key ` set (rows_of (mark_clean v s)) = row_key ` set (rows_of s)"
proof -
  have "row_key (if ms_version r = v then r\<lparr>ms_dirty := False\<rparr> else r) = row_key r" for r by (simp add: row_key_def)
  then show ?thesis by (simp only: rows_of_simps(3) set_map image_image)
qed

lemma run_ok_marked: "run_ok r s \<Longrightarrow> run_ok r (mark_clean v s)"
  using row_key_marked [of v s] by (cases r) (simp_all del: rows_of_simps(3))

lemma owned_has_row: "run_ok r s \<Longrightarrow> owned r = Some m \<Longrightarrow> key m \<in> row_key ` set (rows_of s)"
  by (cases r) auto

lemma migrate_inv_dirty:
  assumes inv: "migrate_inv rs s" and new: "mg_version m \<notin> ms_version ` set (rows_of s)"
    and r: "r = ApplySQL applied m ms \<or> owned r = None \<and> (\<forall>s. run_ok r s)"
  shows "migrate_inv (rs(i := r)) (insert_dirty m s)"
proof -
  have ok: "schema_ok s" and runs: "\<And>j. run_ok (rs j) s" using inv by (auto simp: migrate_inv_def)
  have "schema_ok (insert_dirty m s)"
    using ok new unfolding schema_ok_def by (auto simp: row_key_def)
  moreover have "run_ok ((rs(i := r)) j) (insert_dirty m s)" for j
  proof (cases "j = i")
    case True
    have "mg_version m \<notin> fst ` set (sc_started s)"
    proof
      assume "mg_version m \<in> fst ` set (sc_started s)"
      then have "mg_version m \<in> fst ` row_key ` set (rows_of s)" using ok unfolding schema_ok_def by blast
      then show False using new by (auto simp: row_key_def)
    qed
    then show ?thesis using r True by (auto simp: key_def row_key_def)
  qed (use runs run_ok_more_rows in simp)
  moreover have "mg_version n \<noteq> mg_version m" if "owned (rs j) = Some n" for j n
  proof
    assume eq: "mg_version n = mg_version m"
    have "key n \<in> row_key ` set (rows_of s)" by (rule owned_has_row [OF runs that])
    then show False using new eq by (auto simp: key_def row_key_def)
  qed
  moreover have "owned r = Some n \<Longrightarrow> n = m" for n using r by auto
  ultimately have "apart (rs(i := r))" using inv unfolding migrate_inv_def by (intro apart_update) auto
  then show ?thesis using \<open>schema_ok (insert_dirty m s)\<close> \<open>\<And>j. run_ok ((rs(i := r)) j) (insert_dirty m s)\<close>
    unfolding migrate_inv_def by blast
qed

lemma migrate_inv_apply:
  assumes inv: "migrate_inv rs s" and i: "rs i = ApplySQL applied m ms"
    and r: "r = MarkClean applied m ms \<and> done' = sc_completed s @ [key m] \<or> owned r = None \<and> (\<forall>s. run_ok r s) \<and> done' = sc_completed s"
  shows "migrate_inv (rs(i := r)) (s\<lparr>sc_started := sc_started s @ [key m], sc_completed := done'\<rparr>)"
proof -
  let ?s = "s\<lparr>sc_started := sc_started s @ [key m], sc_completed := done'\<rparr>"
  have ok: "schema_ok s" and runs: "\<And>j. run_ok (rs j) s" using inv by (auto simp: migrate_inv_def)
  have mine: "key m \<in> row_key ` set (rows_of s)" "mg_version m \<notin> fst ` set (sc_started s)" using runs [of i] by (simp_all add: i)
  have "distinct (map fst (sc_started s @ [key m]))" "set (sc_started s @ [key m]) \<subseteq> row_key ` set (rows_of s)"
    using ok mine unfolding schema_ok_def by auto
  moreover have "set done' \<subseteq> set (sc_started s @ [key m])" "set (sc_completed s) \<subseteq> set done'"
    using ok r unfolding schema_ok_def by auto
  ultimately have "schema_ok ?s" using ok unfolding schema_ok_def by auto
  moreover have "run_ok ((rs(i := r)) j) ?s" for j
  proof (cases "j = i")
    case True
    then show ?thesis using r mine by auto
  next
    case False
    have "owned (rs i) = Some m" by (simp add: i)
    then have "mg_version n \<noteq> mg_version m" if "owned (rs j) = Some n" for n
      using inv False that unfolding migrate_inv_def apart_def by blast
    then show ?thesis using runs [of j] r False by (cases "rs j") auto
  qed
  moreover have "owned r = Some p \<Longrightarrow> p = m" for p using r by auto
  moreover have "mg_version n \<noteq> mg_version m" if "j \<noteq> i" "owned (rs j) = Some n" for j n
  proof -
    have "owned (rs i) = Some m" by (simp add: i)
    then show ?thesis using inv that unfolding migrate_inv_def apart_def by blast
  qed
  ultimately show ?thesis using inv unfolding migrate_inv_def by (auto intro!: apart_update)
qed

lemma migrate_inv_marked:
  assumes inv: "migrate_inv rs s" and i: "rs i = MarkClean applied m ms"
  shows "migrate_inv rs (mark_clean (mg_version m) s)"
proof -
  have ok: "schema_ok s" and runs: "\<And>j. run_ok (rs j) s" using inv by (auto simp: migrate_inv_def)
  have mine: "key m \<in> row_key ` set (rows_of s)" "key m \<in> set (sc_completed s)" using runs [of i] by (simp_all add: i)
  have "row_key r \<in> set (sc_completed s)" if "r \<in> set (rows_of (mark_clean (mg_version m) s))" "\<not> ms_dirty r" for r
  proof -
    have "r \<in> (\<lambda>r. if ms_version r = mg_version m then r\<lparr>ms_dirty := False\<rparr> else r) ` set (rows_of s)"
      using that(1) by (simp only: rows_of_simps(3) set_map)
    then obtain r0 where r0: "r0 \<in> set (rows_of s)" "r = (if ms_version r0 = mg_version m then r0\<lparr>ms_dirty := False\<rparr> else r0)"
      by (rule imageE)
    show ?thesis
    proof (cases "ms_version r0 = mg_version m")
      case True
      obtain r1 where r1: "r1 \<in> set (rows_of s)" "row_key r1 = key m" using mine(1) by auto
      have "ms_version r1 = ms_version r0" using r1(2) True by (simp add: row_key_def key_def)
      then have "r1 = r0" using ok r1(1) r0(1) unfolding schema_ok_def by (meson eq_key_imp_eq_value inj_on_def distinct_map)
      then show ?thesis using r0(2) r1(2) mine(2) True by (simp add: row_key_def)
    next
      case False
      then show ?thesis using ok r0 that(2) unfolding schema_ok_def by simp
    qed
  qed
  moreover have "map ms_version (rows_of (mark_clean (mg_version m) s)) = map ms_version (rows_of s)" by (auto simp: comp_def)
  ultimately have "schema_ok (mark_clean (mg_version m) s)" using ok row_key_marked [of "mg_version m" s]
    unfolding schema_ok_def by (simp del: rows_of_simps(3))
  then show ?thesis using inv run_ok_marked unfolding migrate_inv_def by blast
qed

lemma migrations_run_inv: "migrations_run rs s \<Longrightarrow> migrate_inv rs s"
proof (induction rule: migrations_run.induct)
  case fresh
  then show ?case by (simp add: migrate_inv_def schema_ok_def rows_of_def apart_def)
next
  case (start rs s i sha dir entries)
  then show ?case by (intro migrate_inv_release) simp_all
next
  case (call rs s out i r' s')
  note release = migrate_inv_release [OF call.IH]
  show ?case
  proof (cases "rs i")
    case (CreateTable ms)
    have "migrate_inv rs s'" by (rule migrate_inv_schema [OF call.IH]) (use call.hyps(2) CreateTable in \<open>auto split: if_splits\<close>)
    moreover have "owned r' = None" "run_ok r' s'" using call.hyps(2) CreateTable by (auto split: if_splits)
    ultimately show ?thesis by (rule migrate_inv_release)
  next
    case (ReadStatus ms)
    then have "s' = s" "owned r' = None" "run_ok r' s" using call.hyps(2) by (auto split: if_splits)
    then show ?thesis using release by (simp del: fun_upd_apply)
  next
    case (MarkDirty applied m ms)
    show ?thesis
    proof (cases "out = Fail \<or> mg_version m \<in> ms_version ` set (rows_of s)")
      case True
      then have "s' = s" "owned r' = None" "run_ok r' s" using call.hyps(2) MarkDirty by (auto split: if_splits)
      then show ?thesis using release by (simp del: fun_upd_apply)
    next
      case False
      then have "s' = insert_dirty m s" "r' = ApplySQL applied m ms \<or> owned r' = None \<and> (\<forall>s. run_ok r' s)"
        using call.hyps(2) MarkDirty by (auto split: if_splits)
      then show ?thesis using migrate_inv_dirty [OF call.IH] False by (simp del: fun_upd_apply)
    qed
  next
    case (ApplySQL applied m ms)
    show ?thesis
    proof (cases out)
      case Pass
      then have "r' = MarkClean applied m ms"
        "s' = s\<lparr>sc_started := sc_started s @ [key m], sc_completed := sc_completed s @ [key m]\<rparr>"
        using call.hyps(2) ApplySQL by (auto simp: key_def)
      then show ?thesis using migrate_inv_apply [OF call.IH ApplySQL, of r' "sc_completed s @ [key m]"]
        by (simp del: fun_upd_apply)
    next
      case Fail
      then have "s' = s" "owned r' = None" "run_ok r' s" using call.hyps(2) ApplySQL by auto
      then show ?thesis using release by (simp del: fun_upd_apply)
    next
      case LostAck
      then have "r' = Returned (Some (WrapErr ''apply migration'' remote_err))"
        "s' = s\<lparr>sc_started := sc_started s @ [key m], sc_completed := sc_completed s\<rparr>"
        using call.hyps(2) ApplySQL by (auto simp: key_def)
      then show ?thesis using migrate_inv_apply [OF call.IH ApplySQL, of r' "sc_completed s"]
        by (simp del: fun_upd_apply)
    qed
  next
    case (MarkClean applied m ms)
    have r: "owned r' = None" "run_ok r' s0" for s0 using call.hyps(2) MarkClean by (auto split: if_splits)
    show ?thesis
    proof (cases "out = Fail")
      case True
      then have "s' = s" using call.hyps(2) MarkClean by auto
      then show ?thesis using release [OF r] by (simp del: fun_upd_apply)
    next
      case False
      then have "s' = mark_clean (mg_version m) s" using call.hyps(2) MarkClean by auto
      then show ?thesis using migrate_inv_release [OF migrate_inv_marked [OF call.IH MarkClean] r] by (simp del: fun_upd_apply)
    qed
  next
    case (Returned e)
    then have "rs(i := r') = rs" "s' = s" using call.hyps(2) by auto
    then show ?thesis using call.IH by simp
  qed
next
  case (crash rs s i e)
  then show ?case by (intro migrate_inv_release) simp_all
qed

text \<open>
  C35. Migrations run once. With any number of processes that start, fail, stop and lose answers at any
  call, and whose directories may differ: the script of a version is started at most once; a row is
  clean only if the script with its checksum ran to its end; and while some started script did not
  finish, reading the status makes a run refuse without touching anything.
\<close>

theorem migrations_run_once:
  assumes "migrations_run rs s"
  shows "distinct (map fst (sc_started s)) \<and>
    (\<forall>r\<in>set (rows_of s). \<not> ms_dirty r \<longrightarrow> (ms_version r, ms_checksum r) \<in> set (sc_completed s)) \<and>
    (set (sc_started s) \<noteq> set (sc_completed s) \<longrightarrow>
       (\<forall>ms. \<exists>e. up_call Pass (ReadStatus ms) s = (Returned (Some e), s)))"
proof -
  have ok: "schema_ok s" using migrations_run_inv [OF assms] by (simp add: migrate_inv_def)
  have "\<exists>e. up_call Pass (ReadStatus ms) s = (Returned (Some e), s)" if ne: "set (sc_started s) \<noteq> set (sc_completed s)" for ms
  proof -
    obtain k where k: "k \<in> set (sc_started s)" "k \<notin> set (sc_completed s)" using ok ne unfolding schema_ok_def by blast
    then obtain r where "r \<in> set (rows_of s)" "k = row_key r" using ok unfolding schema_ok_def by blast
    then have "list_ex ms_dirty (rows_of s)" using ok k(2) unfolding schema_ok_def list_ex_iff by blast
    then show ?thesis by (simp add: after_status_def)
  qed
  then show ?thesis using ok unfolding schema_ok_def row_key_def by blast
qed

subsection \<open>A run without faults\<close>

definition call_ok :: "run_state \<times> schema \<Rightarrow> run_state \<times> schema" where
  "call_ok x = (case x of (r, s) \<Rightarrow> up_call Pass r s)"

definition clean_row :: "migration \<Rightarrow> migration_state" where
  "clean_row m = \<lparr>ms_version = mg_version m, ms_name = mg_name m, ms_checksum = mg_checksum m, ms_dirty = False\<rparr>"

definition unchanged :: "(int \<rightharpoonup> migration_state) \<Rightarrow> migration \<Rightarrow> bool" where
  "unchanged applied m \<longleftrightarrow> (case applied (mg_version m) of None \<Rightarrow> True
     | Some st \<Rightarrow> ms_name st = mg_name m \<and> ms_checksum st = mg_checksum m)"

lemma call_ok_iterate: "(call_ok ^^ n) (call_ok x) = (call_ok ^^ Suc n) x"
  by (simp add: funpow_swap1)

lemma mark_clean_last:
  "v \<notin> ms_version ` set rows \<Longrightarrow>
    map (\<lambda>r. if ms_version r = v then r\<lparr>ms_dirty := False\<rparr> else r) rows = rows"
  by (induction rows) auto

lemma resume_applies:
  assumes "\<forall>m\<in>set ms. unchanged applied m \<and> (applied (mg_version m) = None \<longrightarrow> mg_version m \<notin> ms_version ` set (rows_of s))"
    and "distinct (map mg_version ms)"
  shows "\<exists>n s'. (call_ok ^^ n) (resume applied ms, s) = (Returned None, s') \<and>
    sc_completed s' = sc_completed s @ map key (filter (\<lambda>m. applied (mg_version m) = None) ms) \<and>
    rows_of s' = rows_of s @ map clean_row (filter (\<lambda>m. applied (mg_version m) = None) ms)"
  using assms
proof (induction ms arbitrary: s)
  case Nil
  then show ?case by (intro exI [of _ 0]) simp
next
  case (Cons m ms)
  show ?case
  proof (cases "applied (mg_version m)")
    case (Some st)
    then show ?thesis using Cons by (auto simp: unchanged_def)
  next
    case None
    then have new: "mg_version m \<notin> ms_version ` set (rows_of s)" using Cons.prems by simp
    define s3 where "s3 = mark_clean (mg_version m) (insert_dirty m s
      \<lparr>sc_started := sc_started s @ [key m], sc_completed := sc_completed s @ [key m]\<rparr>)"
    have step: "(call_ok ^^ 3) (resume applied (m # ms), s) = (resume applied ms, s3)"
      using new by (simp add: numeral_3_eq_3 None call_ok_def s3_def key_def)
    have s3: "rows_of s3 = rows_of s @ [clean_row m]" "sc_completed s3 = sc_completed s @ [key m]"
      using new by (simp_all add: s3_def mark_clean_last clean_row_def)
    have "mg_version n \<noteq> mg_version m" if "n \<in> set ms" for n using Cons.prems(2) that by (auto simp: image_iff)
    then have "\<forall>n\<in>set ms. unchanged applied n \<and> (applied (mg_version n) = None \<longrightarrow> mg_version n \<notin> ms_version ` set (rows_of s3))"
      using Cons.prems(1) by (simp add: s3(1) clean_row_def)
    then obtain n s' where n: "(call_ok ^^ n) (resume applied ms, s3) = (Returned None, s')"
      "sc_completed s' = sc_completed s3 @ map key (filter (\<lambda>m. applied (mg_version m) = None) ms)"
      "rows_of s' = rows_of s3 @ map clean_row (filter (\<lambda>m. applied (mg_version m) = None) ms)"
      using Cons.IH [of s3] Cons.prems(2) by auto
    have "(call_ok ^^ (n + 3)) (resume applied (m # ms), s) = (Returned None, s')"
      unfolding funpow_add comp_def step by (rule n(1))
    then show ?thesis using n(2,3) s3 None by (intro exI [of _ "n + 3"] exI [of _ s']) simp
  qed
qed

lemma load_entries_distinct:
  "load_entries sha dir es acc = Inr ms \<Longrightarrow> distinct (map mg_version acc) \<Longrightarrow> distinct (map mg_version ms)"
  by (induction es arbitrary: acc) (auto split: if_splits option.splits prod.splits simp: image_iff)

lemma load_dir_ok: "load_dir sha dir entries = Inr ms \<Longrightarrow> distinct (map mg_version ms) \<and> sorted (map mg_version ms) \<and> ms \<noteq> []"
proof -
  assume "load_dir sha dir entries = Inr ms"
  then obtain es ms0 where m: "entries = Some es" "load_entries sha dir es [] = Inr ms0" "ms = sort_key mg_version ms0" "ms0 \<noteq> []"
    by (auto simp: load_dir_def split: option.splits sum.splits if_splits)
  have "distinct (map mg_version ms0)" by (rule load_entries_distinct [OF m(2)]) simp
  then have "distinct (map mg_version ms)"
    unfolding m(3) distinct_map by (simp add: distinct_sort)
  then show ?thesis using m(3,4) by (auto dest: arg_cong [of _ _ length])
qed

text \<open>
  C36. Upgrading. Without faults, when no row is dirty and no applied file has changed, a run returns
  without an error after finitely many calls; it has run exactly the scripts that were missing, in the
  order of their versions, and their rows are clean.
\<close>

theorem up_applies_missing:
  assumes "load_dir sha dir entries = Inr ms" "\<forall>r\<in>set (rows_of s). \<not> ms_dirty r"
    and "\<forall>m\<in>set ms. \<forall>r\<in>set (rows_of s). ms_version r = mg_version m \<longrightarrow> ms_name r = mg_name m \<and> ms_checksum r = mg_checksum m"
  shows "\<exists>n s'. (call_ok ^^ n) (start_up sha dir entries, s) = (Returned None, s') \<and>
    sc_completed s' = sc_completed s @
      map key (filter (\<lambda>m. mg_version m \<notin> ms_version ` set (rows_of s)) ms) \<and>
    rows_of s' = rows_of s @ map clean_row (filter (\<lambda>m. mg_version m \<notin> ms_version ` set (rows_of s)) ms) \<and>
    sorted (map mg_version ms)"
proof -
  define applied where "applied = map_of (map (\<lambda>r. (ms_version r, r)) (rows_of s))"
  have none: "applied v = None \<longleftrightarrow> v \<notin> ms_version ` set (rows_of s)" for v
    by (simp add: applied_def map_of_eq_None_iff image_image)
  have some: "r \<in> set (rows_of s) \<and> ms_version r = v" if "applied v = Some r" for v r
    using map_of_SomeD [OF that [unfolded applied_def]] by auto
  define s1 where "s1 = s\<lparr>sc_rows := Some (rows_of s)\<rparr>"
  have opened: "(call_ok ^^ 2) (start_up sha dir entries, s) = (resume applied ms, s1)"
    using assms(1,2) by (simp add: numeral_2_eq_2 call_ok_def start_up_def s1_def after_status_def applied_def list_ex_iff)
  have s1: "rows_of s1 = rows_of s" "sc_completed s1 = sc_completed s" by (simp_all add: s1_def)
  have "\<forall>m\<in>set ms. unchanged applied m \<and> (applied (mg_version m) = None \<longrightarrow> mg_version m \<notin> ms_version ` set (rows_of s1))"
    using assms(3) some none by (auto simp: unchanged_def s1(1) split: option.split)
  then obtain n s' where n: "(call_ok ^^ n) (resume applied ms, s1) = (Returned None, s')"
    "sc_completed s' = sc_completed s1 @ map key (filter (\<lambda>m. applied (mg_version m) = None) ms)"
    "rows_of s' = rows_of s1 @ map clean_row (filter (\<lambda>m. applied (mg_version m) = None) ms)"
    using resume_applies [of ms applied s1] load_dir_ok [OF assms(1)] by blast
  have "(call_ok ^^ (n + 2)) (start_up sha dir entries, s) = (Returned None, s')"
    unfolding funpow_add comp_def opened by (rule n(1))
  then show ?thesis using n(2,3) s1 load_dir_ok [OF assms(1)] unfolding none
    by (intro exI [of _ "n + 2"] exI [of _ s']) simp
qed

subsection \<open>Witnesses\<close>

definition demo_dir :: "dir_entry list" where
  "demo_dir = [\<lparr>de_name = ''002_b.sql'', de_is_dir = False, de_content = Some ''two''\<rparr>,
     \<lparr>de_name = ''001_a.sql'', de_is_dir = False, de_content = Some ''one''\<rparr>]"

definition demo_migration :: migration where
  "demo_migration = \<lparr>mg_version = 1, mg_name = ''a'', mg_path = ''m/001_a.sql'', mg_sql = ''one'', mg_checksum = ''one''\<rparr>"

definition demo_schema :: schema where
  "demo_schema = \<lparr>sc_rows = Some [clean_row demo_migration], sc_started = [key demo_migration], sc_completed = [key demo_migration]\<rparr>"

theorem up_applies_missing_witness:
  "\<exists>n s'. (call_ok ^^ n) (start_up id ''m'' (Some demo_dir), demo_schema) = (Returned None, s') \<and>
    sc_completed s' = [(1, ''one''), (2, ''two'')]"
proof -
  define ms where "ms = [demo_migration, \<lparr>mg_version = 2, mg_name = ''b'', mg_path = ''m/002_b.sql'', mg_sql = ''two'', mg_checksum = ''two''\<rparr>]"
  have load: "load_dir id ''m'' (Some demo_dir) = Inr ms" unfolding ms_def by code_simp
  have facts: "\<forall>r\<in>set (rows_of demo_schema). \<not> ms_dirty r"
    "\<forall>m\<in>set ms. \<forall>r\<in>set (rows_of demo_schema). ms_version r = mg_version m \<longrightarrow> ms_name r = mg_name m \<and> ms_checksum r = mg_checksum m"
    by (simp_all add: demo_schema_def rows_of_def clean_row_def ms_def demo_migration_def)
  have "sc_completed demo_schema @ map key (filter (\<lambda>m. mg_version m \<notin> ms_version ` set (rows_of demo_schema)) ms) =
      [(1, ''one''), (2, ''two'')]"
    by (simp add: demo_schema_def rows_of_def clean_row_def ms_def demo_migration_def key_def)
  then show ?thesis using up_applies_missing [OF load facts] by metis
qed

text \<open>A process marks the first migration, its script fails on the way, and the process is gone.\<close>

definition demo_crash :: "run_state \<times> schema" where
  "demo_crash = (case (call_ok ^^ 3) (start_up id ''m'' (Some demo_dir), \<lparr>sc_rows = None, sc_started = [], sc_completed = []\<rparr>) of
     (r, s) \<Rightarrow> up_call LostAck r s)"

lemma migrations_run_calls:
  "migrations_run rs s \<Longrightarrow> \<exists>rs'. migrations_run rs' (snd ((call_ok ^^ n) (rs i, s))) \<and> rs' i = fst ((call_ok ^^ n) (rs i, s))"
proof (induction n)
  case 0
  then show ?case by auto
next
  case (Suc n)
  then obtain rs' where rs': "migrations_run rs' (snd ((call_ok ^^ n) (rs i, s)))" "rs' i = fst ((call_ok ^^ n) (rs i, s))" by blast
  obtain r1 s1 where one: "call_ok ((call_ok ^^ n) (rs i, s)) = (r1, s1)" by fastforce
  then have "up_call Pass (rs' i) (snd ((call_ok ^^ n) (rs i, s))) = (r1, s1)" by (simp add: rs'(2) call_ok_def split: prod.splits)
  then have "migrations_run (rs'(i := r1)) s1" by (rule migrations_run.call [OF rs'(1)])
  then show ?case using one by (intro exI [of _ "rs'(i := r1)"]) (simp add: fun_upd_same del: fun_upd_apply)
qed

theorem migrations_run_once_witness:
  "sc_started (snd demo_crash) = [(1, ''one'')] \<and> sc_completed (snd demo_crash) = [] \<and>
   (\<exists>e. up_call Pass (ReadStatus []) (snd demo_crash) = (Returned (Some e), snd demo_crash))"
proof -
  define s0 :: schema where "s0 = \<lparr>sc_rows = None, sc_started = [], sc_completed = []\<rparr>"
  define x where "x = (call_ok ^^ 3) (start_up id ''m'' (Some demo_dir), s0)"
  have "migrations_run ((\<lambda>_. Returned None)(0 := start_up id ''m'' (Some demo_dir))) s0"
    unfolding s0_def by (rule migrations_run.start [OF migrations_run.fresh])
  from migrations_run_calls [OF this, of 3 0] obtain rs where rs: "migrations_run rs (snd x)" "rs 0 = fst x"
    unfolding x_def by auto
  have crash: "demo_crash = up_call LostAck (fst x) (snd x)" by (simp add: demo_crash_def x_def s0_def split: prod.split)
  have "migrations_run (rs(0 := fst demo_crash)) (snd demo_crash)"
    by (rule migrations_run.call [OF rs(1), of LostAck 0 "fst demo_crash" "snd demo_crash"]) (simp add: rs(2) crash)
  from migrations_run_once [OF this]
  have "set (sc_started (snd demo_crash)) \<noteq> set (sc_completed (snd demo_crash)) \<longrightarrow>
     (\<exists>e. up_call Pass (ReadStatus []) (snd demo_crash) = (Returned (Some e), snd demo_crash))" by blast
  moreover have "sc_started (snd demo_crash) = [(1, ''one'')]" "sc_completed (snd demo_crash) = []" by code_simp+
  ultimately show ?thesis by simp
qed

end
