(* ===== verification/Avatar.thy ===== *)
theory Avatar
  imports AuthService
begin

text \<open>
  \<open>service/avatar.go\<close>: reading the profile of an avatar and uploading a picture. Files live in
  \<open>w_files\<close>, by the components of their paths. A call of the operating system fails without an effect
  or succeeds; reading the upload is one such call.
\<close>

record avatar_profile =
  ap_username :: string
  ap_avatar_url :: string

record upload_result =
  up_url :: string
  up_file_path :: string
  up_size :: int

record avatar_service =
  as_root :: "string list"
  as_max_size :: int
  as_allowed :: "string list"

definition avatar_mimes :: "(string \<times> string) list" where
  "avatar_mimes = [(''jpg'', ''image/jpeg''), (''jpeg'', ''image/jpeg''), (''png'', ''image/png''),
     (''gif'', ''image/gif''), (''webp'', ''image/webp'')]"

subsection \<open>Names\<close>

text \<open>
  \<open>strings.ToLower\<close> as far as an extension can show it: besides A to Z only two runes have an ASCII
  lower case, and all others stay outside ASCII.
\<close>

definition lower_text :: "string \<Rightarrow> string" where
  "lower_text s = concat (map (\<lambda>(r, raw). if 65 \<le> r \<and> r \<le> 90 then [char_of (nat (r + 32))]
     else if r = 304 then ''i'' else if r = 8490 then ''k'' else raw) (segments s))"

definition trim_dot :: "string \<Rightarrow> string" where
  "trim_dot s = (case s of [] \<Rightarrow> [] | c # cs \<Rightarrow> if c = CHR ''.'' then cs else s)"

text \<open>\<open>filepath.Base\<close>: the last element, without trailing slashes.\<close>

definition base_name :: "string \<Rightarrow> string" where
  "base_name path = (let p = rev (dropWhile (\<lambda>c. c = CHR ''/'') (rev path)) in
     if path = [] then ''.'' else if p = [] then ''/'' else rev (takeWhile (\<lambda>c. c \<noteq> CHR ''/'') (rev p)))"

text \<open>\<open>filepath.Ext\<close> of an element: from its last dot on.\<close>

definition file_ext :: "string \<Rightarrow> string" where
  "file_ext name = (if CHR ''.'' \<in> set name then CHR ''.'' # rev (takeWhile (\<lambda>c. c \<noteq> CHR ''.'') (rev name)) else [])"

definition extension_of :: "string \<Rightarrow> string" where
  "extension_of original = lower_text (trim_dot (file_ext (base_name original)))"

definition new_avatar_service :: "string list \<Rightarrow> int \<Rightarrow> string list \<Rightarrow> avatar_service" where
  "new_avatar_service root max_size_mb exts =
     (let allowed = filter (\<lambda>e. e \<in> set (map fst avatar_mimes)) (map (\<lambda>e. lower_text (trim_dot (trim_space e))) exts) in
      \<lparr>as_root = root, as_max_size = (if max_size_mb \<le> 0 then 10 else max_size_mb) * 1024 * 1024,
        as_allowed = (if allowed = [] then [''jpg'', ''jpeg'', ''png'', ''gif'', ''webp''] else allowed)\<rparr>)"

text \<open>
  \<open>http.DetectContentType\<close> for the four picture formats; any other content gets another type, here
  always the same one.
\<close>

definition starts_with :: "string \<Rightarrow> string \<Rightarrow> bool" where
  "starts_with p s \<longleftrightarrow> take (length p) s = p"

definition detect_picture :: "string \<Rightarrow> string" where
  "detect_picture h =
     (if starts_with ''GIF87a'' h \<or> starts_with ''GIF89a'' h then ''image/gif''
      else if starts_with ''RIFF'' h \<and> starts_with ''WEBPVP'' (drop 8 h) then ''image/webp''
      else if starts_with [CHR 0x89, CHR ''P'', CHR ''N'', CHR ''G'', CHR 0x0D, CHR 0x0A, CHR 0x1A, CHR 0x0A] h then ''image/png''
      else if starts_with [CHR 0xFF, CHR 0xD8, CHR 0xFF] h then ''image/jpeg''
      else ''application/octet-stream'')"

text \<open>\<open>filepath.Join\<close> with a clean root, and the check that the result is below the root.\<close>

fun split_path :: "string \<Rightarrow> string list" where
  "split_path [] = [[]]"
| "split_path (c # cs) = (if c = CHR ''/'' then [] # split_path cs
     else (case split_path cs of [] \<Rightarrow> [[c]] | p # ps \<Rightarrow> (c # p) # ps))"

definition clean_step :: "string \<Rightarrow> string list \<Rightarrow> string list" where
  "clean_step part path = (if part = [] \<or> part = ''.'' then path
     else if part = ''..'' then butlast path else path @ [part])"

definition join_path :: "string list \<Rightarrow> string \<Rightarrow> string list" where
  "join_path root child = fold clean_step (split_path child) root"

definition safe_join :: "string list \<Rightarrow> string \<Rightarrow> go_error + string list" where
  "safe_join root child =
     (if take (length root) (join_path root child) = root then Inr (join_path root child)
      else Inl (PlainErr ''path escapes upload root''))"

definition secure_filename :: "string \<Rightarrow> string io" where
  "secure_filename ext = andThen random_token (\<lambda>n. ret (hex_id n @ ''.'' @ ext))"

subsection \<open>Calls of the operating system\<close>

definition local_call :: "(world \<Rightarrow> world) \<Rightarrow> unit io" where
  "local_call f w = (if net_now w = Fail then (Inl remote_err, net_pop w) else (Inr (), f (net_pop w)))"

definition os_call :: "unit io" where
  "os_call = local_call id"

definition set_file :: "string list \<Rightarrow> string option \<Rightarrow> world \<Rightarrow> world" where
  "set_file path content w = w\<lparr>w_files := (w_files w)(path := content)\<rparr>"

definition put_file :: "string list \<Rightarrow> string \<Rightarrow> unit io" where
  "put_file path content = local_call (set_file path (Some content))"

definition remove_file :: "string list \<Rightarrow> unit io" where
  "remove_file path = local_call (set_file path None)"

definition rename_file :: "string list \<Rightarrow> string list \<Rightarrow> unit io" where
  "rename_file old new = local_call (\<lambda>w. set_file old None (set_file new (w_files w old) w))"

subsection \<open>The service\<close>

definition avatar_user :: "int \<Rightarrow> user io" where
  "avatar_user uid = andThen (on_error internal_failure (get_user_by_id uid)) (\<lambda>found.
     case found of None \<Rightarrow> throw (new_err CodeUserNotFound) | Some u \<Rightarrow> ret u)"

definition get_avatar :: "int \<Rightarrow> avatar_profile io" where
  "get_avatar uid = (if uid \<le> 0 then throw (new_err CodeInvalidParam)
     else andThen (avatar_user uid) (\<lambda>u. ret \<lparr>ap_username = u_username u, ap_avatar_url = u_avatar_url u\<rparr>))"

text \<open>
  Filling the temporary file. The content is written in two parts; the second is limited to one byte
  beyond the maximum.
\<close>

definition fill_temporary :: "avatar_service \<Rightarrow> string list \<Rightarrow> string \<Rightarrow> int io" where
  "fill_temporary s tmp content =
     (let header = take 512 content; rest = take (nat (as_max_size s - int (length header) + 1)) (drop 512 content) in
      andThen (on_error internal_failure os_call) (\<lambda>_.
      andThen (on_error internal_failure (put_file tmp header)) (\<lambda>_.
      andThen (on_error internal_failure (put_file tmp (header @ rest))) (\<lambda>_.
      let bytes = int (length (header @ rest)) in
      andThen (require (bytes \<le> as_max_size s) (with_message CodeInvalidParam ''avatar file is too large'')) (\<lambda>_.
      andThen (on_error internal_failure os_call) (\<lambda>_.
      andThen (on_error internal_failure os_call) (\<lambda>_. ret bytes)))))))"

text \<open>The temporary file is removed unless the rename was reported to succeed.\<close>

definition temporary_name :: "nat \<Rightarrow> string" where
  "temporary_name n = ''.avatar-'' @ format_nat n @ ''.tmp''"

definition store_picture :: "avatar_service \<Rightarrow> string list \<Rightarrow> string list \<Rightarrow> string \<Rightarrow> int io" where
  "store_picture s dir final content =
     andThen (on_error internal_failure random_token) (\<lambda>n.
     let tmp = dir @ [temporary_name n] in
     andThen (on_error internal_failure (put_file tmp [])) (\<lambda>_.
     andThen (attempt (andThen (fill_temporary s tmp content) (\<lambda>bytes.
        andThen (on_error internal_failure (rename_file tmp final)) (\<lambda>_. ret bytes)))) (\<lambda>r.
     case r of Inr bytes \<Rightarrow> ret bytes
       | Inl e \<Rightarrow> andThen (best_effort (remove_file tmp)) (\<lambda>_. throw e))))"

text \<open>\<open>UploadAvatar\<close> from the sniffing of the content to the rename: the name, the path and the size.\<close>

definition write_picture :: "avatar_service \<Rightarrow> string \<Rightarrow> string \<Rightarrow> (string \<times> string list \<times> int) io" where
  "write_picture s ext content =
     (let header = take 512 content in
      andThen (on_error internal_failure os_call) (\<lambda>_.
      andThen (require (header \<noteq> []) (with_message CodeInvalidParam ''avatar file is empty'')) (\<lambda>_.
      andThen (require (Some (detect_picture header) = map_of avatar_mimes ext)
         (with_message CodeInvalidParam ''avatar content does not match its extension'')) (\<lambda>_.
      andThen (on_error internal_failure (secure_filename ext)) (\<lambda>random_name.
      case safe_join (as_root s) ''avatars'' of Inl e \<Rightarrow> throw (internal_failure e) | Inr dir \<Rightarrow>
      andThen (on_error internal_failure os_call) (\<lambda>_.
      case safe_join dir random_name of Inl e \<Rightarrow> throw (internal_failure e) | Inr final \<Rightarrow>
      andThen (store_picture s dir final content) (\<lambda>bytes. ret (random_name, final, bytes))))))))"

definition upload_picture :: "avatar_service \<Rightarrow> int \<Rightarrow> string \<Rightarrow> string option \<Rightarrow> (string \<times> string list \<times> int) io" where
  "upload_picture s uid original source = (case source of
      None \<Rightarrow> throw (new_err CodeInvalidParam)
    | Some content \<Rightarrow>
      if uid \<le> 0 then throw (new_err CodeInvalidParam) else
      andThen (avatar_user uid) (\<lambda>_.
      if extension_of original \<in> set (as_allowed s) then write_picture s (extension_of original) content
      else throw (with_message CodeInvalidParam ''unsupported avatar file extension'')))"

definition upload_avatar :: "avatar_service \<Rightarrow> int \<Rightarrow> string \<Rightarrow> string option \<Rightarrow> upload_result io" where
  "upload_avatar s uid original source =
     andThen (upload_picture s uid original source) (\<lambda>(random_name, final, bytes).
     let url = ''/uploads/avatars/'' @ random_name in
     andThen (attempt (update_avatar_url uid url)) (\<lambda>r. case r of
         Inl e \<Rightarrow> andThen (best_effort (remove_file final)) (\<lambda>_.
           throw (if err_is ErrNotFound e then new_err CodeUserNotFound else internal_failure e))
       | Inr _ \<Rightarrow> ret \<lparr>up_url = url, up_file_path = ''avatars/'' @ random_name, up_size = bytes\<rparr>))"

end
