(* ===== verification/AvatarProps.thy ===== *)
theory AvatarProps
  imports Avatar
begin

text \<open>What an upload guarantees: working links, and no way out of the upload directory.\<close>

subsection \<open>Paths\<close>

lemma join_path_plain: "CHR ''/'' \<notin> set s \<Longrightarrow> s \<notin> {[], ''.'', ''..''} \<Longrightarrow> safe_join root s = Inr (root @ [s])"
proof -
  assume s: "CHR ''/'' \<notin> set s" "s \<notin> {[], ''.'', ''..''}"
  have "split_path s = [s]" if "CHR ''/'' \<notin> set s" for s using that by (induction s) auto
  then show ?thesis using s by (simp add: safe_join_def join_path_def clean_step_def)
qed

lemma safe_join_avatars: "safe_join root ''avatars'' = Inr (root @ [''avatars''])"
  by (rule join_path_plain) simp_all

lemma safe_join_inside: "safe_join root child = Inr p \<Longrightarrow> take (length root) p = root"
  by (auto simp: safe_join_def split: if_splits)

lemma hex_digits_codes: "c \<in> set (hex_digits k n) \<Longrightarrow> 48 \<le> (of_char c :: nat)"
proof (induction k arbitrary: n)
  case (Suc k)
  have "n mod 16 < 16" by simp
  then have "48 \<le> (of_char (hex_digit (n mod 16)) :: nat)" by (simp add: hex_digit_def of_char_of)
  then show ?case using Suc by auto
qed simp

lemma hex_digits_plain: "CHR ''/'' \<notin> set (hex_digits k n)" and hex_digits_dotless: "CHR ''.'' \<notin> set (hex_digits k n)"
  using hex_digits_codes [of "CHR ''/''" k n] hex_digits_codes [of "CHR ''.''" k n] by auto

definition picture_name :: "nat \<Rightarrow> string \<Rightarrow> string" where
  "picture_name n ext = hex_id n @ ''.'' @ ext"

lemma safe_join_picture: "CHR ''/'' \<notin> set ext \<Longrightarrow> safe_join dir (picture_name n ext) = Inr (dir @ [picture_name n ext])"
proof (rule join_path_plain)
  assume "CHR ''/'' \<notin> set ext"
  then show "CHR ''/'' \<notin> set (picture_name n ext)" using hex_digits_plain [of 32 n] by (simp add: picture_name_def hex_id_def)
  have "32 < length (picture_name n ext)" by (simp add: picture_name_def hex_id_def)
  then show "picture_name n ext \<notin> {[], ''.'', ''..''}" by auto
qed

subsection \<open>Files and rows under faults\<close>

text \<open>
  The paths an upload may write: pictures and temporary files of draws from \<open>n0\<close> on, in the avatar
  directory.
\<close>

definition own_path :: "avatar_service \<Rightarrow> nat \<Rightarrow> string list \<Rightarrow> bool" where
  "own_path s n0 path \<longleftrightarrow> (\<exists>n\<ge>n0. (\<exists>ext. path = as_root s @ [''avatars'', picture_name n ext]) \<or>
     path = as_root s @ [''avatars'', temporary_name n])"

text \<open>What every call before the UPDATE keeps: the database, and all files outside those paths.\<close>

definition keeps_files :: "avatar_service \<Rightarrow> nat \<Rightarrow> 'a io \<Rightarrow> bool" where
  "keeps_files s n0 p \<longleftrightarrow> (\<forall>w. n0 \<le> w_rand w \<longrightarrow>
     w_db (snd (p w)) = w_db w \<and> n0 \<le> w_rand (snd (p w)) \<and> set (w_net (snd (p w))) \<subseteq> set (w_net w) \<and>
     (\<forall>path. \<not> own_path s n0 path \<longrightarrow> w_files (snd (p w)) path = w_files w path))"

lemma in_tl_in: "x \<in> set (tl xs) \<Longrightarrow> x \<in> set xs"
  by (cases xs) auto

lemma keeps_files_leaf:
  "keeps_files s n0 (ret x)" "keeps_files s n0 (throw e)" "keeps_files s n0 (require b e)"
  by (simp_all add: keeps_files_def ret_def throw_def require_def)

lemma keeps_files_andThen:
  assumes "keeps_files s n0 p" "\<And>x w. n0 \<le> w_rand w \<Longrightarrow> fst (p w) = Inr x \<Longrightarrow> keeps_files s n0 (f x)"
  shows "keeps_files s n0 (andThen p f)"
  unfolding keeps_files_def
proof (intro allI impI)
  fix w :: world assume w: "n0 \<le> w_rand w"
  obtain r w1 where p: "p w = (r, w1)" by fastforce
  note k = assms(1) [unfolded keeps_files_def, rule_format, OF w]
  show "w_db (snd (andThen p f w)) = w_db w \<and> n0 \<le> w_rand (snd (andThen p f w)) \<and>
     set (w_net (snd (andThen p f w))) \<subseteq> set (w_net w) \<and>
     (\<forall>path. \<not> own_path s n0 path \<longrightarrow> w_files (snd (andThen p f w)) path = w_files w path)"
  proof (cases r)
    case (Inl e)
    then show ?thesis using k by (simp add: andThen_def p)
  next
    case (Inr x)
    have "keeps_files s n0 (f x)" using assms(2) [OF w] by (simp add: p Inr)
    then have "w_db (snd (f x w1)) = w_db w1 \<and> n0 \<le> w_rand (snd (f x w1)) \<and> set (w_net (snd (f x w1))) \<subseteq> set (w_net w1) \<and>
       (\<forall>path. \<not> own_path s n0 path \<longrightarrow> w_files (snd (f x w1)) path = w_files w1 path)"
      using k by (simp add: keeps_files_def p)
    then show ?thesis using k by (auto simp: andThen_def p Inr)
  qed
qed

lemma keeps_files_wrappers:
  "keeps_files s n0 p \<Longrightarrow> keeps_files s n0 (on_error g p)" "keeps_files s n0 p \<Longrightarrow> keeps_files s n0 (attempt p)"
proof -
  have "snd (on_error g p w) = snd (p w)" "snd (attempt p w) = snd (p w)" for w
    by (simp_all add: on_error_def attempt_def split: prod.split sum.split)
  then show "keeps_files s n0 p \<Longrightarrow> keeps_files s n0 (on_error g p)" "keeps_files s n0 p \<Longrightarrow> keeps_files s n0 (attempt p)"
    by (simp_all add: keeps_files_def)
qed

lemma keeps_files_best_effort: "keeps_files s n0 p \<Longrightarrow> keeps_files s n0 (best_effort p)"
  by (simp add: keeps_files_def best_effort_def)

lemma keeps_files_sum:
  "(\<And>e. keeps_files s n0 (h e)) \<Longrightarrow> (\<And>y. keeps_files s n0 (k y)) \<Longrightarrow>
    keeps_files s n0 (case r of Inl e \<Rightarrow> h e | Inr y \<Rightarrow> k y)"
  by (simp split: sum.split)

lemma keeps_files_query: "keeps_files s n0 (query f)"
  by (auto simp: keeps_files_def query_def remote_def net_pop_def split: net_outcome.split intro: in_tl_in)

lemma keeps_files_random: "keeps_files s n0 random_token"
  by (auto simp: keeps_files_def random_token_def remote_def net_pop_def split: net_outcome.split intro: in_tl_in)

lemma keeps_files_local:
  "(\<And>w. n0 \<le> w_rand w \<Longrightarrow> w_db (f w) = w_db w \<and> w_rand (f w) = w_rand w \<and> w_net (f w) = w_net w \<and>
     (\<forall>path. \<not> own_path s n0 path \<longrightarrow> w_files (f w) path = w_files w path)) \<Longrightarrow> keeps_files s n0 (local_call f)"
  by (auto simp: keeps_files_def local_call_def net_pop_def intro: in_tl_in)

lemma keeps_files_os:
  "keeps_files s n0 os_call" "own_path s n0 path \<Longrightarrow> keeps_files s n0 (put_file path c)"
  "own_path s n0 path \<Longrightarrow> keeps_files s n0 (remove_file path)"
  "own_path s n0 path \<Longrightarrow> own_path s n0 path' \<Longrightarrow> keeps_files s n0 (rename_file path path')"
  unfolding os_call_def put_file_def remove_file_def rename_file_def
  by (rule keeps_files_local; auto simp: set_file_def)+

definition allowed_ok :: "avatar_service \<Rightarrow> bool" where
  "allowed_ok s \<longleftrightarrow> set (as_allowed s) \<subseteq> set (map fst avatar_mimes)"

lemma allowed_plain: "allowed_ok s \<Longrightarrow> ext \<in> set (as_allowed s) \<Longrightarrow> CHR ''/'' \<notin> set ext"
  by (auto simp: allowed_ok_def avatar_mimes_def)

lemma keeps_files_fill: "own_path s n0 tmp \<Longrightarrow> keeps_files s n0 (fill_temporary s' tmp content)"
  unfolding fill_temporary_def Let_def
  by (intro keeps_files_andThen keeps_files_wrappers keeps_files_os keeps_files_leaf)

lemma keeps_files_store:
  assumes "own_path s n0 final"
  shows "keeps_files s n0 (store_picture s' (as_root s @ [''avatars'']) final content)"
  unfolding store_picture_def Let_def
proof (rule keeps_files_andThen)
  show "keeps_files s n0 (on_error internal_failure random_token)" by (intro keeps_files_wrappers keeps_files_random)
  fix n and w :: world assume w: "n0 \<le> w_rand w" "fst (on_error internal_failure random_token w) = Inr n"
  have "n = w_rand w" using w(2)
    by (auto simp: on_error_def random_token_def remote_def net_pop_def split: net_outcome.splits)
  then have tmp: "own_path s n0 ((as_root s @ [''avatars'']) @ [temporary_name n])"
    using w(1) unfolding own_path_def by auto
  show "keeps_files s n0 ((\<lambda>tmp. andThen (on_error internal_failure (put_file tmp [])) (\<lambda>_.
     andThen (attempt (andThen (fill_temporary s' tmp content) (\<lambda>bytes.
        andThen (on_error internal_failure (rename_file tmp final)) (\<lambda>_. ret bytes)))) (\<lambda>r.
     case r of Inl e \<Rightarrow> andThen (best_effort (remove_file tmp)) (\<lambda>_. throw e) | Inr bytes \<Rightarrow> ret bytes)))
       ((as_root s @ [''avatars'']) @ [temporary_name n]))"
    by (intro keeps_files_andThen keeps_files_sum keeps_files_wrappers keeps_files_best_effort keeps_files_os keeps_files_leaf
        keeps_files_fill tmp assms)
qed

lemma secure_filename_name:
  "fst (on_error internal_failure (secure_filename ext) w) = Inr name \<Longrightarrow> name = picture_name (w_rand w) ext"
  by (auto simp: on_error_def secure_filename_def andThen_def ret_def random_token_def remote_def net_pop_def picture_name_def
      split: net_outcome.splits)

lemma keeps_files_write:
  assumes "CHR ''/'' \<notin> set ext"
  shows "keeps_files s n0 (write_picture s ext content)"
proof -
  have rest: "keeps_files s n0 (case safe_join (as_root s) ''avatars'' of Inl e \<Rightarrow> throw (internal_failure e) | Inr dir \<Rightarrow>
      andThen (on_error internal_failure os_call) (\<lambda>_.
      case safe_join dir name of Inl e \<Rightarrow> throw (internal_failure e) | Inr final \<Rightarrow>
      andThen (store_picture s dir final content) (\<lambda>bytes. ret (name, final, bytes))))"
    if "n0 \<le> w_rand w" "fst (on_error internal_failure (secure_filename ext) w) = Inr name" for w name
  proof -
    note name = secure_filename_name [OF that(2)]
    have own: "own_path s n0 (as_root s @ [''avatars'', name])" using that(1) name unfolding own_path_def by blast
    have j: "safe_join (as_root s @ [''avatars'']) name = Inr (as_root s @ [''avatars'', name])"
      using safe_join_picture [OF assms] name by simp
    show ?thesis unfolding safe_join_avatars sum.case j
      by (intro keeps_files_andThen keeps_files_wrappers keeps_files_os keeps_files_leaf keeps_files_store own)
  qed
  have named: "keeps_files s n0 (on_error internal_failure (secure_filename ext))"
    unfolding secure_filename_def by (intro keeps_files_wrappers keeps_files_andThen keeps_files_random keeps_files_leaf)
  show ?thesis unfolding write_picture_def Let_def
    by (intro keeps_files_andThen keeps_files_wrappers keeps_files_os keeps_files_leaf named rest)
qed

lemma keeps_files_upload:
  assumes "allowed_ok s"
  shows "keeps_files s n0 (upload_picture s uid original source)"
proof -
  have "keeps_files s n0 (avatar_user uid)"
    unfolding avatar_user_def get_user_by_id_def
    by (intro keeps_files_andThen keeps_files_wrappers keeps_files_query) (auto split: option.split intro: keeps_files_leaf)
  then show ?thesis unfolding upload_picture_def
    by (auto split: option.split intro!: keeps_files_andThen keeps_files_leaf keeps_files_write dest: allowed_plain [OF assms])
qed

subsection \<open>A picture that is stored\<close>

lemma local_call_ok [io_simps]: "local_call f w = (Inr x, w') \<longleftrightarrow> net_now w \<noteq> Fail \<and> w' = f (net_pop w)"
  by (auto simp: local_call_def)

lemma limited_copy:
  assumes "int (length (take 512 content @ take (nat (limit - int (length (take 512 content)) + 1)) (drop 512 content))) \<le> limit"
  shows "take 512 content @ take (nat (limit - int (length (take 512 content)) + 1)) (drop 512 content) = content"
proof -
  define m where "m = nat (limit - int (length (take 512 content)) + 1)"
  have "length (drop 512 content) \<le> m"
  proof (rule ccontr)
    assume "\<not> length (drop 512 content) \<le> m"
    then have "length (take m (drop 512 content)) = m" by simp
    then have "int (length (take 512 content)) + int m \<le> limit" using assms by (simp add: m_def [symmetric])
    moreover have "limit - int (length (take 512 content)) + 1 \<le> int m" unfolding m_def by linarith
    ultimately show False by linarith
  qed
  then have "take m (drop 512 content) = drop 512 content" by simp
  then show ?thesis by (simp add: m_def)
qed

lemma sum_case_ok: "(case r of Inl e \<Rightarrow> h e | Inr y \<Rightarrow> k y) w = (Inr x, w') \<longleftrightarrow>
    (\<exists>e. r = Inl e \<and> h e w = (Inr x, w')) \<or> (\<exists>y. r = Inr y \<and> k y w = (Inr x, w'))"
  by (cases r) simp_all

lemma fill_temporary_ok:
  assumes "fill_temporary s tmp content w = (Inr bytes, w')"
  shows "bytes = int (length content) \<and> bytes \<le> as_max_size s \<and> w_files w' = (w_files w)(tmp \<mapsto> content)"
proof -
  define whole where "whole = take 512 content @ take (nat (as_max_size s - int (length (take 512 content)) + 1)) (drop 512 content)"
  have r: "bytes = int (length whole)" "bytes \<le> as_max_size s" "w_files w' = (w_files w)(tmp \<mapsto> whole)"
    using assms by (auto simp: fill_temporary_def Let_def io_simps os_call_def put_file_def set_file_def net_pop_def whole_def)
  then have "whole = content" unfolding whole_def by (intro limited_copy) simp
  then show ?thesis using r by simp
qed

lemma store_picture_ok:
  assumes "store_picture s dir (dir @ [picture_name n ext]) content w = (Inr bytes, w')"
  shows "bytes = int (length content) \<and> bytes \<le> as_max_size s \<and> w_files w' (dir @ [picture_name n ext]) = Some content"
proof -
  have other: "temporary_name k \<noteq> picture_name n ext" for k
  proof
    assume "temporary_name k = picture_name n ext"
    then have "hd (picture_name n ext) = CHR ''.''" by (metis append_Cons list.sel(1) temporary_name_def)
    then have "hd (hex_id n) = CHR ''.''" by (simp add: picture_name_def)
    then have "CHR ''.'' \<in> set (hex_id n)" by (metis hd_in_set hex_id_nonempty)
    then show False using hex_digits_dotless [of 32 n] by (simp add: hex_id_def)
  qed
  then have "picture_name n ext \<noteq> temporary_name k" for k by metis
  then show ?thesis using assms
    by (auto simp: store_picture_def Let_def io_simps sum_case_ok rename_file_def set_file_def net_pop_def
        dest!: fill_temporary_ok)
qed

lemma write_picture_ok:
  assumes "write_picture s ext content w = (Inr (name, final, bytes), w')" "CHR ''/'' \<notin> set ext"
  shows "\<exists>n\<ge>w_rand w. name = picture_name n ext \<and> final = as_root s @ [''avatars'', name] \<and>
    bytes = int (length content) \<and> bytes \<le> as_max_size s \<and> w_files w' final = Some content"
proof -
  obtain w1 w2 w3 where r: "on_error internal_failure (secure_filename ext) w1 = (Inr name, w2)" "w_rand w1 = w_rand w"
      "(case safe_join (as_root s @ [''avatars'']) name of Inl e \<Rightarrow> throw (internal_failure e) | Inr final \<Rightarrow>
        andThen (store_picture s (as_root s @ [''avatars'']) final content) (\<lambda>bytes. ret (name, final, bytes))) w3 =
        (Inr (name, final, bytes), w')"
    using assms(1) unfolding write_picture_def Let_def safe_join_avatars sum.case
    by (auto simp: io_simps os_call_def net_pop_def sum_case_ok)
  note name = secure_filename_name [of ext w1 name, unfolded r(1) fst_conv, OF refl]
  have j: "safe_join (as_root s @ [''avatars'']) name = Inr ((as_root s @ [''avatars'']) @ [name])"
    using safe_join_picture [OF assms(2)] name by simp
  have "store_picture s (as_root s @ [''avatars'']) ((as_root s @ [''avatars'']) @ [name]) content w3 = (Inr bytes, w')"
    and "final = (as_root s @ [''avatars'']) @ [name]"
    using r(3) unfolding j sum.case by (auto simp: io_simps)
  then show ?thesis using store_picture_ok [of s "as_root s @ [''avatars'']" "w_rand w1" ext content w3 bytes w'] name r(2) by auto
qed

lemma upload_picture_ok:
  assumes "upload_picture s uid original source w = (Inr (name, final, bytes), w')" "allowed_ok s"
  shows "\<exists>content. source = Some content \<and> own_path s (w_rand w) final \<and> final = as_root s @ [''avatars'', name] \<and>
    bytes = int (length content) \<and> bytes \<le> as_max_size s \<and> w_files w' final = Some content"
proof -
  obtain content u w1 where c: "source = Some content" "avatar_user uid w = (Inr u, w1)"
      "extension_of original \<in> set (as_allowed s)" "write_picture s (extension_of original) content w1 = (Inr (name, final, bytes), w')"
    using assms(1) unfolding upload_picture_def by (auto simp: io_simps split: option.splits if_splits)
  have "w_rand w1 = w_rand w" using c(2) by (auto simp: avatar_user_def io_simps net_pop_def split: option.splits)
  then show ?thesis using write_picture_ok [OF c(4) allowed_plain [OF assms(2) c(3)]] c(1)
    unfolding own_path_def by fastforce
qed

lemma avatar_update:
  assumes "update_avatar_url uid url w = (r, w')" "net_now w \<noteq> LostAck"
  shows "w_files w' = w_files w"
    and "r = Inl e \<Longrightarrow> users (w_db w') = users (w_db w)"
    and "r = Inr () \<Longrightarrow> (\<exists>u\<in>set (users (w_db w)). u_id u = uid) \<and>
      users (w_db w') = snd (set_user uid (\<lambda>u. u\<lparr>u_avatar_url := url\<rparr>) (sql_now w) (users (w_db w)))"
proof -
  define f where "f = (\<lambda>u :: user. u\<lparr>u_avatar_url := url\<rparr>)"
  define n where "n = fst (set_user uid f (sql_now w) (users (w_db w)))"
  have none: "snd (set_user uid f (sql_now w) (users (w_db w))) = users (w_db w)" if "n = 0"
    using that by (auto simp: n_def set_user_def count_where_zero intro!: update_where_id)
  have some: "\<exists>u\<in>set (users (w_db w)). u_id u = uid" if "n \<noteq> 0"
    using that by (auto simp: n_def set_user_def count_where_zero)
  have "update_avatar_url uid url w = (if net_now w = Fail then (Inl (WrapErr ''update avatar url'' (map_mysql_error remote_err)), net_pop w)
     else (if n = 0 then Inl (Sentinel ErrNotFound) else Inr (),
       (net_pop w)\<lparr>w_db := (w_db w)\<lparr>users := snd (set_user uid f (sql_now w) (users (w_db w)))\<rparr>\<rparr>))"
    using assms(2)
    by (cases "net_now w")
      (simp_all add: update_avatar_url_def andThen_def on_error_def update_users_def remote_def affected_or_not_found_def require_def
        f_def [symmetric] n_def ret_def throw_def split: prod.split)
  then show "w_files w' = w_files w" "r = Inl e \<Longrightarrow> users (w_db w') = users (w_db w)"
    "r = Inr () \<Longrightarrow> (\<exists>u\<in>set (users (w_db w)). u_id u = uid) \<and>
      users (w_db w') = snd (set_user uid (\<lambda>u. u\<lparr>u_avatar_url := url\<rparr>) (sql_now w) (users (w_db w)))"
    using assms(1) none some by (auto simp: f_def [symmetric] net_pop_def split: if_splits)
qed

subsection \<open>Working links\<close>

definition avatar_prefix :: string where
  "avatar_prefix = ''/uploads/avatars/''"

definition avatars_ok :: "avatar_service \<Rightarrow> world \<Rightarrow> bool" where
  "avatars_ok s w \<longleftrightarrow> (\<forall>u\<in>set (users (w_db w)). \<forall>name. u_avatar_url u = avatar_prefix @ name \<longrightarrow>
     w_files w (as_root s @ [''avatars'', name]) \<noteq> None)"

lemma avatars_ok_kept:
  assumes ok: "avatars_ok s w" and fresh: "\<forall>path. own_path s n path \<longrightarrow> w_files w path = None"
    and same: "users (w_db w') = users (w_db w)" "\<forall>path. \<not> own_path s n path \<longrightarrow> w_files w' path = w_files w path"
  shows "avatars_ok s w'"
  unfolding avatars_ok_def
proof (intro ballI allI impI)
  fix u name assume u: "u \<in> set (users (w_db w'))" "u_avatar_url u = avatar_prefix @ name"
  then have "w_files w (as_root s @ [''avatars'', name]) \<noteq> None" using ok same(1) by (simp add: avatars_ok_def)
  then show "w_files w' (as_root s @ [''avatars'', name]) \<noteq> None" using fresh same(2) by metis
qed

lemma avatars_ok_linked:
  assumes ok: "avatars_ok s w" and present: "w_files w (as_root s @ [''avatars'', name]) \<noteq> None"
    and upd: "users (w_db w') = snd (set_user uid (\<lambda>u. u\<lparr>u_avatar_url := avatar_prefix @ name\<rparr>) t (users (w_db w)))"
      "w_files w' = w_files w"
  shows "avatars_ok s w'"
  unfolding avatars_ok_def
proof (intro ballI allI impI)
  fix u name' assume u: "u \<in> set (users (w_db w'))" "u_avatar_url u = avatar_prefix @ name'"
  then have "(\<exists>v\<in>set (users (w_db w)). u_avatar_url v = avatar_prefix @ name') \<or> name' = name"
    unfolding upd(1) set_user_def by (auto simp: set_update_where)
  then show "w_files w' (as_root s @ [''avatars'', name']) \<noteq> None"
    using ok present by (auto simp: upd(2) avatars_ok_def)
qed

lemma linked_user:
  assumes "users' = snd (set_user uid (\<lambda>u. u\<lparr>u_avatar_url := url\<rparr>) t us)" "u \<in> set users'" "u_id u = uid"
  shows "u_avatar_url u = url"
proof -
  have unchanged: "v\<lparr>u_avatar_url := url\<rparr> = v \<Longrightarrow> u_avatar_url v = url" for v :: user
    by (cases v) simp
  obtain v where v: "v \<in> set us" "u = (if u_id v = uid \<and> v\<lparr>u_avatar_url := url\<rparr> \<noteq> v
      then v\<lparr>u_avatar_url := url, u_updated_at := t\<rparr> else v)"
    using assms(2) unfolding assms(1) set_user_def by (auto simp: set_update_where)
  then show ?thesis using assms(3) unchanged [of v] by (auto split: if_splits)
qed

text \<open>How an upload ends once the picture is in place.\<close>

lemma upload_avatar_end:
  assumes "upload_avatar s uid original source w = (r, w')" "upload_picture s uid original source w = (Inr (name, final, bytes), w1)"
    "update_avatar_url uid (avatar_prefix @ name) w1 = (r2, w2)"
  shows "case r2 of
      Inl e \<Rightarrow> (\<exists>e. r = Inl e) \<and> w_db w' = w_db w2 \<and> (\<forall>path. path \<noteq> final \<longrightarrow> w_files w' path = w_files w2 path)
    | Inr y \<Rightarrow> r = Inr \<lparr>up_url = avatar_prefix @ name, up_file_path = ''avatars/'' @ name, up_size = bytes\<rparr> \<and> w' = w2"
proof (cases r2)
  case (Inl e)
  obtain b w3 where d: "best_effort (remove_file final) w2 = (b, w3)" by fastforce
  have "w_db w3 = w_db w2" "\<forall>path. path \<noteq> final \<longrightarrow> w_files w3 path = w_files w2 path"
    using d by (auto simp: best_effort_def remove_file_def local_call_def set_file_def net_pop_def split: if_splits)
  moreover have "(\<exists>e. r = Inl e) \<and> w' = w3"
    using assms(1) d by (auto simp: upload_avatar_def andThen_def assms(2) Let_def attempt_def
        assms(3) [unfolded avatar_prefix_def, simplified] Inl throw_def best_effort_def split: prod.splits)
  ultimately show ?thesis by (simp add: Inl)
next
  case (Inr y)
  then show ?thesis using assms(1) by (auto simp: upload_avatar_def andThen_def assms(2) Let_def attempt_def
        assms(3) [unfolded avatar_prefix_def, simplified] ret_def avatar_prefix_def)
qed

lemma upload_success:
  assumes "avatars_ok s w" "update_avatar_url uid (avatar_prefix @ name) w = (Inr y, w')" "net_now w \<noteq> LostAck"
    and "w_files w (as_root s @ [''avatars'', name]) \<noteq> None"
  shows "avatars_ok s w' \<and> w_files w' = w_files w \<and>
    (\<exists>u\<in>set (users (w_db w')). u_id u = uid \<and> u_avatar_url u = avatar_prefix @ name)"
proof -
  note u = avatar_update [OF assms(2,3)]
  have upd: "\<exists>v\<in>set (users (w_db w)). u_id v = uid"
      "users (w_db w') = snd (set_user uid (\<lambda>u. u\<lparr>u_avatar_url := avatar_prefix @ name\<rparr>) (sql_now w) (users (w_db w)))"
    using u(3) by auto
  have "uid \<in> set (map u_id (users (w_db w')))" using upd(1) unfolding upd(2) by (subst set_user_ids) auto
  then show ?thesis using avatars_ok_linked [OF assms(1,4) upd(2) u(1)] linked_user [OF upd(2)] u(1) by auto
qed

text \<open>
  C37. An upload keeps every avatar link working, whichever calls fail, as long as no acknowledgement of
  an UPDATE that took effect is lost: each user whose address is an uploaded picture still has the file
  behind it, and a successful upload leaves the user linked to a file that holds exactly the content
  sent, within the maximum size. Files of other names are never touched.
\<close>

theorem upload_keeps_links:
  assumes conf: "allowed_ok s" "avatars_ok s w" and net: "LostAck \<notin> set (w_net w)"
    and fresh: "\<forall>path. own_path s (w_rand w) path \<longrightarrow> w_files w path = None"
    and run: "upload_avatar s uid original source w = (r, w')"
  shows "avatars_ok s w' \<and> (\<forall>path. \<not> own_path s (w_rand w) path \<longrightarrow> w_files w' path = w_files w path) \<and>
    (\<forall>res. r = Inr res \<longrightarrow> (\<exists>content name. source = Some content \<and> up_url res = avatar_prefix @ name \<and>
       up_size res = int (length content) \<and> up_size res \<le> as_max_size s \<and>
       w_files w' (as_root s @ [''avatars'', name]) = Some content \<and>
       (\<exists>u\<in>set (users (w_db w')). u_id u = uid \<and> u_avatar_url u = up_url res)))"
proof -
  obtain r1 w1 where up: "upload_picture s uid original source w = (r1, w1)" by fastforce
  have k: "w_db w1 = w_db w" "set (w_net w1) \<subseteq> set (w_net w)"
      "\<forall>path. \<not> own_path s (w_rand w) path \<longrightarrow> w_files w1 path = w_files w path"
    using keeps_files_upload [OF conf(1), of "w_rand w" uid original source, unfolded keeps_files_def, rule_format, of w] up by auto
  show ?thesis
  proof (cases r1)
    case (Inl e)
    then have "r = Inl e" "w' = w1" using run by (simp_all add: upload_avatar_def andThen_def up)
    then show ?thesis using avatars_ok_kept [OF conf(2) fresh, of w1] k by auto
  next
    case (Inr x)
    obtain name final bytes where x: "x = (name, final, bytes)" using prod_cases3 by blast
    obtain content where pic: "source = Some content" "own_path s (w_rand w) final" "final = as_root s @ [''avatars'', name]"
        "bytes = int (length content)" "bytes \<le> as_max_size s" "w_files w1 final = Some content"
      using upload_picture_ok [OF _ conf(1)] up Inr x by metis
    obtain r2 w2 where q: "update_avatar_url uid (avatar_prefix @ name) w1 = (r2, w2)" by fastforce
    have lost: "net_now w1 \<noteq> LostAck" using net k(2) by (auto simp: net_now_def split: list.split)
    note u = avatar_update [OF q lost]
    note fin = upload_avatar_end [OF run up [unfolded \<open>r1 = Inr x\<close> x] q]
    show ?thesis
    proof (cases r2)
      case (Inl e)
      then have err: "\<exists>e. r = Inl e" "w_db w' = w_db w2" "\<forall>path. path \<noteq> final \<longrightarrow> w_files w' path = w_files w2 path"
        using fin by simp_all
      have "\<forall>path. \<not> own_path s (w_rand w) path \<longrightarrow> w_files w' path = w_files w path"
        using err(3) u(1) k(3) pic(2) by metis
      moreover have "users (w_db w') = users (w_db w)" using err(2) u(2) [OF Inl] k(1) by simp
      ultimately show ?thesis using avatars_ok_kept [OF conf(2) fresh, of w'] err(1) by auto
    next
      case (Inr y)
      have res: "r = Inr \<lparr>up_url = avatar_prefix @ name, up_file_path = ''avatars/'' @ name, up_size = bytes\<rparr>" "w' = w2"
        using fin Inr by simp_all
      have "avatars_ok s w1" using avatars_ok_kept [OF conf(2) fresh, of w1] k by simp
      with upload_success [OF this q [unfolded Inr] lost] res pic k(3) Inr show ?thesis by auto
    qed
  qed
qed

subsection \<open>Concrete uploads\<close>

definition demo_avatars :: avatar_service where
  "demo_avatars = \<lparr>as_root = [''srv''], as_max_size = 20, as_allowed = [''jpg'', ''png'']\<rparr>"

definition demo_picture :: string where
  "demo_picture = [CHR 0xFF, CHR 0xD8, CHR 0xFF, CHR ''x'']"

definition demo_ann :: world where
  "demo_ann = empty_world\<lparr>w_db := (w_db empty_world)\<lparr>users :=
     [\<lparr>u_id = 1, u_username = ''ann'', u_password_hash = [], u_nickname = ''ann'', u_avatar_url = [],
        u_sign = [], u_gender = 0, u_created_at = 0, u_updated_at = 0\<rparr>]\<rparr>\<rparr>"

lemma demo_ann_fresh: "w_files (demo_ann\<lparr>w_net := n\<rparr>) path = None" "avatars_ok demo_avatars (demo_ann\<lparr>w_net := n\<rparr>)"
  "allowed_ok demo_avatars" "w_net (demo_ann\<lparr>w_net := n\<rparr>) = n"
  by (simp_all add: demo_ann_def empty_world_def avatars_ok_def avatar_prefix_def allowed_ok_def demo_avatars_def avatar_mimes_def)

lemma demo_picture_facts: "extension_of ''me.JPG'' = ''jpg''" "take 512 demo_picture = demo_picture" "drop 512 demo_picture = []"
  "demo_picture \<noteq> []" "Some (detect_picture demo_picture) = map_of avatar_mimes ''jpg''" "length demo_picture = 4"
  by (code_simp | simp add: demo_picture_def)+

lemma write_picture_plain:
  assumes "CHR ''/'' \<notin> set ext"
  shows "write_picture s ext content =
     (andThen (on_error internal_failure os_call) (\<lambda>_.
      andThen (require (take 512 content \<noteq> []) (with_message CodeInvalidParam ''avatar file is empty'')) (\<lambda>_.
      andThen (require (Some (detect_picture (take 512 content)) = map_of avatar_mimes ext)
         (with_message CodeInvalidParam ''avatar content does not match its extension'')) (\<lambda>_.
      andThen (on_error internal_failure random_token) (\<lambda>n.
      andThen (on_error internal_failure os_call) (\<lambda>_.
      andThen (store_picture s (as_root s @ [''avatars'']) (as_root s @ [''avatars'', picture_name n ext]) content)
        (\<lambda>bytes. ret (picture_name n ext, as_root s @ [''avatars'', picture_name n ext], bytes))))))))"
proof -
  have named: "andThen (on_error internal_failure (secure_filename ext)) k =
      andThen (on_error internal_failure random_token) (\<lambda>n. k (picture_name n ext))" for k :: "string \<Rightarrow> 'a io"
    by (rule ext) (auto simp: secure_filename_def andThen_def on_error_def ret_def picture_name_def split: prod.split sum.split)
  show ?thesis
    unfolding write_picture_def Let_def safe_join_avatars sum.case named safe_join_picture [OF assms] append_assoc append_Cons append_Nil ..
qed

lemma demo_upload_run:
  "\<exists>w1. upload_picture demo_avatars 1 ''me.JPG'' (Some demo_picture)
      (demo_ann\<lparr>w_net := [Pass, Pass, Pass, Pass, Pass, Pass, Pass, Pass, Pass, Pass, Pass, Pass] @ rest\<rparr>) =
    (Inr (picture_name 0 ''jpg'', [''srv'', ''avatars'', picture_name 0 ''jpg''], 4), w1) \<and>
    w_net w1 = rest \<and> w_db w1 = w_db demo_ann"
  unfolding upload_picture_def
  by (simp add: demo_picture_facts write_picture_plain demo_avatars_def store_picture_def fill_temporary_def Let_def
      avatar_user_def get_user_by_id_def query_def remote_def net_now_def net_pop_def andThen_def on_error_def attempt_def
      require_def ret_def os_call_def put_file_def rename_file_def local_call_def set_file_def random_token_def demo_ann_def empty_world_def)

lemma demo_update_run:
  assumes "w_db w1 = w_db demo_ann" "net_now w1 \<noteq> Fail"
  shows "users (w_db (snd (update_avatar_url 1 (avatar_prefix @ name) w1))) =
      [(hd (users (w_db demo_ann)))\<lparr>u_avatar_url := avatar_prefix @ name, u_updated_at := sql_now w1\<rparr>]"
    "fst (update_avatar_url 1 (avatar_prefix @ name) w1) =
      (if net_now w1 = Pass then Inr () else Inl (WrapErr ''update avatar url'' (map_mysql_error remote_err)))"
  using assms(2) by (cases "net_now w1";
      simp add: update_avatar_url_def andThen_def on_error_def update_users_def remote_def affected_or_not_found_def require_def
        ret_def set_user_def count_where_def update_where_def assms(1) demo_ann_def avatar_prefix_def net_pop_def sql_now_def)+

definition twelve :: "net_outcome list" where
  "twelve = [Pass, Pass, Pass, Pass, Pass, Pass, Pass, Pass, Pass, Pass, Pass, Pass]"

theorem upload_keeps_links_witness:
  "\<exists>res w' name. upload_avatar demo_avatars 1 ''me.JPG'' (Some demo_picture) (demo_ann\<lparr>w_net := twelve\<rparr>) = (Inr res, w') \<and>
     avatars_ok demo_avatars w' \<and> up_url res = avatar_prefix @ name \<and>
     w_files w' [''srv'', ''avatars'', name] = Some demo_picture"
proof -
  let ?w = "demo_ann\<lparr>w_net := twelve\<rparr>"
  let ?run = "upload_avatar demo_avatars 1 ''me.JPG'' (Some demo_picture) ?w"
  obtain w1 where up: "upload_picture demo_avatars 1 ''me.JPG'' (Some demo_picture) ?w =
      (Inr (picture_name 0 ''jpg'', [''srv'', ''avatars'', picture_name 0 ''jpg''], 4), w1)" "w_net w1 = []" "w_db w1 = w_db demo_ann"
    using demo_upload_run [of "[]"] by (auto simp: twelve_def)
  obtain w2 where "update_avatar_url 1 (avatar_prefix @ picture_name 0 ''jpg'') w1 = (Inr (), w2)"
    using demo_update_run(2) [OF up(3)] up(2) by (auto simp: prod_eq_iff)
  from upload_avatar_end [OF prod.collapse [symmetric] up(1) this]
  obtain res where run: "?run = (Inr res, snd ?run)" by (auto simp: prod_eq_iff)
  have "LostAck \<notin> set (w_net ?w)" "\<forall>path. own_path demo_avatars (w_rand ?w) path \<longrightarrow> w_files ?w path = None"
    using demo_ann_fresh(1) by (simp_all only: demo_ann_fresh(4)) (simp_all add: twelve_def)
  from upload_keeps_links [OF demo_ann_fresh(3,2) this run] run show ?thesis
    by (fastforce simp: demo_avatars_def)
qed

text \<open>
  Without that premise it fails: the acknowledgement of the UPDATE is lost, the service takes it for a
  failure and removes the picture the account now links to.
\<close>

theorem lost_ack_breaks_link:
  "\<not> avatars_ok demo_avatars (snd (upload_avatar demo_avatars 1 ''me.JPG'' (Some demo_picture)
      (demo_ann\<lparr>w_net := twelve @ [LostAck]\<rparr>)))"
proof -
  let ?url = "avatar_prefix @ picture_name 0 ''jpg''" and ?final = "[''srv'', ''avatars'', picture_name 0 ''jpg'']"
  obtain w1 where up: "upload_picture demo_avatars 1 ''me.JPG'' (Some demo_picture) (demo_ann\<lparr>w_net := twelve @ [LostAck]\<rparr>) =
      (Inr (picture_name 0 ''jpg'', ?final, 4), w1)" "w_net w1 = [LostAck]" "w_db w1 = w_db demo_ann"
    using demo_upload_run [of "[LostAck]"] unfolding twelve_def by blast
  have lost: "net_now w1 = LostAck" using up(2) by (simp add: net_now_def)
  obtain r2 w2 where q: "update_avatar_url 1 ?url w1 = (r2, w2)" by fastforce
  have q2: "\<exists>e. r2 = Inl e" "users (w_db w2) = [(hd (users (w_db demo_ann)))\<lparr>u_avatar_url := ?url, u_updated_at := sql_now w1\<rparr>]"
    using demo_update_run [OF up(3), of "picture_name 0 ''jpg''"] lost q by auto
  have "w_net w2 = []" using q up(2) lost
    by (simp add: update_avatar_url_def andThen_def on_error_def update_users_def remote_def net_pop_def set_user_def
        split: prod.splits) auto
  then have fin: "w_db (snd (upload_avatar demo_avatars 1 ''me.JPG'' (Some demo_picture) (demo_ann\<lparr>w_net := twelve @ [LostAck]\<rparr>))) = w_db w2"
    "w_files (snd (upload_avatar demo_avatars 1 ''me.JPG'' (Some demo_picture) (demo_ann\<lparr>w_net := twelve @ [LostAck]\<rparr>))) ?final = None"
    using q2(1) q [unfolded avatar_prefix_def, simplified]
    by (auto simp: upload_avatar_def andThen_def up(1) Let_def attempt_def throw_def best_effort_def remove_file_def
        local_call_def set_file_def net_pop_def)
  show ?thesis
  proof
    assume "avatars_ok demo_avatars (snd (upload_avatar demo_avatars 1 ''me.JPG'' (Some demo_picture)
      (demo_ann\<lparr>w_net := twelve @ [LostAck]\<rparr>)))"
    then show False using fin q2(2) by (simp add: avatars_ok_def demo_avatars_def)
  qed
qed

end
