(* ===== verification/Api.thy ===== *)
theory Api
  imports AuthService GroupService FriendService Avatar
begin

text \<open>
  The HTTP layer, \<open>internal/api\<close>: binding of requests, the handlers of accounts, friends, groups and
  avatars, the response envelope, and the router with its tables of public and protected routes. The
  web framework is the environment: a request arrives matched to a route, with its path parameters,
  its query and its decoded JSON body. Instants in bodies are parsed by an argument.
\<close>

subsection \<open>Requests\<close>

datatype json = JNull | JBool bool | JInt int | JStr string | JOther

text \<open>A missing body or one that is not a JSON object is \<open>None\<close>; absent parameters are empty texts.\<close>

record http_request =
  rq_auth :: string
  rq_params :: "string \<Rightarrow> string"
  rq_query :: "string \<Rightarrow> string option"
  rq_body :: "(string \<Rightarrow> json option) option"
  rq_size :: int
  rq_file :: "(string \<times> string) option"
  rq_opens :: bool

text \<open>Decoding one field of a struct: \<open>null\<close> and absence leave the zero value, \<open>None\<close> is a type error.\<close>

fun json_string :: "json option \<Rightarrow> string option" where
  "json_string None = Some []"
| "json_string (Some JNull) = Some []"
| "json_string (Some (JStr s)) = Some s"
| "json_string _ = None"

definition in_int64 :: "int \<Rightarrow> bool" where
  "in_int64 n \<longleftrightarrow> - (2 ^ 63) \<le> n \<and> n < 2 ^ 63"

fun json_int :: "json option \<Rightarrow> int option" where
  "json_int None = Some 0"
| "json_int (Some JNull) = Some 0"
| "json_int (Some (JInt n)) = (if in_int64 n then Some n else None)"
| "json_int _ = None"

fun json_int_pointer :: "json option \<Rightarrow> int option option" where
  "json_int_pointer None = Some None"
| "json_int_pointer (Some JNull) = Some None"
| "json_int_pointer (Some (JInt n)) = (if in_int64 n then Some (Some n) else None)"
| "json_int_pointer _ = None"

fun json_time_pointer :: "(string \<Rightarrow> int option) \<Rightarrow> json option \<Rightarrow> int option option" where
  "json_time_pointer parse None = Some None"
| "json_time_pointer parse (Some JNull) = Some None"
| "json_time_pointer parse (Some (JStr s)) = map_option Some (parse s)"
| "json_time_pointer parse _ = None"

text \<open>\<open>binding:"required"\<close> refuses the zero value.\<close>

definition required_string :: "json option \<Rightarrow> string option" where
  "required_string j = Option.bind (json_string j) (\<lambda>s. if s = [] then None else Some s)"

definition required_int :: "json option \<Rightarrow> int option" where
  "required_int j = Option.bind (json_int j) (\<lambda>n. if n = 0 then None else Some n)"

definition bind_two :: "string \<Rightarrow> string \<Rightarrow> (string \<Rightarrow> json option) \<Rightarrow> (string \<times> string) option" where
  "bind_two a b body = Option.bind (required_string (body a)) (\<lambda>x. map_option (Pair x) (required_string (body b)))"

definition bind_register :: "(string \<Rightarrow> json option) \<Rightarrow> (string \<times> string) option" where
  "bind_register = bind_two ''username'' ''password''"

definition bind_update_password :: "(string \<Rightarrow> json option) \<Rightarrow> (string \<times> string) option" where
  "bind_update_password = bind_two ''current_password'' ''new_password''"

definition bind_refresh :: "(string \<Rightarrow> json option) \<Rightarrow> string option" where
  "bind_refresh body = required_string (body ''refresh_token'')"

definition bind_update_username :: "(string \<Rightarrow> json option) \<Rightarrow> string option" where
  "bind_update_username body = required_string (body ''username'')"

definition bind_send_friend :: "(string \<Rightarrow> json option) \<Rightarrow> (int \<times> string) option" where
  "bind_send_friend body = Option.bind (required_int (body ''to_user_id'')) (\<lambda>n.
     map_option (Pair n) (json_string (body ''message'')))"

definition bind_friend_action :: "(string \<Rightarrow> json option) \<Rightarrow> int option" where
  "bind_friend_action body = required_int (body ''request_id'')"

definition bind_block_user :: "(string \<Rightarrow> json option) \<Rightarrow> int option" where
  "bind_block_user body = required_int (body ''blocked_id'')"

text \<open>\<open>CreateGroupRequest\<close> and \<open>UpdateGroupRequest\<close> have the same fields.\<close>

definition bind_group_profile :: "(string \<Rightarrow> json option) \<Rightarrow> (string \<times> string) option" where
  "bind_group_profile body = Option.bind (required_string (body ''name'')) (\<lambda>n.
     map_option (Pair n) (json_string (body ''notice'')))"

definition bind_member :: "(string \<Rightarrow> json option) \<Rightarrow> int option" where
  "bind_member body = required_int (body ''member_id'')"

definition bind_role :: "(string \<Rightarrow> json option) \<Rightarrow> int option" where
  "bind_role body = Option.bind (json_int_pointer (body ''role'')) id"

definition bind_mute :: "(string \<Rightarrow> int option) \<Rightarrow> (string \<Rightarrow> json option) \<Rightarrow> int option" where
  "bind_mute parse body = Option.bind (json_time_pointer parse (body ''muted_until'')) id"

definition bind_new_owner :: "(string \<Rightarrow> json option) \<Rightarrow> int option" where
  "bind_new_owner body = required_int (body ''new_owner_id'')"

text \<open>\<open>ShouldBindJSON\<close>, and the answer of every handler to its failure.\<close>

definition bind_json :: "http_request \<Rightarrow> ((string \<Rightarrow> json option) \<Rightarrow> 'a option) \<Rightarrow> 'a io" where
  "bind_json rq b = (case Option.bind (rq_body rq) b of None \<Rightarrow> throw (new_err CodeInvalidParam) | Some x \<Rightarrow> ret x)"

subsection \<open>Responses\<close>

record 'a page_response =
  pr_items :: "'a list"
  pr_total :: int
  pr_offset :: int
  pr_limit :: int
  pr_has_more :: bool

datatype reply =
    RegisterReply int string
  | LoginReply string string int string
  | RequestReply int int int int
  | AcceptReply int int
  | RequestsPage "friend_request page_response"
  | FriendsPage "friendship page_response"
  | GroupCreated int
  | GroupsReply "group list"
  | GroupReply group
  | MembersPage "group_member_item page_response"
  | UploadReply string string int
  | TodoReply string string

text \<open>The JSON envelope (status, code, message, data), a redirect, or the placeholder picture.\<close>

datatype response =
    Json int int string "reply option"
  | Redirect int string
  | Svg int string string

definition write_error :: "go_error \<Rightarrow> response" where
  "write_error err = (case from_err (Some err) of
      Some (AppErr code status msg cause) \<Rightarrow> Json status code msg None
    | _ \<Rightarrow> Json 500 CodeInternalFailure [] None)"

definition write_success :: "int \<Rightarrow> reply option \<Rightarrow> response" where
  "write_success status data = Json status CodeSuccess ''ok'' data"

definition todo_response :: "string \<Rightarrow> string \<Rightarrow> response" where
  "todo_response task feature = (case with_message CodeNotImplemented (''TODO['' @ task @ '']: '' @ feature) of
      AppErr code status msg cause \<Rightarrow> Json 501 code msg (Some (TodoReply task feature))
    | _ \<Rightarrow> Json 501 CodeNotImplemented [] None)"

text \<open>A handler: each early return writes its error, the end writes the result.\<close>

type_synonym handler = "http_request \<Rightarrow> int option \<Rightarrow> world \<Rightarrow> response \<times> world"

definition respond :: "int \<Rightarrow> ('a \<Rightarrow> reply option) \<Rightarrow> 'a io \<Rightarrow> world \<Rightarrow> response \<times> world" where
  "respond status reply_of m w = (case m w of
      (Inl e, w') \<Rightarrow> (write_error e, w')
    | (Inr x, w') \<Rightarrow> (write_success status (reply_of x), w'))"

subsection \<open>Parameters\<close>

text \<open>The user ID \<open>RequireAuth\<close> left in the context.\<close>

definition with_user :: "int option \<Rightarrow> (int \<Rightarrow> 'a io) \<Rightarrow> 'a io" where
  "with_user ctx f = (case current_user_id ctx of (uid, ok) \<Rightarrow>
     if ok then f uid else throw (new_err CodeUnauthorized))"

definition positive_path_id :: "http_request \<Rightarrow> string \<Rightarrow> int io" where
  "positive_path_id rq name = (case parse_int (rq_params rq name) of
      None \<Rightarrow> throw (new_err CodeInvalidParam)
    | Some v \<Rightarrow> if v \<le> 0 then throw (new_err CodeInvalidParam) else ret v)"

definition group_id_param :: "http_request \<Rightarrow> int io" where
  "group_id_param rq = positive_path_id rq ''groupID''"

definition defaultPageLimit :: int where "defaultPageLimit = 20"
definition maxPageLimit :: int where "maxPageLimit = 100"

definition parse_non_negative_query :: "http_request \<Rightarrow> string \<Rightarrow> int \<Rightarrow> int option" where
  "parse_non_negative_query rq name fallback = (case rq_query rq name of
      None \<Rightarrow> Some fallback
    | Some raw \<Rightarrow> if raw = [] then Some fallback
        else (case parse_int raw of None \<Rightarrow> None | Some v \<Rightarrow> if v < 0 then None else Some v))"

definition pagination :: "http_request \<Rightarrow> (int \<times> int) io" where
  "pagination rq = (case parse_non_negative_query rq ''limit'' defaultPageLimit of
      None \<Rightarrow> throw (with_message CodeInvalidParam ''limit must be between 1 and 100'')
    | Some limit \<Rightarrow>
        if limit = 0 \<or> maxPageLimit < limit then throw (with_message CodeInvalidParam ''limit must be between 1 and 100'')
        else (case parse_non_negative_query rq ''offset'' 0 of
            None \<Rightarrow> throw (with_message CodeInvalidParam ''offset must be a non-negative integer'')
          | Some offset \<Rightarrow> ret (limit, offset)))"

text \<open>The sum of offset and length is a 64-bit one.\<close>

definition page_response :: "'a page \<Rightarrow> 'a page_response" where
  "page_response p = \<lparr>pr_items = pg_items p, pr_total = pg_total p, pr_offset = pg_offset p, pr_limit = pg_limit p,
     pr_has_more = (sint (word_of_int (pg_offset p) + word_of_int (int (length (pg_items p))) :: int64) < pg_total p)\<rparr>"

subsection \<open>Accounts (\<open>auth_handler.go\<close>)\<close>

definition login_response :: "service_tokens \<Rightarrow> reply option" where
  "login_response r = Some (LoginReply (st_access r) (st_refresh r) (st_expires_in r) (st_avatar_url r))"

definition register_handler :: "auth_env \<Rightarrow> handler" where
  "register_handler env rq ctx = respond 201 (\<lambda>(uid, name). Some (RegisterReply uid name))
     (andThen (bind_json rq bind_register) (\<lambda>(username, password). auth_register env username password))"

definition login_handler :: "auth_env \<Rightarrow> manager \<Rightarrow> handler" where
  "login_handler env m rq ctx = respond 200 login_response
     (andThen (bind_json rq bind_register) (\<lambda>(username, password). auth_login env m username password))"

definition refresh_handler :: "auth_env \<Rightarrow> manager \<Rightarrow> handler" where
  "refresh_handler env m rq ctx = respond 200 login_response
     (andThen (bind_json rq bind_refresh) (auth_refresh env m))"

definition update_username_handler :: "auth_env \<Rightarrow> manager \<Rightarrow> handler" where
  "update_username_handler env m rq ctx = respond 200 login_response (with_user ctx (\<lambda>uid.
     andThen (bind_json rq bind_update_username) (auth_update_username env m uid)))"

definition update_password_handler :: "auth_env \<Rightarrow> handler" where
  "update_password_handler env rq ctx = respond 200 (\<lambda>_. None) (with_user ctx (\<lambda>uid.
     andThen (bind_json rq bind_update_password) (\<lambda>(current, new_password). auth_update_password env uid current new_password)))"

subsection \<open>Friends (\<open>friend_handler.go\<close>)\<close>

text \<open>\<open>err != nil || request.X <= 0\<close> after binding.\<close>

definition bind_positive :: "http_request \<Rightarrow> ((string \<Rightarrow> json option) \<Rightarrow> int option) \<Rightarrow> int io" where
  "bind_positive rq b = andThen (bind_json rq b) (\<lambda>n. if n \<le> 0 then throw (new_err CodeInvalidParam) else ret n)"

definition send_request_handler :: "friend_service \<Rightarrow> handler" where
  "send_request_handler s rq ctx = respond 201
     (\<lambda>r. Some (RequestReply (fr_id r) (fr_from r) (fr_to r) (fr_status r))) (with_user ctx (\<lambda>uid.
     andThen (bind_json rq bind_send_friend) (\<lambda>(to_user, message).
       if to_user \<le> 0 then throw (new_err CodeInvalidParam) else friend_send_request s uid to_user message)))"

definition list_requests_handler :: "friend_service \<Rightarrow> handler" where
  "list_requests_handler s rq ctx = respond 200 (\<lambda>p. Some (RequestsPage (page_response p))) (with_user ctx (\<lambda>uid.
     andThen (pagination rq) (\<lambda>(limit, offset). friend_list_requests s uid limit offset)))"

definition handle_request_action :: "friend_service \<Rightarrow> bool \<Rightarrow> handler" where
  "handle_request_action s accept rq ctx =
     respond 200 id (with_user ctx (\<lambda>uid.
       andThen (bind_positive rq bind_friend_action) (\<lambda>request_id.
         if accept then andThen (friend_accept_request s uid request_id)
             (\<lambda>r. ret (Some (AcceptReply (ar_user r) (ar_friend r))))
         else andThen (friend_reject_request s uid request_id) (\<lambda>_. ret None))))"

definition accept_request_handler :: "friend_service \<Rightarrow> handler" where
  "accept_request_handler s = handle_request_action s True"

definition reject_request_handler :: "friend_service \<Rightarrow> handler" where
  "reject_request_handler s = handle_request_action s False"

definition list_friends_handler :: "friend_service \<Rightarrow> handler" where
  "list_friends_handler s rq ctx = respond 200 (\<lambda>p. Some (FriendsPage (page_response p))) (with_user ctx (\<lambda>uid.
     andThen (pagination rq) (\<lambda>(limit, offset). friend_list_friends s uid limit offset)))"

definition delete_friend_handler :: "friend_service \<Rightarrow> handler" where
  "delete_friend_handler s rq ctx = respond 200 (\<lambda>_. None) (with_user ctx (\<lambda>uid.
     andThen (positive_path_id rq ''friendID'') (friend_delete s uid)))"

definition handle_block :: "friend_service \<Rightarrow> bool \<Rightarrow> handler" where
  "handle_block s block rq ctx = respond 200 (\<lambda>_. None) (with_user ctx (\<lambda>uid.
     andThen (bind_positive rq bind_block_user) (\<lambda>blocked_id.
       if block then friend_block s uid blocked_id else friend_unblock s uid blocked_id)))"

definition block_handler :: "friend_service \<Rightarrow> handler" where
  "block_handler s = handle_block s True"

definition unblock_handler :: "friend_service \<Rightarrow> handler" where
  "unblock_handler s = handle_block s False"

subsection \<open>Groups (\<open>group_handler.go\<close>)\<close>

definition create_group_handler :: "group_service \<Rightarrow> handler" where
  "create_group_handler s rq ctx = respond 201 (\<lambda>gid. Some (GroupCreated gid)) (with_user ctx (\<lambda>uid.
     andThen (bind_json rq bind_group_profile) (\<lambda>(name, notice). group_create s uid name notice)))"

definition list_groups_handler :: "group_service \<Rightarrow> handler" where
  "list_groups_handler s rq ctx = respond 200 (\<lambda>gs. Some (GroupsReply gs)) (with_user ctx (group_list_by_user s))"

definition get_group_handler :: "group_service \<Rightarrow> handler" where
  "get_group_handler s rq ctx = respond 200 (\<lambda>g. Some (GroupReply g)) (with_user ctx (\<lambda>uid.
     andThen (group_id_param rq) (group_get s uid)))"

definition update_group_handler :: "group_service \<Rightarrow> handler" where
  "update_group_handler s rq ctx = respond 200 (\<lambda>_. None) (with_user ctx (\<lambda>uid.
     andThen (group_id_param rq) (\<lambda>gid.
     andThen (bind_json rq bind_group_profile) (\<lambda>(name, notice). group_update s uid gid name notice))))"

definition add_member_handler :: "group_service \<Rightarrow> handler" where
  "add_member_handler s rq ctx = respond 200 (\<lambda>_. None) (with_user ctx (\<lambda>uid.
     andThen (group_id_param rq) (\<lambda>gid.
     andThen (bind_positive rq bind_member) (group_add_member s gid uid))))"

definition remove_member_handler :: "group_service \<Rightarrow> handler" where
  "remove_member_handler s rq ctx = respond 200 (\<lambda>_. None) (with_user ctx (\<lambda>uid.
     andThen (group_id_param rq) (\<lambda>gid.
     andThen (positive_path_id rq ''memberID'') (group_remove_member s gid uid))))"

definition list_members_handler :: "group_service \<Rightarrow> handler" where
  "list_members_handler s rq ctx = respond 200 (\<lambda>p. Some (MembersPage (page_response p))) (with_user ctx (\<lambda>uid.
     andThen (group_id_param rq) (\<lambda>gid.
     andThen (pagination rq) (\<lambda>(limit, offset). group_list_members s gid uid limit offset))))"

definition update_member_role_handler :: "group_service \<Rightarrow> handler" where
  "update_member_role_handler s rq ctx = respond 200 (\<lambda>_. None) (with_user ctx (\<lambda>uid.
     andThen (group_id_param rq) (\<lambda>gid.
     andThen (positive_path_id rq ''memberID'') (\<lambda>member.
     andThen (bind_json rq bind_role) (group_update_role s gid uid member)))))"

definition mute_member_handler :: "group_service \<Rightarrow> (string \<Rightarrow> int option) \<Rightarrow> handler" where
  "mute_member_handler s parse rq ctx = respond 200 (\<lambda>_. None) (with_user ctx (\<lambda>uid.
     andThen (group_id_param rq) (\<lambda>gid.
     andThen (positive_path_id rq ''memberID'') (\<lambda>member.
     andThen (bind_json rq (bind_mute parse)) (\<lambda>t. group_mute_member s gid uid member (Some t))))))"

definition unmute_member_handler :: "group_service \<Rightarrow> handler" where
  "unmute_member_handler s rq ctx = respond 200 (\<lambda>_. None) (with_user ctx (\<lambda>uid.
     andThen (group_id_param rq) (\<lambda>gid.
     andThen (positive_path_id rq ''memberID'') (\<lambda>member. group_mute_member s gid uid member None))))"

definition transfer_ownership_handler :: "group_service \<Rightarrow> handler" where
  "transfer_ownership_handler s rq ctx = respond 200 (\<lambda>_. None) (with_user ctx (\<lambda>uid.
     andThen (group_id_param rq) (\<lambda>gid.
     andThen (bind_positive rq bind_new_owner) (group_transfer_ownership s gid uid))))"

definition leave_group_handler :: "group_service \<Rightarrow> handler" where
  "leave_group_handler s rq ctx = respond 200 (\<lambda>_. None) (with_user ctx (\<lambda>uid.
     andThen (group_id_param rq) (\<lambda>gid. group_leave s gid uid)))"

definition disband_group_handler :: "group_service \<Rightarrow> handler" where
  "disband_group_handler s rq ctx = respond 200 (\<lambda>_. None) (with_user ctx (\<lambda>uid.
     andThen (group_id_param rq) (\<lambda>gid. group_disband s gid uid)))"

subsection \<open>Avatars (\<open>avatar_handler.go\<close>)\<close>

text \<open>\<open>strings.Contains\<close>.\<close>

fun contains :: "string \<Rightarrow> string \<Rightarrow> bool" where
  "contains [] sub = (sub = [])"
| "contains (c # cs) sub = (take (length sub) (c # cs) = sub \<or> contains cs sub)"

definition avatar_colors :: "string list" where
  "avatar_colors = [''#F44336'', ''#7E57C2'', ''#3F51B5'', ''#039BE5'', ''#00897B'', ''#43A047'', ''#FB8C00'', ''#6D4C41'']"

text \<open>\<open>html.EscapeString\<close>.\<close>

definition escape_html :: "string \<Rightarrow> string" where
  "escape_html s = concat (map (\<lambda>c. if c = CHR ''<'' then ''&lt;'' else if c = CHR ''>'' then ''&gt;''
     else if c = CHR ''&'' then ''&amp;'' else if c = CHR 0x27 then ''&#39;'' else if c = CHR 0x22 then ''&#34;'' else [c]) s)"

text \<open>The first rune of the name in upper case; \<open>upper\<close> is the Unicode table of \<open>strings.ToUpper\<close>.\<close>

definition avatar_label :: "(int \<Rightarrow> string) \<Rightarrow> string \<Rightarrow> string" where
  "avatar_label upper name = (case decode_rune name of (initial, _) \<Rightarrow>
     let label = upper initial in if initial = rune_error \<or> label = [] then ''?'' else label)"

text \<open>The picture is given by its colour and its text.\<close>

definition get_avatar_handler :: "(int \<Rightarrow> string) \<Rightarrow> handler" where
  "get_avatar_handler upper rq ctx w =
     (case andThen (positive_path_id rq ''userID'') (\<lambda>uid. andThen (get_avatar uid) (\<lambda>p. ret (uid, p))) w of
        (Inl e, w') \<Rightarrow> (write_error e, w')
      | (Inr (uid, p), w') \<Rightarrow>
          ((if take 17 (ap_avatar_url p) = ''/uploads/avatars/'' \<and> \<not> contains (ap_avatar_url p) ''..'' \<and>
               \<not> contains (ap_avatar_url p) [CHR 0x5C]
            then Redirect 302 (ap_avatar_url p)
            else Svg 200 (avatar_colors ! nat (uid mod 8)) (escape_html (avatar_label upper (ap_username p)))), w'))"

definition upload_avatar_handler :: "int \<Rightarrow> avatar_service \<Rightarrow> handler" where
  "upload_avatar_handler max_size_mb s rq ctx = respond 200
     (\<lambda>r. Some (UploadReply (up_url r) (up_file_path r) (up_size r))) (with_user ctx (\<lambda>uid.
     let max_size = (if max_size_mb \<le> 0 then 10 else max_size_mb) in
     if max_size * 1024 * 1024 + 1024 * 1024 < rq_size rq
     then throw (with_message CodeInvalidParam ''avatar request body is too large'')
     else (case rq_file rq of
         None \<Rightarrow> throw (with_message CodeMissingParam (''multipart field '' @ [CHR 0x27] @ ''file'' @ [CHR 0x27] @ '' is required''))
       | Some (name, content) \<Rightarrow>
           if \<not> rq_opens rq then throw (new_err CodeInvalidParam) else upload_avatar s uid name (Some content))))"

subsection \<open>The router (\<open>router.go\<close>)\<close>

text \<open>
  The route tables: method, path and task. The text of the feature, shown by a route without handler,
  is an argument of the router.
\<close>

definition publicRoutes :: "(string \<times> string \<times> string) list" where
  "publicRoutes = [
     (''POST'', ''/auth/register'', ''AUTH-001''),
     (''POST'', ''/auth/login'', ''AUTH-002''),
     (''POST'', ''/auth/refresh'', ''AUTH-003''),
     (''GET'', ''/avatar/:userID'', ''PROFILE-001'')]"

definition protectedRoutes :: "(string \<times> string \<times> string) list" where
  "protectedRoutes = [
     (''PUT'', ''/account/username'', ''AUTH-005''),
     (''PUT'', ''/account/password'', ''AUTH-006''),
     (''POST'', ''/friend/request'', ''FRIEND-001''),
     (''POST'', ''/friend/accept'', ''FRIEND-002''),
     (''POST'', ''/friend/reject'', ''FRIEND-002''),
     (''GET'', ''/friend/requests'', ''FRIEND-001''),
     (''GET'', ''/friend/list'', ''FRIEND-003''),
     (''DELETE'', ''/friend/:friendID'', ''FRIEND-003''),
     (''POST'', ''/friend/block'', ''FRIEND-004''),
     (''POST'', ''/friend/unblock'', ''FRIEND-004''),
     (''POST'', ''/group'', ''GROUP-001''),
     (''GET'', ''/group/list'', ''GROUP-001''),
     (''PUT'', ''/group/:groupID'', ''GROUP-001''),
     (''GET'', ''/group/:groupID'', ''GROUP-001''),
     (''POST'', ''/group/:groupID/member'', ''GROUP-002''),
     (''DELETE'', ''/group/:groupID/member/:memberID'', ''GROUP-002''),
     (''GET'', ''/group/:groupID/members'', ''GROUP-002''),
     (''PUT'', ''/group/:groupID/member/:memberID/role'', ''GROUP-003''),
     (''PUT'', ''/group/:groupID/member/:memberID/mute'', ''GROUP-003''),
     (''DELETE'', ''/group/:groupID/member/:memberID/mute'', ''GROUP-003''),
     (''PUT'', ''/group/:groupID/owner'', ''GROUP-004''),
     (''POST'', ''/group/:groupID/leave'', ''GROUP-004''),
     (''DELETE'', ''/group/:groupID'', ''GROUP-005''),
     (''POST'', ''/moment'', ''MOMENT-001''),
     (''GET'', ''/moment/:momentID'', ''MOMENT-001''),
     (''GET'', ''/moment/user/:userID'', ''MOMENT-001''),
     (''POST'', ''/moment/:momentID/like'', ''MOMENT-003''),
     (''DELETE'', ''/moment/:momentID/like'', ''MOMENT-003''),
     (''GET'', ''/moment/:momentID/likers'', ''MOMENT-003''),
     (''DELETE'', ''/moment/:momentID'', ''MOMENT-001''),
     (''POST'', ''/moment/:momentID/comment'', ''MOMENT-004''),
     (''DELETE'', ''/moment/comment/:commentID'', ''MOMENT-004''),
     (''GET'', ''/moment/feed'', ''MOMENT-002''),
     (''POST'', ''/msg/revoke'', ''MSG-005''),
     (''DELETE'', ''/msg/:msgID'', ''MSG-006''),
     (''GET'', ''/msg/search'', ''MSG-006''),
     (''GET'', ''/settings'', ''SETTINGS-001''),
     (''PUT'', ''/settings'', ''SETTINGS-001''),
     (''POST'', ''/settings/mute'', ''SETTINGS-002''),
     (''DELETE'', ''/settings/mute/:convID'', ''SETTINGS-002''),
     (''POST'', ''/upload/avatar'', ''UPLOAD-001'')]"

definition business_routes :: "(string \<times> string \<times> string) list" where
  "business_routes = publicRoutes @ protectedRoutes"

text \<open>The services are optional; without a verifier the protected routes stay closed.\<close>

record router_options =
  ro_auth :: "(auth_env \<times> manager) option"
  ro_verifier :: "(auth_env \<times> manager) option"
  ro_avatar :: "avatar_service option"
  ro_friend :: "friend_service option"
  ro_group :: "group_service option"
  ro_file_max_size_mb :: int
  ro_parse_time :: "string \<Rightarrow> int option"
  ro_upper :: "int \<Rightarrow> string"
  ro_feature :: "string \<times> string \<Rightarrow> string"

type_synonym route_key = "string \<times> string"

definition auth_handlers :: "auth_env \<times> manager \<Rightarrow> (route_key \<times> handler) list" where
  "auth_handlers a = (case a of (env, m) \<Rightarrow> [
     ((''POST'', ''/auth/register''), register_handler env),
     ((''POST'', ''/auth/login''), login_handler env m),
     ((''POST'', ''/auth/refresh''), refresh_handler env m),
     ((''PUT'', ''/account/username''), update_username_handler env m),
     ((''PUT'', ''/account/password''), update_password_handler env)])"

definition friend_handlers :: "friend_service \<Rightarrow> (route_key \<times> handler) list" where
  "friend_handlers s = [
     ((''POST'', ''/friend/request''), send_request_handler s),
     ((''POST'', ''/friend/accept''), accept_request_handler s),
     ((''POST'', ''/friend/reject''), reject_request_handler s),
     ((''GET'', ''/friend/requests''), list_requests_handler s),
     ((''GET'', ''/friend/list''), list_friends_handler s),
     ((''DELETE'', ''/friend/:friendID''), delete_friend_handler s),
     ((''POST'', ''/friend/block''), block_handler s),
     ((''POST'', ''/friend/unblock''), unblock_handler s)]"

definition group_handlers :: "(string \<Rightarrow> int option) \<Rightarrow> group_service \<Rightarrow> (route_key \<times> handler) list" where
  "group_handlers parse s = [
     ((''POST'', ''/group''), create_group_handler s),
     ((''GET'', ''/group/list''), list_groups_handler s),
     ((''GET'', ''/group/:groupID''), get_group_handler s),
     ((''PUT'', ''/group/:groupID''), update_group_handler s),
     ((''POST'', ''/group/:groupID/member''), add_member_handler s),
     ((''DELETE'', ''/group/:groupID/member/:memberID''), remove_member_handler s),
     ((''GET'', ''/group/:groupID/members''), list_members_handler s),
     ((''PUT'', ''/group/:groupID/member/:memberID/role''), update_member_role_handler s),
     ((''PUT'', ''/group/:groupID/member/:memberID/mute''), mute_member_handler s parse),
     ((''DELETE'', ''/group/:groupID/member/:memberID/mute''), unmute_member_handler s),
     ((''PUT'', ''/group/:groupID/owner''), transfer_ownership_handler s),
     ((''POST'', ''/group/:groupID/leave''), leave_group_handler s),
     ((''DELETE'', ''/group/:groupID''), disband_group_handler s)]"

definition avatar_handlers :: "router_options \<Rightarrow> (route_key \<times> handler) list" where
  "avatar_handlers opts = (case ro_avatar opts of None \<Rightarrow> [] | Some s \<Rightarrow> [
     ((''GET'', ''/avatar/:userID''), get_avatar_handler (ro_upper opts)),
     ((''POST'', ''/upload/avatar''), upload_avatar_handler (ro_file_max_size_mb opts) s)])"

definition handlers :: "router_options \<Rightarrow> (route_key \<times> handler) list" where
  "handlers opts = (case ro_auth opts of None \<Rightarrow> [] | Some a \<Rightarrow> auth_handlers a) @ avatar_handlers opts @
     (case ro_friend opts of None \<Rightarrow> [] | Some s \<Rightarrow> friend_handlers s) @
     (case ro_group opts of None \<Rightarrow> [] | Some s \<Rightarrow> group_handlers (ro_parse_time opts) s)"

text \<open>\<open>registerBusinessRoutes\<close>: the handler of the key, or the answer that the feature is missing.\<close>

definition business_handler :: "router_options \<Rightarrow> string \<times> string \<times> string \<Rightarrow> handler" where
  "business_handler opts route rq ctx w = (case route of (verb, path, task) \<Rightarrow>
     case map_of (handlers opts) (verb, path) of
       Some h \<Rightarrow> h rq ctx w
     | None \<Rightarrow> (todo_response task (ro_feature opts (verb, path)), w))"

text \<open>\<open>abortAuth\<close>.\<close>

definition abort_auth :: "int \<Rightarrow> response" where
  "abort_auth code = (case new_err code of AppErr c st m cause \<Rightarrow> Json 401 c m None | _ \<Rightarrow> Json 401 code [] None)"

definition protected_handler :: "router_options \<Rightarrow> string \<times> string \<times> string \<Rightarrow> http_request \<Rightarrow> world \<Rightarrow> response \<times> world" where
  "protected_handler opts route rq w = (case ro_verifier opts of
      None \<Rightarrow> (abort_auth CodeUnauthorized, w)
    | Some (env, m) \<Rightarrow> (case require_auth env m (rq_auth rq) w of
          (Inr (Inr (uid, name)), w') \<Rightarrow> business_handler opts route rq (Some uid) w'
        | (Inr (Inl code), w') \<Rightarrow> (abort_auth code, w')
        | (Inl e, w') \<Rightarrow> (abort_auth CodeInvalidToken, w')))"

text \<open>A request to a registered business route.\<close>

definition serve :: "router_options \<Rightarrow> string \<times> string \<times> string \<Rightarrow> http_request \<Rightarrow> world \<Rightarrow> response \<times> world" where
  "serve opts route rq w =
     (if route \<in> set publicRoutes then business_handler opts route rq None w
      else if route \<in> set protectedRoutes then protected_handler opts route rq w
      else (Json 404 404 ''not found'' None, w))"

end
