(* ===== verification/ApiProps.thy ===== *)
theory ApiProps
  imports Api AuthDemo
begin

text \<open>What the HTTP layer guarantees: closed routes, and answers taken from the catalogue.\<close>

subsection \<open>Errors of the catalogue\<close>

text \<open>An application error found in it has a code of the catalogue with the status listed there.\<close>

definition listed :: "int \<Rightarrow> int \<Rightarrow> bool" where
  "listed code status \<longleftrightarrow> (case definition_for code of None \<Rightarrow> False | Some (st, m) \<Rightarrow> st = status)"

definition catalogued :: "go_error \<Rightarrow> bool" where
  "catalogued e \<longleftrightarrow> (case as_app e of Some (AppErr c st m cause) \<Rightarrow> listed c st | _ \<Rightarrow> True)"

definition clean :: "'a io \<Rightarrow> bool" where
  "clean p \<longleftrightarrow> (\<forall>w e w'. p w = (Inl e, w') \<longrightarrow> catalogued e)"

named_theorems clean_rules

lemma listed_wrap: "wrap_code code cause = AppErr c st m cause' \<Longrightarrow> listed c st"
  by (auto simp: wrap_code_def listed_def definition_for_internal split: option.splits prod.splits)

lemma catalogued_wrap_code [clean_rules]: "catalogued (wrap_code code cause)"
  using wrap_code_shape [of code cause] by (auto simp: catalogued_def listed_wrap)

lemma catalogued_new_err [clean_rules]: "catalogued (new_err code)"
  unfolding new_err_def by (rule catalogued_wrap_code)

lemma catalogued_with_message [clean_rules]: "catalogued (with_message code msg)"
proof -
  obtain c st m where "new_err code = AppErr c st m None" using wrap_code_shape [of code None] by (auto simp: new_err_def)
  then show ?thesis using listed_wrap [of code None c st m None] by (simp add: catalogued_def with_message_def new_err_def)
qed

lemma catalogued_plain [clean_rules]:
  "catalogued (Sentinel s)" "catalogued (DriverErr n)" "catalogued (PlainErr m)" "catalogued remote_err"
  "catalogued e \<Longrightarrow> catalogued (WrapErr m e)"
  by (simp_all add: catalogued_def remote_err_def)

lemma as_app_shape:
  "as_app e = Some a \<Longrightarrow> \<exists>c st m cause. a = AppErr c st m cause"
  and as_app_list_shape: "as_app_list es = Some a \<Longrightarrow> \<exists>c st m cause. a = AppErr c st m cause"
  by (induction e and es rule: as_app_as_app_list.induct) (auto split: option.splits)

lemma as_app_app:
  "as_app e = Some a \<Longrightarrow> as_app a = Some a" and as_app_list_app: "as_app_list es = Some a \<Longrightarrow> as_app a = Some a"
  by (induction e and es rule: as_app_as_app_list.induct) (auto split: option.splits)

lemma catalogued_service_errors [clean_rules]:
  "catalogued e \<Longrightarrow> catalogued (group_service_error e)" "catalogued e \<Longrightarrow> catalogued (friend_service_error e)"
  "catalogued (internal_failure e)" "catalogued e \<Longrightarrow> catalogued (map_mysql_error e)"
proof -
  note kept = as_app_app [of e]
  show "catalogued e \<Longrightarrow> catalogued (group_service_error e)" "catalogued e \<Longrightarrow> catalogued (friend_service_error e)"
    using kept catalogued_wrap_code
    by (cases "as_app e"; simp add: group_service_error_def friend_service_error_def catalogued_def)+
  show "catalogued (internal_failure e)" unfolding internal_failure_def by (rule catalogued_wrap_code)
  show "catalogued e \<Longrightarrow> catalogued (map_mysql_error e)"
    by (simp add: map_mysql_error_def catalogued_def)
qed

text \<open>Combinators.\<close>

lemma clean_combinators [clean_rules]:
  "clean (ret x)" "catalogued e \<Longrightarrow> clean (throw e)" "clean (attempt q)" "clean (best_effort q)"
  "catalogued e \<Longrightarrow> clean (require b e)" "clean now" "clean p \<Longrightarrow> clean (remote p)"
  by (auto simp: clean_def io_simps ret_def attempt_def best_effort_def now_def remote_def Let_def catalogued_plain
      split: net_outcome.splits prod.splits)

lemma clean_andThen [clean_rules]: "clean p \<Longrightarrow> (\<And>x. clean (f x)) \<Longrightarrow> clean (andThen p f)"
  unfolding clean_def by (simp add: io_simps) blast

lemma clean_on_error [clean_rules]: "clean p \<Longrightarrow> (\<And>e. catalogued e \<Longrightarrow> catalogued (g e)) \<Longrightarrow> clean (on_error g p)"
  unfolding clean_def by (auto simp: io_simps)

lemma clean_when_ok [clean_rules]: "clean p \<Longrightarrow> clean (when_ok b p)"
  by (simp add: when_ok_def clean_combinators)

lemma clean_for_each [clean_rules]: "(\<And>x. clean (f x)) \<Longrightarrow> clean (for_each f xs)"
  by (induction xs) (simp_all add: clean_combinators clean_andThen)

lemma catalogued_join: "catalogued e \<Longrightarrow> catalogued (JoinErr [e, WrapErr m remote_err])"
  by (cases "as_app e") (simp_all add: catalogued_def remote_err_def)

lemma clean_tx [clean_rules]: "clean p \<Longrightarrow> clean (tx_block report what p)"
  unfolding clean_def
  by (auto simp: tx_block_def catalogued_plain intro!: catalogued_join split: net_outcome.splits prod.splits sum.splits if_splits)

lemma clean_if [clean_rules]: "(b \<Longrightarrow> clean p) \<Longrightarrow> (\<not> b \<Longrightarrow> clean q) \<Longrightarrow> clean (if b then p else q)"
  by simp

lemma catalogued_if [clean_rules]:
  "(b \<Longrightarrow> catalogued p) \<Longrightarrow> (\<not> b \<Longrightarrow> catalogued q) \<Longrightarrow> catalogued (if b then p else q)"
  by simp

lemma clean_cases [clean_rules]:
  "clean a \<Longrightarrow> (\<And>y. clean (b y)) \<Longrightarrow> clean (case x of None \<Rightarrow> a | Some y \<Rightarrow> b y)"
  "(\<And>y z. clean (f y z)) \<Longrightarrow> clean (case r of (y, z) \<Rightarrow> f y z)"
  "(\<And>y. clean (g y)) \<Longrightarrow> clean (Let v g)"
  by (auto split: option.split prod.split)

lemma clean_sum: "(\<And>e. r = Inl e \<Longrightarrow> clean (h e)) \<Longrightarrow> (\<And>y. clean (k y)) \<Longrightarrow> clean (case r of Inl e \<Rightarrow> h e | Inr y \<Rightarrow> k y)"
  by (auto split: sum.split)

lemma clean_statements [clean_rules]: "clean (query f)" "clean (exec g)" "clean (exec_count h)" "clean (insert_row c a d i)"
  unfolding query_def exec_def exec_count_def insert_row_def
  by (intro clean_rules; auto simp: clean_def Let_def catalogued_plain split: if_splits prod.splits)+

lemma clean_store [clean_rules]: "clean (kv a)" "clean (kv_read b)" "clean (kv_write c)" "clean random_token"
  unfolding kv_read_def kv_write_def kv_def random_token_def
  by (intro clean_rules; auto simp: clean_def Let_def split: prod.splits)+

subsection \<open>The statements\<close>

lemma clean_shared [clean_rules]:
  "clean (enqueue_cache_reconcile r i)" "clean (is_friend_pair a b)" "clean (lock_user what a)" "clean (require_one_affected op n)"
  unfolding enqueue_cache_reconcile_def insert_event_def is_friend_pair_def lock_user_def require_one_affected_def
  by (assumption | rule clean_rules)+

lemma clean_lock_users [clean_rules]: "clean (lock_users what a b)"
  unfolding lock_users_def by (intro clean_rules)

lemma clean_group_statements [clean_rules]:
  "clean (lock_group_users a b)" "clean (lock_group_creator a)" "clean (get_group_for_update i)" "clean (get_group_by_id i)"
  "clean (create_group g)" "clean (update_group_owner i a)" "clean (update_group_profile i n t)" "clean (delete_group i)"
  "clean (upsert_group_tombstone i a)" "clean (is_group_tombstoned i)" "clean (get_group_member i a)"
  "clean (get_group_member_for_update i a)" "clean (add_group_member m)" "clean (remove_group_member i a)"
  "clean (delete_group_members i)" "clean (update_group_member_role i a r)" "clean (update_group_member_mute i a u)"
  "clean (get_group_members i)" "clean (count_group_members i)" "clean (list_group_members_page i l off)"
  "clean (list_groups_by_user a)"
  unfolding lock_group_users_def lock_group_creator_def get_group_for_update_def get_group_by_id_def create_group_def
    update_group_owner_def update_group_profile_def delete_group_def upsert_group_tombstone_def is_group_tombstoned_def
    get_group_member_def get_group_member_for_update_def add_group_member_def remove_group_member_def
    delete_group_members_def update_group_member_role_def update_group_member_mute_def get_group_members_def
    count_group_members_def list_group_members_page_def list_groups_by_user_def
  by (assumption | rule clean_rules)+

lemma clean_friend_statements [clean_rules]:
  "clean (lock_friend_users a b)" "clean (get_friend_user_profile a)" "clean (is_either_blocked a b)"
  "clean (find_pending_friend_request a b)" "clean (save_friend_request q)" "clean (get_friend_request i)"
  "clean (get_friend_request_for_update i)" "clean (set_friend_request_status i st)"
  "clean (invalidate_accepted_friend_requests a b)" "clean (reject_pending_friend_requests a b)"
  "clean (list_incoming_friend_requests a l off)" "clean (count_incoming_friend_requests a)"
  "clean (ensure_friendship_pair a b)" "clean (delete_friendship_pair a b)" "clean (list_friendships_page a l off)"
  "clean (count_friendships a)" "clean (add_blacklist_entry e)" "clean (remove_blacklist_entry a b)"
  unfolding lock_friend_users_def get_friend_user_profile_def is_either_blocked_def find_pending_friend_request_def
    save_friend_request_def get_friend_request_def get_friend_request_for_update_def set_friend_request_status_def
    invalidate_accepted_friend_requests_def reject_pending_friend_requests_def update_pair_status_def
    list_incoming_friend_requests_def count_incoming_friend_requests_def ensure_friendship_pair_def
    delete_friendship_pair_def list_friendships_page_def count_friendships_def add_blacklist_entry_def remove_blacklist_entry_def
  by (assumption | rule clean_rules)+

lemma clean_update_users [clean_rules]: "clean (update_users dup uid f)"
  unfolding update_users_def
  by (intro clean_rules; auto simp: clean_def catalogued_plain split: if_splits prod.splits)

lemma clean_user_statements [clean_rules]:
  "clean (get_user_by_id i)" "clean (get_user_by_username same n)" "clean (create_user same u)"
  "clean (update_username same i n n')" "clean (update_password_hash i h)" "clean (update_avatar_url i url)"
  unfolding get_user_by_id_def get_user_by_username_def create_user_def update_username_def update_password_hash_def
    update_avatar_url_def affected_or_not_found_def
  by (assumption | rule clean_rules)+

subsection \<open>The services\<close>

lemma clean_refused [clean_rules]:
  "(\<And>y. clean (k y)) \<Longrightarrow> clean (case normalize_group_profile a b of Inl e \<Rightarrow> throw e | Inr y \<Rightarrow> k y)"
  "(\<And>y. clean (k' y)) \<Longrightarrow> clean (case normalize_group_member_page l off of Inl e \<Rightarrow> throw e | Inr y \<Rightarrow> k' y)"
  "(\<And>y. clean (k' y)) \<Longrightarrow> clean (case normalize_friend_page l off of Inl e \<Rightarrow> throw e | Inr y \<Rightarrow> k' y)"
  "(\<And>y. clean (k'' y)) \<Longrightarrow> clean (case normalize_friend_message a of Inl e \<Rightarrow> throw e | Inr y \<Rightarrow> k'' y)"
  by (rule clean_sum;
      auto simp: normalize_group_profile_def normalize_group_member_page_def normalize_friend_page_def
        normalize_friend_message_def Let_def clean_combinators catalogued_with_message split: if_splits)+

lemma clean_group_helpers [clean_rules]:
  "clean (normalize_group_mute_deadline d)" "clean (refresh_group_member_cache s i)" "clean (notify_group_user s i ty q)"
  unfolding normalize_group_mute_deadline_def refresh_group_member_cache_def notify_group_user_def
  by (assumption | rule clean_rules)+

lemma clean_notify_members [clean_rules]: "clean (notify_current_group_members s i ty q fb)"
  unfolding notify_current_group_members_def by (assumption | rule clean_rules)+

lemma clean_group_service [clean_rules]:
  "clean (group_create s a n t)" "clean (group_add_member s i a b)" "clean (group_remove_member s i a b)"
  "clean (group_update_role s i a b r)" "clean (group_mute_member s i a b d)" "clean (group_transfer_ownership s i a b)"
  "clean (group_leave s i a)" "clean (group_disband s i a)" "clean (group_update s a i n t)"
  "clean (group_list_members s i a l off)" "clean (group_list_by_user s a)" "clean (group_get s a i)"
  unfolding group_create_def group_create_body_def group_add_member_def group_add_member_body_def group_remove_member_def
    group_remove_member_body_def group_update_role_def group_update_role_body_def group_mute_member_def group_mute_body_def
    group_transfer_ownership_def group_transfer_body_def group_leave_def group_leave_body_def group_disband_def
    group_disband_body_def group_update_def group_update_body_def group_list_members_def group_list_members_body_def
    group_list_by_user_def group_get_def
  by (assumption | rule clean_rules)+

lemma clean_friend_helpers [clean_rules]:
  "clean (write_cache s f)" "clean (friend_notify s a ty q)" "clean (enqueue_friend_pair_reconcile a b)"
  unfolding write_cache_def friend_notify_def enqueue_friend_pair_reconcile_def
  by (assumption | rule clean_rules)+

lemma clean_friend_service [clean_rules]:
  "clean (friend_send_request s a b msg)" "clean (friend_accept_request s a i)" "clean (friend_reject_request s a i)"
  "clean (friend_delete s a b)" "clean (friend_block s a b)" "clean (friend_unblock s a b)"
  "clean (friend_list_requests s a l off)" "clean (friend_list_friends s a l off)"
  unfolding friend_send_request_def send_request_body_def friend_accept_request_def accept_request_body_def
    friend_reject_request_def reject_request_body_def friend_delete_def delete_friend_body_def friend_block_def block_body_def
    friend_unblock_def unblock_body_def friend_list_requests_def friend_list_friends_def
  by (assumption | rule clean_rules | rule clean_sum)+

lemma clean_tokens [clean_rules]:
  "clean random_id" "clean (sign_claims env m c)" "clean (parse_token env m raw ty)"
  unfolding random_id_def sign_claims_def parse_token_def ErrInvalidToken_def
  by (assumption | rule clean_rules)+

lemma clean_issue [clean_rules]: "clean (issue_pair env m a n f)"
  unfolding issue_pair_def by (assumption | rule clean_rules)+

lemma clean_sessions [clean_rules]:
  "clean (store_refresh_session r ttl)" "clean (rotate_refresh_session old r ttl)" "clean (revoke_user_refresh_sessions a)"
  unfolding store_refresh_session_def rotate_refresh_session_def effective_ttl_def rotate_begin_def check_session_def rotate_commit_def
    revoke_user_refresh_sessions_def revoke_begin_def revoke_commit_def
  by (assumption | rule clean_rules)+

lemma clean_credentials [clean_rules]:
  "clean (lift_sum (validate_username n))" "clean (lift_error (validate_password p))" "clean (generate_hash env p)"
  unfolding generate_hash_def
  by (auto simp: lift_sum_def lift_error_def validate_username_def validate_password_def Let_def clean_combinators
      catalogued_with_message catalogued_new_err) ((assumption | rule clean_rules)+)

lemma clean_pairs [clean_rules]: "clean (new_pair env m u f)"
  unfolding new_pair_def by (assumption | rule clean_rules)+

lemma clean_auth_service [clean_rules]:
  "clean (auth_register env n p)" "clean (auth_login env m n p)" "clean (auth_refresh env m raw)"
  "clean (auth_update_username env m a n)" "clean (auth_update_password env a p q)"
  unfolding auth_register_def auth_login_def issue_and_store_def auth_refresh_def parse_refresh_def auth_update_username_def
    auth_update_password_def
  by (assumption | rule clean_rules)+

lemma clean_os [clean_rules]: "clean os_call" "clean (put_file path c)" "clean (remove_file path)" "clean (rename_file path path')"
  unfolding os_call_def put_file_def remove_file_def rename_file_def
  by (auto simp: clean_def local_call_def catalogued_plain split: if_splits)

lemma clean_join [clean_rules]:
  "(\<And>y. clean (k y)) \<Longrightarrow> clean (case safe_join root child of Inl e \<Rightarrow> throw (internal_failure e) | Inr y \<Rightarrow> k y)"
  by (rule clean_sum) (simp_all add: clean_combinators catalogued_service_errors)

lemma clean_attempted:
  assumes "clean q" "\<And>x. clean (k x)" "\<And>e. catalogued e \<Longrightarrow> clean (h e)"
  shows "clean (andThen (attempt q) (\<lambda>r. case r of Inl e \<Rightarrow> h e | Inr x \<Rightarrow> k x))"
proof -
  have "catalogued e'" if r: "andThen (attempt q) (\<lambda>r. case r of Inl e \<Rightarrow> h e | Inr x \<Rightarrow> k x) w = (Inl e', w')" for w e' w'
  proof -
    obtain r w1 where q: "q w = (r, w1)" by fastforce
    show ?thesis
    proof (cases r)
      case (Inl e)
      then have "catalogued e" using assms(1) q by (auto simp: clean_def)
      moreover have "h e w1 = (Inl e', w')" using r by (simp add: andThen_def attempt_def q Inl)
      ultimately show ?thesis using assms(3) unfolding clean_def by blast
    next
      case (Inr x)
      then have "k x w1 = (Inl e', w')" using r by (simp add: andThen_def attempt_def q)
      then show ?thesis using assms(2) unfolding clean_def by blast
    qed
  qed
  then show ?thesis unfolding clean_def by blast
qed

lemma clean_avatar_helpers [clean_rules]:
  "clean (avatar_user uid)" "clean (fill_temporary s tmp content)" "clean (secure_filename ext)" "clean (get_avatar uid)"
  unfolding avatar_user_def fill_temporary_def secure_filename_def get_avatar_def
  by (assumption | rule clean_rules)+

lemma clean_store_picture [clean_rules]: "clean (store_picture s dir final content)"
  unfolding store_picture_def by (assumption | rule clean_attempted | rule clean_rules)+

lemma clean_write_picture [clean_rules]: "clean (write_picture s ext content)"
  unfolding write_picture_def by (assumption | rule clean_rules)+

lemma clean_avatar_service [clean_rules]:
  "clean (upload_picture s uid original source)" "clean (upload_avatar s uid original source)"
  unfolding upload_avatar_def upload_picture_def by (assumption | rule clean_attempted | rule clean_rules)+

subsection \<open>The handlers\<close>

text \<open>
  An answer of the API: success with code 0 and status 200 or 201, an error with a code of the
  catalogue and its status, a redirect to an uploaded avatar or the placeholder picture.
\<close>

fun proper :: "response \<Rightarrow> bool" where
  "proper (Json status code msg data) =
     (if code = CodeSuccess then status \<in> {200, 201} \<and> msg = ''ok'' else listed code status)"
| "proper (Redirect status url) = (status = 302 \<and> take 17 url = ''/uploads/avatars/'' \<and> \<not> contains url ''..'')"
| "proper (Svg status colour label) = (status = 200 \<and> colour \<in> set avatar_colors)"

lemma listed_nonzero: "listed code st \<Longrightarrow> code \<noteq> CodeSuccess"
  unfolding listed_def definition_for_def catalog_def app_codes by auto

lemma write_error_proper: "catalogued e \<Longrightarrow> proper (write_error e)"
proof -
  assume e: "catalogued e"
  show "proper (write_error e)"
  proof (cases "as_app e")
    case None
    obtain st m where "wrap_code CodeInternalFailure (Some e) = AppErr CodeInternalFailure st m (Some e)"
      by (simp add: wrap_code_def definition_for_internal)
    then show ?thesis using listed_wrap [of CodeInternalFailure "Some e"] listed_nonzero
      by (auto simp: write_error_def from_err_def None)
  next
    case (Some a)
    then obtain c st m cause where a: "a = AppErr c st m cause" using as_app_shape by blast
    then show ?thesis using e listed_nonzero by (auto simp: write_error_def from_err_def catalogued_def Some)
  qed
qed

lemma respond_proper: "clean p \<Longrightarrow> st \<in> {200, 201} \<Longrightarrow> proper (fst (respond st f p w))"
  unfolding respond_def write_success_def clean_def
  by (cases "p w"; cases "fst (p w)"; auto intro!: write_error_proper)

lemma clean_parameters [clean_rules]:
  "clean (bind_json rq b)" "clean (positive_path_id rq n)" "clean (group_id_param rq)" "clean (pagination rq)"
  "(\<And>a. clean (f a)) \<Longrightarrow> clean (with_user ctx f)"
  unfolding bind_json_def group_id_param_def positive_path_id_def pagination_def with_user_def
  by (assumption | rule clean_rules)+

lemma clean_bind_positive [clean_rules]: "clean (bind_positive rq b)"
  unfolding bind_positive_def by (assumption | rule clean_rules)+

definition proper_handler :: "handler \<Rightarrow> bool" where
  "proper_handler h \<longleftrightarrow> (\<forall>rq ctx w. proper (fst (h rq ctx w)))"

lemma proper_respond: "(\<And>rq ctx. clean (p rq ctx)) \<Longrightarrow> st \<in> {200, 201} \<Longrightarrow>
    proper_handler (\<lambda>rq ctx. respond st f (p rq ctx))"
  unfolding proper_handler_def by (intro allI respond_proper)

lemma auth_handlers_proper: "(key, h) \<in> set (auth_handlers a) \<Longrightarrow> proper_handler h"
proof -
  have "proper_handler (register_handler env)" "proper_handler (login_handler env m)" "proper_handler (refresh_handler env m)"
    "proper_handler (update_username_handler env m)" "proper_handler (update_password_handler env)" for env m
    unfolding register_handler_def login_handler_def refresh_handler_def update_username_handler_def update_password_handler_def
    by (rule proper_respond, (assumption | rule clean_rules)+, simp)+
  then show "(key, h) \<in> set (auth_handlers a) \<Longrightarrow> proper_handler h" by (auto simp: auth_handlers_def split: prod.splits)
qed

lemma friend_handlers_proper: "(key, h) \<in> set (friend_handlers s) \<Longrightarrow> proper_handler h"
proof -
  have "proper_handler (send_request_handler s)" "proper_handler (list_requests_handler s)"
    "proper_handler (list_friends_handler s)" "proper_handler (delete_friend_handler s)"
    "proper_handler (handle_request_action s b)" "proper_handler (handle_block s b)" for b
    unfolding send_request_handler_def list_requests_handler_def list_friends_handler_def delete_friend_handler_def
      handle_request_action_def handle_block_def
    by (rule proper_respond, (assumption | rule clean_rules)+, simp)+
  then show "(key, h) \<in> set (friend_handlers s) \<Longrightarrow> proper_handler h"
    by (auto simp: friend_handlers_def accept_request_handler_def reject_request_handler_def block_handler_def unblock_handler_def)
qed

lemma group_handlers_proper: "(key, h) \<in> set (group_handlers parse s) \<Longrightarrow> proper_handler h"
proof -
  have "proper_handler (create_group_handler s)" "proper_handler (list_groups_handler s)" "proper_handler (get_group_handler s)"
    "proper_handler (update_group_handler s)" "proper_handler (add_member_handler s)" "proper_handler (remove_member_handler s)"
    "proper_handler (list_members_handler s)" "proper_handler (update_member_role_handler s)"
    "proper_handler (mute_member_handler s parse)" "proper_handler (unmute_member_handler s)"
    "proper_handler (transfer_ownership_handler s)" "proper_handler (leave_group_handler s)"
    "proper_handler (disband_group_handler s)"
    unfolding create_group_handler_def list_groups_handler_def get_group_handler_def update_group_handler_def
      add_member_handler_def remove_member_handler_def list_members_handler_def update_member_role_handler_def
      mute_member_handler_def unmute_member_handler_def transfer_ownership_handler_def leave_group_handler_def
      disband_group_handler_def
    by (rule proper_respond, (assumption | rule clean_rules)+, simp)+
  then show "(key, h) \<in> set (group_handlers parse s) \<Longrightarrow> proper_handler h" by (auto simp: group_handlers_def)
qed

lemma avatar_handlers_proper: "(key, h) \<in> set (avatar_handlers opts) \<Longrightarrow> proper_handler h"
proof -
  have "proper_handler (upload_avatar_handler mx s)" for mx s
    unfolding upload_avatar_handler_def
    by (rule proper_respond, (assumption | rule clean_rules)+, simp)
  moreover have "proper_handler (get_avatar_handler upper)" for upper
    unfolding proper_handler_def
  proof (intro allI)
    fix rq ctx and w :: world
    define q where "q = andThen (positive_path_id rq ''userID'') (\<lambda>uid. andThen (get_avatar uid) (\<lambda>p. ret (uid, p)))"
    have q: "clean q" unfolding q_def by (assumption | rule clean_rules)+
    have colour: "avatar_colors ! nat (uid mod 8) \<in> set avatar_colors" for uid :: int
      by (rule nth_mem) (simp add: avatar_colors_def nat_less_iff)
    obtain r w1 where r: "q w = (r, w1)" by fastforce
    have refused: "r = Inl e \<Longrightarrow> proper (write_error e)" for e
      using q r write_error_proper unfolding clean_def by blast
    show "proper (fst (get_avatar_handler upper rq ctx w))"
      unfolding get_avatar_handler_def q_def [symmetric] r using refused colour
      by (auto split: sum.split)
  qed
  ultimately show "(key, h) \<in> set (avatar_handlers opts) \<Longrightarrow> proper_handler h"
    by (auto simp: avatar_handlers_def split: option.splits)
qed

lemma handlers_proper: "map_of (handlers opts) key = Some h \<Longrightarrow> proper_handler h"
proof -
  assume "map_of (handlers opts) key = Some h"
  then have "(key, h) \<in> set (handlers opts)" by (rule map_of_SomeD)
  then consider a where "(key, h) \<in> set (auth_handlers a)" | "(key, h) \<in> set (avatar_handlers opts)"
    | s where "(key, h) \<in> set (friend_handlers s)" | s where "(key, h) \<in> set (group_handlers (ro_parse_time opts) s)"
    unfolding handlers_def by (auto split: option.splits)
  then show "proper_handler h"
    by cases (rule auth_handlers_proper avatar_handlers_proper friend_handlers_proper group_handlers_proper, assumption)+
qed

lemma todo_proper: "proper (todo_response task feature)"
  by (simp add: todo_response_def with_message_def new_err_def wrap_code_def listed_def definition_for_def catalog_def app_codes)

lemma abort_proper: "code \<in> {CodeUnauthorized, CodeInvalidToken} \<Longrightarrow> proper (abort_auth code)"
proof -
  have "proper (abort_auth CodeUnauthorized)" "proper (abort_auth CodeInvalidToken)" by code_simp+
  then show "code \<in> {CodeUnauthorized, CodeInvalidToken} \<Longrightarrow> proper (abort_auth code)" by blast
qed

lemma business_proper: "proper (fst (business_handler opts route rq ctx w))"
  using handlers_proper by (auto simp: business_handler_def proper_handler_def todo_proper split: prod.split option.split)

lemma require_auth_codes: "require_auth env m h w = (r, w') \<Longrightarrow> r \<in> Inr ` (Inl ` {CodeUnauthorized, CodeInvalidToken} \<union> range Inr)"
  by (auto simp: require_auth_def Let_def ret_def andThen_def attempt_def split: if_splits prod.splits sum.splits)

lemma protected_proper: "proper (fst (protected_handler opts route rq w))"
proof (cases "ro_verifier opts")
  case None
  then show ?thesis by (simp add: protected_handler_def abort_proper)
next
  case (Some v)
  obtain env m where v: "v = (env, m)" by fastforce
  obtain r w' where r: "require_auth env m (rq_auth rq) w = (r, w')" by fastforce
  from require_auth_codes [OF r] show ?thesis
    by (auto simp: protected_handler_def Some v r abort_proper business_proper)
qed

text \<open>
  C39. Every answer of a business route follows the envelope, for every request and whatever calls to
  MySQL, Redis or the file system fail: success has code 0 with status 200 or 201, every other JSON
  answer has a code of the error catalogue with the status listed for it, also where no handler is
  installed and where the token is refused, a redirect leads to an uploaded avatar, and a picture has
  one of the eight colours.
\<close>

theorem api_answers_proper:
  assumes "route \<in> set business_routes"
  shows "proper (fst (serve opts route rq w))"
  using assms by (auto simp: serve_def business_routes_def business_proper protected_proper)

subsection \<open>The guard of the protected routes\<close>

text \<open>Every handler hangs on a route of the tables, each key names one route, and no protected route is public.\<close>

definition key_of :: "string \<times> string \<times> string \<Rightarrow> route_key" where
  "key_of route = (fst route, fst (snd route))"

lemma route_keys_distinct: "distinct (map key_of business_routes)"
  by code_simp

lemma protected_not_public: "route \<in> set protectedRoutes \<Longrightarrow> route \<notin> set publicRoutes"
  using route_keys_distinct by (auto simp: business_routes_def)

lemma handlers_reachable: "key \<in> fst ` set (handlers opts) \<Longrightarrow> key \<in> key_of ` set business_routes"
  by (auto simp: handlers_def auth_handlers_def avatar_handlers_def friend_handlers_def group_handlers_def
      business_routes_def publicRoutes_def protectedRoutes_def key_of_def split: option.splits)

text \<open>Only clock readings separate two worlds.\<close>

definition same_state :: "world \<Rightarrow> world \<Rightarrow> bool" where
  "same_state w w' \<longleftrightarrow> w' = w\<lparr>w_clock := w_clock w', w_ticks := w_ticks w'\<rparr>"

definition accepted_bearer :: "auth_env \<Rightarrow> manager \<Rightarrow> string \<Rightarrow> world \<Rightarrow> claims \<Rightarrow> bool" where
  "accepted_bearer env m header w c \<longleftrightarrow> (\<exists>scheme raw. go_fields (trim_space header) = [scheme, raw] \<and>
     equal_fold scheme ''Bearer'' \<and> fst (parse_access env m raw w) = Inr c)"

lemma parse_access_state: "same_state w (snd (parse_access env m raw w))"
  by (auto simp: same_state_def parse_access_def parse_token_def andThen_def now_def Let_def throw_def ret_def
      split: option.split)

lemma two_parts: "length xs = 2 \<Longrightarrow> xs = [hd xs, xs ! 1]"
  by (cases xs) (auto simp: length_Suc_conv numeral_2_eq_2)

lemma require_auth_accepts:
  assumes "require_auth env m h w = (r, w')"
  shows "same_state w w' \<and> (\<forall>uid name. r = Inr (Inr (uid, name)) \<longrightarrow>
    (\<exists>c. accepted_bearer env m h w c \<and> cl_user_id c = uid \<and> cl_username c = name))"
proof -
  define raw where "raw = go_fields (trim_space h) ! 1"
  obtain q w1 where q: "parse_access env m raw w = (q, w1)" by fastforce
  have same: "same_state w w" "same_state w w1" using parse_access_state [of w env m raw] q by (simp_all add: same_state_def)
  show ?thesis
  proof (cases "trim_space h = [] \<or> length (go_fields (trim_space h)) \<noteq> 2 \<or>
      \<not> equal_fold (hd (go_fields (trim_space h))) ''Bearer'' \<or> raw = []")
    case True
    then have "w' = w" "\<forall>x. r \<noteq> Inr (Inr x)"
      using assms unfolding require_auth_def Let_def ret_def raw_def by (auto split: if_splits)
    then show ?thesis using same by blast
  next
    case False
    have run: "(r, w') = (case q of Inl e \<Rightarrow> (Inr (Inl CodeInvalidToken), w1)
        | Inr c \<Rightarrow> (Inr (Inr (cl_user_id c, cl_username c)), w1))"
      using assms False unfolding require_auth_def Let_def raw_def [symmetric] andThen_def attempt_def q
      by (auto simp: ret_def q split: sum.splits)
    have "accepted_bearer env m h w c" if "q = Inr c" for c
      unfolding accepted_bearer_def using two_parts [of "go_fields (trim_space h)"] False q that raw_def by fastforce
    then show ?thesis using run same by (auto split: sum.splits)
  qed
qed

text \<open>
  C38. A protected route acts for nobody but the owner of an accepted access token: either the request
  carries a bearer token that \<open>ParseAccess\<close> accepts at that moment, and the installed handler runs with
  the user ID of its claims, or the answer is 401 and nothing but the clock has moved. A router without
  verifier answers every protected route that way.
\<close>

theorem protected_routes_guarded:
  assumes "route \<in> set protectedRoutes" "serve opts route rq w = (resp, w')"
  shows "(\<exists>env m c w1. ro_verifier opts = Some (env, m) \<and> accepted_bearer env m (rq_auth rq) w c \<and> same_state w w1 \<and>
      (resp, w') = business_handler opts route rq (Some (cl_user_id c)) w1) \<or>
    (\<exists>code\<in>{CodeUnauthorized, CodeInvalidToken}. resp = abort_auth code \<and> same_state w w')"
proof (cases "ro_verifier opts")
  case None
  then show ?thesis using assms protected_not_public by (auto simp: serve_def protected_handler_def same_state_def)
next
  case (Some v)
  obtain env m where v: "v = (env, m)" by fastforce
  obtain r w1 where r: "require_auth env m (rq_auth rq) w = (r, w1)" by fastforce
  have run: "serve opts route rq w = protected_handler opts route rq w"
    using assms(1) protected_not_public by (auto simp: serve_def)
  note facts = require_auth_accepts [OF r] require_auth_codes [OF r]
  show ?thesis
  proof (cases "\<exists>uid name. r = Inr (Inr (uid, name))")
    case True
    then obtain uid name where ok: "r = Inr (Inr (uid, name))" by blast
    then have "(resp, w') = business_handler opts route rq (Some uid) w1"
      using assms(2) by (simp add: run protected_handler_def Some v r)
    then show ?thesis using facts(1) Some v ok by blast
  next
    case False
    then obtain code where "r = Inr (Inl code)" "code \<in> {CodeUnauthorized, CodeInvalidToken}"
      using facts(2) by fastforce
    then show ?thesis using assms(2) facts(1) by (auto simp: run protected_handler_def Some v r)
  qed
qed

subsection \<open>Concrete requests\<close>

definition demo_router :: router_options where
  "demo_router = \<lparr>ro_auth = Some (demo_env, demo_manager), ro_verifier = Some (demo_env, demo_manager),
     ro_avatar = Some (new_avatar_service [''srv''] 10 []),
     ro_friend = Some \<lparr>sv_cache = None, sv_notifier = None, sv_presence = None\<rparr>,
     ro_group = Some \<lparr>gs_cache = None, gs_notifier = None\<rparr>, ro_file_max_size_mb = 10,
     ro_parse_time = (\<lambda>_. None), ro_upper = (\<lambda>r. [char_of (nat r)]), ro_feature = (\<lambda>_. [])\<rparr>"

definition demo_access :: string where
  "demo_access = the (demo_sign [] \<lparr>cl_user_id = 7, cl_username = ''ann'', cl_token_type = TokenTypeAccess, cl_family_id = [],
     cl_issuer = ''my-im'', cl_subject = ''7'', cl_id = ''j'', cl_issued_at = 0, cl_expires_at = 9\<rparr>)"

definition demo_http :: "string \<Rightarrow> http_request" where
  "demo_http token = \<lparr>rq_auth = ''Bearer '' @ token, rq_params = (\<lambda>_. []), rq_query = (\<lambda>_. None), rq_body = None,
     rq_size = 0, rq_file = None, rq_opens = False\<rparr>"

theorem api_answers_proper_witness:
  "proper (fst (serve demo_router (''POST'', ''/auth/login'', ''AUTH-002'') (demo_http []) empty_world)) \<and>
   fst (serve demo_router (''POST'', ''/auth/login'', ''AUTH-002'') (demo_http []) empty_world) =
     Json 400 CodeInvalidParam ''invalid parameter'' None"
proof -
  have "fst (serve demo_router (''POST'', ''/auth/login'', ''AUTH-002'') (demo_http []) empty_world) =
     Json 400 CodeInvalidParam ''invalid parameter'' None" by code_simp
  then show ?thesis
    using api_answers_proper [of "(''POST'', ''/auth/login'', ''AUTH-002'')" demo_router "demo_http []" empty_world]
    by (simp add: business_routes_def publicRoutes_def)
qed

theorem protected_routes_guarded_witness:
  "(\<exists>c w1. accepted_bearer demo_env demo_manager (rq_auth (demo_http demo_access)) empty_world c \<and>
     serve demo_router (''GET'', ''/group/list'', ''GROUP-001'') (demo_http demo_access) empty_world =
       business_handler demo_router (''GET'', ''/group/list'', ''GROUP-001'') (demo_http demo_access) (Some (cl_user_id c)) w1) \<and>
   fst (serve demo_router (''GET'', ''/group/list'', ''GROUP-001'') (demo_http demo_access) empty_world) =
     Json 200 CodeSuccess ''ok'' (Some (GroupsReply []))"
proof -
  let ?r = "(''GET'', ''/group/list'', ''GROUP-001'')"
  let ?run = "serve demo_router ?r (demo_http demo_access) empty_world"
  have route: "?r \<in> set protectedRoutes" by (simp add: protectedRoutes_def)
  have resp: "fst ?run = Json 200 CodeSuccess ''ok'' (Some (GroupsReply []))" by code_simp
  have "abort_auth CodeUnauthorized \<noteq> Json 200 CodeSuccess ''ok'' (Some (GroupsReply []))"
    "abort_auth CodeInvalidToken \<noteq> Json 200 CodeSuccess ''ok'' (Some (GroupsReply []))" by code_simp+
  then have "\<not> (\<exists>code\<in>{CodeUnauthorized, CodeInvalidToken}. fst ?run = abort_auth code \<and> same_state empty_world (snd ?run))"
    unfolding resp by (metis insertE singletonD)
  then obtain env m c w1 where c: "ro_verifier demo_router = Some (env, m)"
      "accepted_bearer env m (rq_auth (demo_http demo_access)) empty_world c"
      "(fst ?run, snd ?run) = business_handler demo_router ?r (demo_http demo_access) (Some (cl_user_id c)) w1"
    using protected_routes_guarded [OF route, of demo_router "demo_http demo_access" empty_world "fst ?run" "snd ?run"]
    unfolding prod.collapse by blast
  have "env = demo_env \<and> m = demo_manager" using c(1) by (simp add: demo_router_def)
  then show ?thesis using c(2,3) resp unfolding prod.collapse by blast
qed

end
