(* ===== verification/Config.thy ===== *)
theory Config
  imports MessageId Token
begin

text \<open>
  \<open>internal/config\<close>: the configuration, its defaults and its validation, and what
  \<open>cmd/server/main.go\<close> computes from it for the token manager and the message IDs. The YAML decoder,
  with the expansion of environment variables before it, is the environment: it hands over the decoded
  sections or an error.
\<close>

record app_config =
  ap_name :: string
  ap_environment :: string
  ap_auto_migrate :: bool
  ap_migration_dir :: string

record server_config =
  se_port :: int
  se_ws_path :: string
  se_upload_dir :: string
  se_frontend_dir :: string
  se_allowed_origins :: "string list"
  se_read_header_timeout_ms :: int
  se_shutdown_timeout_ms :: int

record mysql_config =
  my_host :: string
  my_port :: int
  my_user :: string
  my_password :: string
  my_db_name :: string
  my_connect_timeout_ms :: int
  my_query_timeout_ms :: int
  my_max_open_conns :: int
  my_max_idle_conns :: int
  my_conn_max_lifetime_ms :: int
  my_conn_max_idle_time_ms :: int

record redis_config =
  rd_addr :: string
  rd_password :: string
  rd_db :: int
  rd_dial_timeout_ms :: int
  rd_read_timeout_ms :: int
  rd_write_timeout_ms :: int
  rd_pool_size :: int
  rd_min_idle_conns :: int
  rd_health_timeout_ms :: int

record rabbitmq_config =
  rq_url :: string
  rq_connect_timeout_ms :: int
  rq_publish_timeout_ms :: int
  rq_retry_count :: int
  rq_retry_backoff_ms :: int
  rq_health_timeout_ms :: int

record observability_config =
  ob_log_level :: string
  ob_metrics_path :: string
  ob_pprof_addr :: string

record jwt_config =
  jw_secret :: string
  jw_issuer :: string
  jw_access_exp_hours :: int
  jw_refresh_exp_days :: int

record file_config =
  fi_max_size_mb :: int
  fi_allowed_exts :: "string list"

record moment_config =
  mo_big_user_friend_threshold :: int
  mo_timeline_max_len :: int
  mo_like_persist_batch_size :: int
  mo_like_persist_flush_ms :: int
  mo_like_cache_ttl_hours :: int

record config =
  cf_app :: app_config
  cf_server :: server_config
  cf_mysql :: mysql_config
  cf_segment_size :: int
  cf_redis :: redis_config
  cf_rabbitmq :: rabbitmq_config
  cf_observability :: observability_config
  cf_jwt :: jwt_config
  cf_file :: file_config
  cf_moment :: moment_config

subsection \<open>Defaults\<close>

definition unless_empty :: "string \<Rightarrow> string \<Rightarrow> string" where
  "unless_empty fallback s = (if s = [] then fallback else s)"

definition unless_zero :: "int \<Rightarrow> int \<Rightarrow> int" where
  "unless_zero fallback n = (if n = 0 then fallback else n)"

definition if_positive :: "int \<Rightarrow> int \<Rightarrow> int" where
  "if_positive fallback n = (if n \<le> 0 then fallback else n)"

definition default_app :: "app_config \<Rightarrow> app_config" where
  "default_app c = c\<lparr>ap_name := unless_empty ''my-im'' (ap_name c),
     ap_environment := unless_empty ''development'' (ap_environment c),
     ap_migration_dir := unless_empty ''scripts/migrations'' (ap_migration_dir c)\<rparr>"

definition default_server :: "server_config \<Rightarrow> server_config" where
  "default_server c = c\<lparr>se_port := unless_zero 18080 (se_port c), se_ws_path := unless_empty ''/ws'' (se_ws_path c),
     se_upload_dir := unless_empty ''./uploads'' (se_upload_dir c),
     se_read_header_timeout_ms := if_positive 5000 (se_read_header_timeout_ms c),
     se_shutdown_timeout_ms := if_positive 10000 (se_shutdown_timeout_ms c)\<rparr>"

definition default_mysql :: "mysql_config \<Rightarrow> mysql_config" where
  "default_mysql c = c\<lparr>my_port := unless_zero 3306 (my_port c),
     my_connect_timeout_ms := if_positive 3000 (my_connect_timeout_ms c),
     my_query_timeout_ms := if_positive 3000 (my_query_timeout_ms c),
     my_max_open_conns := if_positive 50 (my_max_open_conns c),
     my_max_idle_conns := if_positive 10 (my_max_idle_conns c),
     my_conn_max_lifetime_ms := if_positive 300000 (my_conn_max_lifetime_ms c),
     my_conn_max_idle_time_ms := if_positive 60000 (my_conn_max_idle_time_ms c)\<rparr>"

definition default_redis :: "redis_config \<Rightarrow> redis_config" where
  "default_redis c = c\<lparr>rd_dial_timeout_ms := if_positive 3000 (rd_dial_timeout_ms c),
     rd_read_timeout_ms := if_positive 2000 (rd_read_timeout_ms c),
     rd_write_timeout_ms := if_positive 2000 (rd_write_timeout_ms c), rd_pool_size := if_positive 20 (rd_pool_size c),
     rd_min_idle_conns := (if rd_min_idle_conns c < 0 then 0 else rd_min_idle_conns c),
     rd_health_timeout_ms := if_positive 1000 (rd_health_timeout_ms c)\<rparr>"

definition default_rabbitmq :: "rabbitmq_config \<Rightarrow> rabbitmq_config" where
  "default_rabbitmq c = c\<lparr>rq_connect_timeout_ms := if_positive 5000 (rq_connect_timeout_ms c),
     rq_publish_timeout_ms := if_positive 3000 (rq_publish_timeout_ms c), rq_retry_count := if_positive 3 (rq_retry_count c),
     rq_retry_backoff_ms := if_positive 200 (rq_retry_backoff_ms c), rq_health_timeout_ms := if_positive 1000 (rq_health_timeout_ms c)\<rparr>"

definition default_observability :: "observability_config \<Rightarrow> observability_config" where
  "default_observability c = c\<lparr>ob_log_level := unless_empty ''info'' (ob_log_level c),
     ob_metrics_path := unless_empty ''/metrics'' (ob_metrics_path c)\<rparr>"

definition default_jwt :: "jwt_config \<Rightarrow> jwt_config" where
  "default_jwt c = c\<lparr>jw_issuer := unless_empty ''my-im'' (jw_issuer c),
     jw_access_exp_hours := if_positive 2 (jw_access_exp_hours c), jw_refresh_exp_days := if_positive 7 (jw_refresh_exp_days c)\<rparr>"

definition default_file :: "file_config \<Rightarrow> file_config" where
  "default_file c = c\<lparr>fi_max_size_mb := if_positive 50 (fi_max_size_mb c),
     fi_allowed_exts := (if fi_allowed_exts c = [] then [''jpg'', ''jpeg'', ''png'', ''gif'', ''webp''] else fi_allowed_exts c)\<rparr>"

definition default_moment :: "moment_config \<Rightarrow> moment_config" where
  "default_moment c = c\<lparr>mo_big_user_friend_threshold := if_positive 500 (mo_big_user_friend_threshold c),
     mo_timeline_max_len := if_positive 1000 (mo_timeline_max_len c),
     mo_like_persist_batch_size := if_positive 200 (mo_like_persist_batch_size c),
     mo_like_persist_flush_ms := if_positive 500 (mo_like_persist_flush_ms c),
     mo_like_cache_ttl_hours := if_positive 168 (mo_like_cache_ttl_hours c)\<rparr>"

definition apply_defaults :: "config \<Rightarrow> config" where
  "apply_defaults c = \<lparr>cf_app = default_app (cf_app c), cf_server = default_server (cf_server c),
     cf_mysql = default_mysql (cf_mysql c), cf_segment_size = unless_zero 65536 (cf_segment_size c),
     cf_redis = default_redis (cf_redis c), cf_rabbitmq = default_rabbitmq (cf_rabbitmq c),
     cf_observability = default_observability (cf_observability c), cf_jwt = default_jwt (cf_jwt c),
     cf_file = default_file (cf_file c), cf_moment = default_moment (cf_moment c)\<rparr>"

subsection \<open>Validation\<close>

text \<open>The required fields, in the sorted order of the message.\<close>

definition required_fields :: "config \<Rightarrow> (string \<times> string) list" where
  "required_fields c = [(''app.name'', ap_name (cf_app c)), (''mysql.db_name'', my_db_name (cf_mysql c)),
     (''mysql.host'', my_host (cf_mysql c)), (''mysql.user'', my_user (cf_mysql c)),
     (''rabbitmq.url'', rq_url (cf_rabbitmq c)), (''redis.addr'', rd_addr (cf_redis c))]"

definition missing_fields :: "config \<Rightarrow> string list" where
  "missing_fields c = map fst (filter (\<lambda>f. trim_space (snd f) = []) (required_fields c))"

fun join_texts :: "string \<Rightarrow> string list \<Rightarrow> string" where
  "join_texts sep [] = []"
| "join_texts sep [x] = x"
| "join_texts sep (x # y # xs) = x @ sep @ join_texts sep (y # xs)"

definition validate :: "config \<Rightarrow> go_error option" where
  "validate c =
     (if missing_fields c \<noteq> [] then Some (PlainErr (''required fields are empty: '' @ join_texts '', '' (missing_fields c)))
      else if my_max_open_conns (cf_mysql c) < my_max_idle_conns (cf_mysql c)
        then Some (PlainErr ''mysql.max_idle_conns must not exceed max_open_conns'')
      else if cf_segment_size c < 1 \<or> 1000000 < cf_segment_size c
        then Some (PlainErr ''message_id.segment_size must be between 1 and 1000000'')
      else if take 1 (se_ws_path (cf_server c)) \<noteq> ''/'' \<or> take 1 (ob_metrics_path (cf_observability c)) \<noteq> ''/''
        then Some (PlainErr ''server.ws_path and observability.metrics_path must start with /'')
      else if length (jw_secret (cf_jwt c)) < 32 then Some (PlainErr ''jwt.secret must contain at least 32 characters'')
      else if trim_space (jw_issuer (cf_jwt c)) = [] then Some (PlainErr ''jwt.issuer must not be empty'')
      else None)"

definition load_config :: "go_error + (go_error + config) \<Rightarrow> go_error + config" where
  "load_config source = (case source of
      Inl e \<Rightarrow> Inl (WrapErr ''read config'' e)
    | Inr (Inl e) \<Rightarrow> Inl (WrapErr ''parse config'' e)
    | Inr (Inr raw) \<Rightarrow> (case validate (apply_defaults raw) of
        Some e \<Rightarrow> Inl (WrapErr ''validate config'' e) | None \<Rightarrow> Inr (apply_defaults raw)))"

subsection \<open>What the server makes of it\<close>

text \<open>\<open>time.Duration\<close> arithmetic on 64 bits.\<close>

definition milliseconds :: "int \<Rightarrow> int" where
  "milliseconds v = sint (word_of_int v * 1000000 :: int64)"

definition access_ttl :: "config \<Rightarrow> int" where
  "access_ttl c = sint (word_of_int (jw_access_exp_hours (cf_jwt c)) * 3600000000000 :: int64)"

definition refresh_ttl :: "config \<Rightarrow> int" where
  "refresh_ttl c = sint (word_of_int (jw_refresh_exp_days (cf_jwt c)) * 24 * 3600000000000 :: int64)"

definition token_manager :: "config \<Rightarrow> go_error + manager" where
  "token_manager c = new_manager (jw_secret (cf_jwt c)) (jw_issuer (cf_jwt c)) (access_ttl c) (refresh_ttl c)"

definition message_ids :: "config \<Rightarrow> go_error + generator" where
  "message_ids c = new_generator False (word_of_int (cf_segment_size c))"

subsection \<open>Facts\<close>

lemma defaults_once: "apply_defaults (apply_defaults c) = apply_defaults c"
  by (simp add: apply_defaults_def default_app_def default_server_def default_mysql_def default_redis_def default_rabbitmq_def
      default_observability_def default_jwt_def default_file_def default_moment_def unless_empty_def unless_zero_def if_positive_def)

lemma sint_small: "- (2 ^ 63) \<le> n \<Longrightarrow> n < 2 ^ 63 \<Longrightarrow> sint (word_of_int n :: int64) = n"
  by (simp add: signed_of_int signed_take_bit_int_eq_self)

lemma ttl_exact:
  assumes "0 < n" "n * k < 2 ^ 63" "0 < k"
  shows "sint (word_of_int n * word_of_int k :: int64) = n * k"
proof -
  have "0 \<le> n * k" using assms by simp
  then have "- (2 ^ 63) \<le> n * k" by simp
  from sint_small [OF this assms(2)] show ?thesis by (simp only: wi_hom_mult)
qed

text \<open>
  A configuration that \<open>Load\<close> accepts is one the server can start with, if its token lifetimes fit
  into 64-bit durations: the token manager is created with exactly the configured lifetimes, the
  generator of message IDs with the configured segment size, the pools hold at least one connection and
  no more idle than open ones, and every timeout is positive.
\<close>

theorem loaded_config_starts:
  assumes load: "load_config source = Inr c"
    and fits: "jw_access_exp_hours (cf_jwt c) \<le> 2562047" "jw_refresh_exp_days (cf_jwt c) \<le> 106751"
  shows "token_manager c = Inr \<lparr>tm_secret = jw_secret (cf_jwt c), tm_issuer = jw_issuer (cf_jwt c),
        tm_access_ttl = jw_access_exp_hours (cf_jwt c) * 3600 * second, tm_refresh_ttl = jw_refresh_exp_days (cf_jwt c) * 86400 * second\<rparr> \<and>
     (\<exists>g. message_ids c = Inr g \<and> sint (gen_segment_size g) = cf_segment_size c \<and> 1 \<le> cf_segment_size c) \<and>
     0 < my_max_open_conns (cf_mysql c) \<and> my_max_idle_conns (cf_mysql c) \<le> my_max_open_conns (cf_mysql c) \<and>
     0 < my_query_timeout_ms (cf_mysql c) \<and> 0 < rd_pool_size (cf_redis c) \<and> 0 < rq_retry_count (cf_rabbitmq c) \<and>
     0 < se_shutdown_timeout_ms (cf_server c) \<and> 0 < fi_max_size_mb (cf_file c)"
proof -
  obtain raw where c: "c = apply_defaults raw" and ok: "validate c = None"
    using load by (auto simp: load_config_def split: sum.splits option.splits)
  have v: "my_max_idle_conns (cf_mysql c) \<le> my_max_open_conns (cf_mysql c)" "1 \<le> cf_segment_size c" "cf_segment_size c \<le> 1000000"
    "32 \<le> length (jw_secret (cf_jwt c))" "trim_space (jw_issuer (cf_jwt c)) \<noteq> []"
    using ok by (auto simp: validate_def split: if_splits)
  have p: "0 < jw_access_exp_hours (cf_jwt c)" "0 < jw_refresh_exp_days (cf_jwt c)" "0 < my_max_open_conns (cf_mysql c)"
    "0 < my_query_timeout_ms (cf_mysql c)" "0 < rd_pool_size (cf_redis c)" "0 < rq_retry_count (cf_rabbitmq c)"
    "0 < se_shutdown_timeout_ms (cf_server c)" "0 < fi_max_size_mb (cf_file c)"
    by (simp_all add: c apply_defaults_def default_jwt_def default_mysql_def default_redis_def default_rabbitmq_def
        default_server_def default_file_def if_positive_def)
  have ttl: "access_ttl c = jw_access_exp_hours (cf_jwt c) * 3600 * second" "refresh_ttl c = jw_refresh_exp_days (cf_jwt c) * 86400 * second"
    using ttl_exact [of "jw_access_exp_hours (cf_jwt c)" 3600000000000] ttl_exact [of "jw_refresh_exp_days (cf_jwt c)" 86400000000000] p(1,2) fits
    by (simp_all add: access_ttl_def refresh_ttl_def second_def mult.assoc)
  have g: "sint (word_of_int (cf_segment_size c) :: int64) = cf_segment_size c" "(word_of_int (cf_segment_size c) :: int64) \<noteq> 0"
    using sint_small [of "cf_segment_size c"] v(2,3) by (simp_all, metis not_one_le_zero signed_0)
  then have "message_ids c = Inr \<lparr>gen_segment_size = word_of_int (cf_segment_size c), gen_next = 0, gen_last = 0\<rparr>"
    using v(2,3) by (simp add: message_ids_def new_generator_def sint_sizes Let_def)
  moreover have "token_manager c = Inr \<lparr>tm_secret = jw_secret (cf_jwt c), tm_issuer = jw_issuer (cf_jwt c),
      tm_access_ttl = access_ttl c, tm_refresh_ttl = refresh_ttl c\<rparr>"
    using v(4,5) p(1,2) by (simp add: token_manager_def new_manager_def ttl second_def)
  ultimately show ?thesis using p v g(1) by (simp add: ttl)
qed

text \<open>Beyond that bound the lifetime wraps around: 5124096 hours become 25 minutes.\<close>

lemma access_ttl_wraps: "jw_access_exp_hours (cf_jwt c) = 5124096 \<Longrightarrow> access_ttl c = 1526290448384"
  by (simp add: access_ttl_def)

definition demo_config :: config where
  "demo_config = \<lparr>cf_app = \<lparr>ap_name = [], ap_environment = [], ap_auto_migrate = True, ap_migration_dir = []\<rparr>,
     cf_server = \<lparr>se_port = 0, se_ws_path = [], se_upload_dir = [], se_frontend_dir = [], se_allowed_origins = [],
       se_read_header_timeout_ms = 0, se_shutdown_timeout_ms = 0\<rparr>,
     cf_mysql = \<lparr>my_host = ''db'', my_port = 0, my_user = ''im'', my_password = [], my_db_name = ''im'', my_connect_timeout_ms = 0,
       my_query_timeout_ms = 0, my_max_open_conns = 0, my_max_idle_conns = 0, my_conn_max_lifetime_ms = 0, my_conn_max_idle_time_ms = 0\<rparr>,
     cf_segment_size = 0,
     cf_redis = \<lparr>rd_addr = ''cache'', rd_password = [], rd_db = 0, rd_dial_timeout_ms = 0, rd_read_timeout_ms = 0,
       rd_write_timeout_ms = 0, rd_pool_size = 0, rd_min_idle_conns = 0, rd_health_timeout_ms = 0\<rparr>,
     cf_rabbitmq = \<lparr>rq_url = ''amqp'', rq_connect_timeout_ms = 0, rq_publish_timeout_ms = 0, rq_retry_count = 0,
       rq_retry_backoff_ms = 0, rq_health_timeout_ms = 0\<rparr>,
     cf_observability = \<lparr>ob_log_level = [], ob_metrics_path = [], ob_pprof_addr = []\<rparr>,
     cf_jwt = \<lparr>jw_secret = replicate 32 (CHR ''s''), jw_issuer = [], jw_access_exp_hours = 0, jw_refresh_exp_days = 0\<rparr>,
     cf_file = \<lparr>fi_max_size_mb = 0, fi_allowed_exts = []\<rparr>,
     cf_moment = \<lparr>mo_big_user_friend_threshold = 0, mo_timeline_max_len = 0, mo_like_persist_batch_size = 0,
       mo_like_persist_flush_ms = 0, mo_like_cache_ttl_hours = 0\<rparr>\<rparr>"

theorem loaded_config_starts_witness:
  "\<exists>c m. load_config (Inr (Inr demo_config)) = Inr c \<and> token_manager c = Inr m \<and> tm_access_ttl m = 7200 * second \<and>
     cf_segment_size c = 65536"
proof -
  let ?c = "apply_defaults demo_config"
  have "validate ?c = None" by code_simp
  then have load: "load_config (Inr (Inr demo_config)) = Inr ?c" by (simp add: load_config_def)
  have f: "jw_access_exp_hours (cf_jwt ?c) = 2" "jw_refresh_exp_days (cf_jwt ?c) = 7" "cf_segment_size ?c = 65536"
    by (simp_all add: demo_config_def apply_defaults_def default_jwt_def if_positive_def unless_zero_def)
  show ?thesis using loaded_config_starts [OF load] load f by auto
qed

text \<open>
  A configuration that sets only a small \<open>max_open_conns\<close> is refused: the default of \<open>max_idle_conns\<close> is
  filled in first and exceeds it.
\<close>

definition small_pool :: config where
  "small_pool = demo_config\<lparr>cf_mysql := (cf_mysql demo_config)\<lparr>my_max_open_conns := 5\<rparr>\<rparr>"

theorem small_pool_refused:
  "load_config (Inr (Inr small_pool)) = Inl (WrapErr ''validate config'' (PlainErr ''mysql.max_idle_conns must not exceed max_open_conns''))"
proof -
  have "validate (apply_defaults small_pool) = Some (PlainErr ''mysql.max_idle_conns must not exceed max_open_conns'')" by code_simp
  then show ?thesis by (simp add: load_config_def)
qed

end
