(* ===== verification/Publisher.thy ===== *)
theory Publisher
  imports World GoText
begin

text \<open>
  \<open>infra/rabbitmq.go\<close> and \<open>repository/rabbit_publisher.go\<close>: publishing with broker confirms over one
  channel. The broker answers every message in order, with a return for one that no queue takes and
  then a confirmation; the frames that were not read yet stay on the channel. A script says how each
  call to the broker ends.
\<close>

definition PrivateMessageQueue :: string where "PrivateMessageQueue = ''private_msg_persist''"
definition GroupMessageQueue :: string where "GroupMessageQueue = ''group_msg_fanout''"
definition MomentPushQueue :: string where "MomentPushQueue = ''moment_push''"
definition LikePersistQueue :: string where "LikePersistQueue = ''like_persist''"

datatype frame = BasicReturn | Confirmation bool

text \<open>
  What becomes of one \<open>PublishWithContext\<close>, and of one round of waiting. A write fails with or without
  closing the channel; when it closes it, the message may have reached the queue.
\<close>

datatype publish_outcome = Routed | Unroutable | Nacked | WriteFails bool bool
datatype wait_outcome = Delivered | TimedOut | ChannelCloses

text \<open>
  The client with its broker: the messages that reached a queue, those that were written, the frames
  to be read on the channel (\<open>None\<close> when it is closed or absent), and the script.
\<close>

record amqp =
  mq_queued :: "(string \<times> string) list"
  mq_written :: "(string \<times> string) list"
  mq_channel :: "frame list option"
  mq_closed :: bool
  mq_connects :: "bool list"
  mq_publishes :: "publish_outcome list"
  mq_waits :: "wait_outcome list"
  mq_cancels :: "bool list"

definition next_of :: "'a \<Rightarrow> 'a list \<Rightarrow> 'a" where
  "next_of usual xs = (case xs of [] \<Rightarrow> usual | x # _ \<Rightarrow> x)"

definition connect :: "amqp \<Rightarrow> go_error option \<times> amqp" where
  "connect b = (if mq_closed b then (Some (PlainErr ''rabbitmq client is closed''), b)
     else if next_of True (mq_connects b) then (None, b\<lparr>mq_channel := Some [], mq_connects := tl (mq_connects b)\<rparr>)
     else (Some (WrapErr ''connect rabbitmq'' remote_err), b\<lparr>mq_channel := None, mq_connects := tl (mq_connects b)\<rparr>))"

text \<open>The select loop: a return is remembered until the confirmation behind it.\<close>

fun await_confirm :: "bool \<Rightarrow> frame list \<Rightarrow> wait_outcome list \<Rightarrow> go_error option \<times> frame list option \<times> wait_outcome list" where
  "await_confirm returned [] ws = (case next_of Delivered ws of
      ChannelCloses \<Rightarrow> (Some (PlainErr ''rabbitmq confirm channel closed''), None, tl ws)
    | _ \<Rightarrow> (Some (Sentinel DeadlineExceeded), Some [], tl ws))"
| "await_confirm returned (f # fs) ws = (case next_of Delivered ws of
      ChannelCloses \<Rightarrow> (Some (PlainErr ''rabbitmq confirm channel closed''), None, tl ws)
    | TimedOut \<Rightarrow> (Some (Sentinel DeadlineExceeded), Some (f # fs), tl ws)
    | Delivered \<Rightarrow> (case f of
        BasicReturn \<Rightarrow> await_confirm True fs (tl ws)
      | Confirmation ack \<Rightarrow>
          (if \<not> ack then Some (PlainErr ''rabbitmq publisher nack'')
           else if returned then Some (PlainErr ''rabbitmq mandatory return'') else None, Some fs, tl ws)))"

definition answers :: "publish_outcome \<Rightarrow> frame list" where
  "answers out = (case out of Routed \<Rightarrow> [Confirmation True] | Unroutable \<Rightarrow> [BasicReturn, Confirmation True]
     | Nacked \<Rightarrow> [Confirmation False] | WriteFails closes arrives \<Rightarrow> [])"

definition publish_once :: "string \<times> string \<Rightarrow> amqp \<Rightarrow> go_error option \<times> amqp" where
  "publish_once m b =
     (let out = next_of Routed (mq_publishes b); b1 = b\<lparr>mq_publishes := tl (mq_publishes b)\<rparr>;
        frames = (case mq_channel b of None \<Rightarrow> [] | Some fs \<Rightarrow> fs) in
      case out of
        WriteFails closes arrives \<Rightarrow> (Some (PlainErr ''publish failed''),
          if closes then b1\<lparr>mq_channel := None, mq_queued := (if arrives then mq_queued b @ [m] else mq_queued b)\<rparr> else b1)
      | _ \<Rightarrow> (case await_confirm False (frames @ answers out) (mq_waits b) of (r, channel, waits) \<Rightarrow>
          (r, b1\<lparr>mq_written := mq_written b @ [m], mq_queued := (if out = Routed then mq_queued b @ [m] else mq_queued b),
             mq_channel := channel, mq_waits := waits\<rparr>)))"

text \<open>
  The loop of \<open>Publish\<close>, by the attempts that are left. The error of an attempt is still there in the
  next one, unless a new connection resets it.
\<close>

definition attempt_once :: "go_error option \<Rightarrow> string \<times> string \<Rightarrow> amqp \<Rightarrow> go_error option \<times> amqp" where
  "attempt_once final m b = (case (if mq_channel b = None then connect b else (final, b)) of
      (None, b1) \<Rightarrow> publish_once m b1
    | (Some e, b1) \<Rightarrow> (Some e, b1))"

fun publish_loop :: "nat \<Rightarrow> go_error option \<Rightarrow> string \<times> string \<Rightarrow> amqp \<Rightarrow> go_error option \<times> amqp" where
  "publish_loop 0 final m b = (Some (WrapErr ''publish rabbitmq queue'' (case final of None \<Rightarrow> PlainErr [] | Some e \<Rightarrow> e)), b)"
| "publish_loop (Suc n) final m b = (case attempt_once final m b of
      (None, b1) \<Rightarrow> (None, b1)
    | (Some e, b1) \<Rightarrow>
        if n = 0 then publish_loop 0 (Some e) m b1
        else if next_of False (mq_cancels b1)
          then publish_loop 0 (Some (Sentinel ContextCanceled)) m (b1\<lparr>mq_cancels := tl (mq_cancels b1)\<rparr>)
        else publish_loop n (Some e) m (b1\<lparr>mq_cancels := tl (mq_cancels b1)\<rparr>))"

definition publish :: "int \<Rightarrow> string \<Rightarrow> string \<Rightarrow> amqp \<Rightarrow> go_error option \<times> amqp" where
  "publish retry_count queue message_id b = publish_loop (nat retry_count) None (queue, message_id) b"

definition close_client :: "amqp \<Rightarrow> amqp" where
  "close_client b = b\<lparr>mq_closed := True, mq_channel := None\<rparr>"

text \<open>The publisher of the four queues; bodies are not modelled, the message ID names the row.\<close>

definition publish_private_message :: "int \<Rightarrow> private_message \<Rightarrow> amqp \<Rightarrow> go_error option \<times> amqp" where
  "publish_private_message retry_count msg = publish retry_count PrivateMessageQueue (format_int (pm_id msg))"

definition publish_group_message :: "int \<Rightarrow> group_message \<Rightarrow> amqp \<Rightarrow> go_error option \<times> amqp" where
  "publish_group_message retry_count msg = publish retry_count GroupMessageQueue (format_int (gq_id msg))"

definition publish_moment_push :: "int \<Rightarrow> moment \<Rightarrow> amqp \<Rightarrow> go_error option \<times> amqp" where
  "publish_moment_push retry_count m = publish retry_count MomentPushQueue (format_int (mo_id m))"

definition publish_like_event :: "int \<Rightarrow> int \<Rightarrow> int \<Rightarrow> int \<Rightarrow> amqp \<Rightarrow> go_error option \<times> amqp" where
  "publish_like_event retry_count moment_id user_id ts =
     publish retry_count LikePersistQueue (format_int moment_id @ '':'' @ format_int user_id @ '':'' @ format_int ts)"

end
