(* ===== verification/PublisherProps.thy ===== *)
theory PublisherProps
  imports Publisher
begin

text \<open>What a publish that returned without error has done, and where retries and confirms go wrong.\<close>

subsection \<open>A channel without frames to read\<close>

definition settled :: "amqp \<Rightarrow> bool" where
  "settled b \<longleftrightarrow> mq_channel b = None \<or> mq_channel b = Some []"

definition no_timeout :: "amqp \<Rightarrow> bool" where
  "no_timeout b \<longleftrightarrow> TimedOut \<notin> set (mq_waits b)"

lemma next_of_in: "next_of usual xs = x \<Longrightarrow> x \<noteq> usual \<Longrightarrow> x \<in> set xs"
  by (cases xs) (auto simp: next_of_def)

lemma in_tl_set: "x \<in> set (tl xs) \<Longrightarrow> x \<in> set xs"
  by (cases xs) auto

lemma await_one:
  "await_confirm returned [Confirmation ack] ws = (r, channel, ws') \<Longrightarrow>
     (r = None \<longrightarrow> ack \<and> \<not> returned \<and> channel = Some []) \<and> set ws' \<subseteq> set ws \<and>
     (TimedOut \<notin> set ws \<longrightarrow> channel \<in> {None, Some []})"
  by (auto simp: next_of_def split: wait_outcome.splits list.splits if_splits dest: in_tl_set)

lemma await_two:
  "await_confirm returned [BasicReturn, Confirmation ack] ws = (r, channel, ws') \<Longrightarrow>
     r \<noteq> None \<and> set ws' \<subseteq> set ws \<and> (TimedOut \<notin> set ws \<longrightarrow> channel \<in> {None, Some []})"
  by (auto simp: next_of_def split: wait_outcome.splits list.splits if_splits dest: in_tl_set)

text \<open>One attempt on a settled channel.\<close>

lemma publish_once_settled:
  assumes "mq_channel b = Some []" "publish_once m b = (r, b')"
  shows "\<exists>added. mq_queued b' = mq_queued b @ added \<and> set added \<subseteq> {m} \<and>
    (r = None \<longrightarrow> added \<noteq> [] \<and> settled b') \<and> (no_timeout b \<longrightarrow> no_timeout b' \<and> settled b')"
proof (cases "next_of Routed (mq_publishes b)")
  case (WriteFails closes arrives)
  then show ?thesis using assms by (auto simp: publish_once_def Let_def settled_def no_timeout_def)
next
  case Unroutable
  obtain channel ws where "await_confirm False [BasicReturn, Confirmation True] (mq_waits b) = (r, channel, ws)"
      "b' = b\<lparr>mq_publishes := tl (mq_publishes b), mq_written := mq_written b @ [m], mq_queued := mq_queued b,
        mq_channel := channel, mq_waits := ws\<rparr>"
    using assms Unroutable by (auto simp: publish_once_def Let_def answers_def simp del: await_confirm.simps split: prod.splits)
  then show ?thesis using await_two by (fastforce simp: settled_def no_timeout_def simp del: await_confirm.simps)
next
  case Routed
  obtain channel ws where "await_confirm False [Confirmation True] (mq_waits b) = (r, channel, ws)"
      "b' = b\<lparr>mq_publishes := tl (mq_publishes b), mq_written := mq_written b @ [m], mq_queued := mq_queued b @ [m],
        mq_channel := channel, mq_waits := ws\<rparr>"
    using assms Routed by (auto simp: publish_once_def Let_def answers_def simp del: await_confirm.simps split: prod.splits)
  then show ?thesis using await_one by (fastforce simp: settled_def no_timeout_def simp del: await_confirm.simps)
next
  case Nacked
  obtain channel ws where "await_confirm False [Confirmation False] (mq_waits b) = (r, channel, ws)"
      "b' = b\<lparr>mq_publishes := tl (mq_publishes b), mq_written := mq_written b @ [m], mq_queued := mq_queued b,
        mq_channel := channel, mq_waits := ws\<rparr>"
    using assms Nacked by (auto simp: publish_once_def Let_def answers_def simp del: await_confirm.simps split: prod.splits)
  then show ?thesis using await_one by (fastforce simp: settled_def no_timeout_def simp del: await_confirm.simps)
qed

lemma connect_effect:
  "connect b = (r, b') \<Longrightarrow> mq_queued b' = mq_queued b \<and> mq_waits b' = mq_waits b \<and> mq_written b' = mq_written b \<and>
     (r = None \<longrightarrow> mq_channel b' = Some []) \<and> (mq_channel b = None \<longrightarrow> settled b')"
  by (auto simp: connect_def settled_def split: if_splits)

text \<open>One round: where an earlier error is kept the channel is not used at all.\<close>

lemma attempt_effect:
  assumes "attempt_once final m b = (r, b')" "final = None \<longrightarrow> settled b"
  shows "\<exists>added. mq_queued b' = mq_queued b @ added \<and> set added \<subseteq> {m} \<and> (r = None \<longrightarrow> added \<noteq> [] \<and> settled b') \<and>
    (no_timeout b \<and> settled b \<longrightarrow> no_timeout b' \<and> settled b')"
proof (cases "mq_channel b = None")
  case True
  obtain r1 b1 where c: "connect b = (r1, b1)" by fastforce
  note e = connect_effect [OF c]
  show ?thesis
  proof (cases r1)
    case None
    then have "publish_once m b1 = (r, b')" using assms(1) True c by (simp add: attempt_once_def)
    from publish_once_settled [OF _ this] None e show ?thesis by (auto simp: no_timeout_def)
  next
    case (Some x)
    then show ?thesis using assms(1) True c e by (auto simp: attempt_once_def no_timeout_def)
  qed
next
  case False
  show ?thesis
  proof (cases final)
    case None
    then have "publish_once m b = (r, b')" "mq_channel b = Some []"
      using assms False by (auto simp: attempt_once_def settled_def)
    from publish_once_settled [OF this(2,1)] show ?thesis by blast
  next
    case (Some e)
    then show ?thesis using assms(1) False by (auto simp: attempt_once_def)
  qed
qed

lemma publish_loop_effect:
  assumes "publish_loop n final m b = (r, b')" "final = None \<longrightarrow> settled b"
  shows "\<exists>added. mq_queued b' = mq_queued b @ added \<and> set added \<subseteq> {m} \<and> (r = None \<longrightarrow> added \<noteq> [] \<and> settled b') \<and>
    (no_timeout b \<and> settled b \<longrightarrow> no_timeout b' \<and> settled b')"
  using assms
proof (induction n arbitrary: final b)
  case 0
  then show ?case by auto
next
  case (Suc n)
  obtain r1 b1 where a: "attempt_once final m b = (r1, b1)" by fastforce
  obtain added where e: "mq_queued b1 = mq_queued b @ added" "set added \<subseteq> {m}" "r1 = None \<longrightarrow> added \<noteq> [] \<and> settled b1"
      "no_timeout b \<and> settled b \<longrightarrow> no_timeout b1 \<and> settled b1"
    using attempt_effect [OF a Suc.prems(2)] by blast
  show ?case
  proof (cases r1)
    case None
    then show ?thesis using Suc.prems(1) a e by auto
  next
    case (Some x)
    let ?b2 = "b1\<lparr>mq_cancels := tl (mq_cancels b1)\<rparr>"
    have "(n = 0 \<or> next_of False (mq_cancels b1)) \<and> r \<noteq> None \<and> mq_queued b' = mq_queued b1 \<and>
        mq_waits b' = mq_waits b1 \<and> mq_channel b' = mq_channel b1 \<or>
      publish_loop n (Some x) m ?b2 = (r, b')"
      using Suc.prems(1) by (auto simp: a Some split: if_splits)
    then show ?thesis
    proof
      assume "(n = 0 \<or> next_of False (mq_cancels b1)) \<and> r \<noteq> None \<and> mq_queued b' = mq_queued b1 \<and>
        mq_waits b' = mq_waits b1 \<and> mq_channel b' = mq_channel b1"
      then show ?thesis using e by (auto simp: no_timeout_def settled_def)
    next
      assume "publish_loop n (Some x) m ?b2 = (r, b')"
      from Suc.IH [OF this] obtain more where m: "mq_queued b' = mq_queued b1 @ more" "set more \<subseteq> {m}"
          "r = None \<longrightarrow> more \<noteq> [] \<and> settled b'" "no_timeout b1 \<and> settled b1 \<longrightarrow> no_timeout b' \<and> settled b'"
        by (auto simp: no_timeout_def settled_def)
      then have "mq_queued b' = mq_queued b @ added @ more" "set (added @ more) \<subseteq> {m}" using e(1,2) by auto
      then show ?thesis using m(3,4) e(4) by fastforce
    qed
  qed
qed

subsection \<open>Sequences of publishes\<close>

text \<open>The results of publishing a list of messages one after the other.\<close>

fun publish_all :: "int \<Rightarrow> (string \<times> string) list \<Rightarrow> amqp \<Rightarrow> go_error option list \<times> amqp" where
  "publish_all retry [] b = ([], b)"
| "publish_all retry (m # ms) b = (case publish retry (fst m) (snd m) b of (r, b1) \<Rightarrow>
     case publish_all retry ms b1 of (rs, b2) \<Rightarrow> (r # rs, b2))"

definition confirmed :: "string \<times> string \<Rightarrow> (string \<times> string) list \<Rightarrow> go_error option list \<Rightarrow> nat" where
  "confirmed m ms rs = length (filter (\<lambda>(x, r). x = m \<and> r = None) (zip ms rs))"


definition fresh_amqp :: "publish_outcome list \<Rightarrow> wait_outcome list \<Rightarrow> amqp" where
  "fresh_amqp ps ws = \<lparr>mq_queued = [], mq_written = [], mq_channel = Some [], mq_closed = False, mq_connects = [],
     mq_publishes = ps, mq_waits = ws, mq_cancels = []\<rparr>"


text \<open>
  Two faults of the loop. A refused message is never written again while the channel stays open,
  although attempts are left; and a confirmation that came late is taken for the next message.
\<close>

theorem refused_is_not_retried:
  "mq_written (snd (publish 3 ''q'' ''1'' (fresh_amqp [Nacked, Routed] []))) = [(''q'', ''1'')] \<and>
   fst (publish 3 ''q'' ''1'' (fresh_amqp [Nacked, Routed] [])) \<noteq> None"
proof
  show "mq_written (snd (publish 3 ''q'' ''1'' (fresh_amqp [Nacked, Routed] []))) = [(''q'', ''1'')]" by code_simp
  show "fst (publish 3 ''q'' ''1'' (fresh_amqp [Nacked, Routed] [])) \<noteq> None" by code_simp
qed

theorem late_confirm_misattributed:
  "fst (publish_all 1 [(''q'', ''1''), (''q'', ''2'')] (fresh_amqp [Routed, Nacked] [TimedOut])) =
     [Some (WrapErr ''publish rabbitmq queue'' (Sentinel DeadlineExceeded)), None] \<and>
   mq_queued (snd (publish_all 1 [(''q'', ''1''), (''q'', ''2'')] (fresh_amqp [Routed, Nacked] [TimedOut]))) = [(''q'', ''1'')]"
proof
  show "fst (publish_all 1 [(''q'', ''1''), (''q'', ''2'')] (fresh_amqp [Routed, Nacked] [TimedOut])) =
     [Some (WrapErr ''publish rabbitmq queue'' (Sentinel DeadlineExceeded)), None]" by code_simp
  show "mq_queued (snd (publish_all 1 [(''q'', ''1''), (''q'', ''2'')] (fresh_amqp [Routed, Nacked] [TimedOut]))) = [(''q'', ''1'')]"
    by code_simp
qed

end
