(* ===== verification/LegacyCache.thy ===== *)
theory LegacyCache
  imports RedisCache
begin

text \<open>
  The older ports of the relationship cache, \<open>repository/redis_extensions.go\<close> and the friend part of
  \<open>repository/redis_repository.go\<close>. They change single entries or replace a key without the owner's
  snapshot; \<open>CacheTruthService\<close> does not use them.
\<close>

definition redis_set_friend_cache :: "int \<Rightarrow> int \<Rightarrow> unit io" where
  "redis_set_friend_cache a b = on_error (WrapErr ''set friend cache'') (redis_write (\<lambda>c.
     c\<lparr>rc_friend := sadd (b, a) (sadd (a, b) (rc_friend c)),
       rc_friend_index := sadd (b, a) (sadd (a, b) (rc_friend_index c))\<rparr>))"

definition redis_delete_friend_cache :: "int \<Rightarrow> int \<Rightarrow> unit io" where
  "redis_delete_friend_cache a b = on_error (WrapErr ''delete friend cache'') (redis_write (\<lambda>c.
     c\<lparr>rc_friend := drop_pairs b [a] (drop_pairs a [b] (rc_friend c)),
       rc_friend_index := drop_pairs b [a] (drop_pairs a [b] (rc_friend_index c))\<rparr>))"

definition replace_group_members :: "int \<Rightarrow> int list \<Rightarrow> unit io" where
  "replace_group_members gid user_ids = on_error (WrapErr ''replace partial group member cache'') (redis_write (\<lambda>c.
     c\<lparr>rc_group_members := add_pairs gid user_ids (drop_owner gid (rc_group_members c)),
       rc_group_loaded := (rc_group_loaded c)(gid := None)\<rparr>))"

text \<open>\<open>replaceSet\<close>: DEL and SADD in one transaction.\<close>

definition replace_set :: "int \<Rightarrow> int list \<Rightarrow> (int \<times> int) list \<Rightarrow> (int \<times> int) list" where
  "replace_set owner members ps = add_pairs owner members (drop_owner owner ps)"

definition replace_user_groups :: "int \<Rightarrow> int list \<Rightarrow> unit io" where
  "replace_user_groups uid group_ids = on_error (WrapErr ''replace redis set'') (redis_write (\<lambda>c.
     c\<lparr>rc_user_groups := replace_set uid group_ids (rc_user_groups c)\<rparr>))"

definition replace_friend_cache :: "int \<Rightarrow> int list \<Rightarrow> unit io" where
  "replace_friend_cache uid friend_ids = replace_friend_owner uid friend_ids"

definition redis_set_blacklist_member :: "int \<Rightarrow> int \<Rightarrow> unit io" where
  "redis_set_blacklist_member uid blocked_id = redis_write (\<lambda>c. c\<lparr>rc_blacklist := sadd (uid, blocked_id) (rc_blacklist c)\<rparr>)"

definition redis_delete_blacklist_member :: "int \<Rightarrow> int \<Rightarrow> unit io" where
  "redis_delete_blacklist_member uid blocked_id = redis_write (\<lambda>c. c\<lparr>rc_blacklist := drop_pairs uid [blocked_id] (rc_blacklist c)\<rparr>)"

definition replace_blacklist :: "int \<Rightarrow> int list \<Rightarrow> unit io" where
  "replace_blacklist uid blocked_ids = on_error (WrapErr ''replace redis set'') (redis_write (\<lambda>c.
     c\<lparr>rc_blacklist := replace_set uid blocked_ids (rc_blacklist c)\<rparr>))"

text \<open>HSET and HDEL of one field; the last value of a user stays.\<close>

definition put_info :: "int \<Rightarrow> int \<Rightarrow> member_info \<Rightarrow> ((int \<times> int) \<times> member_info) list \<Rightarrow> ((int \<times> int) \<times> member_info) list" where
  "put_info gid uid i infos = filter (\<lambda>e. fst e \<noteq> (gid, uid)) infos @ [((gid, uid), i)]"

definition set_group_member_info :: "int \<Rightarrow> int \<Rightarrow> int \<Rightarrow> int option \<Rightarrow> unit io" where
  "set_group_member_info gid uid role muted_until = redis_write (\<lambda>c.
     c\<lparr>rc_group_info := put_info gid uid (new_cached_group_member_info role muted_until) (rc_group_info c)\<rparr>)"

definition delete_group_member_info :: "int \<Rightarrow> int \<Rightarrow> unit io" where
  "delete_group_member_info gid uid = redis_write (\<lambda>c.
     c\<lparr>rc_group_info := filter (\<lambda>e. fst e \<noteq> (gid, uid)) (rc_group_info c)\<rparr>)"

definition replace_group_member_info :: "int \<Rightarrow> group_member list \<Rightarrow> unit io" where
  "replace_group_member_info gid members = redis_write (\<lambda>c.
     c\<lparr>rc_group_info := fold (\<lambda>m. put_info gid (gm_user m) (new_cached_group_member_info (gm_role m) (gm_muted_until m))) members
        (filter (\<lambda>e. fst (fst e) \<noteq> gid) (rc_group_info c))\<rparr>)"

subsection \<open>Facts\<close>

lemma partial_members_not_loaded:
  "replace_group_members gid ids w = (Inr (), w') \<Longrightarrow> \<not> group_projection_loaded gid (w_cache w')"
  by (auto simp: replace_group_members_def io_simps redis_write_def redis_def remote_def group_projection_loaded_def net_pop_def
      split: net_outcome.splits)

lemma put_info_last: "((gid, uid), j) \<in> set (put_info gid uid i infos) \<longleftrightarrow> j = i"
  by (auto simp: put_info_def)

end
