(* ===== verification/Operations.thy ===== *)
theory Operations
  imports CacheTruth Api "HOL-Library.AList"
begin

text \<open>
  The edges of the process: the readiness report of \<open>infra/dependencies.go\<close> with the endpoint of
  \<open>api/router.go\<close> that serves it, the CORS middleware, the origin check of the WebSocket endpoint, and the
  cache tool \<open>cmd/cachectl\<close>.
\<close>

subsection \<open>Readiness\<close>

text \<open>
  The three checks run in parallel; what the collecting loop receives, in order: the result of a check,
  the end of the request, or the deadline, which comes at the latest after six seconds.
\<close>

datatype readiness_event = CheckDone string "go_error option" | RequestDone | DeadlineHit

type_synonym readiness_report = "(string \<times> go_error option) list"

definition dependencies :: "string list" where
  "dependencies = [''mysql'', ''redis'', ''rabbitmq'']"

definition put_result :: "string \<Rightarrow> go_error option \<Rightarrow> readiness_report \<Rightarrow> readiness_report" where
  "put_result name err report = AList.update name err report"

definition fill_readiness :: "readiness_report \<Rightarrow> go_error \<Rightarrow> readiness_report" where
  "fill_readiness report err = fold (\<lambda>name r. if map_of r name = None then put_result name (Some err) r else r) dependencies report"

fun readiness :: "readiness_event list \<Rightarrow> readiness_report \<Rightarrow> readiness_report" where
  "readiness [] report = (if 3 \<le> length report then report else fill_readiness report (Sentinel DeadlineExceeded))"
| "readiness (e # es) report = (if 3 \<le> length report then report else
    (case e of CheckDone name err \<Rightarrow> readiness es (put_result name err report)
      | RequestDone \<Rightarrow> fill_readiness report (Sentinel ContextCanceled)
      | DeadlineHit \<Rightarrow> fill_readiness report (Sentinel DeadlineExceeded)))"

text \<open>\<open>GET /ready\<close>: the status, the label and what is shown of each dependency.\<close>

definition ready_response :: "readiness_report option \<Rightarrow> int \<times> string \<times> (string \<times> string) list" where
  "ready_response checks = (case checks of
      None \<Rightarrow> (503, ''not_ready'', [])
    | Some report \<Rightarrow>
        (let shown = map (\<lambda>(name, err). (name, if err = None then ''ok'' else ''error'')) report in
         if list_all (\<lambda>(name, err). err = None) report then (200, ''ready'', shown) else (503, ''not_ready'', shown)))"

subsection \<open>CORS\<close>

text \<open>The headers of the answer, and the status when the request ends here.\<close>

definition cors :: "string list \<Rightarrow> string \<Rightarrow> string \<Rightarrow> (string \<times> string) list \<times> int option" where
  "cors allowed origin verb =
     ((if allowed = [] then [(''Access-Control-Allow-Origin'', ''*'')]
       else if origin \<in> set allowed then [(''Access-Control-Allow-Origin'', origin), (''Vary'', ''Origin'')] else []) @
      [(''Access-Control-Allow-Headers'', ''Authorization, Content-Type''),
       (''Access-Control-Allow-Methods'', ''GET, POST, PUT, PATCH, DELETE, OPTIONS'')],
      if verb = ''OPTIONS'' then Some 204 else None)"

text \<open>
  \<open>originChecker\<close> of \<open>ws/hub.go\<close>, the check before the upgrade of a WebSocket. \<open>host_of\<close> is \<open>url.Parse\<close> with
  the host of its result.
\<close>

definition trim_origin :: "string \<Rightarrow> string" where
  "trim_origin origin = rev (dropWhile (\<lambda>c. c = CHR ''/'') (rev (trim_space origin)))"

definition origin_checker :: "(string \<Rightarrow> string option) \<Rightarrow> string list \<Rightarrow> string \<Rightarrow> string \<Rightarrow> bool" where
  "origin_checker host_of allowed header host =
     (let origin = trim_origin header; listed = map trim_origin allowed in
      origin = [] \<or> ''*'' \<in> set listed \<or> origin \<in> set (filter (\<lambda>x. x \<noteq> []) listed) \<or>
      (case host_of origin of None \<Rightarrow> False | Some h \<Rightarrow> equal_fold h host))"

subsection \<open>The cache tool\<close>

text \<open>The exit code: 1 after \<open>log.Fatal\<close>, 2 when the audit found differences.\<close>

definition cachectl :: "cache_truth_options \<Rightarrow> string \<Rightarrow> cache_scope \<Rightarrow> int io" where
  "cachectl opt action scope =
     (if action \<notin> {''rebuild'', ''audit''} \<or> \<not> scope_valid scope then ret 1
      else if action = ''rebuild'' then andThen (attempt (rebuild_all opt scope)) (\<lambda>r. case r of Inl e \<Rightarrow> ret 1 | Inr report \<Rightarrow> ret 0)
      else andThen (attempt (audit opt scope)) (\<lambda>r. case r of
          Inl e \<Rightarrow> ret 1 | Inr report \<Rightarrow> ret (if 0 < ad_mismatches report then 2 else 0)))"

subsection \<open>Facts\<close>

lemma map_of_put: "map_of (put_result name err r) = (map_of r)(name \<mapsto> err)"
  by (simp add: put_result_def update_conv')

lemma fill_readiness_map: "map_of (fill_readiness report e) name = (case map_of report name of
    Some x \<Rightarrow> Some x | None \<Rightarrow> if name \<in> set dependencies then Some (Some e) else None)"
proof -
  have "map_of (fold (\<lambda>name r. if map_of r name = None then put_result name (Some e) r else r) ns report) name =
      (case map_of report name of Some x \<Rightarrow> Some x | None \<Rightarrow> if name \<in> set ns then Some (Some e) else None)" for ns
    by (induction ns arbitrary: report) (auto simp: map_of_put split: option.split)
  then show ?thesis by (simp add: fill_readiness_def)
qed

lemma three_dependencies:
  assumes "distinct (map fst report)" "fst ` set report \<subseteq> set dependencies" "3 \<le> length report" "name \<in> set dependencies"
  shows "map_of report name \<noteq> None"
proof -
  have "card (fst ` set report) = length report" using assms(1) distinct_card by fastforce
  moreover have "card (set dependencies) = 3" by (simp add: dependencies_def)
  ultimately have "fst ` set report = set dependencies" using assms(2,3) by (metis List.finite_set card_seteq)
  then show ?thesis using assms(4) by (simp add: map_of_eq_None_iff)
qed

lemma readiness_report:
  assumes "distinct (map fst report)" "fst ` set report \<subseteq> set dependencies" "\<forall>n x. CheckDone n x \<in> set es \<longrightarrow> n \<in> set dependencies"
    and "name \<in> set dependencies"
  shows "map_of (readiness es report) name \<noteq> None \<and>
    (map_of (readiness es report) name = Some None \<longrightarrow> map_of report name = Some None \<or> CheckDone name None \<in> set es)"
  using assms
proof (induction es report rule: readiness.induct)
  case (1 report)
  then show ?case using three_dependencies [of report name]
    by (cases "map_of report name") (auto simp: fill_readiness_map)
next
  case (2 e es report)
  show ?case
  proof (cases "3 \<le> length report")
    case True
    then show ?thesis using three_dependencies [OF 2(2,3) True 2(5)] by simp
  next
    case False
    show ?thesis
    proof (cases e)
      case (CheckDone n x)
      have "distinct (map fst (put_result n x report))" using 2(2) by (simp add: put_result_def distinct_update)
      moreover have "fst ` set (put_result n x report) \<subseteq> set dependencies"
        using 2(3,4) CheckDone by (auto simp: put_result_def dom_update image_iff dest: set_mp)
      moreover have "\<forall>n x. CheckDone n x \<in> set es \<longrightarrow> n \<in> set dependencies" using 2(4) by auto
      ultimately have "map_of (readiness es (put_result n x report)) name \<noteq> None \<and>
          (map_of (readiness es (put_result n x report)) name = Some None \<longrightarrow>
           map_of (put_result n x report) name = Some None \<or> CheckDone name None \<in> set es)"
        using 2(1) [OF False CheckDone _ _ _ 2(5)] by blast
      then show ?thesis using CheckDone False by (auto simp: map_of_put split: if_splits)
    next
      case RequestDone
      then show ?thesis using 2(5) False
        by (cases "map_of report name") (simp_all add: fill_readiness_map)
    next
      case DeadlineHit
      then show ?thesis using 2(5) False
        by (cases "map_of report name") (simp_all add: fill_readiness_map)
    qed
  qed
qed

text \<open>The endpoint reports ready only after each of the three checks has passed.\<close>

theorem ready_means_checked:
  assumes "\<forall>n x. CheckDone n x \<in> set es \<longrightarrow> n \<in> set dependencies"
    and "fst (ready_response (Some (readiness es []))) = 200" "name \<in> set dependencies"
  shows "CheckDone name None \<in> set es"
proof -
  have "list_all (\<lambda>(name, err). err = None) (readiness es [])"
    using assms(2) by (simp add: ready_response_def Let_def split: if_splits)
  moreover obtain err where "map_of (readiness es []) name = Some err"
    using readiness_report [of "[]" es name] assms(1,3) by auto
  ultimately have "map_of (readiness es []) name = Some None" by (auto simp: list_all_iff dest: map_of_SomeD)
  then show ?thesis using readiness_report [of "[]" es name] assms(1,3) by auto
qed

lemma cors_origin: "map_of (fst (cors allowed origin verb)) ''Access-Control-Allow-Origin'' =
    (if allowed = [] then Some ''*'' else if origin \<in> set allowed then Some origin else None)"
  by (simp add: cors_def)

text \<open>A slash at the end or spaces around an origin do not matter, in the list or in the request.\<close>

lemma trim_origin_idem_slash: "trim_origin (origin @ ''/'') = trim_origin origin" if "trim_space (origin @ ''/'') = trim_space origin @ ''/''"
  by (simp add: trim_origin_def that)

lemma listed_origin_passes: "origin \<in> set allowed \<Longrightarrow> trim_origin header = trim_origin origin \<Longrightarrow> origin_checker host_of allowed header host"
  by (auto simp: origin_checker_def Let_def)

lemma foreign_origin_refused:
  "trim_origin header \<noteq> [] \<Longrightarrow> ''*'' \<notin> trim_origin ` set allowed \<Longrightarrow> trim_origin header \<notin> trim_origin ` set allowed \<Longrightarrow>
    host_of (trim_origin header) = Some h \<Longrightarrow> \<not> equal_fold h host \<Longrightarrow> \<not> origin_checker host_of allowed header host"
  by (simp add: origin_checker_def Let_def)

lemma cachectl_codes: "cachectl opt action scope w = (r, w') \<Longrightarrow> r \<in> {Inr 0, Inr 1, Inr 2}"
  by (auto simp: cachectl_def ret_def andThen_def attempt_def split: if_splits prod.splits sum.splits)

end
