(* ===== verification/Spec2Isabelle.thy ===== *)
theory Spec2Isabelle
  imports MessageId GroupSpec GroupFaults FriendProps CacheLiveness SessionSystem HubProps RevokeProps SendProps
    Feed LikeSystem MigrateProps AvatarProps ApiProps Config PublisherProps LegacyCache Operations
begin

text \<open>
  Verification development for the YunChat backend, \<open>src/backend/internal\<close>: an instant-messaging server
  in Go over MySQL, Redis and RabbitMQ.

  THE PROGRAM. HTTP requests reach the handlers of \<open>api\<close> through the router and, on protected routes,
  through \<open>middleware.RequireAuth\<close>. The handlers bind parameters and call the services (\<open>service/auth.go\<close>,
  \<open>friend.go\<close>, \<open>group.go\<close>, \<open>avatar.go\<close>). A service runs one transaction of SQL statements
  (\<open>repository/*_repository.go\<close>); a transaction that changes friends, blocks or members also inserts an
  event into a queue table. After the commit the service writes the relationship projection in Redis
  through \<open>service/cache_truth.go\<close> and notifies the users concerned through the WebSocket hub
  (\<open>ws/hub.go\<close>). Workers drain the queue of events and rebuild projections from MySQL, so that the Lua
  scripts that check and store messages (\<open>redis/lua_*.go\<close>) may rely on them. Sessions, presence leases,
  message boxes, feeds and likes live in Redis alone. \<open>messageid\<close> hands out message IDs from segments
  reserved in MySQL; \<open>migrate\<close> brings the schema up to date; \<open>infra/rabbitmq.go\<close> publishes with confirms.

  THE STATE. \<open>World\<close> defines \<open>world\<close>: the tables of MySQL as lists of rows, the AUTO_INCREMENT counters,
  the relationship projection, the other Redis keys (\<open>KeyStore\<close>, with their expiry), the uploaded
  files, the clock, the number of random draws, the notifications sent, and two scripts: \<open>w_net\<close>, which
  decides for each remote call whether it passes, fails, or takes effect with its answer lost, and
  \<open>w_ticks\<close>, by how much the clock moves at each reading. An operation is a function of type \<open>'a io\<close>, from
  a world to an error (\<open>go_error\<close>, the errors of Go with wrapping, joining, \<open>errors.Is\<close> and \<open>errors.As\<close>)
  or a result, and the next world. \<open>query\<close>, \<open>exec\<close>, \<open>exec_count\<close>, \<open>insert_row\<close> and \<open>tx_block\<close> are the
  statements and the transaction of \<open>mysql_runner.go\<close>; a transaction rolls back on an error, and its
  commit may fail or lose its acknowledgement. Quantifying over worlds is quantifying over all faults.

  THE THEORIES, in the order they import each other.
  \<^item> \<open>Prelude\<close> (tables, sorted ID lists, the rewriting collections), \<open>AppError\<close> (\<open>apperror\<close>), \<open>Model\<close> (\<open>model\<close>,
    one record per struct, and \<open>protocol\<close>'s frames), \<open>KeyStore\<close>, \<open>World\<close>, \<open>GoBase\<close> (64-bit integers,
    durations), \<open>GoText\<close> (UTF-8, \<open>strings\<close>, \<open>strconv\<close>).
  \<^item> \<open>MessageId\<close>: \<open>messageid\<close>. The locale \<open>segment_store\<close> is the Go interface; the MySQL store interprets it,
    so uniqueness of IDs over any number of processes that start, crash and fail is proved once.
  \<^item> \<open>GroupRepo\<close>, \<open>GroupService\<close>; \<open>GroupInv\<close> (the invariant of groups, members and tombstones), \<open>GroupSpec\<close> (an
    abstract specification and the refinement to it), \<open>GroupFaults\<close> (no effect or the fault-free one).
    \<open>Refinement\<close> states what implementing a specification means and how statements compose.
  \<^item> \<open>FriendRepo\<close>, \<open>FriendService\<close>; \<open>FriendSpec\<close>, \<open>FriendInv\<close>, \<open>FriendProps\<close>: the same for requests,
    friendships and blocks, and that a friendship needs the consent of both.
  \<^item> \<open>CacheEvents\<close> (\<open>cache_mysql.go\<close>: snapshots, the queue with claims and leases), \<open>RedisCache\<close>
    (\<open>cache_redis.go\<close>), \<open>CacheTruth\<close> and \<open>Reconciler\<close> (\<open>cache_truth.go\<close>). \<open>CacheInv\<close>, \<open>CacheSteps\<close>,
    \<open>CacheReconcile\<close> and \<open>Outbox\<close> hold the lemmas per operation; \<open>CacheSystem\<close> is the whole system of
    commands, access checks, workers, Redis losses and faults, with the theorem that a loaded
    projection never shows what MySQL does not unless an event is pending; \<open>CacheProps\<close> and
    \<open>CacheLiveness\<close> say what one call achieves and that waiting ends. \<open>LegacyCache\<close> holds the older ports.
  \<^item> \<open>Token\<close> (\<open>auth/token.go\<close>), \<open>UserRepo\<close>, \<open>Sessions\<close> (refresh sessions), \<open>AuthService\<close> (with
    \<open>middleware/auth.go\<close>), \<open>AuthDemo\<close> (a concrete JWT and hash instance), \<open>AuthProps\<close>, and
    \<open>SessionSystem\<close>: every interleaving of logins, rotations and revocations.
  \<^item> \<open>Presence\<close>, \<open>Hub\<close>, \<open>HubSystem\<close> (the goroutines of the hub as step relations), \<open>HubInv\<close>, \<open>HubProps\<close>.
  \<^item> \<open>Zset\<close> (sorted sets, the order of members as the locale \<open>tie_order\<close>), \<open>MessageBox\<close> (boxes, sequence
    numbers, the message scripts), \<open>MessageProps\<close>, \<open>RevokeProps\<close>, \<open>SendProps\<close>; \<open>Feed\<close>; \<open>Archive\<close> and
    \<open>Moments\<close>, the rest of the SQL statements; \<open>Likes\<close>, the cache of likes over the locale \<open>like_loader\<close>, and
    \<open>LikeSystem\<close>, which interprets it with the stored likes and lets both run together.
  \<^item> \<open>Migrate\<close>, \<open>MigrateProps\<close>; \<open>Avatar\<close>, \<open>AvatarProps\<close>; \<open>Publisher\<close>, \<open>PublisherProps\<close>; \<open>Config\<close>;
    \<open>Api\<close>, \<open>ApiProps\<close> (binding, every handler, the route tables and the guard); \<open>Operations\<close>
    (readiness, CORS, origins, \<open>cachectl\<close>).

  INTERFACES. \<open>segment_store\<close>, \<open>tie_order\<close> and \<open>like_loader\<close> are contracts between components. \<open>world_frame\<close> is the contract
  of a relation that every remote call keeps, whatever its fault, and \<open>world_invariant\<close> that of a
  predicate kept by every statement; their interpretations (one per part of the world a group of
  proofs holds fixed) give each component its frame lemmas without repeating the combinators.

  WHAT IS SHOWN. Safety over all schedules and faults: unique message IDs, no stale projection, events
  with every change, exclusive claims, single use of refresh tokens, one connection per user, messages
  accepted once, migrations run once, working avatar links, confirmed publishes arrive, guarded routes.
  Functional behaviour on every branch: the refinements of the group and friend commands, login,
  registration, send checks, revocation, audits, \<open>Up\<close>. Termination and liveness: waiting for a lock ends,
  reconciliation and ID reservation succeed when nothing hinders them. Errors: every answer of the API
  follows the envelope and the catalogue.

  FUEL AND BOUNDS. \<open>with_resource_lock\<close> polls with \<open>lock_fuel\<close>, one more than the wait timeout in
  nanoseconds; each round moves the clock by at least one, so the fuel is never used up (the result
  \<open>out_of_fuel\<close> is excluded by the termination property). \<open>for_each_owner\<close> reads pages with \<open>owner_fuel\<close>, one more
  than the number of users, groups and tombstones; each page but the last has a new owner. The wait for the load of likes has
  the twenty rounds of the source. All other recursion is structural or on a measure. Identifiers are
  unbounded integers where the code only compares and stores them, and 64-bit words where it computes
  with them (message IDs, durations, backoff, offsets of pages, token lifetimes).

  WHAT IS ASSUMED OF OTHER CODE. A statement, a transaction, a Lua script, a pipeline in \<open>MULTI\<close> and a call
  of the operating system are each one atomic step. JSON values are kept decoded. The JWT library, the
  password hash, the collation of names and keys, LIKE matching, the JSON columns, the hash of a
  migration, the parser of instants and the Unicode upper case are arguments; the laws a property needs
  of them are its hypotheses, and \<open>AuthDemo\<close> or the witness instantiates them. Scores of sorted sets are
  integers below 2 to the 53, where float64 is exact.

  NOT MODELLED. Opening connections and pinging them, logging, metrics and profiling, the static files and
  the single-page application, request matching and headers of the web framework, the text of JSON
  and of error messages beyond their codes, and the wiring in \<open>cmd/server\<close>: they decide nothing the rest
  depends on. The message, moment and settings services exist only as interfaces; their routes answer
  with the placeholder. The consumers of the queues do not exist yet.
\<close>

end
